(* ===== verification/Prelude.thy ===== *)
theory Prelude imports Main "HOL-Library.Code_Target_Nat" begin

text \<open>
  What every theory of the development shares.

  A Python exception is a value: \<open>'a res\<close> is \<open>error + 'a\<close>, \<open>Inl\<close> for a raise.  The payload of an
  \<open>error\<close> is the constant text that identifies the raise site; the values a message
  interpolates are not kept.  \<open>rbind\<close> is the sequencing of two statements of which the first
  may raise, \<open>mapE\<close>, \<open>foldE\<close> and \<open>checkE\<close> are the three loops the sources use (a comprehension,
  a loop with an accumulator, a loop that only checks), each stopping at the first raise.

  The collections \<open>res_simps\<close> (results of these combinators) and \<open>valid_intros\<close> (what makes a
  validator succeed) drive the component proofs.
\<close>

named_theorems res_simps
named_theorems valid_intros

section \<open>Results\<close>

datatype error =
    CycloError string
  | TypeErr string
  | ValueErr string
  | OSErr string
  | AssertionErr
  | UnicodeErr
  | KeyErr

type_synonym 'a res = "error + 'a"

definition rbind :: "'e + 'a \<Rightarrow> ('a \<Rightarrow> 'e + 'b) \<Rightarrow> 'e + 'b" where
  "rbind m k = (case m of Inl e \<Rightarrow> Inl e | Inr x \<Rightarrow> k x)"

lemma rbind_simps [simp]: "rbind (Inl e) k = Inl e" "rbind (Inr x) k = k x"
  by (simp_all add: rbind_def)

lemma rbind_eq_Inr [simp, res_simps]:
  "rbind m k = Inr y \<longleftrightarrow> (\<exists>x. m = Inr x \<and> k x = Inr y)"
  by (cases m) auto

lemma rbind_eq_Inl [res_simps]:
  "rbind m k = Inl e \<longleftrightarrow> m = Inl e \<or> (\<exists>x. m = Inr x \<and> k x = Inl e)"
  by (cases m) auto

lemma rbind_cong [fundef_cong]:
  "m = m' \<Longrightarrow> (\<And>x. m' = Inr x \<Longrightarrow> k x = k' x) \<Longrightarrow> rbind m k = rbind m' k'"
  by (cases m') auto

lemma rbind_assoc: "rbind (rbind m k) h = rbind m (\<lambda>x. rbind (k x) h)"
  by (cases m) auto

definition ensure :: "bool \<Rightarrow> 'e \<Rightarrow> 'e + unit" where
  "ensure c e = (if c then Inr () else Inl e)"

lemma ensure_eq [simp, res_simps]:
  "ensure c e = Inr u \<longleftrightarrow> c" "ensure c e = Inl e' \<longleftrightarrow> \<not> c \<and> e' = e"
  by (auto simp: ensure_def)

lemma ensure_simps [simp]: "ensure True e = Inr ()" "ensure False e = Inl e"
  by (simp_all add: ensure_def)

definition of_option :: "'e \<Rightarrow> 'a option \<Rightarrow> 'e + 'a" where
  "of_option e x = (case x of None \<Rightarrow> Inl e | Some y \<Rightarrow> Inr y)"

lemma of_option_eq [simp, res_simps]:
  "of_option e x = Inr y \<longleftrightarrow> x = Some y" "of_option e x = Inl e' \<longleftrightarrow> x = None \<and> e' = e"
  by (auto simp: of_option_def split: option.splits)

lemma of_option_simps [simp]: "of_option e None = Inl e" "of_option e (Some y) = Inr y"
  by (simp_all add: of_option_def)

definition is_ok :: "'e + 'a \<Rightarrow> bool" where
  "is_ok r = (case r of Inl _ \<Rightarrow> False | Inr _ \<Rightarrow> True)"

lemma is_ok_simps [simp]: "is_ok (Inl e) = False" "is_ok (Inr x) = True"
  by (simp_all add: is_ok_def)

lemma is_ok_iff: "is_ok r \<longleftrightarrow> (\<exists>x. r = Inr x)"
  by (cases r) auto

lemma is_ok_rbind [simp]: "is_ok (rbind m k) \<longleftrightarrow> (\<exists>x. m = Inr x \<and> is_ok (k x))"
  by (cases m) auto

section \<open>Loops that stop at the first raise\<close>

fun mapE :: "('a \<Rightarrow> 'e + 'b) \<Rightarrow> 'a list \<Rightarrow> 'e + 'b list" where
  "mapE f [] = Inr []"
| "mapE f (x # xs) = rbind (f x) (\<lambda>y. rbind (mapE f xs) (\<lambda>ys. Inr (y # ys)))"

fun foldE :: "('s \<Rightarrow> 'a \<Rightarrow> 'e + 's) \<Rightarrow> 's \<Rightarrow> 'a list \<Rightarrow> 'e + 's" where
  "foldE f s [] = Inr s"
| "foldE f s (x # xs) = rbind (f s x) (\<lambda>s'. foldE f s' xs)"

fun checkE :: "('a \<Rightarrow> 'e + unit) \<Rightarrow> 'a list \<Rightarrow> 'e + unit" where
  "checkE f [] = Inr ()"
| "checkE f (x # xs) = rbind (f x) (\<lambda>_. checkE f xs)"

lemma mapE_cong [fundef_cong]:
  "xs = ys \<Longrightarrow> (\<And>x. x \<in> set ys \<Longrightarrow> f x = g x) \<Longrightarrow> mapE f xs = mapE g ys"
  by (induction ys arbitrary: xs) auto

lemma mapE_Inr: "mapE f xs = Inr ys \<longleftrightarrow> list_all2 (\<lambda>x y. f x = Inr y) xs ys"
  by (induction xs arbitrary: ys) (auto simp: list_all2_Cons1)

lemma mapE_length: "mapE f xs = Inr ys \<Longrightarrow> length ys = length xs"
  by (auto simp: mapE_Inr dest: list_all2_lengthD)

lemma mapE_map_Inr: "(\<And>x. x \<in> set xs \<Longrightarrow> f x = Inr (g x)) \<Longrightarrow> mapE f xs = Inr (map g xs)"
  by (induction xs) auto

lemma mapE_in_set:
  assumes "mapE f xs = Inr ys" and "y \<in> set ys"
  shows "\<exists>x\<in>set xs. f x = Inr y"
  using assms by (fastforce simp: mapE_Inr list_all2_conv_all_nth in_set_conv_nth)

lemma checkE_Inr [simp, res_simps]: "checkE f xs = Inr u \<longleftrightarrow> (\<forall>x\<in>set xs. f x = Inr ())"
  by (induction xs) auto

lemma checkE_Inl: "checkE f xs = Inl e \<Longrightarrow> \<exists>x\<in>set xs. f x = Inl e"
  by (induction xs) (auto simp: rbind_eq_Inl)

lemma foldE_append: "foldE f s (xs @ ys) = rbind (foldE f s xs) (\<lambda>s'. foldE f s' ys)"
  by (induction xs arbitrary: s) (simp_all add: rbind_assoc)

lemma foldE_invariant:
  assumes "foldE f s xs = Inr s'" and "P s"
    and "\<And>s x t. x \<in> set xs \<Longrightarrow> P s \<Longrightarrow> f s x = Inr t \<Longrightarrow> P t"
  shows "P s'"
  using assms
proof (induction xs arbitrary: s)
  case Nil
  then show ?case by simp
next
  case (Cons x xs)
  from Cons.prems(1) obtain t where t: "f s x = Inr t" "foldE f t xs = Inr s'" by auto
  have "P t" using Cons.prems(3) [OF _ Cons.prems(2) t(1)] by simp
  then show ?case using t(2) Cons.prems(3) by (auto intro: Cons.IH)
qed

text \<open>A loop that rejects a key it has already seen succeeds exactly on distinct keys.\<close>

fun distinctE :: "'e \<Rightarrow> 'a set \<Rightarrow> 'a list \<Rightarrow> 'e + unit" where
  "distinctE e seen [] = Inr ()"
| "distinctE e seen (x # xs) =
     (if x \<in> seen then Inl e else distinctE e (insert x seen) xs)"

lemma distinctE_Inr [simp, res_simps]:
  "distinctE e seen xs = Inr u \<longleftrightarrow> distinct xs \<and> set xs \<inter> seen = {}"
  by (induction xs arbitrary: seen) auto

text \<open>
  The contract between a validator and the well-formedness it decides.  The components that
  check a sequence of parts use only this contract.
\<close>

locale checker =
  fixes check :: "'a \<Rightarrow> 'e + unit" and wf :: "'a \<Rightarrow> bool"
  assumes check_iff: "check x = Inr u \<longleftrightarrow> wf x"
begin

lemma check_all: "checkE check xs = Inr u \<longleftrightarrow> (\<forall>x\<in>set xs. wf x)"
  by (simp add: check_iff)

lemma check_ok: "is_ok (check x) \<longleftrightarrow> wf x"
  using check_iff by (auto simp: is_ok_iff)

lemma check_fails: "\<not> wf x \<Longrightarrow> \<exists>e. check x = Inl e"
  using check_iff by (cases "check x") auto

end

section \<open>Lists, options, maps\<close>

lemma find_Some_unique:
  assumes "distinct (map f xs)" and "x \<in> set xs"
  shows "find (\<lambda>y. f y = f x) xs = Some x"
  using assms by (induction xs) (auto simp: rev_image_eqI)

lemma find_SomeD: "find P xs = Some x \<Longrightarrow> x \<in> set xs \<and> P x"
  by (auto simp: find_Some_iff in_set_conv_nth)

lemma distinct_length_card_map: "distinct (map f xs) \<longleftrightarrow> card (f ` set xs) = length xs"
  by (metis card_distinct distinct_card length_map list.set_map)

lemma list_all2_map_fst:
  "list_all2 (\<lambda>x y. f y = g x) xs ys \<Longrightarrow> map f ys = map g xs"
  by (induction rule: list_all2_induct) auto

lemma distinct_set_singleton:
  assumes "distinct xs" "set xs = {x}"
  shows "xs = [x]"
proof -
  have "length xs = 1" using distinct_card [OF assms(1)] assms(2) by simp
  then obtain y where "xs = [y]" by (auto simp: length_Suc_conv)
  then show ?thesis using assms(2) by simp
qed

lemma list_all2_in1: "list_all2 P xs ys \<Longrightarrow> x \<in> set xs \<Longrightarrow> \<exists>y\<in>set ys. P x y"
  by (induction rule: list_all2_induct) auto

lemma list_all2_in2: "list_all2 P xs ys \<Longrightarrow> y \<in> set ys \<Longrightarrow> \<exists>x\<in>set xs. P x y"
  by (induction rule: list_all2_induct) auto

text \<open>The pairs \<open>itertools.combinations(xs, 2)\<close> yields, in its order.\<close>

fun pairs :: "'a list \<Rightarrow> ('a \<times> 'a) list" where
  "pairs [] = []"
| "pairs (x # xs) = map (Pair x) xs @ pairs xs"

lemma pairs_pairwise:
  assumes "\<And>a b. P a b \<Longrightarrow> P b a"
  shows "(\<forall>(a, b)\<in>set (pairs xs). P a b) \<longleftrightarrow>
    (\<forall>i<length xs. \<forall>j<length xs. i \<noteq> j \<longrightarrow> P (xs ! i) (xs ! j))"
proof (induction xs)
  case Nil
  then show ?case by simp
next
  case (Cons x xs)
  have *: "(\<forall>(a, b)\<in>set (pairs (x # xs)). P a b) \<longleftrightarrow>
      (\<forall>b\<in>set xs. P x b) \<and> (\<forall>(a, b)\<in>set (pairs xs). P a b)" by auto
  have hd: "(\<forall>b\<in>set xs. P x b) \<longleftrightarrow> (\<forall>j<length xs. P x (xs ! j))"
    by (rule all_set_conv_all_nth)
  show ?case unfolding * Cons.IH hd
    by (auto simp: All_less_Suc2 intro: assms)
qed

lemma pairs_append: "set (pairs (xs @ ys)) = set (pairs xs) \<union> set xs \<times> set ys \<union> set (pairs ys)"
  by (induction xs) auto

lemma pairs_fst_snd: "p \<in> set (pairs xs) \<Longrightarrow> fst p \<in> set xs \<and> snd p \<in> set xs"
  by (induction xs) auto

lemma pairs_distinct: "distinct xs \<Longrightarrow> (a, b) \<in> set (pairs xs) \<Longrightarrow> a \<noteq> b"
  by (induction xs) auto

end
