(* ===== verification/PyStr.thy ===== *)
theory PyStr imports Prelude "HOL-Library.List_Lexorder" begin

text \<open>
  Python's \<open>str\<close>: a list of Unicode code points (\<open>ustr\<close>), with the methods the sources call.
  Literals are written \<open>lit ''abc''\<close>, single characters \<open>ch CHR ''x''\<close>.  White space and line
  boundaries are the interpreter's full tables, not ASCII's.  \<open>str.lower\<close> and \<open>str.casefold\<close> are
  modelled on ASCII letters, the only letters the names that reach them may hold; every
  other code point is left alone.  Comparison and sorting are by code point, which is the
  order \<open>List_Lexorder\<close> gives lists of naturals.
\<close>

section \<open>Characters and literals\<close>

type_synonym uchar = nat
type_synonym ustr = "uchar list"

definition lit :: "string \<Rightarrow> ustr" where
  "lit s = map of_char s"

abbreviation ch :: "char \<Rightarrow> uchar" where
  "ch c \<equiv> of_char c"

lemma lit_inj [simp]: "lit a = lit b \<longleftrightarrow> a = b"
  by (simp add: lit_def inj_map_eq_map inj_on_def)

lemma lit_Nil [simp]: "lit [] = []" "lit s = [] \<longleftrightarrow> s = []" "[] = lit s \<longleftrightarrow> s = []"
  by (auto simp: lit_def)

lemma lit_append: "lit (a @ b) = lit a @ lit b"
  by (simp add: lit_def)

lemma length_lit [simp]: "length (lit s) = length s"
  by (simp add: lit_def)

definition is_lower :: "uchar \<Rightarrow> bool" where "is_lower c \<longleftrightarrow> 97 \<le> c \<and> c \<le> 122"
definition is_upper :: "uchar \<Rightarrow> bool" where "is_upper c \<longleftrightarrow> 65 \<le> c \<and> c \<le> 90"
definition is_digit :: "uchar \<Rightarrow> bool" where "is_digit c \<longleftrightarrow> 48 \<le> c \<and> c \<le> 57"
definition is_alpha :: "uchar \<Rightarrow> bool" where "is_alpha c \<longleftrightarrow> is_lower c \<or> is_upper c"
definition is_alnum :: "uchar \<Rightarrow> bool" where "is_alnum c \<longleftrightarrow> is_alpha c \<or> is_digit c"

lemmas ascii_defs = is_lower_def is_upper_def is_digit_def is_alpha_def is_alnum_def

text \<open>\<open>str.isspace\<close> of one character.\<close>

definition isspace :: "uchar \<Rightarrow> bool" where
  "isspace c \<longleftrightarrow> 9 \<le> c \<and> c \<le> 13 \<or> 28 \<le> c \<and> c \<le> 32 \<or> c = 133 \<or> c = 160 \<or> c = 5760 \<or>
     8192 \<le> c \<and> c \<le> 8202 \<or> c = 8232 \<or> c = 8233 \<or> c = 8239 \<or> c = 8287 \<or> c = 12288"

text \<open>The line boundaries of \<open>str.splitlines\<close>; a carriage return with a line feed is one.\<close>

definition is_linebreak :: "uchar \<Rightarrow> bool" where
  "is_linebreak c \<longleftrightarrow> 10 \<le> c \<and> c \<le> 13 \<or> 28 \<le> c \<and> c \<le> 30 \<or> c = 133 \<or> c = 8232 \<or> c = 8233"

lemma linebreak_isspace: "is_linebreak c \<Longrightarrow> isspace c"
  by (auto simp: is_linebreak_def isspace_def)

text \<open>A C0 control character or DEL, the test most of the validators spell out.\<close>

definition is_control :: "uchar \<Rightarrow> bool" where
  "is_control c \<longleftrightarrow> c < 32 \<or> c = 127"

lemma alnum_not_space: "is_alnum c \<Longrightarrow> \<not> isspace c"
  by (auto simp: ascii_defs isspace_def)

lemma alnum_not_control: "is_alnum c \<Longrightarrow> \<not> is_control c"
  by (auto simp: ascii_defs is_control_def)

section \<open>Stripping, splitting, joining\<close>

lemma set_takeWhile_subset: "set (takeWhile P xs) \<subseteq> set xs"
  by (auto dest: set_takeWhileD)

lemma set_dropWhile_subset: "set (dropWhile P xs) \<subseteq> set xs"
  by (auto dest: set_dropWhileD)

lemma takeWhile_all: "\<forall>x\<in>set xs. P x \<Longrightarrow> takeWhile P xs = xs"
  by (simp add: takeWhile_eq_all_conv)

lemma dropWhile_all: "\<forall>x\<in>set xs. P x \<Longrightarrow> dropWhile P xs = []"
  by (simp add: dropWhile_eq_Nil_conv)

definition lstrip :: "ustr \<Rightarrow> ustr" where "lstrip s = dropWhile isspace s"
definition rstrip_by :: "(uchar \<Rightarrow> bool) \<Rightarrow> ustr \<Rightarrow> ustr" where
  "rstrip_by P s = rev (dropWhile P (rev s))"
definition rstrip :: "ustr \<Rightarrow> ustr" where "rstrip s = rstrip_by isspace s"
definition strip :: "ustr \<Rightarrow> ustr" where "strip s = rstrip (lstrip s)"

text \<open>\<open>str.strip(chars)\<close>.\<close>

definition strip_by :: "(uchar \<Rightarrow> bool) \<Rightarrow> ustr \<Rightarrow> ustr" where
  "strip_by P s = rstrip_by P (dropWhile P s)"

lemma rstrip_by_Nil [simp]: "rstrip_by P [] = []"
  by (simp add: rstrip_by_def)

lemma rstrip_by_id: "s = [] \<or> \<not> P (last s) \<Longrightarrow> rstrip_by P s = s"
  by (cases s rule: rev_cases) (auto simp: rstrip_by_def)

lemma set_rstrip_by: "set (rstrip_by P s) \<subseteq> set s"
  unfolding rstrip_by_def by (metis set_dropWhileD set_rev subsetI)

lemma rstrip_by_last: "rstrip_by P s \<noteq> [] \<Longrightarrow> \<not> P (last (rstrip_by P s))"
  by (metis Nil_is_rev_conv hd_dropWhile last_rev rstrip_by_def)

lemma rstrip_by_length: "length (rstrip_by P s) \<le> length s"
  unfolding rstrip_by_def by (metis length_dropWhile_le length_rev)

lemma rstrip_by_prefix: "\<exists>t. s = rstrip_by P s @ t \<and> (\<forall>c\<in>set t. P c)"
proof -
  have "s = rev (dropWhile P (rev s)) @ rev (takeWhile P (rev s))"
    by (metis rev_append rev_rev_ident takeWhile_dropWhile_id)
  then show ?thesis
    unfolding rstrip_by_def by (metis set_rev set_takeWhileD)
qed

lemma rstrip_by_not_Nil: "s \<noteq> [] \<Longrightarrow> \<not> P (hd s) \<Longrightarrow> rstrip_by P s \<noteq> []"
  using rstrip_by_prefix [of s P] by (metis append_Nil hd_in_set)

lemma strip_id:
  assumes "s = [] \<or> \<not> isspace (hd s) \<and> \<not> isspace (last s)"
  shows "strip s = s"
proof (cases s)
  case (Cons c cs)
  then have "lstrip s = s" using assms by (simp add: lstrip_def)
  then show ?thesis using assms Cons by (simp add: strip_def rstrip_def rstrip_by_id)
qed (simp add: strip_def lstrip_def rstrip_def)

lemma strip_no_space: "(\<forall>c\<in>set s. \<not> isspace c) \<Longrightarrow> strip s = s"
  by (rule strip_id) (cases s; simp)

lemma strip_Nil [simp]: "strip [] = []"
  by (simp add: strip_id)

lemma strip_eq_Nil: "strip s = [] \<longleftrightarrow> (\<forall>c\<in>set s. isspace c)"
proof
  assume *: "strip s = []"
  have "lstrip s = []"
  proof (rule ccontr)
    assume ne: "lstrip s \<noteq> []"
    then have "\<not> isspace (hd (lstrip s))" by (simp add: lstrip_def hd_dropWhile)
    moreover have "\<forall>c\<in>set (lstrip s). isspace c"
      using * by (simp add: strip_def rstrip_def rstrip_by_def dropWhile_eq_Nil_conv)
    ultimately show False using ne by simp
  qed
  then show "\<forall>c\<in>set s. isspace c" by (simp add: lstrip_def dropWhile_eq_Nil_conv)
next
  assume "\<forall>c\<in>set s. isspace c"
  then have "lstrip s = []" by (simp add: lstrip_def dropWhile_eq_Nil_conv)
  then show "strip s = []" by (simp add: strip_def rstrip_def)
qed

lemma strip_hd_last:
  assumes "strip s \<noteq> []"
  shows "\<not> isspace (hd (strip s))" "\<not> isspace (last (strip s))"
proof -
  have ne: "lstrip s \<noteq> []" using assms by (auto simp: strip_def rstrip_def)
  obtain t where t: "lstrip s = strip s @ t"
    using rstrip_by_prefix [of "lstrip s" isspace] by (auto simp: strip_def rstrip_def)
  have "\<not> isspace (hd (lstrip s))" using ne by (simp add: lstrip_def hd_dropWhile)
  then show "\<not> isspace (hd (strip s))" using t assms by (metis hd_append2)
  show "\<not> isspace (last (strip s))"
    using assms rstrip_by_last by (simp add: strip_def rstrip_def)
qed

lemma strip_idem [simp]: "strip (strip s) = strip s"
  using strip_hd_last [of s] by (intro strip_id) auto

lemma set_strip: "set (strip s) \<subseteq> set s"
  unfolding strip_def rstrip_def lstrip_def
  by (meson order_trans set_dropWhileD set_rstrip_by subsetI)

text \<open>\<open>str.split()\<close>: the maximal runs of non-space characters.\<close>

lemma dropWhile_shrinks [termination_simp]: "length (dropWhile P xs) < Suc (length xs)"
  using length_dropWhile_le [of P xs] by simp

fun split_ws :: "ustr \<Rightarrow> ustr list" where
  "split_ws [] = []"
| "split_ws (c # cs) =
     (if isspace c then split_ws cs
      else (c # takeWhile (\<lambda>x. \<not> isspace x) cs) # split_ws (dropWhile (\<lambda>x. \<not> isspace x) cs))"

lemma split_ws_tokens:
  "w \<in> set (split_ws s) \<Longrightarrow> w \<noteq> [] \<and> set w \<subseteq> set s \<and> (\<forall>c\<in>set w. \<not> isspace c)"
proof (induction s rule: split_ws.induct)
  case (2 c cs)
  show ?case
  proof (cases "isspace c")
    case True
    then have "w \<in> set (split_ws cs)" using "2.prems" by simp
    then show ?thesis using "2.IH"(1) [OF True] set_subset_Cons
      by (meson order_trans)
  next
    case False
    then consider (first) "w = c # takeWhile (\<lambda>x. \<not> isspace x) cs"
      | (later) "w \<in> set (split_ws (dropWhile (\<lambda>x. \<not> isspace x) cs))"
      using "2.prems" by auto
    then show ?thesis
    proof cases
      case first
      have *: "x \<in> set cs \<and> \<not> isspace x" if "x \<in> set (takeWhile (\<lambda>x. \<not> isspace x) cs)" for x
        using that by (rule set_takeWhileD)
      show ?thesis unfolding first using False by (simp add: subset_iff *)
    next
      case later
      have IH: "w \<noteq> []" "set w \<subseteq> set (dropWhile (\<lambda>x. \<not> isspace x) cs)" "\<forall>c\<in>set w. \<not> isspace c"
        using "2.IH"(2) [OF False later] by blast+
      have "set w \<subseteq> set cs"
        using IH(2) set_dropWhile_subset by (rule order_trans)
      then show ?thesis using IH(1,3) by (simp add: subset_insertI2)
    qed
  qed
qed simp

lemma split_ws_word:
  "w \<noteq> [] \<Longrightarrow> (\<forall>c\<in>set w. \<not> isspace c) \<Longrightarrow> split_ws w = [w]"
proof (cases w)
  case (Cons c cs)
  moreover assume "\<forall>c\<in>set w. \<not> isspace c"
  ultimately have "takeWhile (\<lambda>x. \<not> isspace x) cs = cs" "dropWhile (\<lambda>x. \<not> isspace x) cs = []"
    by (simp_all add: takeWhile_all dropWhile_all)
  moreover have "\<not> isspace c" using Cons \<open>\<forall>c\<in>set w. \<not> isspace c\<close> by simp
  ultimately show ?thesis using Cons by (simp only: split_ws.simps if_False)
qed simp

lemma split_ws_cons:
  assumes "w \<noteq> []" "\<forall>c\<in>set w. \<not> isspace c" "isspace d"
  shows "split_ws (w @ d # s) = w # split_ws s"
proof (cases w)
  case (Cons c cs)
  then have "takeWhile (\<lambda>x. \<not> isspace x) (cs @ d # s) = cs"
    "dropWhile (\<lambda>x. \<not> isspace x) (cs @ d # s) = d # s"
    using assms by (simp_all add: takeWhile_append dropWhile_append)
  with Cons assms show ?thesis by simp
qed (use assms in simp)

text \<open>\<open>sep.join(xs)\<close>.\<close>

fun join :: "ustr \<Rightarrow> ustr list \<Rightarrow> ustr" where
  "join sep [] = []"
| "join sep [x] = x"
| "join sep (x # y # xs) = x @ sep @ join sep (y # xs)"

lemma isspace_32 [simp]: "isspace 32"
  by (simp add: isspace_def)

lemma split_ws_join:
  "\<forall>w\<in>set ws. w \<noteq> [] \<and> (\<forall>c\<in>set w. \<not> isspace c) \<Longrightarrow> split_ws (join [32] ws) = ws"
  by (induction "[32::nat]" ws rule: join.induct) (auto simp: split_ws_word split_ws_cons)

text \<open>\<open>str.splitlines()\<close>.\<close>

definition drop_break :: "ustr \<Rightarrow> ustr" where
  "drop_break s =
     (case s of [] \<Rightarrow> []
      | c # cs \<Rightarrow> if c = 13 \<and> cs \<noteq> [] \<and> hd cs = 10 then tl cs else cs)"

lemma drop_break_length: "length (drop_break s) \<le> length s - 1"
  by (cases s) (auto simp: drop_break_def)

lemma set_drop_break: "set (drop_break s) \<subseteq> set s"
  by (cases s) (auto simp: drop_break_def dest: list.set_sel(2))

function splitlines :: "ustr \<Rightarrow> ustr list" where
  "splitlines s =
     (if s = [] then []
      else takeWhile (\<lambda>c. \<not> is_linebreak c) s #
             splitlines (drop_break (dropWhile (\<lambda>c. \<not> is_linebreak c) s)))"
  by pat_completeness auto
termination
proof (relation "measure length")
  fix s :: ustr
  assume "s \<noteq> []"
  then have "0 < length s" by simp
  then have "length (drop_break (dropWhile (\<lambda>c. \<not> is_linebreak c) s)) < length s"
    using drop_break_length [of "dropWhile (\<lambda>c. \<not> is_linebreak c) s"]
      length_dropWhile_le [of "\<lambda>c. \<not> is_linebreak c" s] by linarith
  then show "(drop_break (dropWhile (\<lambda>c. \<not> is_linebreak c) s), s) \<in> measure length"
    by simp
qed simp

declare splitlines.simps [simp del]

lemma splitlines_Nil [simp]: "splitlines [] = []"
  by (simp add: splitlines.simps)

lemma splitlines_no_break:
  "l \<in> set (splitlines s) \<Longrightarrow> set l \<subseteq> set s \<and> (\<forall>c\<in>set l. \<not> is_linebreak c)"
proof (induction s rule: splitlines.induct)
  case (1 s)
  show ?case
  proof (cases "l = takeWhile (\<lambda>c. \<not> is_linebreak c) s")
    case True
    then show ?thesis by (auto dest: set_takeWhileD)
  next
    case False
    then have ne: "s \<noteq> []"
      and mem: "l \<in> set (splitlines (drop_break (dropWhile (\<lambda>c. \<not> is_linebreak c) s)))"
      using "1.prems" by (auto simp: splitlines.simps [of s] split: if_splits)
    have "set l \<subseteq> set (drop_break (dropWhile (\<lambda>c. \<not> is_linebreak c) s))
        \<and> (\<forall>c\<in>set l. \<not> is_linebreak c)"
      by (rule "1.IH" [OF ne mem])
    then show ?thesis
      by (meson order_trans set_drop_break set_dropWhile_subset)
  qed
qed

lemma splitlines_single:
  assumes "l \<noteq> []" "\<forall>c\<in>set l. \<not> is_linebreak c"
  shows "splitlines l = [l]"
proof -
  have "takeWhile (\<lambda>c. \<not> is_linebreak c) l = l" "dropWhile (\<lambda>c. \<not> is_linebreak c) l = []"
    using assms(2) by (simp_all add: takeWhile_all dropWhile_all)
  then show ?thesis using assms(1)
    by (simp only: splitlines.simps [of l]) (simp add: drop_break_def)
qed

lemma splitlines_cons:
  assumes "\<forall>c\<in>set l. \<not> is_linebreak c"
  shows "splitlines (l @ 10 # s) = l # splitlines s"
proof -
  have "is_linebreak 10" by (simp add: is_linebreak_def)
  then have "takeWhile (\<lambda>c. \<not> is_linebreak c) (l @ 10 # s) = l"
    "dropWhile (\<lambda>c. \<not> is_linebreak c) (l @ 10 # s) = 10 # s"
    using assms by (simp_all add: takeWhile_append dropWhile_append)
  then show ?thesis by (simp add: splitlines.simps [of "l @ 10 # s"] drop_break_def)
qed

text \<open>The lines of a text written as \<open>"\n".join(ls) + "\n"\<close>.\<close>

lemma splitlines_join:
  "ls \<noteq> [] \<Longrightarrow> \<forall>l\<in>set ls. \<forall>c\<in>set l. \<not> is_linebreak c \<Longrightarrow>
    splitlines (join [10] ls @ [10]) = ls"
  by (induction "[10::nat]" ls rule: join.induct)
    (auto simp: splitlines_cons)

text \<open>\<open>str.partition(c)\<close> for a one-character separator: head, whether found, tail.\<close>

definition partition_at :: "uchar \<Rightarrow> ustr \<Rightarrow> ustr \<times> bool \<times> ustr" where
  "partition_at c s =
     (takeWhile (\<lambda>x. x \<noteq> c) s, c \<in> set s, tl (dropWhile (\<lambda>x. x \<noteq> c) s))"

lemma partition_at_append:
  "c \<notin> set a \<Longrightarrow> partition_at c (a @ c # b) = (a, True, b)"
proof -
  assume "c \<notin> set a"
  then have "takeWhile (\<lambda>x. x \<noteq> c) (a @ c # b) = a"
    and "dropWhile (\<lambda>x. x \<noteq> c) (a @ c # b) = c # b"
    by (auto simp: takeWhile_append dropWhile_append)
  then show ?thesis by (simp add: partition_at_def)
qed

lemma partition_at_none: "c \<notin> set s \<Longrightarrow> partition_at c s = (s, False, [])"
proof -
  assume "c \<notin> set s"
  then have "takeWhile (\<lambda>x. x \<noteq> c) s = s" "dropWhile (\<lambda>x. x \<noteq> c) s = []"
    by (auto intro!: takeWhile_all dropWhile_all)
  then show ?thesis using \<open>c \<notin> set s\<close> by (simp only: partition_at_def) simp
qed

lemma partition_at_True:
  "partition_at c s = (a, True, b) \<longleftrightarrow> s = a @ c # b \<and> c \<notin> set a"
proof
  assume *: "partition_at c s = (a, True, b)"
  then have c: "c \<in> set s" by (simp add: partition_at_def)
  then obtain a' b' where "s = a' @ c # b'" "c \<notin> set a'" by (metis split_list_first)
  then show "s = a @ c # b \<and> c \<notin> set a" using * partition_at_append [of c a' b'] by auto
qed (auto simp: partition_at_append)

text \<open>\<open>str.split(c)\<close> for a one-character separator.\<close>

fun split_at :: "uchar \<Rightarrow> ustr \<Rightarrow> ustr list" where
  "split_at c [] = [[]]"
| "split_at c (x # xs) =
     (if x = c then [] # split_at c xs
      else (case split_at c xs of [] \<Rightarrow> [[x]] | w # ws \<Rightarrow> (x # w) # ws))"

lemma split_at_not_Nil [simp]: "split_at c s \<noteq> []"
  by (induction s) (auto split: list.splits)

lemma split_at_parts: "w \<in> set (split_at c s) \<Longrightarrow> c \<notin> set w \<and> set w \<subseteq> set s"
  by (induction s arbitrary: w) (fastforce split: if_splits list.splits)+

lemma split_at_single: "c \<notin> set w \<Longrightarrow> split_at c w = [w]"
  by (induction w) auto

lemma split_at_cons: "c \<notin> set w \<Longrightarrow> split_at c (w @ c # s) = w # split_at c s"
  by (induction w) auto

lemma split_at_join:
  "ws \<noteq> [] \<Longrightarrow> \<forall>w\<in>set ws. c \<notin> set w \<Longrightarrow> split_at c (join [c] ws) = ws"
  by (induction "[c]" ws rule: join.induct) (auto simp: split_at_single split_at_cons)

definition startswith :: "ustr \<Rightarrow> ustr \<Rightarrow> bool" where
  "startswith p s \<longleftrightarrow> take (length p) s = p"
definition endswith :: "ustr \<Rightarrow> ustr \<Rightarrow> bool" where
  "endswith p s \<longleftrightarrow> drop (length s - length p) s = p"

lemma startswith_iff: "startswith p s \<longleftrightarrow> (\<exists>t. s = p @ t)"
  unfolding startswith_def by (metis append_eq_conv_conj append_take_drop_id)

lemma endswith_iff: "endswith p s \<longleftrightarrow> (\<exists>t. s = t @ p)"
  unfolding endswith_def by (metis append_eq_conv_conj append_take_drop_id diff_add_inverse2 length_append)

section \<open>Patterns\<close>

text \<open>
  \<open>fullmatch\<close> of \<open>[H][T]{0,n}\<close> and of \<open>[H][T]*\<close>, the shape of nearly every name pattern of the
  sources (\<open>fullmatch\<close> leaves the \<open>$\<close> no trailing newline to skip).
\<close>

definition re_name :: "(uchar \<Rightarrow> bool) \<Rightarrow> (uchar \<Rightarrow> bool) \<Rightarrow> nat \<Rightarrow> ustr \<Rightarrow> bool" where
  "re_name H T n s \<longleftrightarrow> (case s of [] \<Rightarrow> False | c # cs \<Rightarrow> H c \<and> list_all T cs \<and> length cs \<le> n)"

definition re_name_star :: "(uchar \<Rightarrow> bool) \<Rightarrow> (uchar \<Rightarrow> bool) \<Rightarrow> ustr \<Rightarrow> bool" where
  "re_name_star H T s \<longleftrightarrow> (case s of [] \<Rightarrow> False | c # cs \<Rightarrow> H c \<and> list_all T cs)"

lemma re_nameD:
  assumes "re_name H T n s"
  shows "s \<noteq> []" "length s \<le> Suc n" "H (hd s)" "\<And>c. c \<in> set s \<Longrightarrow> H c \<or> T c"
  using assms by (auto simp: re_name_def list_all_iff split: list.splits)

lemma re_nameI:
  "s \<noteq> [] \<Longrightarrow> H (hd s) \<Longrightarrow> \<forall>c\<in>set (tl s). T c \<Longrightarrow> length s \<le> Suc n \<Longrightarrow> re_name H T n s"
  by (cases s) (auto simp: re_name_def list_all_iff)

text \<open>\<open>re.sub(r"[^...]+", "-", s)\<close>: every maximal run of characters outside \<open>K\<close> becomes one hyphen.\<close>

fun sub_runs :: "(uchar \<Rightarrow> bool) \<Rightarrow> uchar \<Rightarrow> ustr \<Rightarrow> ustr" where
  "sub_runs K r [] = []"
| "sub_runs K r (c # cs) =
     (if K c then c # sub_runs K r cs else r # sub_runs K r (dropWhile (\<lambda>x. \<not> K x) cs))"

lemma set_sub_runs: "x \<in> set (sub_runs K r s) \<Longrightarrow> K x \<or> x = r"
  by (induction K r s rule: sub_runs.induct) (auto split: if_splits)

lemma sub_runs_id: "\<forall>c\<in>set s. K c \<Longrightarrow> sub_runs K r s = s"
  by (induction s) auto

text \<open>\<open>str.lower\<close> and \<open>str.casefold\<close> on ASCII.\<close>

definition lower_char :: "uchar \<Rightarrow> uchar" where
  "lower_char c = (if is_upper c then c + 32 else c)"
definition lower :: "ustr \<Rightarrow> ustr" where "lower s = map lower_char s"

lemma length_lower [simp]: "length (lower s) = length s"
  by (simp add: lower_def)

lemma lower_char_idem [simp]: "lower_char (lower_char c) = lower_char c"
  by (auto simp: lower_char_def is_upper_def)

lemma lower_idem [simp]: "lower (lower s) = lower s"
  by (simp add: lower_def)

section \<open>Numbers in text\<close>

text \<open>\<open>str(n)\<close> for a non-negative integer.\<close>

fun dec :: "nat \<Rightarrow> ustr" where
  "dec n = (if n < 10 then [48 + n] else dec (n div 10) @ [48 + n mod 10])"

declare dec.simps [simp del]

lemma dec_digits: "c \<in> set (dec n) \<Longrightarrow> is_digit c"
proof (induction n arbitrary: c rule: dec.induct)
  case (1 n)
  show ?case
  proof (cases "n < 10")
    case True
    with "1.prems" show ?thesis by (auto simp: dec.simps [of n] is_digit_def)
  next
    case False
    have "n mod 10 < 10" by simp
    then have "48 + n mod 10 \<le> 57" by linarith
    with False "1.prems" "1.IH" show ?thesis
      by (auto simp: dec.simps [of n] is_digit_def)
  qed
qed

lemma dec_not_Nil [simp]: "dec n \<noteq> []"
  by (subst dec.simps) simp

text \<open>
  \<open>int(text, 10)\<close> on a token without white space: an optional sign, then decimal digits with
  single underscores between them.  The digits of every Unicode script are read, so the
  table of the zeros of category Nd is part of the model.
\<close>

definition digit_zeros :: "uchar list" where
  "digit_zeros =
     [48, 1632, 1776, 1984, 2406, 2534, 2662, 2790, 2918, 3046, 3174, 3302, 3430, 3558, 3664,
      3792, 3872, 4160, 4240, 6112, 6160, 6470, 6608, 6784, 6800, 6992, 7088, 7232, 7248, 42528,
      43216, 43264, 43472, 43504, 43600, 44016, 65296, 66720, 68912, 69734, 69872, 69942, 70096,
      70384, 70736, 70864, 71248, 71360, 71472, 71904, 72016, 72784, 73040, 73120, 92768, 92864,
      93008, 120782, 120792, 120802, 120812, 120822, 123200, 123632, 125264, 130032]"

definition digit_value :: "uchar \<Rightarrow> nat option" where
  "digit_value c = map_option (\<lambda>z. c - z) (find (\<lambda>z. z \<le> c \<and> c \<le> z + 9) digit_zeros)"

fun int_digits :: "nat \<Rightarrow> bool \<Rightarrow> ustr \<Rightarrow> nat option" where
  "int_digits acc after_digit [] = (if after_digit then Some acc else None)"
| "int_digits acc after_digit (c # cs) =
     (if c = 95 then (if after_digit then int_digits acc False cs else None)
      else (case digit_value c of
              None \<Rightarrow> None
            | Some d \<Rightarrow> int_digits (10 * acc + d) True cs))"

definition parse_int :: "ustr \<Rightarrow> int option" where
  "parse_int s =
     (case s of
        [] \<Rightarrow> None
      | c # cs \<Rightarrow>
          if c = 43 then map_option int (int_digits 0 False cs)
          else if c = 45 then map_option (\<lambda>n. - int n) (int_digits 0 False cs)
          else map_option int (int_digits 0 False s))"

text \<open>
  \<open>ipaddress.IPv4Address(text)\<close>: four non-empty runs of at most three ASCII digits, without
  leading zeros, each at most 255; \<open>str\<close> of the result is then the text itself.
\<close>

definition ascii_nat :: "ustr \<Rightarrow> nat" where
  "ascii_nat s = fold (\<lambda>c n. 10 * n + (c - 48)) s 0"

definition ipv4_octet :: "ustr \<Rightarrow> bool" where
  "ipv4_octet s \<longleftrightarrow> s \<noteq> [] \<and> list_all is_digit s \<and> length s \<le> 3 \<and>
     \<not> (hd s = 48 \<and> length s \<noteq> 1) \<and> ascii_nat s \<le> 255"

definition is_ipv4 :: "ustr \<Rightarrow> bool" where
  "is_ipv4 s \<longleftrightarrow> length (split_at 46 s) = 4 \<and> list_all ipv4_octet (split_at 46 s)"

lemma is_ipv4_chars: "is_ipv4 s \<Longrightarrow> c \<in> set s \<Longrightarrow> is_digit c \<or> c = 46"
proof -
  assume *: "is_ipv4 s" "c \<in> set s"
  have "c \<noteq> x \<Longrightarrow> c \<in> set t \<Longrightarrow> \<exists>w\<in>set (split_at x t). c \<in> set w" for x t
    by (induction t) (fastforce split: list.splits)+
  from this [of 46 s] * show ?thesis
    by (fastforce simp: is_ipv4_def ipv4_octet_def list_all_iff)
qed

lemma is_ipv4_not_Nil: "is_ipv4 s \<Longrightarrow> s \<noteq> []"
  by (auto simp: is_ipv4_def)

lemma ascii_nat_snoc: "ascii_nat (s @ [c]) = 10 * ascii_nat s + (c - 48)"
  by (simp add: ascii_nat_def)

lemma ascii_nat_dec [simp]: "ascii_nat (dec n) = n"
proof (induction n rule: dec.induct)
  case (1 n)
  show ?case
  proof (cases "n < 10")
    case True
    then show ?thesis by (simp add: dec.simps [of n] ascii_nat_def)
  next
    case False
    then have "ascii_nat (dec n) = 10 * (n div 10) + n mod 10"
      using 1 by (simp add: dec.simps [of n] ascii_nat_snoc)
    then show ?thesis by simp
  qed
qed

lemma dec_inj [simp]: "dec m = dec n \<longleftrightarrow> m = n"
  by (metis ascii_nat_dec)

lemma dec_length: "n < 10 ^ Suc k \<Longrightarrow> length (dec n) \<le> Suc k"
proof (induction k arbitrary: n)
  case 0
  then show ?case by (simp add: dec.simps [of n])
next
  case (Suc k)
  show ?case
  proof (cases "n < 10")
    case False
    have "n div 10 < 10 ^ Suc k" using Suc.prems by (intro less_mult_imp_div_less) simp
    then show ?thesis using Suc.IH [of "n div 10"] False by (simp add: dec.simps [of n])
  qed (simp add: dec.simps [of n])
qed

end
