(* ===== verification/Paths.thy ===== *)
theory Paths imports PyStr "HOL-Library.Sublist" begin

text \<open>
  \<open>pathlib.PurePosixPath\<close>: an anchor (nothing, one slash, or exactly two) and the parts, with
  empty and \<open>.\<close> segments dropped and \<open>..\<close> kept, as the class parses them.  Then the purely
  lexical operations of the class and \<open>os.path.normpath\<close>, and the operating system's view of
  a path (\<open>os_env\<close>), which is a parameter of every operation that touches the file system.

  The locale \<open>tree_space\<close> is the contract behind every overlap test of the program: a test
  that holds exactly when two trees have a common node.
\<close>

section \<open>Pure paths\<close>

datatype ppath = Path (anchor: ustr) (parts: "ustr list")

definition path_of :: "ustr \<Rightarrow> ppath" where
  "path_of s =
     Path (if startswith (lit ''//'') s \<and> \<not> startswith (lit ''///'') s then lit ''//''
           else if startswith (lit ''/'') s then lit ''/'' else [])
          (filter (\<lambda>p. p \<noteq> [] \<and> p \<noteq> lit ''.'') (split_at 47 s))"

definition path_str :: "ppath \<Rightarrow> ustr" where
  "path_str p =
     (if parts p = [] then (if anchor p = [] then lit ''.'' else anchor p)
      else anchor p @ join [47] (parts p))"

definition is_absolute :: "ppath \<Rightarrow> bool" where
  "is_absolute p \<longleftrightarrow> anchor p \<noteq> []"

definition path_name :: "ppath \<Rightarrow> ustr" where
  "path_name p = (if parts p = [] then [] else last (parts p))"

definition path_parent :: "ppath \<Rightarrow> ppath" where
  "path_parent p = Path (anchor p) (butlast (parts p))"

definition joinpath :: "ppath \<Rightarrow> ppath \<Rightarrow> ppath" where
  "joinpath p q = (if is_absolute q then q else Path (anchor p) (parts p @ parts q))"

definition is_relative_to :: "ppath \<Rightarrow> ppath \<Rightarrow> bool" where
  "is_relative_to p q \<longleftrightarrow> anchor p = anchor q \<and> prefix (parts q) (parts p)"

definition relative_to :: "ppath \<Rightarrow> ppath \<Rightarrow> ppath option" where
  "relative_to p q =
     (if is_relative_to p q then Some (Path [] (drop (length (parts q)) (parts p))) else None)"

text \<open>\<open>p in q.parents\<close>.\<close>

definition in_parents :: "ppath \<Rightarrow> ppath \<Rightarrow> bool" where
  "in_parents p q \<longleftrightarrow> anchor p = anchor q \<and> strict_prefix (parts p) (parts q)"

text \<open>\<open>os.path.normpath\<close> on the parts of an absolute path: \<open>..\<close> removes the part before it.\<close>

definition normpath :: "ppath \<Rightarrow> ppath" where
  "normpath p =
     Path (anchor p)
       (fold (\<lambda>x acc. if x = lit ''..'' then butlast acc else acc @ [x]) (parts p) [])"

lemma is_relative_to_refl [simp]: "is_relative_to p p"
  by (simp add: is_relative_to_def)

lemma is_relative_to_trans: "is_relative_to p q \<Longrightarrow> is_relative_to q r \<Longrightarrow> is_relative_to p r"
  by (auto simp: is_relative_to_def intro: prefix_order.trans)

lemma is_relative_to_antisym: "is_relative_to p q \<Longrightarrow> is_relative_to q p \<Longrightarrow> p = q"
  by (auto simp: is_relative_to_def intro: ppath.expand prefix_order.antisym)

lemma in_parents_iff: "in_parents p q \<longleftrightarrow> is_relative_to q p \<and> p \<noteq> q"
  by (auto simp: in_parents_def is_relative_to_def strict_prefix_def ppath.expand)

lemma common_descendant:
  "is_relative_to x p \<Longrightarrow> is_relative_to x q \<Longrightarrow> is_relative_to p q \<or> is_relative_to q p"
  by (auto simp: is_relative_to_def dest: prefix_same_cases)

lemma joinpath_is_relative_to:
  "\<not> is_absolute q \<Longrightarrow> is_relative_to (joinpath p q) p"
  by (simp add: joinpath_def is_relative_to_def)

text \<open>A path prints to a text that parses to it.\<close>

definition wf_part :: "ustr \<Rightarrow> bool" where
  "wf_part s \<longleftrightarrow> s \<noteq> [] \<and> s \<noteq> lit ''.'' \<and> 47 \<notin> set s"

definition wf_path :: "ppath \<Rightarrow> bool" where
  "wf_path p \<longleftrightarrow> anchor p \<in> {[], lit ''/'', lit ''//''} \<and> (\<forall>s\<in>set (parts p). wf_part s)"

lemma wf_path_of [simp]: "wf_path (path_of s)"
  by (auto simp: wf_path_def path_of_def wf_part_def dest: split_at_parts)

lemma split_at_append: "split_at c (c # s) = [] # split_at c s"
  by simp

lemma filter_parts_join:
  "xs \<noteq> [] \<Longrightarrow> \<forall>s\<in>set xs. wf_part s \<Longrightarrow>
    filter (\<lambda>p. p \<noteq> [] \<and> p \<noteq> lit ''.'') (split_at 47 (join [47] xs)) = xs"
  by (subst split_at_join) (auto simp: wf_part_def filter_id_conv)

lemma join_parts_hd:
  assumes "xs \<noteq> []" "\<forall>s\<in>set xs. wf_part s"
  shows "join [47] xs \<noteq> []" "hd (join [47] xs) \<noteq> 47"
proof -
  obtain x ys where xs: "xs = x # ys" using assms(1) by (cases xs) auto
  then have "x \<noteq> []" "47 \<notin> set x" using assms(2) by (auto simp: wf_part_def)
  then have "join [47] xs \<noteq> [] \<and> hd (join [47] xs) \<noteq> 47"
    unfolding xs by (cases ys; cases x) auto
  then show "join [47] xs \<noteq> []" "hd (join [47] xs) \<noteq> 47" by auto
qed

lemma startswith_Cons: "startswith (x # p) (y # s) \<longleftrightarrow> x = y \<and> startswith p s"
  by (auto simp: startswith_def)

lemma startswith_Nil [simp]: "startswith [] s" "startswith (x # p) [] = False"
  by (simp_all add: startswith_def)

lemma startswith_neq_hd: "s \<noteq> [] \<Longrightarrow> hd s \<noteq> x \<Longrightarrow> \<not> startswith (x # p) s"
  by (cases s) (auto simp: startswith_Cons)

lemma path_of_str:
  assumes "wf_path p" and "p \<noteq> Path [] []"
  shows "path_of (path_str p) = p"
proof -
  have slash: "lit ''/'' = [47]" "lit ''//'' = [47, 47]" "lit ''///'' = [47, 47, 47]"
    by (simp_all add: lit_def)
  obtain a xs where p: "p = Path a xs" by (cases p)
  have a: "a = [] \<or> a = [47] \<or> a = [47, 47]" and wf: "\<forall>s\<in>set xs. wf_part s"
    using assms(1) by (auto simp: wf_path_def p slash)
  show ?thesis
  proof (cases "xs = []")
    case True
    then show ?thesis using a assms(2)
      by (auto simp: p path_str_def path_of_def slash startswith_Cons)
  next
    case False
    note hd = join_parts_hd [OF False wf]
    have j: "filter (\<lambda>p. p \<noteq> [] \<and> p \<noteq> lit ''.'') (split_at 47 (join [47] xs)) = xs"
      by (rule filter_parts_join [OF False wf])
    show ?thesis using a hd j False
      by (elim disjE) (simp_all add: p path_str_def path_of_def slash startswith_Cons
          startswith_neq_hd)
  qed
qed

section \<open>The operating system\<close>

text \<open>
  What the sources ask of the host: \<open>resolve(strict=True)\<close> (\<open>None\<close> where it raises),
  \<open>resolve()\<close>, \<open>expanduser\<close>, the working directory, whether a resolved path is a
  directory, and the outcome of opening and reading a file without following a final link.
  A field is a snapshot: an operation of the model sees one state of the file system.
\<close>

datatype file_read =
    Missing
  | NotRegular
  | IsLink
  | Unreadable
  | Content "nat list"

record os_env =
  resolve_strict :: "ppath \<Rightarrow> ppath option"
  resolve_lax :: "ppath \<Rightarrow> ppath"
  expanduser :: "ppath \<Rightarrow> ppath"
  cwd :: ppath
  is_dir :: "ppath \<Rightarrow> bool"
  read_nofollow :: "ppath \<Rightarrow> file_read"

text \<open>\<open>os.path.abspath\<close> on an expanded path.\<close>

definition abspath :: "os_env \<Rightarrow> ppath \<Rightarrow> ppath" where
  "abspath os p = normpath (joinpath (cwd os) p)"

section \<open>Trees that must not meet\<close>

locale tree_space =
  fixes within :: "'n \<Rightarrow> 'p \<Rightarrow> bool"
    and overlap :: "'p \<Rightarrow> 'p \<Rightarrow> bool"
  assumes overlap_iff: "overlap p q \<longleftrightarrow> (\<exists>x. within x p \<and> within x q)"
begin

lemma overlap_sym: "overlap p q \<longleftrightarrow> overlap q p"
  by (auto simp: overlap_iff)

text \<open>Trees that pass the pairwise test: no node lies in two of them.\<close>

lemma pairwise_unique:
  assumes "\<forall>i<length ps. \<forall>j<length ps. i \<noteq> j \<longrightarrow> \<not> overlap (ps ! i) (ps ! j)"
    and "i < length ps" "j < length ps" "within x (ps ! i)" "within x (ps ! j)"
  shows "i = j"
  using assms by (auto simp: overlap_iff)

lemma separated:
  assumes "\<not> overlap p q" "within x p"
  shows "\<not> within x q"
  using assms by (auto simp: overlap_iff)

end

definition overlap_lexical :: "ppath \<Rightarrow> ppath \<Rightarrow> bool" where
  "overlap_lexical p q \<longleftrightarrow> p = q \<or> is_relative_to p q \<or> is_relative_to q p"

interpretation lexical: tree_space is_relative_to overlap_lexical
  by unfold_locales (auto simp: overlap_lexical_def dest: common_descendant intro: is_relative_to_refl)

end
