(* ===== verification/Bytes.thy ===== *)
theory Bytes imports PyStr "HOL-Library.Word" begin

unbundle bit_operations_syntax

text \<open>
  Python's \<open>bytes\<close>: a list of naturals below 256, with \<open>str.encode("utf-8")\<close> and
  \<open>bytes.decode("utf-8")\<close> (strict: a surrogate is not encoded, an overlong or truncated
  sequence is not decoded) and \<open>hashlib.sha256(...).hexdigest()\<close>.  The digest is the real
  function on 32-bit words; what the proofs use of it is that it returns 64 lower-case
  hexadecimal digits.
\<close>

type_synonym bytes = "nat list"

section \<open>UTF-8\<close>

definition is_surrogate :: "uchar \<Rightarrow> bool" where
  "is_surrogate c \<longleftrightarrow> 55296 \<le> c \<and> c \<le> 57343"

definition is_scalar :: "uchar \<Rightarrow> bool" where
  "is_scalar c \<longleftrightarrow> c < 1114112 \<and> \<not> is_surrogate c"

definition utf8_char :: "uchar \<Rightarrow> bytes" where
  "utf8_char c =
     (if c < 128 then [c]
      else if c < 2048 then [192 + c div 64, 128 + c mod 64]
      else if c < 65536 then [224 + c div 4096, 128 + c div 64 mod 64, 128 + c mod 64]
      else [240 + c div 262144, 128 + c div 4096 mod 64, 128 + c div 64 mod 64, 128 + c mod 64])"

definition utf8_encode :: "ustr \<Rightarrow> bytes res" where
  "utf8_encode s =
     (if list_all is_scalar s then Inr (concat (map utf8_char s)) else Inl UnicodeErr)"

definition is_cont :: "nat \<Rightarrow> bool" where
  "is_cont b \<longleftrightarrow> 128 \<le> b \<and> b < 192"

fun utf8_decode :: "bytes \<Rightarrow> ustr option" where
  "utf8_decode [] = Some []"
| "utf8_decode (b # bs) =
     (if b < 128 then map_option ((#) b) (utf8_decode bs)
      else if 194 \<le> b \<and> b < 224 then
        (case bs of
           b1 # r \<Rightarrow>
             if is_cont b1 then map_option ((#) ((b - 192) * 64 + (b1 - 128))) (utf8_decode r)
             else None
         | _ \<Rightarrow> None)
      else if 224 \<le> b \<and> b < 240 then
        (case bs of
           b1 # b2 # r \<Rightarrow>
             let c = (b - 224) * 4096 + (b1 - 128) * 64 + (b2 - 128) in
             if is_cont b1 \<and> is_cont b2 \<and> 2048 \<le> c \<and> is_scalar c
             then map_option ((#) c) (utf8_decode r) else None
         | _ \<Rightarrow> None)
      else if 240 \<le> b \<and> b < 245 then
        (case bs of
           b1 # b2 # b3 # r \<Rightarrow>
             let c = (b - 240) * 262144 + (b1 - 128) * 4096 + (b2 - 128) * 64 + (b3 - 128) in
             if is_cont b1 \<and> is_cont b2 \<and> is_cont b3 \<and> 65536 \<le> c \<and> is_scalar c
             then map_option ((#) c) (utf8_decode r) else None
         | _ \<Rightarrow> None)
      else None)"

lemma split_64: "c = c div 4096 * 4096 + c div 64 mod 64 * 64 + c mod (64::nat)"
proof -
  have "c div 64 = c div 4096 * 64 + c div 64 mod 64"
    using div_mult_mod_eq [of "c div 64" 64] by (simp add: div_mult2_eq [symmetric])
  then show ?thesis using div_mult_mod_eq [of c 64] by linarith
qed

lemma split_4096: "c = c div 262144 * 262144 + c div 4096 mod 64 * 4096 + c mod (4096::nat)"
proof -
  have "c div 4096 = c div 262144 * 64 + c div 4096 mod 64"
    using div_mult_mod_eq [of "c div 4096" 64] by (simp add: div_mult2_eq [symmetric])
  then show ?thesis using div_mult_mod_eq [of c 4096] by linarith
qed

lemma utf8_decode_char:
  assumes "is_scalar c"
  shows "utf8_decode (utf8_char c @ bs) = map_option ((#) c) (utf8_decode bs)"
proof -
  have c: "c < 1114112" using assms by (simp add: is_scalar_def)
  consider "c < 128" | "128 \<le> c" "c < 2048" | "2048 \<le> c" "c < 65536" | "65536 \<le> c"
    by linarith
  then show ?thesis
  proof cases
    case 1
    then show ?thesis by (simp add: utf8_char_def)
  next
    case 2
    define q r where "q = c div 64" and "r = c mod 64"
    have "2 \<le> q" "q < 32" "r < 64" "c = q * 64 + r" using 2 by (simp_all add: q_def r_def)
    moreover have "utf8_char c = [192 + q, 128 + r]" using 2 by (simp add: utf8_char_def q_def r_def)
    ultimately show ?thesis by (simp add: is_cont_def)
  next
    case 3
    define q p r where "q = c div 4096" and "p = c div 64 mod 64" and "r = c mod 64"
    have "q < 16" "p < 64" "r < 64" using 3 by (simp_all add: q_def p_def r_def)
    moreover have "c = q * 4096 + p * 64 + r" unfolding q_def p_def r_def by (rule split_64)
    moreover have "utf8_char c = [224 + q, 128 + p, 128 + r]"
      using 3 by (simp add: utf8_char_def q_def p_def r_def)
    ultimately show ?thesis using 3 assms by (simp add: is_cont_def Let_def)
  next
    case 4
    define q p m r
      where "q = c div 262144" and "p = c div 4096 mod 64" and "m = c div 64 mod 64" and "r = c mod 64"
    have "q < 5" "p < 64" "m < 64" "r < 64"
      using c by (simp_all add: q_def p_def m_def r_def)
    moreover have "c = q * 262144 + p * 4096 + m * 64 + r"
      unfolding q_def p_def m_def r_def using split_4096 [of c] split_64 [of c]
        div_mult_mod_eq [of c 4096] by linarith
    moreover have "utf8_char c = [240 + q, 128 + p, 128 + m, 128 + r]"
      using 4 by (simp add: utf8_char_def q_def p_def m_def r_def)
    ultimately show ?thesis using 4 assms by (simp add: is_cont_def Let_def)
  qed
qed

lemma utf8_decode_encode: "utf8_encode s = Inr bs \<Longrightarrow> utf8_decode bs = Some s"
proof -
  have "list_all is_scalar s \<Longrightarrow> utf8_decode (concat (map utf8_char s)) = Some s"
    by (induction s) (simp_all add: utf8_decode_char)
  then show "utf8_encode s = Inr bs \<Longrightarrow> ?thesis"
    by (auto simp: utf8_encode_def split: if_splits)
qed

lemma utf8_encode_scalar: "list_all is_scalar s \<Longrightarrow> \<exists>bs. utf8_encode s = Inr bs"
  by (simp add: utf8_encode_def)

lemma ascii_scalar: "c < 128 \<Longrightarrow> is_scalar c"
  by (simp add: is_scalar_def is_surrogate_def)

lemma utf8_encode_ascii: "\<forall>c\<in>set s. c < 128 \<Longrightarrow> utf8_encode s = Inr s"
proof -
  assume *: "\<forall>c\<in>set s. c < 128"
  then have "concat (map utf8_char s) = s"
    by (induction s) (simp_all add: utf8_char_def)
  then show ?thesis using * by (simp add: utf8_encode_def list_all_iff ascii_scalar)
qed

section \<open>SHA-256\<close>

type_synonym u32 = "32 word"

definition sha_k :: "u32 list" where
  "sha_k =
    [1116352408, 1899447441, 3049323471, 3921009573, 961987163, 1508970993, 2453635748, 2870763221,
     3624381080, 310598401, 607225278, 1426881987, 1925078388, 2162078206, 2614888103, 3248222580,
     3835390401, 4022224774, 264347078, 604807628, 770255983, 1249150122, 1555081692, 1996064986,
     2554220882, 2821834349, 2952996808, 3210313671, 3336571891, 3584528711, 113926993, 338241895,
     666307205, 773529912, 1294757372, 1396182291, 1695183700, 1986661051, 2177026350, 2456956037,
     2730485921, 2820302411, 3259730800, 3345764771, 3516065817, 3600352804, 4094571909, 275423344,
     430227734, 506948616, 659060556, 883997877, 958139571, 1322822218, 1537002063, 1747873779,
     1955562222, 2024104815, 2227730452, 2361852424, 2428436474, 2756734187, 3204031479,
     3329325298]"

definition sha_init :: "u32 list" where
  "sha_init =
    [1779033703, 3144134277, 1013904242, 2773480762, 1359893119, 2600822924, 528734635, 1541459225]"

definition rotr :: "nat \<Rightarrow> u32 \<Rightarrow> u32" where
  "rotr n x = drop_bit n x OR push_bit (32 - n) x"

definition be32 :: "bytes \<Rightarrow> u32" where
  "be32 bs = fold (\<lambda>b acc. acc * 256 + of_nat b) bs 0"

text \<open>The message schedule, newest word first.\<close>

fun sha_schedule :: "nat \<Rightarrow> u32 list \<Rightarrow> u32 list" where
  "sha_schedule 0 w = w"
| "sha_schedule (Suc n) w =
     (let s0 = rotr 7 (w ! 14) XOR rotr 18 (w ! 14) XOR drop_bit 3 (w ! 14);
          s1 = rotr 17 (w ! 1) XOR rotr 19 (w ! 1) XOR drop_bit 10 (w ! 1)
      in sha_schedule n ((w ! 15 + s0 + w ! 6 + s1) # w))"

fun sha_round :: "u32 \<times> u32 \<Rightarrow> u32 list \<Rightarrow> u32 list" where
  "sha_round (k, w) [a, b, c, d, e, f, g, h] =
     (let t1 = h + (rotr 6 e XOR rotr 11 e XOR rotr 25 e) + (e AND f XOR (NOT e AND g)) + k + w;
          t2 = (rotr 2 a XOR rotr 13 a XOR rotr 22 a) + (a AND b XOR a AND c XOR b AND c)
      in [t1 + t2, a, b, c, d + t1, e, f, g])"
| "sha_round _ st = st"

fun chunks :: "nat \<Rightarrow> nat \<Rightarrow> 'a list \<Rightarrow> 'a list list" where
  "chunks 0 k xs = []"
| "chunks (Suc n) k xs = take k xs # chunks n k (drop k xs)"

definition sha_block :: "bytes \<Rightarrow> u32 list \<Rightarrow> u32 list" where
  "sha_block block st =
     (let w = rev (sha_schedule 48 (rev (map be32 (chunks 16 4 block))))
      in map2 (+) st (fold sha_round (zip sha_k w) st))"

definition sha_pad :: "bytes \<Rightarrow> bytes" where
  "sha_pad m =
     (let n = length m in
      m @ 128 # replicate ((119 - n mod 64) mod 64) 0 @
        map (\<lambda>i. 8 * n div 256 ^ (7 - i) mod 256) [0..<8])"

definition hex_digit :: "nat \<Rightarrow> uchar" where
  "hex_digit n = (if n < 10 then 48 + n else 87 + n)"

definition hex_word :: "u32 \<Rightarrow> ustr" where
  "hex_word x = map (\<lambda>i. hex_digit (unat x div 16 ^ (7 - i) mod 16)) [0..<8]"

definition sha256_hex :: "bytes \<Rightarrow> ustr" where
  "sha256_hex m =
     (let p = sha_pad m
      in concat (map hex_word (fold sha_block (chunks (length p div 64) 64 p) sha_init)))"

definition is_hex :: "uchar \<Rightarrow> bool" where
  "is_hex c \<longleftrightarrow> is_digit c \<or> 97 \<le> c \<and> c \<le> 102"

lemma hex_digit_is_hex: "n < 16 \<Longrightarrow> is_hex (hex_digit n)"
  by (auto simp: is_hex_def hex_digit_def is_digit_def)

lemma length_sha_round: "length (sha_round kw st) = length st"
  by (induction kw st rule: sha_round.induct) (simp_all add: Let_def)

lemma length_fold_sha_round: "length (fold sha_round kws st) = length st"
  by (induction kws arbitrary: st) (simp_all add: length_sha_round)

lemma length_sha_fold: "length (fold sha_block bs st) = length st"
  by (induction bs arbitrary: st) (simp_all add: sha_block_def Let_def length_fold_sha_round)

lemma length_sha256_hex [simp]: "length (sha256_hex m) = 64"
proof -
  have "length (concat (map hex_word ws)) = 8 * length ws" for ws
    by (induction ws) (simp_all add: hex_word_def)
  then show ?thesis
    by (simp add: sha256_hex_def Let_def length_sha_fold sha_init_def)
qed

lemma sha256_hex_is_hex: "c \<in> set (sha256_hex m) \<Longrightarrow> is_hex c"
  by (auto simp: sha256_hex_def Let_def hex_word_def intro!: hex_digit_is_hex)

end
