(* ===== verification/Json.thy ===== *)
theory Json imports Bytes "HOL-Library.Product_Lexorder" begin

text \<open>
  What the sources use of Python's \<open>json\<close>: the values \<open>json.loads\<close> returns, as a datatype, and
  \<open>json.dumps\<close> with \<open>sort_keys=True\<close>, compact or indented, with or without \<open>ensure_ascii\<close>.  An
  object is an association list with distinct keys; a floating-point number is kept as its
  \<open>repr\<close>, since the sources only test that it is not an integer or compare it with one.
\<close>

datatype json =
    JNull
  | JBool bool
  | JInt int
  | JFloat ustr
  | JStr ustr
  | JList "json list"
  | JObj "(ustr \<times> json) list"

type_synonym jobj = "(ustr \<times> json) list"

text \<open>\<open>isinstance(value, str)\<close> and its kin; \<open>type(value) is int\<close> excludes booleans.\<close>

fun as_str :: "json \<Rightarrow> ustr option" where
  "as_str (JStr s) = Some s" | "as_str _ = None"
fun as_int :: "json \<Rightarrow> int option" where
  "as_int (JInt i) = Some i" | "as_int _ = None"
fun as_bool :: "json \<Rightarrow> bool option" where
  "as_bool (JBool b) = Some b" | "as_bool _ = None"
fun as_list :: "json \<Rightarrow> json list option" where
  "as_list (JList xs) = Some xs" | "as_list _ = None"
fun as_obj :: "json \<Rightarrow> jobj option" where
  "as_obj (JObj kvs) = Some kvs" | "as_obj _ = None"

lemma as_str_Some [simp]: "as_str j = Some s \<longleftrightarrow> j = JStr s" by (cases j) auto
lemma as_int_Some [simp]: "as_int j = Some i \<longleftrightarrow> j = JInt i" by (cases j) auto
lemma as_bool_Some [simp]: "as_bool j = Some b \<longleftrightarrow> j = JBool b" by (cases j) auto
lemma as_list_Some [simp]: "as_list j = Some xs \<longleftrightarrow> j = JList xs" by (cases j) auto
lemma as_obj_Some [simp]: "as_obj j = Some kvs \<longleftrightarrow> j = JObj kvs" by (cases j) auto

definition hex4 :: "nat \<Rightarrow> ustr" where
  "hex4 n = map (\<lambda>i. hex_digit (n div 16 ^ (3 - i) mod 16)) [0..<4]"

definition u_escape :: "nat \<Rightarrow> ustr" where
  "u_escape n = [92, 117] @ hex4 n"

definition dump_char :: "bool \<Rightarrow> uchar \<Rightarrow> ustr" where
  "dump_char ascii c =
     (if c = 34 then [92, 34]
      else if c = 92 then [92, 92]
      else if c = 10 then [92, 110]
      else if c = 13 then [92, 114]
      else if c = 9 then [92, 116]
      else if c = 12 then [92, 102]
      else if c = 8 then [92, 98]
      else if c < 32 then u_escape c
      else if ascii \<and> 126 < c then
        (if c < 65536 then u_escape c
         else u_escape (55296 + (c - 65536) div 1024) @ u_escape (56320 + (c - 65536) mod 1024))
      else [c])"

definition dump_str :: "bool \<Rightarrow> ustr \<Rightarrow> ustr" where
  "dump_str ascii s = [34] @ concat (map (dump_char ascii) s) @ [34]"

definition dump_int :: "int \<Rightarrow> ustr" where
  "dump_int i = (if i < 0 then 45 # dec (nat (- i)) else dec (nat i))"

text \<open>\<open>sort_keys=True\<close>, at every level.\<close>

fun sort_keys :: "json \<Rightarrow> json" where
  "sort_keys (JObj kvs) = JObj (sort_key fst (map (\<lambda>(k, v). (k, sort_keys v)) kvs))"
| "sort_keys (JList xs) = JList (map sort_keys xs)"
| "sort_keys j = j"

text \<open>The compact form, \<open>separators=(",", ":")\<close>.\<close>

fun dump_compact :: "bool \<Rightarrow> json \<Rightarrow> ustr" where
  "dump_compact a JNull = lit ''null''"
| "dump_compact a (JBool b) = (if b then lit ''true'' else lit ''false'')"
| "dump_compact a (JInt i) = dump_int i"
| "dump_compact a (JFloat s) = s"
| "dump_compact a (JStr s) = dump_str a s"
| "dump_compact a (JList xs) = [91] @ join [44] (map (dump_compact a) xs) @ [93]"
| "dump_compact a (JObj kvs) =
     [123] @ join [44] (map (\<lambda>(k, v). dump_str a k @ [58] @ dump_compact a v) kvs) @ [125]"

text \<open>The indented form, \<open>indent=2\<close>; an empty list or object stays on one line.\<close>

definition newline_indent :: "nat \<Rightarrow> ustr" where
  "newline_indent n = 10 # replicate (2 * n) 32"

fun dump_indent :: "bool \<Rightarrow> nat \<Rightarrow> json \<Rightarrow> ustr" where
  "dump_indent a n JNull = lit ''null''"
| "dump_indent a n (JBool b) = (if b then lit ''true'' else lit ''false'')"
| "dump_indent a n (JInt i) = dump_int i"
| "dump_indent a n (JFloat s) = s"
| "dump_indent a n (JStr s) = dump_str a s"
| "dump_indent a n (JList xs) =
     (if xs = [] then [91, 93]
      else [91] @ newline_indent (Suc n) @
           join (44 # newline_indent (Suc n)) (map (dump_indent a (Suc n)) xs) @
           newline_indent n @ [93])"
| "dump_indent a n (JObj kvs) =
     (if kvs = [] then [123, 125]
      else [123] @ newline_indent (Suc n) @
           join (44 # newline_indent (Suc n))
             (map (\<lambda>(k, v). dump_str a k @ [58, 32] @ dump_indent a (Suc n) v) kvs) @
           newline_indent n @ [125])"


end
