(* ===== verification/Dcomp_System.thy ===== *)
theory Dcomp_System imports Paths Json begin

text \<open>
  \<open>src/cyclo/dcomp_system.py\<close>: the data Cyclo hands to DComp (endpoints, binds, volumes,
  published ports, components, links, the system), their validators, stable component names,
  and the two rendered file formats.  The abstract side is \<open>system_wf\<close>: a system whose
  links give every declared input exactly one provider output of the same service, and whose
  mount targets are disjoint trees.
\<close>

definition PROVIDER_SERVICE :: ustr where
  "PROVIDER_SERVICE = lit ''cyclo.provider.v1.Provider''"
definition DCOMP_COMPONENT_PORT :: int where "DCOMP_COMPONENT_PORT = 50051"

section \<open>Names, services and tokens\<close>

definition name_tail :: "uchar \<Rightarrow> bool" where
  "name_tail c \<longleftrightarrow> is_lower c \<or> is_digit c \<or> c = 45"

definition is_name :: "ustr \<Rightarrow> bool" where
  "is_name s \<longleftrightarrow> re_name is_lower name_tail 62 s"

definition dc_name :: "ustr \<Rightarrow> string \<Rightarrow> ustr res" where
  "dc_name value label =
     (if is_name value then Inr value
      else Inl (CycloError (''invalid DComp '' @ label @ '' name'')))"

definition ident_head :: "uchar \<Rightarrow> bool" where "ident_head c \<longleftrightarrow> is_alpha c \<or> c = 95"
definition ident_tail :: "uchar \<Rightarrow> bool" where "ident_tail c \<longleftrightarrow> is_alnum c \<or> c = 95"

text \<open>Two or more identifiers with dots between them.\<close>

definition is_service :: "ustr \<Rightarrow> bool" where
  "is_service s \<longleftrightarrow> 2 \<le> length (split_at 46 s) \<and>
     list_all (re_name_star ident_head ident_tail) (split_at 46 s)"

definition dc_service :: "ustr \<Rightarrow> ustr res" where
  "dc_service value =
     (if is_service value then Inr value else Inl (CycloError ''invalid protobuf service name''))"

definition is_token :: "ustr \<Rightarrow> bool" where
  "is_token s \<longleftrightarrow> s \<noteq> [] \<and> 35 \<notin> set s \<and> (\<forall>c\<in>set s. \<not> isspace c \<and> \<not> is_control c)"

definition dc_token :: "ustr \<Rightarrow> string \<Rightarrow> ustr res" where
  "dc_token value label =
     (if is_token value then Inr value
      else Inl (CycloError (label @ '' cannot be represented in a DComp file'')))"

text \<open>\<open>s[:room]\<close> for any integer: a negative bound counts from the end.\<close>

definition py_take :: "int \<Rightarrow> ustr \<Rightarrow> ustr" where
  "py_take room s = (if 0 \<le> room then take (nat room) s else take (nat (int (length s) + room)) s)"

definition component_name :: "ustr \<Rightarrow> ustr \<Rightarrow> ustr res" where
  "component_name kind identifier =
     rbind (dc_name kind ''component kind'') (\<lambda>_.
     let readable = strip_by (\<lambda>c. c = 45) (sub_runs name_tail 45 (lower identifier)) in
     rbind (utf8_encode identifier) (\<lambda>raw.
     let digest = take 10 (sha256_hex raw);
         room = 63 - int (length kind) - int (length digest) - 2;
         stem0 = rstrip_by (\<lambda>c. c = 45)
           (py_take room (if readable \<noteq> [] then readable else lit ''instance''));
         stem = (if stem0 \<noteq> [] then stem0 else lit ''instance'')
     in dc_name (kind @ [45] @ stem @ [45] @ digest) ''component''))"

section \<open>Endpoints, binds, volumes, ports\<close>

record endpoint =
  ep_service :: ustr
  ep_name :: ustr

record dc_bind =
  bd_source :: ppath
  bd_target :: ustr
  bd_read_only :: bool

record dc_volume =
  vol_name :: ustr
  vol_target :: ustr
  vol_read_only :: bool

record published_port =
  pp_host_ip :: ustr
  pp_host_port :: int
  pp_container_port :: int
  pp_protocol :: ustr

definition endpoint_validate :: "endpoint \<Rightarrow> unit res" where
  "endpoint_validate e =
     rbind (dc_service (ep_service e)) (\<lambda>_. rbind (dc_name (ep_name e) ''endpoint'') (\<lambda>_. Inr ()))"

definition container_path :: "ustr \<Rightarrow> ustr res" where
  "container_path value =
     rbind (dc_token value ''container path'') (\<lambda>_.
     let path = path_of value in
     if \<not> is_absolute path \<or> lit ''..'' \<in> set (parts path) \<or> value = lit ''/''
     then Inl (CycloError ''invalid DComp container path'') else Inr value)"

definition bind_validate :: "os_env \<Rightarrow> dc_bind \<Rightarrow> unit res" where
  "bind_validate os b =
     (let source = expanduser os (bd_source b) in
      case resolve_strict os source of
        None \<Rightarrow> Inl (CycloError ''DComp bind source does not exist'')
      | Some canonical \<Rightarrow>
          if canonical \<noteq> source then Inl (CycloError ''DComp bind source is not canonical'')
          else rbind (container_path (bd_target b)) (\<lambda>_. Inr ()))"

definition volume_validate :: "dc_volume \<Rightarrow> unit res" where
  "volume_validate v =
     rbind (dc_name (vol_name v) ''volume'') (\<lambda>_.
     rbind (container_path (vol_target v)) (\<lambda>_. Inr ()))"

definition port_validate :: "published_port \<Rightarrow> unit res" where
  "port_validate p =
     (if pp_protocol p \<notin> {lit ''tcp'', lit ''udp''}
      then Inl (CycloError ''invalid published-port protocol'')
      else rbind (dc_token (pp_host_ip p) ''published host address'') (\<lambda>_.
      if \<not> (0 \<le> pp_host_port p \<and> pp_host_port p \<le> 65535)
      then Inl (CycloError ''published host port must be between 0 and 65535'')
      else if \<not> (1 \<le> pp_container_port p \<and> pp_container_port p \<le> 65535)
      then Inl (CycloError ''published container port must be between 1 and 65535'')
      else Inr ()))"

section \<open>Components\<close>

record dc_component =
  co_name :: ustr
  co_image :: ustr
  co_inputs :: "endpoint list"
  co_outputs :: "endpoint list"
  co_binds :: "dc_bind list"
  co_volumes :: "dc_volume list"
  co_arguments :: "ustr list"
  co_ports :: "published_port list"
  co_egress :: bool

definition mount_targets :: "dc_component \<Rightarrow> ppath list" where
  "mount_targets c =
     map path_of (map bd_target (co_binds c) @ map vol_target (co_volumes c))"

definition targets_overlap :: "ppath \<Rightarrow> ppath \<Rightarrow> bool" where
  "targets_overlap left right \<longleftrightarrow>
     left = right \<or> in_parents left right \<or> in_parents right left"

definition component_validate :: "os_env \<Rightarrow> dc_component \<Rightarrow> unit res" where
  "component_validate os c =
     rbind (dc_name (co_name c) ''component'') (\<lambda>_.
     rbind (dc_token (co_image c) ''Docker image'') (\<lambda>_.
     rbind (checkE endpoint_validate (co_inputs c @ co_outputs c)) (\<lambda>_.
     rbind (ensure (card (ep_name ` set (co_inputs c)) = length (co_inputs c))
              (CycloError ''component has duplicate inputs'')) (\<lambda>_.
     rbind (ensure (card (ep_name ` set (co_outputs c)) = length (co_outputs c))
              (CycloError ''component has duplicate outputs'')) (\<lambda>_.
     rbind (checkE (bind_validate os) (co_binds c)) (\<lambda>_.
     rbind (checkE volume_validate (co_volumes c)) (\<lambda>_.
     rbind (checkE (\<lambda>(left, right).
              ensure (\<not> targets_overlap left right)
                (CycloError ''component has overlapping mount targets''))
              (pairs (mount_targets c))) (\<lambda>_.
     rbind (checkE (\<lambda>a. rbind (dc_token a ''component argument'') (\<lambda>_. Inr ()))
              (co_arguments c)) (\<lambda>_.
     rbind (checkE port_validate (co_ports c)) (\<lambda>_.
     ensure (co_ports c = [] \<or> co_egress c)
       (CycloError ''component publishes a port without egress'')))))))))))"

section \<open>Links and systems\<close>

record dc_link =
  lk_consumer :: ustr
  lk_input :: ustr
  lk_provider :: ustr
  lk_output :: ustr

record dc_system =
  sy_name :: ustr
  sy_components :: "dc_component list"
  sy_links :: "dc_link list"

definition link_validate_names :: "dc_link \<Rightarrow> unit res" where
  "link_validate_names l =
     checkE (\<lambda>(value, label). rbind (dc_name value label) (\<lambda>_. Inr ()))
       [(lk_consumer l, ''consumer''), (lk_input l, ''input''),
        (lk_provider l, ''provider''), (lk_output l, ''output'')]"

definition index_component ::
    "os_env \<Rightarrow> (ustr \<rightharpoonup> dc_component) \<Rightarrow> dc_component \<Rightarrow> (ustr \<rightharpoonup> dc_component) res" where
  "index_component os by_name c =
     rbind (component_validate os c) (\<lambda>_.
     if by_name (co_name c) \<noteq> None then Inl (CycloError ''duplicate DComp component'')
     else Inr (by_name(co_name c \<mapsto> c)))"

definition find_endpoint :: "ustr \<Rightarrow> endpoint list \<Rightarrow> endpoint option" where
  "find_endpoint n es = find (\<lambda>e. ep_name e = n) es"

definition check_link ::
    "(ustr \<rightharpoonup> dc_component) \<Rightarrow> (ustr \<times> ustr) set \<Rightarrow> dc_link \<Rightarrow> (ustr \<times> ustr) set res" where
  "check_link by_name linked l =
     rbind (link_validate_names l) (\<lambda>_.
     case (by_name (lk_consumer l), by_name (lk_provider l)) of
       (Some consumer, Some provider) \<Rightarrow>
         (case (find_endpoint (lk_input l) (co_inputs consumer),
                find_endpoint (lk_output l) (co_outputs provider)) of
            (Some i, Some out) \<Rightarrow>
              if ep_service i \<noteq> ep_service out
              then Inl (CycloError ''DComp link service mismatch'')
              else if (lk_consumer l, lk_input l) \<in> linked
              then Inl (CycloError ''DComp input is linked more than once'')
              else Inr (insert (lk_consumer l, lk_input l) linked)
          | _ \<Rightarrow> Inl (CycloError ''DComp link references an unknown endpoint''))
     | _ \<Rightarrow> Inl (CycloError ''DComp link references an unknown component''))"

definition expected_inputs :: "dc_component list \<Rightarrow> (ustr \<times> ustr) set" where
  "expected_inputs cs = (\<Union>c\<in>set cs. (\<lambda>e. (co_name c, ep_name e)) ` set (co_inputs c))"

definition system_validate :: "os_env \<Rightarrow> dc_system \<Rightarrow> unit res" where
  "system_validate os s =
     rbind (dc_name (sy_name s) ''system'') (\<lambda>_.
     rbind (ensure (sy_components s \<noteq> [])
       (CycloError ''a DComp system must contain at least one component'')) (\<lambda>_.
     rbind (foldE (index_component os) Map.empty (sy_components s)) (\<lambda>by_name.
     rbind (foldE (check_link by_name) {} (sy_links s)) (\<lambda>linked.
     ensure (expected_inputs (sy_components s) - linked = {})
       (CycloError ''unlinked DComp input(s)'')))))"

section \<open>What the validators decide\<close>

definition endpoint_wf :: "endpoint \<Rightarrow> bool" where
  "endpoint_wf e \<longleftrightarrow> is_service (ep_service e) \<and> is_name (ep_name e)"

definition target_wf :: "ustr \<Rightarrow> bool" where
  "target_wf t \<longleftrightarrow> is_token t \<and> is_absolute (path_of t) \<and>
     lit ''..'' \<notin> set (parts (path_of t)) \<and> t \<noteq> lit ''/''"

definition bind_wf :: "os_env \<Rightarrow> dc_bind \<Rightarrow> bool" where
  "bind_wf os b \<longleftrightarrow>
     resolve_strict os (expanduser os (bd_source b)) = Some (expanduser os (bd_source b)) \<and>
     target_wf (bd_target b)"

definition volume_wf :: "dc_volume \<Rightarrow> bool" where
  "volume_wf v \<longleftrightarrow> is_name (vol_name v) \<and> target_wf (vol_target v)"

definition port_wf :: "published_port \<Rightarrow> bool" where
  "port_wf p \<longleftrightarrow> pp_protocol p \<in> {lit ''tcp'', lit ''udp''} \<and> is_token (pp_host_ip p) \<and>
     0 \<le> pp_host_port p \<and> pp_host_port p \<le> 65535 \<and>
     1 \<le> pp_container_port p \<and> pp_container_port p \<le> 65535"

definition component_wf :: "os_env \<Rightarrow> dc_component \<Rightarrow> bool" where
  "component_wf os c \<longleftrightarrow>
     is_name (co_name c) \<and> is_token (co_image c) \<and>
     (\<forall>e\<in>set (co_inputs c) \<union> set (co_outputs c). endpoint_wf e) \<and>
     distinct (map ep_name (co_inputs c)) \<and> distinct (map ep_name (co_outputs c)) \<and>
     (\<forall>b\<in>set (co_binds c). bind_wf os b) \<and> (\<forall>v\<in>set (co_volumes c). volume_wf v) \<and>
     (\<forall>i<length (mount_targets c). \<forall>j<length (mount_targets c).
        i \<noteq> j \<longrightarrow> \<not> overlap_lexical (mount_targets c ! i) (mount_targets c ! j)) \<and>
     (\<forall>a\<in>set (co_arguments c). is_token a) \<and>
     (\<forall>p\<in>set (co_ports c). port_wf p) \<and> (co_ports c = [] \<or> co_egress c)"

definition link_key :: "dc_link \<Rightarrow> ustr \<times> ustr" where
  "link_key l = (lk_consumer l, lk_input l)"

text \<open>A link joins a declared input to a declared output of the same service.\<close>

definition link_resolves :: "dc_component list \<Rightarrow> dc_link \<Rightarrow> bool" where
  "link_resolves cs l \<longleftrightarrow>
     (\<exists>c\<in>set cs. \<exists>p\<in>set cs. \<exists>i\<in>set (co_inputs c). \<exists>out\<in>set (co_outputs p).
        co_name c = lk_consumer l \<and> co_name p = lk_provider l \<and>
        ep_name i = lk_input l \<and> ep_name out = lk_output l \<and> ep_service i = ep_service out)"

definition system_wf :: "os_env \<Rightarrow> dc_system \<Rightarrow> bool" where
  "system_wf os s \<longleftrightarrow>
     is_name (sy_name s) \<and> sy_components s \<noteq> [] \<and>
     (\<forall>c\<in>set (sy_components s). component_wf os c) \<and>
     distinct (map co_name (sy_components s)) \<and>
     (\<forall>l\<in>set (sy_links s). link_resolves (sy_components s) l) \<and>
     distinct (map link_key (sy_links s)) \<and>
     expected_inputs (sy_components s) \<subseteq> link_key ` set (sy_links s)"

lemma dc_name_Inr [simp, res_simps]: "dc_name v l = Inr w \<longleftrightarrow> is_name v \<and> w = v"
  by (auto simp: dc_name_def)

lemma dc_service_Inr [simp, res_simps]: "dc_service v = Inr w \<longleftrightarrow> is_service v \<and> w = v"
  by (auto simp: dc_service_def)

lemma dc_token_Inr [simp, res_simps]: "dc_token v l = Inr w \<longleftrightarrow> is_token v \<and> w = v"
  by (auto simp: dc_token_def)

lemma container_path_Inr [simp, res_simps]:
  "container_path v = Inr w \<longleftrightarrow> target_wf v \<and> w = v"
  by (auto simp: container_path_def target_wf_def Let_def)

interpretation endpoint_checker: checker endpoint_validate endpoint_wf
  by unfold_locales (auto simp: endpoint_validate_def endpoint_wf_def)

interpretation bind_checker: checker "bind_validate os" "bind_wf os" for os
  by unfold_locales (auto simp: bind_validate_def bind_wf_def Let_def split: option.splits)

interpretation volume_checker: checker volume_validate volume_wf
  by unfold_locales (auto simp: volume_validate_def volume_wf_def)

interpretation port_checker: checker port_validate port_wf
  by unfold_locales (auto simp: port_validate_def port_wf_def)

lemma targets_overlap_lexical: "targets_overlap p q = overlap_lexical p q"
  by (auto simp: targets_overlap_def overlap_lexical_def in_parents_iff)

lemma mount_targets_disjoint:
  "checkE (\<lambda>(l, r). ensure (\<not> targets_overlap l r) e) (pairs ts) = Inr u \<longleftrightarrow>
     (\<forall>i<length ts. \<forall>j<length ts. i \<noteq> j \<longrightarrow> \<not> overlap_lexical (ts ! i) (ts ! j))"
proof -
  have "checkE (\<lambda>(l, r). ensure (\<not> targets_overlap l r) e) (pairs ts) = Inr u \<longleftrightarrow>
      (\<forall>(l, r)\<in>set (pairs ts). \<not> overlap_lexical l r)"
    by (auto simp: targets_overlap_lexical)
  also have "\<dots> \<longleftrightarrow> (\<forall>i<length ts. \<forall>j<length ts. i \<noteq> j \<longrightarrow> \<not> overlap_lexical (ts ! i) (ts ! j))"
    by (rule pairs_pairwise) (simp add: lexical.overlap_sym)
  finally show ?thesis .
qed

interpretation component_checker: checker "component_validate os" "component_wf os" for os
proof
  fix c u
  have args: "checkE (\<lambda>a. rbind (dc_token a ''component argument'') (\<lambda>_. Inr ())) xs = Inr v \<longleftrightarrow>
      (\<forall>a\<in>set xs. is_token a)" for xs v
    by auto
  show "component_validate os c = Inr u \<longleftrightarrow> component_wf os c"
    by (simp add: component_validate_def component_wf_def mount_targets_disjoint args
        endpoint_checker.check_all bind_checker.check_all volume_checker.check_all
        port_checker.check_all distinct_length_card_map ball_Un conj_assoc del: checkE_Inr)
qed

section \<open>Link resolution\<close>

lemma index_component_Inr:
  "index_component os m c = Inr m' \<longleftrightarrow>
     component_wf os c \<and> m (co_name c) = None \<and> m' = m(co_name c \<mapsto> c)"
  by (auto simp: index_component_def component_checker.check_iff split: if_splits)

lemma index_components:
  assumes "foldE (index_component os) m cs = Inr m'"
  shows "(\<forall>c\<in>set cs. component_wf os c \<and> m (co_name c) = None) \<and> distinct (map co_name cs) \<and>
    (\<forall>n c. m' n = Some c \<longleftrightarrow> m n = Some c \<or> c \<in> set cs \<and> co_name c = n)"
  using assms
proof (induction cs arbitrary: m)
  case (Cons c cs)
  let ?m = "m(co_name c \<mapsto> c)"
  from Cons.prems have c: "component_wf os c" "m (co_name c) = None"
    and rest: "foldE (index_component os) ?m cs = Inr m'"
    by (auto simp: index_component_Inr)
  have IH: "\<forall>d\<in>set cs. component_wf os d \<and> ?m (co_name d) = None" "distinct (map co_name cs)"
    "\<forall>n d. m' n = Some d \<longleftrightarrow> ?m n = Some d \<or> d \<in> set cs \<and> co_name d = n"
    using Cons.IH [OF rest] by blast+
  have new: "co_name d \<noteq> co_name c" "m (co_name d) = None" if "d \<in> set cs" for d
    using IH(1) that by (auto split: if_splits)
  have "?m n = Some d \<longleftrightarrow> m n = Some d \<or> d = c \<and> co_name c = n" for n d
    using c(2) by auto
  then have "\<forall>n d. m' n = Some d \<longleftrightarrow> m n = Some d \<or> d \<in> set (c # cs) \<and> co_name d = n"
    using IH(3) by auto
  moreover have "distinct (map co_name (c # cs))" using IH(2) new(1) by fastforce
  ultimately show ?case using IH(1) c new(2) by auto
qed simp

lemma index_components_ok:
  assumes "\<forall>c\<in>set cs. component_wf os c \<and> m (co_name c) = None" "distinct (map co_name cs)"
  shows "\<exists>m'. foldE (index_component os) m cs = Inr m'"
  using assms
proof (induction cs arbitrary: m)
  case (Cons c cs)
  have c: "index_component os m c = Inr (m(co_name c \<mapsto> c))"
    using Cons.prems by (auto simp: index_component_Inr)
  have "\<exists>m'. foldE (index_component os) (m(co_name c \<mapsto> c)) cs = Inr m'"
    using Cons.prems by (intro Cons.IH) (auto simp: image_iff)
  then show ?case by (simp add: c)
qed simp

lemma find_endpoint_Some:
  assumes "distinct (map ep_name es)"
  shows "find_endpoint n es = Some e \<longleftrightarrow> e \<in> set es \<and> ep_name e = n"
  using find_Some_unique [OF assms, of e]
  by (auto simp: find_endpoint_def dest: find_SomeD)

text \<open>Under an index of well-formed components, a link is accepted exactly when it resolves.\<close>

lemma check_link_Inr:
  assumes idx: "\<And>n c. by_name n = Some c \<longleftrightarrow> c \<in> set cs \<and> co_name c = n"
    and wf: "\<forall>c\<in>set cs. component_wf os c"
  shows "check_link by_name linked l = Inr linked' \<longleftrightarrow>
    link_resolves cs l \<and> link_key l \<notin> linked \<and> linked' = insert (link_key l) linked"
proof -
  have eps: "find_endpoint n (co_inputs c) = Some e \<longleftrightarrow> e \<in> set (co_inputs c) \<and> ep_name e = n"
    "find_endpoint n (co_outputs c) = Some e \<longleftrightarrow> e \<in> set (co_outputs c) \<and> ep_name e = n"
    if "c \<in> set cs" for c n e
    using wf that by (auto simp: find_endpoint_Some component_wf_def)
  have names: "link_validate_names l = Inr ()" if "link_resolves cs l"
  proof -
    obtain c p i out where "c \<in> set cs" "p \<in> set cs" "i \<in> set (co_inputs c)"
        "out \<in> set (co_outputs p)" and eq: "lk_consumer l = co_name c" "lk_provider l = co_name p"
        "lk_input l = ep_name i" "lk_output l = ep_name out"
      using \<open>link_resolves cs l\<close> unfolding link_resolves_def by metis
    then have "is_name (co_name c)" "is_name (co_name p)" "is_name (ep_name i)" "is_name (ep_name out)"
      using wf by (auto simp: component_wf_def endpoint_wf_def)
    then show ?thesis by (simp add: link_validate_names_def eq)
  qed
  show ?thesis
  proof
    assume "check_link by_name linked l = Inr linked'"
    then obtain c p i out where *: "by_name (lk_consumer l) = Some c" "by_name (lk_provider l) = Some p"
        "find_endpoint (lk_input l) (co_inputs c) = Some i"
        "find_endpoint (lk_output l) (co_outputs p) = Some out" "ep_service i = ep_service out"
        "link_key l \<notin> linked" "linked' = insert (link_key l) linked"
      by (auto simp: check_link_def link_key_def split: option.splits if_splits)
    then show "link_resolves cs l \<and> link_key l \<notin> linked \<and> linked' = insert (link_key l) linked"
      unfolding link_resolves_def using idx eps by blast
  next
    assume *: "link_resolves cs l \<and> link_key l \<notin> linked \<and> linked' = insert (link_key l) linked"
    obtain c p i out where r: "c \<in> set cs" "p \<in> set cs" "i \<in> set (co_inputs c)"
        "out \<in> set (co_outputs p)" "co_name c = lk_consumer l" "co_name p = lk_provider l"
        "ep_name i = lk_input l" "ep_name out = lk_output l" "ep_service i = ep_service out"
      using * unfolding link_resolves_def by metis
    from r have "by_name (lk_consumer l) = Some c" "by_name (lk_provider l) = Some p"
        "find_endpoint (lk_input l) (co_inputs c) = Some i"
        "find_endpoint (lk_output l) (co_outputs p) = Some out"
      by (simp_all add: idx eps)
    then show "check_link by_name linked l = Inr linked'"
      using * names r(9) by (simp add: check_link_def link_key_def)
  qed
qed

lemma check_links_Inr:
  assumes idx: "\<And>n c. by_name n = Some c \<longleftrightarrow> c \<in> set cs \<and> co_name c = n"
    and wf: "\<forall>c\<in>set cs. component_wf os c"
  shows "foldE (check_link by_name) linked ls = Inr linked' \<longleftrightarrow>
    (\<forall>l\<in>set ls. link_resolves cs l \<and> link_key l \<notin> linked) \<and> distinct (map link_key ls) \<and>
    linked' = linked \<union> link_key ` set ls"
proof (induction ls arbitrary: linked)
  case (Cons l ls)
  have "foldE (check_link by_name) linked (l # ls) = Inr linked' \<longleftrightarrow>
      link_resolves cs l \<and> link_key l \<notin> linked \<and>
      foldE (check_link by_name) (insert (link_key l) linked) ls = Inr linked'"
    by (auto simp: check_link_Inr [OF idx wf])
  also have "\<dots> \<longleftrightarrow> (\<forall>k\<in>set (l # ls). link_resolves cs k \<and> link_key k \<notin> linked) \<and>
      distinct (map link_key (l # ls)) \<and> linked' = linked \<union> link_key ` set (l # ls)"
    unfolding Cons.IH by (auto simp: image_iff)
  finally show ?case .
qed auto

lemma system_validate_iff: "system_validate os s = Inr u \<longleftrightarrow> system_wf os s"
proof -
  let ?cs = "sy_components s"
  have "(\<exists>by_name. foldE (index_component os) Map.empty ?cs = Inr by_name \<and>
      (\<exists>linked. foldE (check_link by_name) {} (sy_links s) = Inr linked \<and>
        expected_inputs ?cs - linked = {})) \<longleftrightarrow>
    (\<forall>c\<in>set ?cs. component_wf os c) \<and> distinct (map co_name ?cs) \<and>
      (\<forall>l\<in>set (sy_links s). link_resolves ?cs l) \<and> distinct (map link_key (sy_links s)) \<and>
      expected_inputs ?cs \<subseteq> link_key ` set (sy_links s)" (is "?L \<longleftrightarrow> ?R")
  proof
    assume ?L
    then obtain by_name linked where
      ix: "foldE (index_component os) Map.empty ?cs = Inr by_name" and
      lk: "foldE (check_link by_name) {} (sy_links s) = Inr linked" and
      ex: "expected_inputs ?cs - linked = {}" by blast
    from index_components [OF ix]
    have wf: "\<forall>c\<in>set ?cs. component_wf os c" "distinct (map co_name ?cs)"
      and idx: "\<And>n c. by_name n = Some c \<longleftrightarrow> c \<in> set ?cs \<and> co_name c = n" by auto
    show ?R using lk ex wf unfolding check_links_Inr [OF idx wf(1)] by blast
  next
    assume R: ?R
    then obtain by_name where ix: "foldE (index_component os) Map.empty ?cs = Inr by_name"
      using index_components_ok [of ?cs os Map.empty] by auto
    from index_components [OF ix]
    have wf: "\<forall>c\<in>set ?cs. component_wf os c"
      and idx: "\<And>n c. by_name n = Some c \<longleftrightarrow> c \<in> set ?cs \<and> co_name c = n" by auto
    have "foldE (check_link by_name) {} (sy_links s) = Inr (link_key ` set (sy_links s))"
      unfolding check_links_Inr [OF idx wf] using R by auto
    then show ?L using ix R by blast
  qed
  then show ?thesis unfolding system_validate_def system_wf_def by simp
qed

interpretation system_checker: checker "system_validate os" "system_wf os" for os
  by unfold_locales (rule system_validate_iff)

text \<open>\<open>System.validate\<close> decides \<open>system_wf\<close>: it returns exactly for the systems with a valid name,
  at least one component, well-formed components of distinct names, links that each join a
  declared input to a declared output of the same service, no input linked twice and none
  left unlinked.\<close>

theorem system_validate_wf: "system_validate os s = Inr u \<longleftrightarrow> system_wf os s"
  by (rule system_checker.check_iff)

text \<open>In a system that validates, each declared input of a component has exactly one link, and
  that link leads to a declared output of the same service.\<close>

theorem validated_input_unique:
  assumes "system_validate os s = Inr u" and "c \<in> set (sy_components s)" and "i \<in> set (co_inputs c)"
  shows "(\<exists>!l. l \<in> set (sy_links s) \<and> link_key l = (co_name c, ep_name i)) \<and>
    (\<forall>l\<in>set (sy_links s). link_key l = (co_name c, ep_name i) \<longrightarrow>
      (\<exists>p\<in>set (sy_components s). \<exists>out\<in>set (co_outputs p).
        co_name p = lk_provider l \<and> ep_name out = lk_output l \<and> ep_service out = ep_service i))"
proof -
  have wf: "system_wf os s" using assms(1) by (simp add: system_validate_iff)
  let ?k = "(co_name c, ep_name i)"
  have "?k \<in> expected_inputs (sy_components s)"
    using assms(2,3) by (auto simp: expected_inputs_def)
  then obtain l where l: "l \<in> set (sy_links s)" "link_key l = ?k"
    using wf by (auto simp: system_wf_def)
  have "inj_on link_key (set (sy_links s))" using wf by (simp add: system_wf_def distinct_map)
  then have "\<exists>!l. l \<in> set (sy_links s) \<and> link_key l = ?k" using l by (metis inj_onD)
  moreover have "\<exists>p\<in>set (sy_components s). \<exists>out\<in>set (co_outputs p).
        co_name p = lk_provider k \<and> ep_name out = lk_output k \<and> ep_service out = ep_service i"
    if k: "k \<in> set (sy_links s)" "link_key k = ?k" for k
  proof -
    have "link_resolves (sy_components s) k" using wf k(1) by (simp add: system_wf_def)
    then obtain c' p i' out where r: "c' \<in> set (sy_components s)" "p \<in> set (sy_components s)"
      "i' \<in> set (co_inputs c')" "out \<in> set (co_outputs p)" "co_name c' = co_name c"
      "co_name p = lk_provider k" "ep_name i' = ep_name i" "ep_name out = lk_output k"
      "ep_service i' = ep_service out"
      using k(2) by (auto simp: link_resolves_def link_key_def)
    have "c' = c" using wf r(1,5) assms(2) by (auto simp: system_wf_def distinct_map dest: inj_onD)
    moreover have "distinct (map ep_name (co_inputs c))"
      using wf assms(2) by (auto simp: system_wf_def component_wf_def)
    ultimately have "i' = i" using r(3,7) assms(3) by (auto simp: distinct_map dest: inj_onD)
    then show ?thesis using r by auto
  qed
  ultimately show ?thesis by blast
qed

definition ex_sys_os :: os_env where
  "ex_sys_os = \<lparr>resolve_strict = Some, resolve_lax = (\<lambda>p. p), expanduser = (\<lambda>p. p),
     cwd = path_of (lit ''/''), is_dir = (\<lambda>p. True), read_nofollow = (\<lambda>p. Missing)\<rparr>"

definition ex_provider :: endpoint where
  "ex_provider = \<lparr>ep_service = PROVIDER_SERVICE, ep_name = lit ''provider''\<rparr>"

definition ex_team :: dc_component where
  "ex_team = \<lparr>co_name = lit ''team-a'', co_image = lit ''img'', co_inputs = [ex_provider],
     co_outputs = [], co_binds = [\<lparr>bd_source = path_of (lit ''/srv/a''), bd_target = lit ''/workspace'',
       bd_read_only = True\<rparr>], co_volumes = [], co_arguments = [lit ''--x''], co_ports = [],
     co_egress = False\<rparr>"

definition ex_linked :: dc_system where
  "ex_linked = \<lparr>sy_name = lit ''cyclo'', sy_components = [ex_team,
     \<lparr>co_name = lit ''gateway'', co_image = lit ''gw'', co_inputs = [], co_outputs = [ex_provider],
       co_binds = [], co_volumes = [], co_arguments = [], co_ports = [], co_egress = True\<rparr>],
     sy_links = [\<lparr>lk_consumer = lit ''team-a'', lk_input = lit ''provider'',
       lk_provider = lit ''gateway'', lk_output = lit ''provider''\<rparr>]\<rparr>"

lemma validated_input_unique_witness:
  "\<exists>!l. l \<in> set (sy_links ex_linked) \<and> link_key l = (lit ''team-a'', lit ''provider'')"
proof -
  have "system_validate ex_sys_os ex_linked = Inr ()" by code_simp
  moreover have "ex_team \<in> set (sy_components ex_linked)" by (simp add: ex_linked_def)
  moreover have "ex_provider \<in> set (co_inputs ex_team)" by (simp add: ex_team_def)
  ultimately show ?thesis
    using validated_input_unique [of ex_sys_os ex_linked "()" ex_team ex_provider]
    by (simp add: ex_team_def ex_provider_def)
qed

section \<open>Component names\<close>

lemma set_strip_by: "set (strip_by P s) \<subseteq> set s"
proof -
  have "set (strip_by P s) \<subseteq> set (dropWhile P s)" unfolding strip_by_def by (rule set_rstrip_by)
  also have "\<dots> \<subseteq> set s" by (rule set_dropWhile_subset)
  finally show ?thesis .
qed

lemma strip_by_hd:
  assumes "strip_by P s \<noteq> []"
  shows "\<not> P (hd (strip_by P s))"
proof -
  obtain t where t: "dropWhile P s = strip_by P s @ t"
    using rstrip_by_prefix [of "dropWhile P s" P] by (auto simp: strip_by_def)
  then have "dropWhile P s \<noteq> []" using assms by simp
  then have "\<not> P (hd (dropWhile P s))" by (simp add: hd_dropWhile)
  then show ?thesis using t assms by (metis hd_append2)
qed

lemma py_take_set: "set (py_take n s) \<subseteq> set s"
  unfolding py_take_def by (auto dest: in_set_takeD)

lemma py_take_length: "0 \<le> n \<Longrightarrow> int (length (py_take n s)) \<le> n"
  by (auto simp: py_take_def)

lemma py_take_hd: "0 < n \<Longrightarrow> s \<noteq> [] \<Longrightarrow> py_take n s \<noteq> [] \<and> hd (py_take n s) = hd s"
  by (auto simp: py_take_def hd_take)

lemma is_hex_name_tail: "is_hex c \<Longrightarrow> name_tail c"
  by (auto simp: is_hex_def name_tail_def ascii_defs)

lemma instance_tail: "c \<in> set (lit ''instance'') \<Longrightarrow> name_tail c" "hd (lit ''instance'') \<noteq> 45"
  by (auto simp: lit_def name_tail_def ascii_defs)

definition name_stem :: "int \<Rightarrow> ustr \<Rightarrow> ustr" where
  "name_stem room identifier =
    (let readable = strip_by (\<lambda>c. c = 45) (sub_runs name_tail 45 (lower identifier));
         stem0 = rstrip_by (\<lambda>c. c = 45)
           (py_take room (if readable \<noteq> [] then readable else lit ''instance''))
     in if stem0 \<noteq> [] then stem0 else lit ''instance'')"

lemma name_stem_tail: "c \<in> set (name_stem room i) \<Longrightarrow> name_tail c"
proof -
  let ?r = "strip_by (\<lambda>c. c = 45) (sub_runs name_tail 45 (lower i))"
  have r: "c \<in> set ?r \<Longrightarrow> name_tail c" for c
    using set_strip_by [of "\<lambda>c. c = 45"] set_sub_runs [of c name_tail 45 "lower i"]
    by (auto simp: name_tail_def)
  have "set (rstrip_by P (py_take room s)) \<subseteq> set s" for P s
    using set_rstrip_by py_take_set by (rule order_trans)
  then show "c \<in> set (name_stem room i) \<Longrightarrow> name_tail c"
    using r instance_tail(1) by (auto simp: name_stem_def Let_def split: if_splits)
qed

lemma name_stem_not_Nil: "name_stem room i \<noteq> []"
  by (auto simp: name_stem_def Let_def)

lemma name_stem_length:
  assumes "0 < room"
  shows "int (length (name_stem room i)) \<le> room"
proof -
  let ?r = "strip_by (\<lambda>c. c = 45) (sub_runs name_tail 45 (lower i))"
  let ?s = "if ?r \<noteq> [] then ?r else lit ''instance''"
  let ?t = "rstrip_by (\<lambda>c. c = 45) (py_take room ?s)"
  have "?s \<noteq> []" "hd ?s \<noteq> 45" using strip_by_hd instance_tail(2) by auto
  then have "?t \<noteq> []"
    using py_take_hd [OF assms] by (intro rstrip_by_not_Nil) simp_all
  moreover have "int (length ?t) \<le> int (length (py_take room ?s))" 
    by (simp add: rstrip_by_length)
  moreover have "int (length (py_take room ?s)) \<le> room" using assms by (intro py_take_length) simp
  ultimately show ?thesis by (simp add: name_stem_def Let_def)
qed

lemma component_name_stem:
  "component_name kind i = rbind (dc_name kind ''component kind'') (\<lambda>_.
     rbind (utf8_encode i) (\<lambda>raw.
     dc_name (kind @ [45] @ name_stem (51 - int (length kind)) i @ [45] @ take 10 (sha256_hex raw))
       ''component''))"
  by (simp add: component_name_def name_stem_def Let_def)

lemma name_append_iff:
  assumes "is_name kind" "\<forall>c\<in>set s. name_tail c"
  shows "is_name (kind @ s) \<longleftrightarrow> length kind + length s \<le> 63"
  using assms by (cases kind) (auto simp: is_name_def re_name_def list_all_iff)

lemma component_name_ok:
  "is_ok (component_name kind identifier) \<longleftrightarrow>
     is_name kind \<and> length kind \<le> 50 \<and> is_ok (utf8_encode identifier)"
proof -
  let ?stem = "name_stem (51 - int (length kind)) identifier"
  have tail: "\<forall>c\<in>set ([45] @ ?stem @ [45] @ take 10 (sha256_hex raw)). name_tail c" for raw
  proof -
    have "name_tail c" if "c \<in> set (take 10 (sha256_hex raw))" for c
      by (rule is_hex_name_tail, rule sha256_hex_is_hex, rule in_set_takeD, rule that)
    moreover have "name_tail 45" by (simp add: name_tail_def)
    ultimately show ?thesis using name_stem_tail by auto
  qed
  have len: "length kind + length ([45] @ ?stem @ [45] @ take 10 (sha256_hex raw)) \<le> 63
      \<longleftrightarrow> length kind \<le> 50" for raw
  proof -
    have "0 < length ?stem" using name_stem_not_Nil by simp
    moreover have "length kind + length ([45] @ ?stem @ [45] @ take 10 (sha256_hex raw)) =
        length kind + length ?stem + 12" by simp
    moreover have "length kind \<le> 50 \<Longrightarrow> int (length ?stem) \<le> 51 - int (length kind)"
      by (rule name_stem_length) simp
    ultimately show ?thesis by linarith
  qed
  have "is_name (kind @ [45] @ ?stem @ [45] @ take 10 (sha256_hex raw)) \<longleftrightarrow> length kind \<le> 50"
    if "is_name kind" for raw
    using name_append_iff [OF that tail [of raw]] len by simp
  then show ?thesis
    by (auto simp: component_name_stem is_ok_iff)
qed

text \<open>A stable component name can be made from every identifier that is encodable (whatever
  its characters and length), exactly for the kinds of at most 50 characters; what is made is
  always a valid DComp name of at most 63 characters.\<close>

theorem component_name_total:
  "is_ok (component_name kind identifier) \<longleftrightarrow>
     is_name kind \<and> length kind \<le> 50 \<and> is_ok (utf8_encode identifier)"
  by (rule component_name_ok)

end
