(* ===== verification/Dcomp_Render.thy ===== *)
theory Dcomp_Render imports Dcomp_System "HOL-Library.AList" begin

text \<open>
  The second half of \<open>src/cyclo/dcomp_system.py\<close>: the digest of a system, the two rendered
  files, and the \<open>Materializer\<close>, which publishes them under a root directory.

  The part of the file system the materializer owns is a record \<open>dstore\<close>: the entries of
  \<open>descriptors/\<close>, in listing order, and the selected system file.  Each operation returns the
  list of the atomic changes it makes (\<open>dop\<close>) beside its result, so that a process death
  after any of them is a prefix of the list.
\<close>

section \<open>Orders\<close>

text \<open>The tuples the \<open>order=True\<close> data classes compare; a path compares by its segments.\<close>

definition path_key :: "ppath \<Rightarrow> ustr list" where
  "path_key p = split_at 47 (path_str p)"

definition endpoint_key :: "endpoint \<Rightarrow> ustr \<times> ustr" where
  "endpoint_key e = (ep_service e, ep_name e)"

definition bind_key :: "dc_bind \<Rightarrow> ustr list \<times> ustr \<times> bool" where
  "bind_key b = (path_key (bd_source b), bd_target b, bd_read_only b)"

definition volume_key :: "dc_volume \<Rightarrow> ustr \<times> ustr \<times> bool" where
  "volume_key v = (vol_name v, vol_target v, vol_read_only v)"

definition port_key :: "published_port \<Rightarrow> ustr \<times> int \<times> int \<times> ustr" where
  "port_key p = (pp_host_ip p, pp_host_port p, pp_container_port p, pp_protocol p)"

definition link_order :: "dc_link \<Rightarrow> ustr \<times> ustr \<times> ustr \<times> ustr" where
  "link_order l = (lk_consumer l, lk_input l, lk_provider l, lk_output l)"

section \<open>The digest\<close>

definition endpoint_json :: "endpoint \<Rightarrow> json" where
  "endpoint_json e = JObj [(lit ''service'', JStr (ep_service e)), (lit ''name'', JStr (ep_name e))]"

definition bind_json :: "dc_bind \<Rightarrow> json" where
  "bind_json b = JObj [(lit ''source'', JStr (path_str (bd_source b))),
     (lit ''target'', JStr (bd_target b)), (lit ''read_only'', JBool (bd_read_only b))]"

definition volume_json :: "dc_volume \<Rightarrow> json" where
  "volume_json v = JObj [(lit ''name'', JStr (vol_name v)),
     (lit ''target'', JStr (vol_target v)), (lit ''read_only'', JBool (vol_read_only v))]"

definition port_json :: "published_port \<Rightarrow> json" where
  "port_json p = JObj [(lit ''host_ip'', JStr (pp_host_ip p)),
     (lit ''host_port'', JInt (pp_host_port p)),
     (lit ''container_port'', JInt (pp_container_port p)), (lit ''protocol'', JStr (pp_protocol p))]"

definition component_json :: "dc_component \<Rightarrow> json" where
  "component_json c = JObj
     [(lit ''name'', JStr (co_name c)), (lit ''image'', JStr (co_image c)),
      (lit ''inputs'', JList (map endpoint_json (co_inputs c))),
      (lit ''outputs'', JList (map endpoint_json (co_outputs c))),
      (lit ''binds'', JList (map bind_json (co_binds c))),
      (lit ''volumes'', JList (map volume_json (co_volumes c))),
      (lit ''arguments'', JList (map JStr (co_arguments c))),
      (lit ''ports'', JList (map port_json (co_ports c))), (lit ''egress'', JBool (co_egress c))]"

definition link_json :: "dc_link \<Rightarrow> json" where
  "link_json l = JObj [(lit ''consumer'', JStr (lk_consumer l)), (lit ''input'', JStr (lk_input l)),
     (lit ''provider'', JStr (lk_provider l)), (lit ''output'', JStr (lk_output l))]"

definition system_json :: "dc_system \<Rightarrow> json" where
  "system_json s = JObj [(lit ''name'', JStr (sy_name s)),
     (lit ''components'', JList (map component_json (sy_components s))),
     (lit ''links'', JList (map link_json (sy_links s)))]"

definition system_digest :: "os_env \<Rightarrow> dc_system \<Rightarrow> ustr res" where
  "system_digest os s =
     rbind (system_validate os s) (\<lambda>_.
     rbind (utf8_encode (dump_compact True (sort_keys (system_json s)))) (\<lambda>payload.
     Inr (sha256_hex payload)))"

section \<open>The rendered files\<close>

definition sp :: "ustr list \<Rightarrow> ustr" where
  "sp ws = join [32] ws"

definition descriptor_lines :: "dc_component \<Rightarrow> ustr list" where
  "descriptor_lines c =
     sp [lit ''docker'', co_image c] #
     map (\<lambda>e. sp [lit ''input'', ep_service e, ep_name e]) (sort_key endpoint_key (co_inputs c)) @
     map (\<lambda>e. sp [lit ''output'', ep_service e, ep_name e]) (sort_key endpoint_key (co_outputs c))"

definition render_component :: "dc_component \<Rightarrow> bytes res" where
  "render_component c =
     rbind (dc_token (co_image c) ''Docker image'') (\<lambda>_.
     utf8_encode (join [10] (descriptor_lines c) @ [10]))"

definition source_token :: "os_env \<Rightarrow> ppath \<Rightarrow> ppath \<Rightarrow> ustr res" where
  "source_token os root source =
     rbind (of_option (OSErr ''resolve'') (resolve_strict os source)) (\<lambda>canonical.
     let value = (case relative_to canonical root of
                    None \<Rightarrow> path_str canonical
                  | Some relative \<Rightarrow>
                      (if path_str relative \<noteq> [] then path_str relative else lit ''.''))
     in dc_token value ''bind source'')"

definition access_mode :: "bool \<Rightarrow> ustr" where
  "access_mode read_only = (if read_only then lit ''ro'' else lit ''rw'')"

definition component_lines ::
    "os_env \<Rightarrow> ppath \<Rightarrow> (ustr \<rightharpoonup> ppath) \<Rightarrow> dc_component \<Rightarrow> ustr list res" where
  "component_lines os root descriptors c =
     rbind (of_option KeyErr (descriptors (co_name c))) (\<lambda>directory.
     rbind (of_option (ValueErr ''relative_to'') (relative_to directory root)) (\<lambda>descriptor.
     rbind (mapE (\<lambda>b. rbind (source_token os root (bd_source b)) (\<lambda>source.
              Inr (sp [lit ''bind'', co_name c, source, bd_target b, access_mode (bd_read_only b)])))
            (sort_key bind_key (co_binds c))) (\<lambda>binds.
     rbind (mapE (\<lambda>a. dc_token a ''component argument'') (co_arguments c)) (\<lambda>arguments.
     Inr ([sp [lit ''component'', co_name c, path_str descriptor]] @ binds @
          map (\<lambda>v. sp [lit ''volume'', co_name c, vol_name v, vol_target v,
                       access_mode (vol_read_only v)]) (sort_key volume_key (co_volumes c)) @
          (if arguments = [] then [] else [sp (lit ''args'' # co_name c # arguments)]) @
          map (\<lambda>p. sp [lit ''publish'', co_name c, pp_protocol p, pp_host_ip p,
                       dump_int (pp_host_port p), dump_int (pp_container_port p)])
            (sort_key port_key (co_ports c)) @
          (if co_egress c then [sp [lit ''egress'', co_name c]] else []) @
          [[]])))))"

definition link_line :: "dc_system \<Rightarrow> dc_link \<Rightarrow> ustr res" where
  "link_line s l =
     (if lk_consumer l \<in> co_name ` set (sy_components s) \<and>
         lk_provider l \<in> co_name ` set (sy_components s)
      then Inr (sp [lit ''link'', lk_consumer l @ [46] @ lk_input l,
                    lk_provider l @ [46] @ lk_output l])
      else Inl AssertionErr)"

definition render_system ::
    "os_env \<Rightarrow> ppath \<Rightarrow> dc_system \<Rightarrow> ustr \<Rightarrow> (ustr \<rightharpoonup> ppath) \<Rightarrow> bytes res" where
  "render_system os root s digest descriptors =
     rbind (mapE (component_lines os root descriptors) (sort_key co_name (sy_components s)))
       (\<lambda>blocks.
     rbind (mapE (link_line s) (sort_key link_order (sy_links s))) (\<lambda>links.
     utf8_encode (rstrip (join [10]
       ([lit ''# generated by Cyclo; composition '' @ digest, lit ''system '' @ sy_name s, []] @
        concat blocks @ links)) @ [10])))"

section \<open>The store of generated files\<close>

datatype fnode = FReg bytes | FOther
datatype dnode = DDir "(ustr \<times> fnode) list" | DLink bool | DOther

record dstore =
  st_descriptors :: "(ustr \<times> dnode) list"
  st_system :: "bytes option"

text \<open>
  The atomic changes: a directory made, its manifest written, a rename, the manifest removed,
  the directory removed, and the replacement of \<open>system.dcomp\<close>.
\<close>

datatype dop =
    MkDir ustr
  | WriteManifest ustr bytes
  | Rename ustr ustr
  | UnlinkManifest ustr
  | RmDir ustr
  | Select bytes

definition manifest_name :: ustr where "manifest_name = lit ''component.dcomp''"

fun apply_op :: "dop \<Rightarrow> dstore \<Rightarrow> dstore" where
  "apply_op (MkDir n) st = st\<lparr>st_descriptors := AList.update n (DDir []) (st_descriptors st)\<rparr>"
| "apply_op (WriteManifest n c) st =
     st\<lparr>st_descriptors := AList.update n (DDir [(manifest_name, FReg c)]) (st_descriptors st)\<rparr>"
| "apply_op (Rename a b) st =
     (case map_of (st_descriptors st) a of
        None \<Rightarrow> st
      | Some node \<Rightarrow>
          st\<lparr>st_descriptors := AList.update b node (AList.delete a (st_descriptors st))\<rparr>)"
| "apply_op (UnlinkManifest n) st =
     st\<lparr>st_descriptors := AList.update n (DDir []) (st_descriptors st)\<rparr>"
| "apply_op (RmDir n) st = st\<lparr>st_descriptors := AList.delete n (st_descriptors st)\<rparr>"
| "apply_op (Select c) st = st\<lparr>st_system := Some c\<rparr>"

definition apply_ops :: "dop list \<Rightarrow> dstore \<Rightarrow> dstore" where
  "apply_ops ops st = fold apply_op ops st"

section \<open>Materialising a system\<close>

text \<open>
  The name of the temporary directory, which the code draws at random, is a parameter: it
  may depend on the names present and on the directory it stands for.
\<close>

type_synonym tmp_name = "ustr list \<Rightarrow> ustr \<Rightarrow> ustr"

definition write_descriptor ::
    "tmp_name \<Rightarrow> dstore \<Rightarrow> ustr \<Rightarrow> bytes \<Rightarrow> dop list \<times> unit res" where
  "write_descriptor tmp st directory content =
     (let temporary = tmp (map fst (st_descriptors st)) directory in
      case map_of (st_descriptors st) directory of
        Some (DLink True) \<Rightarrow>
          ([], Inl (CycloError ''invalid generated DComp descriptor directory''))
      | Some DOther \<Rightarrow>
          ([], Inl (CycloError ''invalid generated DComp descriptor directory''))
      | Some (DDir files) \<Rightarrow>
          (case map_of files manifest_name of
             Some (FReg c) \<Rightarrow>
               if c \<noteq> content
               then ([], Inl (CycloError ''generated DComp descriptor content mismatch''))
               else ([], Inr ())
           | _ \<Rightarrow> ([], Inl (CycloError ''invalid generated DComp descriptor'')))
      | Some (DLink False) \<Rightarrow>
          ([MkDir temporary, WriteManifest temporary content,
            UnlinkManifest temporary, RmDir temporary],
           Inl (CycloError ''cannot materialize DComp descriptor''))
      | None \<Rightarrow>
          ([MkDir temporary, WriteManifest temporary content, Rename temporary directory],
           Inr ()))"

fun remove_unused :: "ustr set \<Rightarrow> (ustr \<times> dnode) list \<Rightarrow> dop list \<times> unit res" where
  "remove_unused keep [] = ([], Inr ())"
| "remove_unused keep ((name, node) # rest) =
     (if name \<in> keep then remove_unused keep rest
      else case node of
        DDir contents \<Rightarrow>
          (if contents = [] then
             (let (ops, r) = remove_unused keep rest in (RmDir name # ops, r))
           else if length contents \<noteq> 1 \<or> fst (hd contents) \<noteq> manifest_name \<or>
             snd (hd contents) = FOther
           then ([], Inl (CycloError ''unexpected generated DComp descriptor contents''))
           else (let (ops, r) = remove_unused keep rest
                 in (UnlinkManifest name # RmDir name # ops, r)))
      | _ \<Rightarrow> ([], Inl (CycloError ''unexpected generated DComp descriptor entry'')))"

definition descriptor_name :: "dc_component \<Rightarrow> bytes \<Rightarrow> ustr" where
  "descriptor_name c content = co_name c @ [45] @ take 16 (sha256_hex content)"

definition descriptor_path :: "ppath \<Rightarrow> ustr \<Rightarrow> ppath" where
  "descriptor_path root name = joinpath root (Path [] [lit ''descriptors'', name])"

fun publish_components ::
    "tmp_name \<Rightarrow> dstore \<Rightarrow> dc_component list \<Rightarrow> dop list \<times> (ustr \<times> ustr) list res" where
  "publish_components tmp st [] = ([], Inr [])"
| "publish_components tmp st (c # cs) =
     (case render_component c of
        Inl e \<Rightarrow> ([], Inl e)
      | Inr content \<Rightarrow>
          (let directory = descriptor_name c content in
           case write_descriptor tmp st directory content of
             (ops, Inl e) \<Rightarrow> (ops, Inl e)
           | (ops, Inr _) \<Rightarrow>
               (case publish_components tmp (apply_ops ops st) cs of
                  (ops', Inl e) \<Rightarrow> (ops @ ops', Inl e)
                | (ops', Inr ds) \<Rightarrow> (ops @ ops', Inr ((co_name c, directory) # ds)))))"

definition materialize ::
    "os_env \<Rightarrow> ppath \<Rightarrow> tmp_name \<Rightarrow> dstore \<Rightarrow> dc_system \<Rightarrow> dop list \<times> (ustr \<times> ustr list) res"
where
  "materialize os root tmp st s =
     (case rbind (system_validate os s) (\<lambda>_. system_digest os s) of
        Inl e \<Rightarrow> ([], Inl e)
      | Inr digest \<Rightarrow>
          (case publish_components tmp st (sort_key co_name (sy_components s)) of
             (ops, Inl e) \<Rightarrow> (ops, Inl e)
           | (ops, Inr ds) \<Rightarrow>
               (case render_system os root s digest
                       (map_option (descriptor_path root) \<circ> map_of ds) of
                  Inl e \<Rightarrow> (ops, Inl e)
                | Inr content \<Rightarrow>
                    (let st' = apply_ops (ops @ [Select content]) st;
                         (ops', r) = remove_unused (snd ` set ds) (st_descriptors st')
                     in (ops @ [Select content] @ ops',
                         rbind r (\<lambda>_. Inr (digest, sort (map co_name (sy_components s)))))))))"

section \<open>Every prefix of a publication is a consistent store\<close>

fun touched :: "dop \<Rightarrow> ustr set" where
  "touched (MkDir n) = {n}"
| "touched (WriteManifest n c) = {n}"
| "touched (Rename a b) = {a, b}"
| "touched (UnlinkManifest n) = {n}"
| "touched (RmDir n) = {n}"
| "touched (Select c) = {}"

definition is_select :: "dop \<Rightarrow> bool" where
  "is_select op \<longleftrightarrow> (case op of Select _ \<Rightarrow> True | _ \<Rightarrow> False)"

definition entry :: "dstore \<Rightarrow> ustr \<Rightarrow> dnode option" where
  "entry st n = map_of (st_descriptors st) n"

definition names_of :: "dstore \<Rightarrow> ustr set" where
  "names_of st = set (map fst (st_descriptors st))"

lemma names_of_iff: "n \<in> names_of st \<longleftrightarrow> entry st n \<noteq> None"
  by (auto simp: names_of_def entry_def map_of_eq_None_iff)

text \<open>A directory of the store that holds this manifest.\<close>

definition holds :: "dstore \<Rightarrow> ustr \<Rightarrow> bytes \<Rightarrow> bool" where
  "holds st n content \<longleftrightarrow>
     (\<exists>files. entry st n = Some (DDir files) \<and> map_of files manifest_name = Some (FReg content))"

definition fresh_tmp :: "tmp_name \<Rightarrow> bool" where
  "fresh_tmp tmp \<longleftrightarrow> (\<forall>names d. tmp names d \<notin> set names)"

lemma apply_ops_simps [simp]:
  "apply_ops [] st = st" "apply_ops (op # ops) st = apply_ops ops (apply_op op st)"
  by (simp_all add: apply_ops_def)

lemma apply_ops_append [simp]: "apply_ops (a @ b) st = apply_ops b (apply_ops a st)"
  by (simp add: apply_ops_def)

lemma entry_apply_op: "n \<notin> touched op \<Longrightarrow> entry (apply_op op st) n = entry st n"
  by (cases op) (auto simp: entry_def update_conv' delete_conv' split: option.splits)

lemma entry_apply_ops:
  "\<forall>op\<in>set ops. n \<notin> touched op \<Longrightarrow> entry (apply_ops ops st) n = entry st n"
  by (induction ops arbitrary: st) (simp_all add: entry_apply_op)

lemma system_apply_op: "\<not> is_select op \<Longrightarrow> st_system (apply_op op st) = st_system st"
  by (cases op) (auto simp: is_select_def split: option.splits)

lemma system_apply_ops:
  "\<forall>op\<in>set ops. \<not> is_select op \<Longrightarrow> st_system (apply_ops ops st) = st_system st"
  by (induction ops arbitrary: st) (simp_all add: system_apply_op)

text \<open>The operations that leave a set of names and the selection alone.\<close>

definition spares :: "ustr set \<Rightarrow> dop list \<Rightarrow> bool" where
  "spares N ops \<longleftrightarrow> (\<forall>op\<in>set ops. touched op \<inter> N = {} \<and> \<not> is_select op)"

lemma spares_append [simp]: "spares N (a @ b) \<longleftrightarrow> spares N a \<and> spares N b"
  by (auto simp: spares_def)

lemma spares_mono: "spares N ops \<Longrightarrow> M \<subseteq> N \<Longrightarrow> spares M ops"
  by (auto simp: spares_def)

lemma spares_entry: "spares N ops \<Longrightarrow> n \<in> N \<Longrightarrow> entry (apply_ops ops st) n = entry st n"
  by (rule entry_apply_ops) (auto simp: spares_def)

lemma holds_spares:
  "spares N ops \<Longrightarrow> n \<in> N \<Longrightarrow> holds (apply_ops ops st) n c \<longleftrightarrow> holds st n c"
  by (simp add: holds_def spares_entry)

lemma holds_select [simp]: "holds (st\<lparr>st_system := x\<rparr>) n c \<longleftrightarrow> holds st n c"
  by (simp add: holds_def entry_def)

lemma spares_system: "spares N ops \<Longrightarrow> st_system (apply_ops ops st) = st_system st"
  by (rule system_apply_ops) (auto simp: spares_def)

lemma spares_names: "spares (names_of st) ops \<Longrightarrow> names_of st \<subseteq> names_of (apply_ops ops st)"
  using spares_entry [of "names_of st" ops _ st] by (auto simp: names_of_iff)

lemma write_descriptor_spares:
  assumes "fresh_tmp tmp"
  shows "spares (names_of st) (fst (write_descriptor tmp st d content))"
proof -
  let ?t = "tmp (map fst (st_descriptors st)) d"
  have t: "?t \<notin> names_of st" using assms unfolding fresh_tmp_def names_of_def by blast
  have d: "d \<notin> names_of st" if "map_of (st_descriptors st) d = None"
    using that by (simp add: names_of_iff entry_def)
  show ?thesis using t d
    by (auto simp: write_descriptor_def Let_def spares_def is_select_def
        split: option.splits dnode.splits fnode.splits bool.splits)
qed

lemma write_descriptor_holds:
  assumes "write_descriptor tmp st d content = (ops, Inr u)"
  shows "holds (apply_ops ops st) d content"
  using assms
  by (auto simp: write_descriptor_def Let_def holds_def entry_def update_conv' delete_conv'
      split: option.splits dnode.splits fnode.splits bool.splits if_splits)

lemma publish_spares:
  assumes "fresh_tmp tmp"
  shows "spares (names_of st) (fst (publish_components tmp st cs))"
proof (induction cs arbitrary: st)
  case Nil
  then show ?case by (simp add: spares_def)
next
  case (Cons c cs)
  show ?case
  proof (cases "render_component c")
    case (Inl e)
    then show ?thesis by (simp add: spares_def)
  next
    case (Inr content)
    obtain ops r where w: "write_descriptor tmp st (descriptor_name c content) content = (ops, r)"
      by (cases "write_descriptor tmp st (descriptor_name c content) content")
    have ops: "spares (names_of st) ops"
      using write_descriptor_spares [OF assms, of st "descriptor_name c content" content]
      by (simp add: w)
    have "spares (names_of st) (fst (publish_components tmp (apply_ops ops st) cs))"
      using Cons.IH spares_names [OF ops] by (rule spares_mono)
    then show ?thesis using ops
      by (cases r) (auto simp: Inr w Let_def split: prod.splits sum.splits)
  qed
qed

lemma publish_holds:
  assumes "fresh_tmp tmp" "publish_components tmp st cs = (ops, Inr ds)"
  shows "list_all2 (\<lambda>c d. \<exists>content. render_component c = Inr content \<and>
      d = (co_name c, descriptor_name c content) \<and>
      holds (apply_ops ops st) (descriptor_name c content) content) cs ds"
  using assms(2)
proof (induction cs arbitrary: st ops ds)
  case (Cons c cs)
  from Cons.prems obtain content ops1 u ops2 ds2 where
    r: "render_component c = Inr content" and
    w: "write_descriptor tmp st (descriptor_name c content) content = (ops1, Inr u)" and
    p: "publish_components tmp (apply_ops ops1 st) cs = (ops2, Inr ds2)" and
    eq: "ops = ops1 @ ops2" "ds = (co_name c, descriptor_name c content) # ds2"
    by (auto simp: Let_def split: sum.splits prod.splits)
  let ?st = "apply_ops ops1 st" and ?d = "descriptor_name c content"
  have "holds ?st ?d content" by (rule write_descriptor_holds [OF w])
  moreover from this have "?d \<in> names_of ?st" by (auto simp: holds_def names_of_iff)
  moreover have "spares (names_of ?st) ops2"
    using publish_spares [OF assms(1), of ?st cs] by (simp add: p)
  ultimately have "holds (apply_ops ops st) ?d content"
    by (simp add: holds_def eq spares_entry)
  then show ?case using Cons.IH [OF p] r by (simp add: eq)
qed simp

lemma remove_unused_spares: "spares keep (fst (remove_unused keep xs))"
proof (induction keep xs rule: remove_unused.induct)
  case (2 keep name node rest)
  then show ?case
    by (cases "remove_unused keep rest")
      (auto simp: spares_def is_select_def split: dnode.splits)
qed (simp add: spares_def)

lemma remove_unused_entry:
  "remove_unused keep xs = (ops, Inr u) \<Longrightarrow>
     entry (apply_ops ops st) n = (if n \<in> fst ` set xs \<and> n \<notin> keep then None else entry st n)"
proof (induction xs arbitrary: ops st)
  case (Cons x rest)
  obtain name node where x: "x = (name, node)" by (cases x)
  show ?case
  proof (cases "name \<in> keep")
    case True
    then show ?thesis using Cons.prems Cons.IH by (auto simp: x)
  next
    case False
    from Cons.prems False obtain mid ops' where
      r: "remove_unused keep rest = (ops', Inr u)"
      and ops: "ops = mid @ RmDir name # ops'" and mid: "mid = [] \<or> mid = [UnlinkManifest name]"
      by (fastforce simp: x split: dnode.splits if_splits prod.splits)
    show ?thesis using False mid
      by (auto simp: x ops Cons.IH [OF r]) (auto simp: entry_def update_conv' delete_conv')
  qed
qed simp

lemma prefix_cases3:
  assumes "pre @ post = a @ [x] @ b"
  obtains rest where "a = pre @ rest" | rest tail where "pre = a @ [x] @ rest" "b = rest @ tail"
  using assms by (auto simp: append_eq_append_conv2 append_eq_Cons_conv Cons_eq_append_conv)

lemma spares_prefix: "spares N (a @ b) \<Longrightarrow> spares N a"
  by simp

text \<open>
  The visible guarantee.  An old selection stays with every entry it could refer to; the new
  one is only ever visible with all of its descriptors in place.
\<close>

definition old_intact :: "dstore \<Rightarrow> dstore \<Rightarrow> bool" where
  "old_intact st st' \<longleftrightarrow> st_system st' = st_system st \<and>
     (\<forall>n\<in>names_of st. entry st' n = entry st n)"

definition new_complete :: "dstore \<Rightarrow> dc_system \<Rightarrow> bytes \<Rightarrow> bool" where
  "new_complete st' s content \<longleftrightarrow> st_system st' = Some content \<and>
     (\<forall>c\<in>set (sy_components s). \<exists>bs. render_component c = Inr bs \<and>
        holds st' (descriptor_name c bs) bs)"

lemma materialize_cases:
  assumes "materialize os root tmp st s = (ops, r)"
  obtains e where "r = Inl e" and "ops = []"
  | ds where "r = Inl ds" and "ops = fst (publish_components tmp st (sort_key co_name (sy_components s)))"
  | digest pops ds content rops rr where
      "system_digest os s = Inr digest" "system_validate os s = Inr ()"
      "publish_components tmp st (sort_key co_name (sy_components s)) = (pops, Inr ds)"
      "render_system os root s digest (map_option (descriptor_path root) \<circ> map_of ds) = Inr content"
      "remove_unused (snd ` set ds) (st_descriptors (apply_ops (pops @ [Select content]) st)) = (rops, rr)"
      "ops = pops @ [Select content] @ rops"
      "r = rbind rr (\<lambda>_. Inr (digest, sort (map co_name (sy_components s))))"
proof (cases "rbind (system_validate os s) (\<lambda>_. system_digest os s)")
  case (Inl e)
  then show ?thesis using assms by (intro that(1) [of e]) (auto simp: materialize_def)
next
  case (Inr digest)
  obtain pops pr where p: "publish_components tmp st (sort_key co_name (sy_components s)) = (pops, pr)"
    by (cases "publish_components tmp st (sort_key co_name (sy_components s))")
  show ?thesis
  proof (cases pr)
    case (Inl e)
    then show ?thesis using assms Inr p by (intro that(2) [of e]) (auto simp: materialize_def)
  next
    case pd: (Inr ds)
    show ?thesis
    proof (cases "render_system os root s digest (map_option (descriptor_path root) \<circ> map_of ds)")
      case (Inl e)
      then show ?thesis using assms Inr p pd
        by (intro that(2) [of e]) (auto simp: materialize_def)
    next
      case rs: (Inr content)
      obtain rops rr where
        "remove_unused (snd ` set ds) (st_descriptors (apply_ops (pops @ [Select content]) st)) = (rops, rr)"
        by (cases "remove_unused (snd ` set ds) (st_descriptors (apply_ops (pops @ [Select content]) st))")
      then show ?thesis using assms Inr p pd rs
        by (intro that(3)) (auto simp: materialize_def Let_def)
    qed
  qed
qed

text \<open>C18: a process death at any point of a publication leaves a store in which the selected system
  file is either the old one, with every entry that was there still in place unchanged, or the
  new one, with the descriptor of each of its components complete under its content name.\<close>

theorem materialize_atomic:
  assumes "fresh_tmp tmp" and "materialize os root tmp st s = (pre @ post, r)"
  shows "old_intact st (apply_ops pre st) \<or>
    (\<exists>content. new_complete (apply_ops pre st) s content)"
proof -
  have old: "old_intact st (apply_ops pre st)" if "spares (names_of st) (pre @ rest)" for rest
    using spares_prefix [OF that] by (simp add: old_intact_def spares_entry spares_system)
  have pub: "spares (names_of st)
      (fst (publish_components tmp st (sort_key co_name (sy_components s))))"
    by (rule publish_spares [OF assms(1)])
  from assms(2) show ?thesis
  proof (cases rule: materialize_cases)
    case 1
    then show ?thesis by (simp add: old_intact_def)
  next
    case 2
    then show ?thesis using pub old by metis
  next
    case (3 digest pops ds content rops rr)
    from 3(6) show ?thesis
    proof (cases rule: prefix_cases3)
      case (1 rest)
      then show ?thesis using pub old 3(3) by (metis fst_conv)
    next
      case (2 rest tail)
      let ?st = "apply_ops (pops @ [Select content]) st"
      have keep: "spares (snd ` set ds) rest"
        using remove_unused_spares [of "snd ` set ds" "st_descriptors ?st"] 3(5) 2(2)
        by (metis fst_conv spares_prefix)
      have eq: "apply_ops pre st = apply_ops rest ?st" using 2(1) by simp
      have sys: "st_system (apply_ops pre st) = Some content"
        unfolding eq by (simp add: spares_system [OF keep])
      have "\<exists>bs. render_component c = Inr bs \<and> holds (apply_ops pre st) (descriptor_name c bs) bs"
        if "c \<in> set (sy_components s)" for c
      proof -
        have "c \<in> set (sort_key co_name (sy_components s))" using that by simp
        from list_all2_in1 [OF publish_holds [OF assms(1) 3(3)] this] obtain d bs where
          "d \<in> set ds" "render_component c = Inr bs" "d = (co_name c, descriptor_name c bs)"
          "holds (apply_ops pops st) (descriptor_name c bs) bs"
          by blast
        moreover from this have "descriptor_name c bs \<in> snd ` set ds" by force
        ultimately show ?thesis
          unfolding eq by (auto simp: holds_spares [OF keep] holds_select)
      qed
      then show ?thesis using sys by (auto simp: new_complete_def)
    qed
  qed
qed

text \<open>A publication that returns leaves exactly the descriptors of the system it was given,
  each with its rendered content, selected together; it reports the digest and the sorted
  component names of that system.\<close>

theorem materialize_exact:
  assumes "fresh_tmp tmp" and "materialize os root tmp st s = (ops, Inr (digest, names))"
  shows "(\<exists>content. new_complete (apply_ops ops st) s content) \<and>
    names_of (apply_ops ops st) =
      {descriptor_name c bs | c bs. c \<in> set (sy_components s) \<and> render_component c = Inr bs} \<and>
    system_digest os s = Inr digest \<and> names = sort (map co_name (sy_components s))"
proof -
  from assms(2) obtain pops ds content rops where
    dg: "system_digest os s = Inr digest" and
    p: "publish_components tmp st (sort_key co_name (sy_components s)) = (pops, Inr ds)" and
    r: "remove_unused (snd ` set ds) (st_descriptors (apply_ops (pops @ [Select content]) st)) = (rops, Inr ())" and
    ops: "ops = pops @ [Select content] @ rops" and names: "names = sort (map co_name (sy_components s))"
    by (cases rule: materialize_cases) (auto dest!: sym [of "Inr (digest, names)"])
  let ?st = "apply_ops (pops @ [Select content]) st"
  note pub = publish_holds [OF assms(1) p]
  have keep: "spares (snd ` set ds) rops"
    using remove_unused_spares [of "snd ` set ds" "st_descriptors ?st"] unfolding r by simp
  have ent: "entry (apply_ops ops st) n = (if n \<in> names_of ?st \<and> n \<notin> snd ` set ds then None
      else entry ?st n)" for n
    using remove_unused_entry [OF r, of ?st n] by (simp add: ops names_of_def)
  have out: "\<exists>bs d. render_component c = Inr bs \<and> d \<in> set ds \<and> snd d = descriptor_name c bs \<and>
      holds ?st (descriptor_name c bs) bs" if "c \<in> set (sy_components s)" for c
    using list_all2_in1 [OF pub, of c] that by auto
  have inn: "\<exists>c bs. c \<in> set (sy_components s) \<and> render_component c = Inr bs \<and>
      n = descriptor_name c bs \<and> holds ?st n bs" if "n \<in> snd ` set ds" for n
    using list_all2_in2 [OF pub] that by fastforce
  have held: "n \<in> names_of ?st" if "n \<in> snd ` set ds" for n
  proof -
    from inn [OF that] obtain bs where "holds ?st n bs" by blast
    then show ?thesis by (auto simp: holds_def names_of_iff)
  qed
  have "n \<in> names_of (apply_ops ops st) \<longleftrightarrow> n \<in> snd ` set ds" for n
    using ent [of n] held [of n] unfolding names_of_iff
    by (cases "n \<in> snd ` set ds"; cases "entry ?st n") auto
  then have "names_of (apply_ops ops st) = snd ` set ds" by blast
  also have "\<dots> = {descriptor_name c bs | c bs. c \<in> set (sy_components s) \<and> render_component c = Inr bs}"
    (is "_ = ?N")
  proof
    show "snd ` set ds \<subseteq> ?N" using inn by blast
    show "?N \<subseteq> snd ` set ds"
    proof
      fix n assume "n \<in> ?N"
      then obtain c bs where c: "c \<in> set (sy_components s)" "render_component c = Inr bs"
        "n = descriptor_name c bs" by blast
      with out [OF c(1)] obtain d where "d \<in> set ds" "snd d = n" by auto
      then show "n \<in> snd ` set ds" by force
    qed
  qed
  finally have nm: "names_of (apply_ops ops st) =
      {descriptor_name c bs | c bs. c \<in> set (sy_components s) \<and> render_component c = Inr bs}" .
  have "\<exists>bs. render_component c = Inr bs \<and> holds (apply_ops ops st) (descriptor_name c bs) bs"
    if "c \<in> set (sy_components s)" for c
  proof -
    obtain bs d where "render_component c = Inr bs" "d \<in> set ds" "snd d = descriptor_name c bs"
      "holds ?st (descriptor_name c bs) bs" using out \<open>c \<in> _\<close> by blast
    moreover from this have "descriptor_name c bs \<in> snd ` set ds" by force
    ultimately show ?thesis by (auto simp: ops holds_spares [OF keep])
  qed
  moreover have "st_system (apply_ops ops st) = Some content"
    by (simp add: ops spares_system [OF keep])
  ultimately have "new_complete (apply_ops ops st) s content"
    by (auto simp: new_complete_def)
  then show ?thesis using nm dg names by blast
qed


section \<open>A concrete publication\<close>

definition ex_os :: os_env where
  "ex_os = \<lparr>resolve_strict = Some, resolve_lax = (\<lambda>p. p), expanduser = (\<lambda>p. p),
     cwd = path_of (lit ''/''), is_dir = (\<lambda>p. True), read_nofollow = (\<lambda>p. Missing)\<rparr>"

definition ex_root :: ppath where "ex_root = path_of (lit ''/state/dcomp'')"

definition ex_component :: dc_component where
  "ex_component = \<lparr>co_name = lit ''gateway'', co_image = lit ''img'', co_inputs = [],
     co_outputs = [\<lparr>ep_service = PROVIDER_SERVICE, ep_name = lit ''provider''\<rparr>],
     co_binds = [], co_volumes = [], co_arguments = [], co_ports = [], co_egress = True\<rparr>"

definition ex_system :: dc_system where
  "ex_system = \<lparr>sy_name = lit ''cyclo'', sy_components = [ex_component], sy_links = []\<rparr>"

definition ex_store :: dstore where
  "ex_store = \<lparr>st_descriptors = [], st_system = None\<rparr>"

definition ex_tmp :: tmp_name where
  "ex_tmp names d = 46 # concat names"

definition ex_content :: bytes where
  "ex_content = lit ''docker img'' @ [10] @ lit ''output cyclo.provider.v1.Provider provider'' @ [10]"

lemma length_concat_member: "x \<in> set xs \<Longrightarrow> length x \<le> length (concat xs)"
  by (induction xs) auto

lemma ex_tmp_fresh: "fresh_tmp ex_tmp"
proof -
  have "46 # concat names \<notin> set names" for names :: "ustr list"
    using length_concat_member [of "46 # concat names" names] by auto
  then show ?thesis by (simp add: fresh_tmp_def ex_tmp_def)
qed

lemma ex_system_valid: "system_validate ex_os ex_system = Inr ()"
  by code_simp

lemma ex_render: "render_component ex_component = Inr ex_content"
  by code_simp

lemma ex_publish:
  "publish_components ex_tmp ex_store (sort_key co_name (sy_components ex_system)) =
    ([MkDir [46], WriteManifest [46] ex_content,
      Rename [46] (descriptor_name ex_component ex_content)],
     Inr [(co_name ex_component, descriptor_name ex_component ex_content)])"
  by (simp add: ex_system_def ex_render write_descriptor_def ex_tmp_def ex_store_def Let_def)

lemma ex_digest: "\<exists>p. system_digest ex_os ex_system = Inr (sha256_hex p)"
proof -
  have "is_ok (utf8_encode (dump_compact True (sort_keys (system_json ex_system))))"
    by code_simp
  then show ?thesis by (auto simp: system_digest_def ex_system_valid is_ok_iff)
qed

lemma ex_system_rendered:
  assumes "\<forall>c\<in>set digest. c < 128" "\<forall>c\<in>set d. c < 128"
  shows "is_ok (render_system ex_os ex_root ex_system digest
    (map_option (descriptor_path ex_root) \<circ> map_of [(co_name ex_component, d)]))"
proof -
  have rel: "relative_to (descriptor_path ex_root d) ex_root = Some (Path [] [lit ''descriptors'', d])"
    by (simp add: relative_to_def is_relative_to_def descriptor_path_def joinpath_def
        is_absolute_def)
  have low: "\<forall>c\<in>set (lit s). c < 128" if "list_all (\<lambda>c. of_char c < (128::nat)) s" for s
    using that by (simp add: lit_def list_all_iff)
  have comp: "component_lines ex_os ex_root
      (map_option (descriptor_path ex_root) \<circ> map_of [(co_name ex_component, d)]) ex_component =
      Inr [sp [lit ''component'', lit ''gateway'', lit ''descriptors'' @ [47] @ d],
           sp [lit ''egress'', lit ''gateway''], []]"
    by (simp add: component_lines_def rel path_str_def ex_component_def)
  let ?s = "join [10] ([lit ''# generated by Cyclo; composition '' @ digest, lit ''system '' @ lit ''cyclo'', []] @
      [sp [lit ''component'', lit ''gateway'', lit ''descriptors'' @ [47] @ d],
       sp [lit ''egress'', lit ''gateway''], []])"
  have "\<forall>c\<in>set ?s. c < 128"
    using assms by (auto simp: sp_def lit_def)
  then have "\<forall>c\<in>set (rstrip ?s @ [10]). c < 128"
    using set_rstrip_by [of isspace ?s] by (auto simp: rstrip_def)
  from utf8_encode_ascii [OF this] comp show ?thesis
    by (simp add: render_system_def ex_system_def)
qed

lemma ex_materialize:
  "\<exists>ops digest names. materialize ex_os ex_root ex_tmp ex_store ex_system =
     ([MkDir [46], WriteManifest [46] ex_content] @ ops, Inr (digest, names))"
proof -
  let ?d = "descriptor_name ex_component ex_content"
  obtain p where dg: "system_digest ex_os ex_system = Inr (sha256_hex p)" using ex_digest by blast
  have hex: "c < 128" if "c \<in> set (sha256_hex m)" for c m
    using sha256_hex_is_hex [OF that] by (auto simp: is_hex_def is_digit_def)
  have "\<forall>c\<in>set ?d. c < 128"
    using hex by (auto simp: descriptor_name_def ex_component_def lit_def dest: in_set_takeD)
  with hex ex_system_rendered obtain content where
    "render_system ex_os ex_root ex_system (sha256_hex p)
      (map_option (descriptor_path ex_root) \<circ> map_of [(co_name ex_component, ?d)]) = Inr content"
    unfolding is_ok_iff by blast
  then show ?thesis
    unfolding materialize_def ex_publish
    by (simp add: ex_system_valid dg Let_def) (simp add: ex_store_def)
qed

lemma materialize_atomic_witness:
  "\<exists>post r. materialize ex_os ex_root ex_tmp ex_store ex_system =
      ([MkDir [46], WriteManifest [46] ex_content] @ post, r) \<and>
    (let st' = apply_ops [MkDir [46], WriteManifest [46] ex_content] ex_store in
      old_intact ex_store st' \<or> (\<exists>content. new_complete st' ex_system content))"
  unfolding Let_def
  using ex_materialize materialize_atomic [OF ex_tmp_fresh] by metis

lemma materialize_exact_witness:
  "\<exists>ops digest names. materialize ex_os ex_root ex_tmp ex_store ex_system = (ops, Inr (digest, names)) \<and>
    names_of (apply_ops ops ex_store) = {descriptor_name ex_component ex_content}"
proof -
  obtain ops digest names where
    m: "materialize ex_os ex_root ex_tmp ex_store ex_system = (ops, Inr (digest, names))"
    using ex_materialize by blast
  have "names_of (apply_ops ops ex_store) = {descriptor_name ex_component ex_content}"
    using materialize_exact [OF ex_tmp_fresh m] by (simp add: ex_system_def ex_render)
  then show ?thesis using m by blast
qed

end
