(* ===== verification/Host.thy ===== *)
theory Host imports Dcomp_Render begin

text \<open>
  \<open>src/cyclo/host.py\<close>: the host configuration.  A line names a provider (its source directory,
  whose \<open>component.dcomp\<close> gives the contract, its bindings and arguments) or enables the
  bundled \<open>openai\<close> component.  Every file is read through \<open>os_env\<close>; \<open>croot\<close> is the directory
  of the bundled components, which the installation chooses.
\<close>

definition MAX_HOST_CONFIG_BYTES :: nat where "MAX_HOST_CONFIG_BYTES = 1024 * 1024"
definition OPENAI_COMPONENT_NAME :: ustr where "OPENAI_COMPONENT_NAME = lit ''openai''"
definition OPENAI_DEFAULT_BIND :: ustr where "OPENAI_DEFAULT_BIND = lit ''127.0.0.1''"
definition OPENAI_DEFAULT_PORT :: int where "OPENAI_DEFAULT_PORT = 8080"
definition BUNDLED_PROVIDER_SOURCES :: "ustr list" where
  "BUNDLED_PROVIDER_SOURCES = [lit ''pooler'']"

record contract =
  ct_image :: ustr
  ct_inputs :: "endpoint list"
  ct_outputs :: "endpoint list"

record binding =
  bn_input :: ustr
  bn_component :: ustr
  bn_output :: ustr

record provider =
  pv_name :: ustr
  pv_source :: ppath
  pv_context :: ppath
  pv_contract :: contract
  pv_bindings :: "binding list"
  pv_arguments :: "ustr list"
  pv_line :: nat

record host_component =
  hc_name :: ustr
  hc_bind :: ustr
  hc_port :: int
  hc_line :: nat

record host =
  ho_path :: ppath
  ho_providers :: "provider list"
  ho_generation :: ustr
  ho_components :: "host_component list"

definition is_provider_output :: "endpoint \<Rightarrow> bool" where
  "is_provider_output e \<longleftrightarrow> ep_service e = PROVIDER_SERVICE"

definition provider_output :: "provider \<Rightarrow> ustr res" where
  "provider_output p =
     (case map ep_name (filter is_provider_output (ct_outputs (pv_contract p))) of
        [output] \<Rightarrow> Inr output
      | _ \<Rightarrow> Inl (CycloError ''provider must expose exactly one output''))"

definition outer_component :: "host \<Rightarrow> ustr" where
  "outer_component h =
     (if ho_providers h \<noteq> [] then pv_name (last (ho_providers h)) else lit ''gateway'')"

definition outer_output :: "host \<Rightarrow> ustr res" where
  "outer_output h =
     (if ho_providers h \<noteq> [] then provider_output (last (ho_providers h))
      else Inr (lit ''provider''))"

section \<open>Reading a file\<close>

text \<open>The text before the first number sign that starts the line or follows a space.\<close>

fun cut_comment :: "ustr \<Rightarrow> ustr" where
  "cut_comment (c # d # cs) = (if isspace c \<and> d = 35 then [] else c # cut_comment (d # cs))"
| "cut_comment s = s"

definition line_content :: "ustr \<Rightarrow> ustr" where
  "line_content line = strip (if startswith [35] line then [] else cut_comment line)"

definition read_regular_file :: "os_env \<Rightarrow> ppath \<Rightarrow> bool \<Rightarrow> bytes res" where
  "read_regular_file os path missing_ok =
     (case read_nofollow os path of
        NotRegular \<Rightarrow> Inl (CycloError ''not a regular file'')
      | Missing \<Rightarrow> (if missing_ok then Inr [] else Inl (CycloError ''not found''))
      | IsLink \<Rightarrow> Inl (CycloError ''cannot read'')
      | Unreadable \<Rightarrow> Inl (CycloError ''cannot read'')
      | Content content \<Rightarrow>
          (if MAX_HOST_CONFIG_BYTES < length content then Inl (CycloError ''too large'')
           else Inr content))"

fun join_crlf :: "ustr \<Rightarrow> ustr" where
  "join_crlf (c # d # cs) =
     (if c = 13 \<and> d = 10 then 10 # join_crlf cs else c # join_crlf (d # cs))"
| "join_crlf s = s"

definition decode_config :: "bytes \<Rightarrow> ustr res" where
  "decode_config raw =
     (case utf8_decode raw of
        None \<Rightarrow> Inl (CycloError ''not UTF-8'')
      | Some text \<Rightarrow>
          if (\<exists>c\<in>set text. c \<notin> {10, 13} \<and> is_control c)
          then Inl (CycloError ''contains a control character'')
          else Inr (join_crlf text))"

definition canonical_directory :: "os_env \<Rightarrow> ppath \<Rightarrow> ppath res" where
  "canonical_directory os path =
     (case resolve_strict os path of
        None \<Rightarrow> Inl (CycloError ''directory not found'')
      | Some canonical \<Rightarrow>
          if \<not> is_dir os canonical then Inl (CycloError ''not a directory'')
          else if (\<exists>c\<in>set (path_str canonical). isspace c)
          then Inl (CycloError ''component paths cannot contain whitespace'')
          else Inr canonical)"

section \<open>A component descriptor\<close>

record descriptor_state =
  ds_image :: "ustr option"
  ds_inputs :: "endpoint list"
  ds_outputs :: "endpoint list"

definition descriptor_step :: "descriptor_state \<Rightarrow> ustr \<Rightarrow> descriptor_state res" where
  "descriptor_step st raw_line =
     (let content = line_content raw_line in
      if content = [] then Inr st
      else let ws = split_ws content; directive = hd ws in
      if directive = lit ''docker'' then
        (if length ws \<noteq> 2 \<or> ds_image st \<noteq> None
         then Inl (CycloError ''expected one docker IMAGE'')
         else Inr (st\<lparr>ds_image := Some (ws ! 1)\<rparr>))
      else if directive = lit ''input'' \<or> directive = lit ''output'' then
        (if length ws \<noteq> 3 \<or> \<not> is_service (ws ! 1) \<or> \<not> is_name (ws ! 2)
         then Inl (CycloError ''expected PROTOBUF_SERVICE LOCAL_NAME'')
         else
           let endpoint = \<lparr>ep_service = ws ! 1, ep_name = ws ! 2\<rparr>;
               selected = (if directive = lit ''input'' then ds_inputs st else ds_outputs st)
           in if (\<exists>item\<in>set selected. ep_name item = ep_name endpoint)
              then Inl (CycloError ''duplicate endpoint'')
              else if directive = lit ''input''
              then Inr (st\<lparr>ds_inputs := selected @ [endpoint]\<rparr>)
              else Inr (st\<lparr>ds_outputs := selected @ [endpoint]\<rparr>))
      else Inl (CycloError ''unknown directive''))"

definition parse_descriptor :: "ustr \<Rightarrow> contract res" where
  "parse_descriptor text =
     rbind (foldE descriptor_step \<lparr>ds_image = None, ds_inputs = [], ds_outputs = []\<rparr>
              (splitlines text)) (\<lambda>st.
     case ds_image st of
       None \<Rightarrow> Inl (CycloError ''missing docker IMAGE'')
     | Some img \<Rightarrow>
         (let c = \<lparr>ct_image = img, ct_inputs = ds_inputs st, ct_outputs = ds_outputs st\<rparr>
          in if length (filter is_provider_output (ct_outputs c)) \<noteq> 1
             then Inl (CycloError ''provider components must expose exactly one output'')
             else Inr c))"

definition load_component :: "os_env \<Rightarrow> ppath \<Rightarrow> contract res" where
  "load_component os path =
     rbind (read_regular_file os (joinpath path (Path [] [manifest_name])) False) (\<lambda>raw.
     rbind (decode_config raw) parse_descriptor)"

section \<open>The lines of the host configuration\<close>

record unbound_provider =
  dl_name :: ustr
  dl_source :: ppath
  dl_context :: ppath
  dl_contract :: contract
  dl_settings :: "ustr list"
  dl_arguments :: "ustr list"
  dl_line :: nat

definition provider_source ::
    "os_env \<Rightarrow> ppath \<Rightarrow> ppath \<Rightarrow> ustr \<Rightarrow> (ppath \<times> ppath \<times> bool) res" where
  "provider_source os croot selected token =
     (if token \<in> set BUNDLED_PROVIDER_SOURCES then
        rbind (canonical_directory os croot) (\<lambda>context.
        rbind (canonical_directory os (joinpath context (path_of token))) (\<lambda>source.
        Inr (source, context, True)))
      else if token = lit ''~'' \<or> startswith (lit ''~/'') token
      then Inl (CycloError ''component paths do not expand'')
      else
        let given = path_of token;
            source_path = (if is_absolute given then given
                           else joinpath (path_parent selected) given)
        in rbind (canonical_directory os source_path) (\<lambda>source. Inr (source, source, False)))"

text \<open>The settings of \<open>component openai\<close>: the state is the address, the port, the keys seen.\<close>

definition component_setting ::
    "ustr \<times> int \<times> ustr set \<Rightarrow> ustr \<Rightarrow> (ustr \<times> int \<times> ustr set) res" where
  "component_setting st setting =
     (case (st, partition_at 61 setting) of ((bind, port, seen), (key, separator, value)) \<Rightarrow>
      if key \<notin> {lit ''bind'', lit ''port''} \<or> \<not> separator \<or> key \<in> seen
      then Inl (CycloError ''invalid or duplicate component setting'')
      else if key = lit ''bind'' then
        (if is_ipv4 value then Inr (value, port, insert key seen)
         else Inl (CycloError ''component bind must be a literal IPv4 address''))
      else (case parse_int value of
              None \<Rightarrow> Inl (CycloError ''component port must be an integer'')
            | Some n \<Rightarrow>
                if 1 \<le> n \<and> n \<le> 65535 then Inr (bind, n, insert key seen)
                else Inl (CycloError ''component port must be an integer'')))"

definition host_component_line :: "nat \<Rightarrow> ustr list \<Rightarrow> host_component res" where
  "host_component_line line ws =
     (if length ws < 2 \<or> ws ! 1 \<noteq> OPENAI_COMPONENT_NAME
      then Inl (CycloError ''expected component openai'')
      else rbind (foldE component_setting (OPENAI_DEFAULT_BIND, OPENAI_DEFAULT_PORT, {})
                    (drop 2 ws)) (\<lambda>(bind, port, seen).
        Inr \<lparr>hc_name = OPENAI_COMPONENT_NAME, hc_bind = bind, hc_port = port, hc_line = line\<rparr>))"

definition provider_line ::
    "os_env \<Rightarrow> ppath \<Rightarrow> ppath \<Rightarrow> nat \<Rightarrow> ustr list \<Rightarrow> unbound_provider res" where
  "provider_line os croot selected line ws =
     rbind (provider_source os croot selected (ws ! 2)) (\<lambda>(source, context, bundled).
     rbind (load_component os source) (\<lambda>contract.
     if 1 < length (filter (\<lambda>f. f = lit ''--'') ws)
     then Inl (CycloError ''provider line contains more than one --'')
     else
       let boundary = length (takeWhile (\<lambda>f. f \<noteq> lit ''--'') ws);
           settings = take (boundary - 3) (drop 3 ws);
           arguments = drop (boundary + 1) ws;
           context_settings = filter (startswith (lit ''context='')) settings
       in
       if 1 < length context_settings then Inl (CycloError ''duplicate context setting'')
       else
         rbind
           (case context_settings of
              [] \<Rightarrow> Inr (context, settings)
            | setting # _ \<Rightarrow>
                (if bundled
                 then Inl (CycloError ''bundled provider sources do not accept context=PATH'')
                 else
                   let context_value = snd (snd (partition_at 61 setting)) in
                   if context_value = [] then Inl (CycloError ''context path is empty'')
                   else
                     let given = path_of context_value;
                         context_path = (if is_absolute given then given
                                         else joinpath source given)
                     in rbind (canonical_directory os context_path) (\<lambda>c.
                        Inr (c, remove1 setting settings))))
           (\<lambda>(context', settings').
         if \<not> is_relative_to source context'
         then Inl (CycloError ''component source must be inside its build context'')
         else Inr \<lparr>dl_name = ws ! 1, dl_source = source, dl_context = context',
                   dl_contract = contract, dl_settings = settings', dl_arguments = arguments,
                   dl_line = line\<rparr>)))"

record host_state =
  hs_declarations :: "unbound_provider list"
  hs_components :: "host_component list"
  hs_names :: "ustr set"

definition host_step ::
    "os_env \<Rightarrow> ppath \<Rightarrow> ppath \<Rightarrow> host_state \<Rightarrow> nat \<times> ustr \<Rightarrow> host_state res" where
  "host_step os croot selected st numbered =
     (let line = fst numbered; content = line_content (snd numbered) in
      if content = [] then Inr st
      else let ws = split_ws content in
      if ws ! 0 = lit ''component'' then
        rbind (host_component_line line ws) (\<lambda>component.
        if hc_name component \<in> hs_names st
        then Inl (CycloError ''duplicate component name'')
        else Inr (st\<lparr>hs_names := insert (hc_name component) (hs_names st),
                     hs_components := hs_components st @ [component]\<rparr>))
      else if ws ! 0 \<noteq> lit ''provider'' \<or> length ws < 3
      then Inl (CycloError ''expected provider NAME SOURCE'')
      else if \<not> is_name (ws ! 1) \<or> ws ! 1 \<in> hs_names st
      then Inl (CycloError ''invalid or duplicate provider name'')
      else rbind (provider_line os croot selected line ws) (\<lambda>d.
        Inr (st\<lparr>hs_names := insert (ws ! 1) (hs_names st),
                hs_declarations := hs_declarations st @ [d]\<rparr>)))"

section \<open>Bindings\<close>

type_synonym output_table = "ustr \<times> ustr \<rightharpoonup> ustr"

definition output_table :: "unbound_provider list \<Rightarrow> output_table" where
  "output_table ds =
     fold (\<lambda>d m. fold (\<lambda>e m. m((dl_name d, ep_name e) \<mapsto> ep_service e))
                   (ct_outputs (dl_contract d)) m)
       ds [(lit ''gateway'', lit ''provider'') \<mapsto> PROVIDER_SERVICE]"

definition bind_setting ::
    "output_table \<Rightarrow> (ustr \<rightharpoonup> endpoint) \<Rightarrow> (ustr \<times> binding) list \<Rightarrow> ustr \<Rightarrow>
       (ustr \<times> binding) list res" where
  "bind_setting outputs expected bindings setting =
     (let (input_name, separator, target) = partition_at 61 setting;
          (target_component, dot, target_output) = partition_at 46 target
      in
      if \<not> separator \<or> \<not> dot \<or> expected input_name = None \<or>
         input_name \<in> fst ` set bindings \<or> \<not> is_name target_component \<or> \<not> is_name target_output
      then Inl (CycloError ''invalid or duplicate interface binding'')
      else case outputs (target_component, target_output) of
             None \<Rightarrow> Inl (CycloError ''binding targets an unknown output'')
           | Some service \<Rightarrow>
               if service \<noteq> ep_service (the (expected input_name))
               then Inl (CycloError ''binding provides another service'')
               else Inr (bindings @ [(input_name, \<lparr>bn_input = input_name,
                      bn_component = target_component, bn_output = target_output\<rparr>)]))"

definition bind_provider :: "output_table \<Rightarrow> unbound_provider \<Rightarrow> provider res" where
  "bind_provider outputs d =
     (let inputs = ct_inputs (dl_contract d);
          expected = map_of (rev (map (\<lambda>e. (ep_name e, e)) inputs))
      in
      rbind (foldE (bind_setting outputs expected) [] (dl_settings d)) (\<lambda>bindings.
      if \<not> ep_name ` set inputs \<subseteq> fst ` set bindings
      then Inl (CycloError ''missing binding(s)'')
      else Inr \<lparr>pv_name = dl_name d, pv_source = dl_source d, pv_context = dl_context d,
                pv_contract = dl_contract d, pv_bindings = map snd (sort_key fst bindings),
                pv_arguments = dl_arguments d, pv_line = dl_line d\<rparr>))"

definition load_host :: "os_env \<Rightarrow> ppath \<Rightarrow> ppath \<Rightarrow> host res" where
  "load_host os croot path =
     (let selected = abspath os (expanduser os path) in
      rbind (read_regular_file os selected True) (\<lambda>raw.
      rbind (decode_config raw) (\<lambda>text.
      let lines = splitlines text in
      rbind (foldE (host_step os croot selected)
               \<lparr>hs_declarations = [], hs_components = [], hs_names = {lit ''gateway''}\<rparr>
               (zip [1..<Suc (length lines)] lines)) (\<lambda>st.
      rbind (mapE (bind_provider (output_table (hs_declarations st))) (hs_declarations st))
        (\<lambda>providers.
      Inr \<lparr>ho_path = selected, ho_providers = providers, ho_generation = sha256_hex raw,
           ho_components = hs_components st\<rparr>)))))"

section \<open>What a descriptor that loads says\<close>

definition contract_wf :: "contract \<Rightarrow> bool" where
  "contract_wf c \<longleftrightarrow>
     ct_image c \<noteq> [] \<and> (\<forall>x\<in>set (ct_image c). \<not> isspace x) \<and>
     (\<forall>e\<in>set (ct_inputs c) \<union> set (ct_outputs c). endpoint_wf e) \<and>
     distinct (map ep_name (ct_inputs c)) \<and> distinct (map ep_name (ct_outputs c)) \<and>
     (\<exists>!e. e \<in> set (ct_outputs c) \<and> is_provider_output e)"

definition descriptor_inv :: "descriptor_state \<Rightarrow> bool" where
  "descriptor_inv st \<longleftrightarrow>
     (\<forall>i. ds_image st = Some i \<longrightarrow> i \<noteq> [] \<and> (\<forall>x\<in>set i. \<not> isspace x)) \<and>
     (\<forall>e\<in>set (ds_inputs st) \<union> set (ds_outputs st). endpoint_wf e) \<and>
     distinct (map ep_name (ds_inputs st)) \<and> distinct (map ep_name (ds_outputs st))"

lemma descriptor_step_inv:
  assumes "descriptor_inv st" "descriptor_step st l = Inr st'"
  shows "descriptor_inv st'"
proof -
  let ?W = "split_ws (line_content l)"
  have "?W ! 1 \<noteq> [] \<and> (\<forall>x\<in>set (?W ! 1). \<not> isspace x)" if "length ?W = 2"
    using split_ws_tokens [of "?W ! 1"] that by (metis nth_mem one_less_numeral_iff semiring_norm(76))
  then show ?thesis using assms
    by (auto simp: descriptor_step_def Let_def descriptor_inv_def endpoint_wf_def split: if_splits)
      blast+
qed

lemma distinct_filter_ex1:
  assumes "distinct (map f xs)" "length (filter P xs) = 1"
  shows "\<exists>!x. x \<in> set xs \<and> P x"
proof -
  obtain x where x: "filter P xs = [x]" using assms(2) by (auto simp: length_Suc_conv)
  have "y \<in> set xs \<and> P y \<longleftrightarrow> y = x" for y
    using arg_cong [OF x, of set] by auto
  then show ?thesis by auto
qed

lemma parse_descriptor_wf:
  assumes "parse_descriptor text = Inr c"
  shows "contract_wf c"
proof -
  from assms obtain st img where
    f: "foldE descriptor_step \<lparr>ds_image = None, ds_inputs = [], ds_outputs = []\<rparr> (splitlines text) = Inr st"
    and i: "ds_image st = Some img"
    and c: "c = \<lparr>ct_image = img, ct_inputs = ds_inputs st, ct_outputs = ds_outputs st\<rparr>"
    and one: "length (filter is_provider_output (ct_outputs c)) = 1"
    by (auto simp: parse_descriptor_def Let_def split: option.splits if_splits)
  have "descriptor_inv st"
    by (rule foldE_invariant [OF f, where P = descriptor_inv])
      (simp add: descriptor_inv_def, rule descriptor_step_inv)
  then show ?thesis
    using i one distinct_filter_ex1 [of ep_name "ct_outputs c" is_provider_output]
    by (simp add: c contract_wf_def descriptor_inv_def)
qed

lemma load_component_wf: "load_component os path = Inr c \<Longrightarrow> contract_wf c"
  by (auto simp: load_component_def intro: parse_descriptor_wf)

section \<open>A rendered descriptor loads back\<close>

definition clean :: "ustr \<Rightarrow> bool" where
  "clean w \<longleftrightarrow> w \<noteq> [] \<and> (\<forall>c\<in>set w. \<not> isspace c \<and> \<not> is_control c \<and> c \<noteq> 35)"

lemma clean_token: "is_token w \<Longrightarrow> clean w"
  by (auto simp: is_token_def clean_def)

lemma split_at_cover: "c \<in> set s \<Longrightarrow> c \<noteq> k \<Longrightarrow> \<exists>w\<in>set (split_at k s). c \<in> set w"
  by (induction s) (auto split: list.splits)

lemma ident_char: "ident_head c \<or> ident_tail c \<or> c = 46 \<Longrightarrow> \<not> isspace c \<and> \<not> is_control c \<and> c \<noteq> 35"
  by (auto simp: ident_head_def ident_tail_def ascii_defs isspace_def is_control_def)

lemma clean_service:
  assumes "is_service s"
  shows "clean s"
proof -
  have "ident_head c \<or> ident_tail c \<or> c = 46" if c: "c \<in> set s" for c
  proof (cases "c = 46")
    case False
    then obtain w where w: "w \<in> set (split_at 46 s)" "c \<in> set w" using split_at_cover c by blast
    then have "re_name_star ident_head ident_tail w"
      using assms by (auto simp: is_service_def list_all_iff)
    then show ?thesis using w(2)
      by (auto simp: re_name_star_def list_all_iff split: list.splits)
  qed simp
  moreover have "s \<noteq> []" using assms by (auto simp: is_service_def)
  ultimately show ?thesis using ident_char by (simp add: clean_def)
qed

lemma name_char: "is_lower c \<or> name_tail c \<Longrightarrow> \<not> isspace c \<and> \<not> is_control c \<and> c \<noteq> 35 \<and> c \<noteq> 46 \<and> c \<noteq> 61"
  by (auto simp: name_tail_def ascii_defs isspace_def is_control_def)

lemma clean_name: "is_name s \<Longrightarrow> clean s"
  using re_nameD(1,4) [of is_lower name_tail 62 s] name_char
  by (auto simp: is_name_def clean_def)

lemma clean_literal [simp]:
  "clean (lit ''docker'')" "clean (lit ''input'')" "clean (lit ''output'')"
  by (simp_all add: clean_def lit_def isspace_def is_control_def)

lemma cut_comment_id: "35 \<notin> set s \<Longrightarrow> cut_comment s = s"
  by (induction s rule: cut_comment.induct) auto

lemma set_join: "set (join sep xs) \<subseteq> set sep \<union> (\<Union>x\<in>set xs. set x)"
  by (induction sep xs rule: join.induct) auto

lemma join_hd_last:
  assumes "xs \<noteq> []" "\<forall>x\<in>set xs. x \<noteq> []"
  shows "join sep xs \<noteq> [] \<and> hd (join sep xs) = hd (hd xs) \<and> last (join sep xs) = last (last xs)"
  using assms by (induction sep xs rule: join.induct) auto

lemma line_content_sp:
  assumes "ws \<noteq> []" "\<forall>w\<in>set ws. clean w"
  shows "line_content (sp ws) = sp ws"
proof -
  have ne: "\<forall>w\<in>set ws. w \<noteq> []" using assms by (auto simp: clean_def)
  note hl = join_hd_last [OF assms(1) ne, of "[32]"]
  have no: "35 \<notin> set (join [32] ws)"
    using set_join [of "[32]" ws] assms by (fastforce simp: clean_def)
  have hw: "clean (hd ws)" "clean (last ws)" using assms by simp_all
  then have ends: "\<not> isspace (hd (hd ws))" "\<not> isspace (last (last ws))" "hd (hd ws) \<noteq> 35"
    by (simp_all add: clean_def)
  have "\<not> startswith [35] (join [32] ws)"
    using hl ends(3) by (intro startswith_neq_hd) simp_all
  then show ?thesis
    using hl ends by (simp add: line_content_def sp_def cut_comment_id [OF no] strip_id)
qed

lemma split_ws_sp: "\<forall>w\<in>set ws. clean w \<Longrightarrow> split_ws (sp ws) = ws"
  by (auto simp: sp_def clean_def intro: split_ws_join)

lemma sp_not_Nil: "ws \<noteq> [] \<Longrightarrow> \<forall>w\<in>set ws. clean w \<Longrightarrow> sp ws \<noteq> []"
  using join_hd_last [of ws "[32]"] by (auto simp: sp_def clean_def)

lemma descriptor_step_sp:
  assumes "ws \<noteq> []" "\<forall>w\<in>set ws. clean w"
  shows "line_content (sp ws) = sp ws \<and> sp ws \<noteq> [] \<and> split_ws (sp ws) = ws"
  using line_content_sp [OF assms] split_ws_sp [OF assms(2)] sp_not_Nil [OF assms] by blast

lemma descriptor_step_docker:
  assumes "clean img" "ds_image st = None"
  shows "descriptor_step st (sp [lit ''docker'', img]) = Inr (st\<lparr>ds_image := Some img\<rparr>)"
  using descriptor_step_sp [of "[lit ''docker'', img]"] assms
  by (simp add: descriptor_step_def Let_def)

lemma descriptor_step_input:
  assumes "endpoint_wf e" "ep_name e \<notin> ep_name ` set (ds_inputs st)"
  shows "descriptor_step st (sp [lit ''input'', ep_service e, ep_name e]) =
    Inr (st\<lparr>ds_inputs := ds_inputs st @ [e]\<rparr>)"
  using descriptor_step_sp [of "[lit ''input'', ep_service e, ep_name e]"] assms
  by (auto simp: descriptor_step_def Let_def endpoint_wf_def clean_service clean_name image_iff)

lemma descriptor_step_output:
  assumes "endpoint_wf e" "ep_name e \<notin> ep_name ` set (ds_outputs st)"
  shows "descriptor_step st (sp [lit ''output'', ep_service e, ep_name e]) =
    Inr (st\<lparr>ds_outputs := ds_outputs st @ [e]\<rparr>)"
  using descriptor_step_sp [of "[lit ''output'', ep_service e, ep_name e]"] assms
  by (auto simp: descriptor_step_def Let_def endpoint_wf_def clean_service clean_name image_iff)

lemma descriptor_steps_input:
  "\<forall>e\<in>set es. endpoint_wf e \<Longrightarrow> distinct (map ep_name (ds_inputs st @ es)) \<Longrightarrow>
    foldE descriptor_step st (map (\<lambda>e. sp [lit ''input'', ep_service e, ep_name e]) es) =
      Inr (st\<lparr>ds_inputs := ds_inputs st @ es\<rparr>)"
  by (induction es arbitrary: st) (auto simp: descriptor_step_input)

lemma descriptor_steps_output:
  "\<forall>e\<in>set es. endpoint_wf e \<Longrightarrow> distinct (map ep_name (ds_outputs st @ es)) \<Longrightarrow>
    foldE descriptor_step st (map (\<lambda>e. sp [lit ''output'', ep_service e, ep_name e]) es) =
      Inr (st\<lparr>ds_outputs := ds_outputs st @ es\<rparr>)"
  by (induction es arbitrary: st) (auto simp: descriptor_step_output)

lemma descriptor_lines_clean:
  assumes "component_wf os c" "l \<in> set (descriptor_lines c)"
  shows "\<exists>ws. l = sp ws \<and> ws \<noteq> [] \<and> (\<forall>w\<in>set ws. clean w)"
proof -
  have ep: "\<forall>w\<in>set [lit d, ep_service e, ep_name e]. clean w"
    if "e \<in> set (co_inputs c) \<union> set (co_outputs c)" "clean (lit d)" for e d
    using that assms(1) by (auto simp: component_wf_def endpoint_wf_def clean_service clean_name)
  consider "l = sp [lit ''docker'', co_image c]"
    | e where "e \<in> set (co_inputs c)" "l = sp [lit ''input'', ep_service e, ep_name e]"
    | e where "e \<in> set (co_outputs c)" "l = sp [lit ''output'', ep_service e, ep_name e]"
    using assms(2) by (auto simp: descriptor_lines_def)
  then show ?thesis
  proof cases
    case 1
    moreover have "\<forall>w\<in>set [lit ''docker'', co_image c]. clean w"
      using assms(1) by (simp add: component_wf_def clean_token)
    ultimately show ?thesis by blast
  next
    case 2
    then show ?thesis using ep [of e "''input''"]
      by (intro exI [of _ "[lit ''input'', ep_service e, ep_name e]"]) simp
  next
    case 3
    then show ?thesis using ep [of e "''output''"]
      by (intro exI [of _ "[lit ''output'', ep_service e, ep_name e]"]) simp
  qed
qed

lemma sp_chars:
  assumes "\<forall>w\<in>set ws. clean w" "c \<in> set (sp ws)"
  shows "\<not> is_control c \<and> \<not> is_linebreak c"
proof (cases "c = 32")
  case False
  then obtain w where "w \<in> set ws" "c \<in> set w"
    using assms(2) set_join [of "[32]" ws] by (auto simp: sp_def)
  then show ?thesis using assms(1) linebreak_isspace by (auto simp: clean_def)
qed (simp add: is_control_def is_linebreak_def)

lemma join_crlf_id: "13 \<notin> set s \<Longrightarrow> join_crlf s = s"
  by (induction s rule: join_crlf.induct) auto

text \<open>A rendered descriptor loads back: for a component that passes its validation and has
  one provider output, \<open>load_component\<close> on the published file returns the image and the
  endpoints it was rendered from, in the order they are printed.\<close>

theorem load_rendered_component:
  assumes wf: "component_wf os c"
    and one: "length (filter is_provider_output (co_outputs c)) = 1"
    and r: "render_component c = Inr bs"
    and small: "length bs \<le> MAX_HOST_CONFIG_BYTES"
    and rd: "read_nofollow os (joinpath path (Path [] [manifest_name])) = Content bs"
  shows "load_component os path = Inr \<lparr>ct_image = co_image c,
    ct_inputs = sort_key endpoint_key (co_inputs c), ct_outputs = sort_key endpoint_key (co_outputs c)\<rparr>"
proof -
  let ?ls = "descriptor_lines c"
  let ?text = "join [10] ?ls @ [10]"
  have dec: "utf8_decode bs = Some ?text"
    using r by (intro utf8_decode_encode) (auto simp: render_component_def)
  have line: "\<not> is_control x \<and> \<not> is_linebreak x" if "l \<in> set ?ls" "x \<in> set l" for l x
    using descriptor_lines_clean [OF wf that(1)] sp_chars that(2) by blast
  have ctl: "x = 10 \<or> \<not> is_control x" if "x \<in> set ?text" for x
    using that set_join [of "[10]" ?ls] line by auto
  then have "13 \<notin> set ?text" by (force simp: is_control_def)
  then have conf: "decode_config bs = Inr ?text"
    using ctl by (auto simp: decode_config_def dec join_crlf_id)
  have lines: "splitlines ?text = ?ls"
    using line by (intro splitlines_join) (auto simp: descriptor_lines_def)
  have sorted: "distinct (map ep_name (sort_key endpoint_key xs))" if "distinct (map ep_name xs)" for xs
    using that by (simp add: distinct_map)
  let ?st = "\<lparr>ds_image = Some (co_image c), ds_inputs = sort_key endpoint_key (co_inputs c),
    ds_outputs = sort_key endpoint_key (co_outputs c)\<rparr>"
  have fold: "foldE descriptor_step \<lparr>ds_image = None, ds_inputs = [], ds_outputs = []\<rparr> ?ls = Inr ?st"
    using wf by (simp add: descriptor_lines_def foldE_append descriptor_step_docker clean_token
        descriptor_steps_input descriptor_steps_output sorted component_wf_def)
  have "length (filter is_provider_output (sort_key endpoint_key (co_outputs c))) = 1"
    using one by (metis filter_sort length_sort)
  then have "parse_descriptor ?text = Inr \<lparr>ct_image = co_image c,
    ct_inputs = sort_key endpoint_key (co_inputs c), ct_outputs = sort_key endpoint_key (co_outputs c)\<rparr>"
    by (simp add: parse_descriptor_def lines fold Let_def)
  then show ?thesis
    using small rd conf by (simp add: load_component_def read_regular_file_def)
qed

definition ex_descriptor_os :: os_env where
  "ex_descriptor_os = ex_os\<lparr>read_nofollow := (\<lambda>p.
     if p = path_of (lit ''/p/component.dcomp'') then Content ex_content else Missing)\<rparr>"

lemma load_rendered_component_witness:
  "load_component ex_descriptor_os (path_of (lit ''/p'')) =
     Inr \<lparr>ct_image = lit ''img'', ct_inputs = [],
          ct_outputs = [\<lparr>ep_service = PROVIDER_SERVICE, ep_name = lit ''provider''\<rparr>]\<rparr>"
proof -
  have "component_validate ex_descriptor_os ex_component = Inr ()" by code_simp
  then have "component_wf ex_descriptor_os ex_component" by (simp add: component_checker.check_iff)
  moreover have "length ex_content \<le> MAX_HOST_CONFIG_BYTES"
    by (simp add: ex_content_def MAX_HOST_CONFIG_BYTES_def)
  moreover have "joinpath (path_of (lit ''/p'')) (Path [] [manifest_name]) = path_of (lit ''/p/component.dcomp'')"
    by code_simp
  ultimately show ?thesis
    using load_rendered_component [of ex_descriptor_os ex_component ex_content "path_of (lit ''/p'')"] ex_render
    by (simp add: ex_component_def ex_descriptor_os_def is_provider_output_def)
qed

section \<open>What a host configuration that loads says\<close>

definition declared_wf :: "unbound_provider \<Rightarrow> bool" where
  "declared_wf d \<longleftrightarrow> is_name (dl_name d) \<and> contract_wf (dl_contract d) \<and>
     is_relative_to (dl_source d) (dl_context d)"

definition enabled_wf :: "host_component \<Rightarrow> bool" where
  "enabled_wf c \<longleftrightarrow> hc_name c = OPENAI_COMPONENT_NAME \<and> is_ipv4 (hc_bind c) \<and>
     1 \<le> hc_port c \<and> hc_port c \<le> 65535"

definition gateway_name :: ustr where "gateway_name = lit ''gateway''"

definition host_inv :: "host_state \<Rightarrow> bool" where
  "host_inv st \<longleftrightarrow>
     (let names = gateway_name # map dl_name (hs_declarations st) @ map hc_name (hs_components st)
      in hs_names st = set names \<and> distinct names) \<and>
     (\<forall>d\<in>set (hs_declarations st). declared_wf d) \<and> (\<forall>c\<in>set (hs_components st). enabled_wf c)"

lemma provider_line_Inr:
  assumes "provider_line os croot selected line ws = Inr d"
  shows "dl_name d = ws ! 1 \<and> contract_wf (dl_contract d) \<and> is_relative_to (dl_source d) (dl_context d)"
  using assms load_component_wf
  by (auto simp: provider_line_def Let_def split: if_splits list.splits prod.splits)

lemma component_setting_inv:
  assumes "component_setting (b, n, seen) s = Inr (b', n', seen')" "is_ipv4 b" "1 \<le> n" "n \<le> 65535"
  shows "is_ipv4 b' \<and> 1 \<le> n' \<and> n' \<le> 65535"
  using assms by (auto simp: component_setting_def split: prod.splits if_splits option.splits)

lemma host_component_line_Inr:
  assumes "host_component_line line ws = Inr c"
  shows "enabled_wf c"
proof -
  from assms obtain b n seen where
    f: "foldE component_setting (OPENAI_DEFAULT_BIND, OPENAI_DEFAULT_PORT, {}) (drop 2 ws) = Inr (b, n, seen)"
    and c: "c = \<lparr>hc_name = OPENAI_COMPONENT_NAME, hc_bind = b, hc_port = n, hc_line = line\<rparr>"
    by (auto simp: host_component_line_def split: if_splits)
  have "is_ipv4 OPENAI_DEFAULT_BIND" by code_simp
  then have "case (b, n, seen) of (b, n, seen) \<Rightarrow> is_ipv4 b \<and> 1 \<le> n \<and> n \<le> 65535"
    by (intro foldE_invariant [OF f, where P = "\<lambda>(b, n, seen). is_ipv4 b \<and> 1 \<le> n \<and> n \<le> 65535"])
      (auto simp: OPENAI_DEFAULT_PORT_def dest: component_setting_inv)
  then show ?thesis by (simp add: c enabled_wf_def)
qed

lemma host_step_inv:
  assumes "host_inv st" "host_step os croot selected st l = Inr st'"
  shows "host_inv st'"
proof -
  let ?ws = "split_ws (line_content (snd l))"
  consider "st' = st"
    | c where "host_component_line (fst l) ?ws = Inr c" "hc_name c \<notin> hs_names st"
        "st' = st\<lparr>hs_names := insert (hc_name c) (hs_names st), hs_components := hs_components st @ [c]\<rparr>"
    | d where "provider_line os croot selected (fst l) ?ws = Inr d" "is_name (?ws ! 1)"
        "?ws ! 1 \<notin> hs_names st"
        "st' = st\<lparr>hs_names := insert (?ws ! 1) (hs_names st), hs_declarations := hs_declarations st @ [d]\<rparr>"
  proof (cases "line_content (snd l) = []")
    case True
    then show thesis using that(1) assms(2) by (simp add: host_step_def)
  next
    case ne: False
    show thesis
    proof (cases "?ws ! 0 = lit ''component''")
      case True
      with ne assms(2) obtain c where "host_component_line (fst l) ?ws = Inr c" "hc_name c \<notin> hs_names st"
        "Inr st' = (Inr (st\<lparr>hs_names := insert (hc_name c) (hs_names st), hs_components := hs_components st @ [c]\<rparr>) :: host_state res)"
        unfolding host_step_def Let_def
        by (cases "host_component_line (fst l) ?ws") (simp_all split: if_split_asm)
      then show thesis using that(2) by simp
    next
      case False
      with ne assms(2) obtain d where "provider_line os croot selected (fst l) ?ws = Inr d"
        "is_name (?ws ! 1)" "?ws ! 1 \<notin> hs_names st"
        "Inr st' = (Inr (st\<lparr>hs_names := insert (?ws ! 1) (hs_names st), hs_declarations := hs_declarations st @ [d]\<rparr>) :: host_state res)"
        unfolding host_step_def Let_def
        by (cases "provider_line os croot selected (fst l) ?ws") (simp_all split: if_split_asm)
      then show thesis using that(3) by simp
    qed
  qed
  then show ?thesis
  proof cases
    case 1
    then show ?thesis using assms(1) by simp
  next
    case 2
    then show ?thesis using assms(1) host_component_line_Inr [OF 2(1)]
      by (auto simp: host_inv_def Let_def)
  next
    case 3
    then show ?thesis using assms(1) provider_line_Inr [OF 3(1)]
      by (auto simp: host_inv_def Let_def declared_wf_def)
  qed
qed

text \<open>The output a binding names: the gateway's, or one a declared provider's contract has.\<close>

definition declared_output :: "unbound_provider list \<Rightarrow> ustr \<Rightarrow> ustr \<Rightarrow> ustr \<Rightarrow> bool" where
  "declared_output ds c out service \<longleftrightarrow>
     c = gateway_name \<and> out = lit ''provider'' \<and> service = PROVIDER_SERVICE \<or>
     (\<exists>d\<in>set ds. \<exists>e\<in>set (ct_outputs (dl_contract d)).
        dl_name d = c \<and> ep_name e = out \<and> ep_service e = service)"

lemma output_fold_inner:
  "fold (\<lambda>e m. m((n, ep_name e) \<mapsto> ep_service e)) es m (c, out) = Some service \<Longrightarrow>
     m (c, out) = Some service \<or> (c = n \<and> (\<exists>e\<in>set es. ep_name e = out \<and> ep_service e = service))"
  by (induction es arbitrary: m) (fastforce split: if_splits)+

lemma output_fold:
  "fold (\<lambda>d m. fold (\<lambda>e m. m((dl_name d, ep_name e) \<mapsto> ep_service e)) (ct_outputs (dl_contract d)) m)
     ds m (c, out) = Some service \<Longrightarrow>
     m (c, out) = Some service \<or> (\<exists>d\<in>set ds. \<exists>e\<in>set (ct_outputs (dl_contract d)).
        dl_name d = c \<and> ep_name e = out \<and> ep_service e = service)"
proof (induction ds arbitrary: m)
  case (Cons d ds)
  from Cons.IH [OF Cons.prems [simplified fold_simps comp_apply]] show ?case
    by (auto dest: output_fold_inner)
qed simp

lemma output_table_Some:
  "output_table ds (c, out) = Some service \<Longrightarrow> declared_output ds c out service"
  unfolding output_table_def
  by (drule output_fold) (auto simp: declared_output_def gateway_name_def split: if_splits)

definition binding_ok :: "unbound_provider list \<Rightarrow> contract \<Rightarrow> binding \<Rightarrow> bool" where
  "binding_ok ds c b \<longleftrightarrow>
     (\<exists>e\<in>set (ct_inputs c). ep_name e = bn_input b \<and>
        declared_output ds (bn_component b) (bn_output b) (ep_service e))"

lemma bind_setting_inv:
  assumes "bind_setting (output_table ds) (map_of (rev (map (\<lambda>e. (ep_name e, e)) (ct_inputs c)))) bs s = Inr bs'"
    and "distinct (map fst bs)" "\<forall>(n, b)\<in>set bs. bn_input b = n \<and> binding_ok ds c b"
  shows "distinct (map fst bs') \<and> (\<forall>(n, b)\<in>set bs'. bn_input b = n \<and> binding_ok ds c b)"
proof -
  obtain n tc out e where n: "n \<notin> fst ` set bs"
    and e: "map_of (rev (map (\<lambda>e. (ep_name e, e)) (ct_inputs c))) n = Some e"
    and o: "output_table ds (tc, out) = Some (ep_service e)"
    and bs': "bs' = bs @ [(n, \<lparr>bn_input = n, bn_component = tc, bn_output = out\<rparr>)]"
    using assms(1) by (auto simp: bind_setting_def Let_def split: prod.splits if_splits option.splits)
  have "e \<in> set (ct_inputs c) \<and> ep_name e = n" using map_of_SomeD [OF e] by auto
  then have "binding_ok ds c \<lparr>bn_input = n, bn_component = tc, bn_output = out\<rparr>"
    using output_table_Some [OF o] by (auto simp: binding_ok_def)
  then show ?thesis using assms(2,3) n by (auto simp: bs')
qed

text \<open>
  A provider whose bindings are, in order of the input's name, one per input of its contract,
  each leading to an output of the input's own service.
\<close>

definition provider_wf :: "unbound_provider list \<Rightarrow> provider \<Rightarrow> bool" where
  "provider_wf ds p \<longleftrightarrow>
     is_name (pv_name p) \<and> contract_wf (pv_contract p) \<and>
     is_relative_to (pv_source p) (pv_context p) \<and>
     sorted (map bn_input (pv_bindings p)) \<and> distinct (map bn_input (pv_bindings p)) \<and>
     bn_input ` set (pv_bindings p) = ep_name ` set (ct_inputs (pv_contract p)) \<and>
     (\<forall>b\<in>set (pv_bindings p). binding_ok ds (pv_contract p) b)"

lemma bind_provider_wf:
  assumes "bind_provider (output_table ds) d = Inr p" "declared_wf d"
  shows "provider_wf ds p \<and> pv_name p = dl_name d \<and> pv_contract p = dl_contract d"
proof -
  let ?c = "dl_contract d"
  obtain bs where
    f: "foldE (bind_setting (output_table ds) (map_of (rev (map (\<lambda>e. (ep_name e, e)) (ct_inputs ?c))))) []
      (dl_settings d) = Inr bs"
    and all: "ep_name ` set (ct_inputs ?c) \<subseteq> fst ` set bs"
    and p: "p = \<lparr>pv_name = dl_name d, pv_source = dl_source d, pv_context = dl_context d,
                pv_contract = ?c, pv_bindings = map snd (sort_key fst bs),
                pv_arguments = dl_arguments d, pv_line = dl_line d\<rparr>"
    using assms(1) by (auto simp: bind_provider_def Let_def split: if_splits)
  let ?P = "\<lambda>bs. distinct (map fst bs) \<and> (\<forall>(n, b)\<in>set bs. bn_input b = n \<and> binding_ok ds ?c b)"
  have "?P bs"
  proof (rule foldE_invariant [OF f, where P = ?P])
    fix xs x ys
    assume "?P xs" and "bind_setting (output_table ds)
      (map_of (rev (map (\<lambda>e. (ep_name e, e)) (ct_inputs ?c)))) xs x = Inr ys"
    then show "?P ys" using bind_setting_inv [of ds ?c xs x ys] by simp
  qed simp
  then have bs: "distinct (map fst bs)" "\<forall>x\<in>set bs. bn_input (snd x) = fst x \<and> binding_ok ds ?c (snd x)"
    by auto
  have keys: "map (bn_input \<circ> snd) (sort_key fst bs) = map fst (sort_key fst bs)"
    using bs(2) by simp
  have "distinct (map fst (sort_key fst bs))" using bs(1) by (simp add: distinct_map)
  moreover have "sorted (map fst (sort_key fst bs))" by simp
  moreover have "bn_input ` set (map snd (sort_key fst bs)) = fst ` set bs"
    using bs(2) by (force simp: image_iff)
  moreover have "fst ` set bs \<subseteq> ep_name ` set (ct_inputs ?c)"
  proof
    fix n assume "n \<in> fst ` set bs"
    then obtain x where "x \<in> set bs" "fst x = n" by auto
    with bs(2) obtain e where "e \<in> set (ct_inputs ?c)" "ep_name e = n"
      unfolding binding_ok_def by metis
    then show "n \<in> ep_name ` set (ct_inputs ?c)" by blast
  qed
  moreover have "\<forall>x\<in>set bs. binding_ok ds ?c (snd x)" using bs(2) by blast
  ultimately show ?thesis
    using assms(2) all by (auto simp: p provider_wf_def declared_wf_def keys)
qed

lemma provider_output_wf:
  assumes "contract_wf (pv_contract p)"
  shows "\<exists>e\<in>set (ct_outputs (pv_contract p)). provider_output p = Inr (ep_name e) \<and>
    ep_service e = PROVIDER_SERVICE"
proof -
  let ?out = "ct_outputs (pv_contract p)"
  from assms obtain e where e: "e \<in> set ?out" "is_provider_output e"
    and u: "\<forall>x. x \<in> set ?out \<and> is_provider_output x \<longrightarrow> x = e"
    unfolding contract_wf_def by blast
  have "distinct (map ep_name ?out)" using assms unfolding contract_wf_def by blast
  then have d: "distinct (filter is_provider_output ?out)" by (simp add: distinct_map)
  have "set (filter is_provider_output ?out) = {e}" unfolding set_filter using e u by blast
  then have "filter is_provider_output ?out = [e]"
    by (rule distinct_set_singleton [OF d])
  then show ?thesis using e by (auto simp: provider_output_def is_provider_output_def)
qed

text \<open>The same, with the outputs a binding may name taken from the providers of the host.\<close>

definition provider_linked :: "provider list \<Rightarrow> provider \<Rightarrow> bool" where
  "provider_linked ps p \<longleftrightarrow>
     is_name (pv_name p) \<and> contract_wf (pv_contract p) \<and>
     is_relative_to (pv_source p) (pv_context p) \<and>
     sorted (map bn_input (pv_bindings p)) \<and> distinct (map bn_input (pv_bindings p)) \<and>
     bn_input ` set (pv_bindings p) = ep_name ` set (ct_inputs (pv_contract p)) \<and>
     (\<forall>b\<in>set (pv_bindings p). \<exists>e\<in>set (ct_inputs (pv_contract p)). ep_name e = bn_input b \<and>
        (bn_component b = gateway_name \<and> bn_output b = lit ''provider'' \<and> ep_service e = PROVIDER_SERVICE \<or>
         (\<exists>q\<in>set ps. \<exists>out\<in>set (ct_outputs (pv_contract q)).
            pv_name q = bn_component b \<and> ep_name out = bn_output b \<and> ep_service out = ep_service e)))"

definition host_wf :: "host \<Rightarrow> bool" where
  "host_wf h \<longleftrightarrow>
     distinct (gateway_name # map pv_name (ho_providers h) @ map hc_name (ho_components h)) \<and>
     (\<forall>c\<in>set (ho_components h). enabled_wf c) \<and>
     (\<forall>p\<in>set (ho_providers h). provider_linked (ho_providers h) p)"

lemma load_host_inv:
  assumes "load_host os croot path = Inr h"
  shows "host_wf h \<and> (\<exists>out. outer_output h = Inr out)"
proof -
  from assms obtain raw body st ps where
    f: "foldE (host_step os croot (abspath os (expanduser os path)))
      \<lparr>hs_declarations = [], hs_components = [], hs_names = {lit ''gateway''}\<rparr>
      (zip [1..<Suc (length (splitlines body))] (splitlines body)) = Inr st"
    and m: "mapE (bind_provider (output_table (hs_declarations st))) (hs_declarations st) = Inr ps"
    and h: "ho_providers h = ps" "ho_components h = hs_components st"
    unfolding load_host_def Let_def by auto
  let ?ds = "hs_declarations st"
  have inv: "host_inv st"
    by (rule foldE_invariant [OF f, where P = host_inv])
      (simp add: host_inv_def gateway_name_def, rule host_step_inv)
  have each: "list_all2 (\<lambda>d p. provider_wf ?ds p \<and> pv_name p = dl_name d \<and> pv_contract p = dl_contract d) ?ds ps"
    by (rule list.rel_mono_strong [OF m [unfolded mapE_Inr]], rule bind_provider_wf)
      (use inv in \<open>auto simp: host_inv_def\<close>)
  have names: "map pv_name ps = map dl_name ?ds"
    by (rule list_all2_map_fst, rule list_all2_mono [OF each]) blast
  have "provider_linked ps p" if p: "p \<in> set ps" for p
  proof -
    have wf: "provider_wf ?ds p" using list_all2_in2 [OF each p] by blast
    have "\<exists>q\<in>set ps. pv_name q = dl_name d \<and> pv_contract q = dl_contract d" if "d \<in> set ?ds" for d
      using list_all2_in1 [OF each that] by blast
    then show ?thesis using wf
      unfolding provider_linked_def provider_wf_def binding_ok_def declared_output_def
      by (metis (no_types, lifting))
  qed
  then have "host_wf h" using inv by (simp add: host_wf_def h names host_inv_def Let_def)
  moreover have "\<exists>out. outer_output h = Inr out"
  proof (cases "ps = []")
    case False
    then have "provider_linked ps (last ps)" using \<open>\<And>p. p \<in> set ps \<Longrightarrow> provider_linked ps p\<close> by simp
    then show ?thesis using provider_output_wf [of "last ps"] False
      by (auto simp: outer_output_def h provider_linked_def)
  qed (simp add: outer_output_def h)
  ultimately show ?thesis by blast
qed

text \<open>C28: a host configuration that loads is completely and correctly wired: all names are distinct
  and none is the gateway's; each provider's bindings are in order of their inputs, one for
  each input its descriptor declares, and lead to an output of the input's own service that
  the gateway or a provider of the same host has; sources lie in their build contexts;
  an enabled component has a literal address and a valid port; and the outer output, the
  one teams connect to, exists.\<close>

theorem load_host_wf:
  assumes "load_host os croot path = Inr h"
  shows "host_wf h \<and> (\<exists>out. outer_output h = Inr out)"
  using assms by (rule load_host_inv)

definition ex_pool_descriptor :: bytes where
  "ex_pool_descriptor = lit ''docker pool'' @ [10] @
     lit ''input cyclo.provider.v1.Provider upstream'' @ [10] @
     lit ''output cyclo.provider.v1.Provider provider # the outer one'' @ [10]"

definition ex_host_text :: bytes where
  "ex_host_text = lit ''provider pool /p upstream=gateway.provider -- fast'' @ [10] @
     lit ''component openai port=9000'' @ [10]"

definition ex_host_os :: os_env where
  "ex_host_os = ex_os\<lparr>read_nofollow := (\<lambda>p.
     if p = path_of (lit ''/p/component.dcomp'') then Content ex_pool_descriptor
     else if p = path_of (lit ''/host'') then Content ex_host_text else Missing)\<rparr>"

definition ex_pool :: provider where
  "ex_pool = \<lparr>pv_name = lit ''pool'', pv_source = path_of (lit ''/p''), pv_context = path_of (lit ''/p''),
     pv_contract = \<lparr>ct_image = lit ''pool'',
       ct_inputs = [\<lparr>ep_service = PROVIDER_SERVICE, ep_name = lit ''upstream''\<rparr>],
       ct_outputs = [\<lparr>ep_service = PROVIDER_SERVICE, ep_name = lit ''provider''\<rparr>]\<rparr>,
     pv_bindings = [\<lparr>bn_input = lit ''upstream'', bn_component = lit ''gateway'', bn_output = lit ''provider''\<rparr>],
     pv_arguments = [lit ''fast''], pv_line = 1\<rparr>"

definition ex_openai :: host_component where
  "ex_openai = \<lparr>hc_name = lit ''openai'', hc_bind = lit ''127.0.0.1'', hc_port = 9000, hc_line = 2\<rparr>"

definition ex_host :: host where
  "ex_host = \<lparr>ho_path = path_of (lit ''/host''), ho_providers = [ex_pool],
     ho_generation = sha256_hex ex_host_text, ho_components = [ex_openai]\<rparr>"

definition ex_declared :: unbound_provider where
  "ex_declared = \<lparr>dl_name = pv_name ex_pool, dl_source = pv_source ex_pool,
     dl_context = pv_context ex_pool, dl_contract = pv_contract ex_pool,
     dl_settings = [lit ''upstream=gateway.provider''], dl_arguments = pv_arguments ex_pool, dl_line = 1\<rparr>"

lemma ex_host_lines:
  "decode_config ex_host_text = Inr ex_host_text"
  "splitlines ex_host_text = [lit ''provider pool /p upstream=gateway.provider -- fast'',
     lit ''component openai port=9000'']"
  by code_simp+

lemma ex_host_declared:
  "host_step ex_host_os (path_of (lit ''/c'')) (path_of (lit ''/host''))
     \<lparr>hs_declarations = [], hs_components = [], hs_names = {lit ''gateway''}\<rparr>
     (Suc 0, lit ''provider pool /p upstream=gateway.provider -- fast'') =
   Inr \<lparr>hs_declarations = [ex_declared], hs_components = [], hs_names = {lit ''pool'', lit ''gateway''}\<rparr>"
  by code_simp

lemma ex_host_enabled:
  "host_step ex_host_os (path_of (lit ''/c'')) (path_of (lit ''/host''))
     \<lparr>hs_declarations = [ex_declared], hs_components = [], hs_names = {lit ''pool'', lit ''gateway''}\<rparr>
     (Suc (Suc 0), lit ''component openai port=9000'') =
   Inr \<lparr>hs_declarations = [ex_declared], hs_components = [ex_openai],
        hs_names = {lit ''openai'', lit ''pool'', lit ''gateway''}\<rparr>"
  by code_simp

lemma ex_host_bound: "bind_provider (output_table [ex_declared]) ex_declared = Inr ex_pool"
  by code_simp

lemma ex_host_loads:
  "load_host ex_host_os (path_of (lit ''/c'')) (path_of (lit ''/host'')) = Inr ex_host"
proof -
  have sel: "abspath ex_host_os (expanduser ex_host_os (path_of (lit ''/host''))) = path_of (lit ''/host'')"
    by code_simp
  have rd: "read_regular_file ex_host_os (path_of (lit ''/host'')) True = Inr ex_host_text"
    by code_simp
  show ?thesis
    by (simp add: load_host_def sel rd ex_host_lines upt_rec ex_host_declared ex_host_enabled
        ex_host_bound ex_host_def Let_def)
qed

lemma load_host_wf_witness:
  "host_wf ex_host \<and> (\<exists>out. outer_output ex_host = Inr out)"
  by (rule load_host_wf [OF ex_host_loads])

end
