(* ===== verification/Project.thy ===== *)
theory Project imports Host begin

text \<open>
  \<open>src/cyclo/project.py\<close>: the line-oriented \<open>project.cyclo\<close> format, its parser
  \<open>load_project\<close>, and \<open>render_container_project\<close>, which writes the same project as a team sees
  it inside its container.  The central fact is that the two agree: what is rendered parses,
  in the container's name space, to the same project.
\<close>

datatype access = RO | RW

definition mode_str :: "access \<Rightarrow> ustr" where
  "mode_str m = (case m of RO \<Rightarrow> lit ''ro'' | RW \<Rightarrow> lit ''rw'')"

definition MAX_PROJECT_FILE_BYTES :: nat where "MAX_PROJECT_FILE_BYTES = 1024 * 1024"

definition slug_head :: "uchar \<Rightarrow> bool" where "slug_head c \<longleftrightarrow> is_lower c \<or> is_digit c"
definition slug_tail :: "uchar \<Rightarrow> bool" where
  "slug_tail c \<longleftrightarrow> is_lower c \<or> is_digit c \<or> c = 46 \<or> c = 95 \<or> c = 45"
definition team_tail :: "uchar \<Rightarrow> bool" where
  "team_tail c \<longleftrightarrow> is_alnum c \<or> c = 46 \<or> c = 95 \<or> c = 45"

definition is_project_name :: "ustr \<Rightarrow> bool" where
  "is_project_name s \<longleftrightarrow> re_name slug_head slug_tail 63 s"
definition is_mount_name :: "ustr \<Rightarrow> bool" where "is_mount_name = is_project_name"
definition is_team_name :: "ustr \<Rightarrow> bool" where
  "is_team_name s \<longleftrightarrow> re_name is_alnum team_tail 63 s"
definition is_context_marker :: "ustr \<Rightarrow> bool" where
  "is_context_marker s \<longleftrightarrow> re_name is_alpha ident_tail 31 s"

definition CONTAINER_WORKSPACE_ROOT :: ppath where
  "CONTAINER_WORKSPACE_ROOT = path_of (lit ''/workspace'')"
definition CONTAINER_READONLY_ROOT :: ppath where
  "CONTAINER_READONLY_ROOT = path_of (lit ''/readonly'')"

definition mount_container_path :: "ustr \<Rightarrow> access \<Rightarrow> ppath" where
  "mount_container_path name mode =
     joinpath (if mode = RW then CONTAINER_WORKSPACE_ROOT else CONTAINER_READONLY_ROOT) (path_of name)"

record project_team =
  pt_path :: ppath
  pt_mode :: access
  pt_line :: nat

record project_mount =
  pm_name :: ustr
  pm_path :: ppath
  pm_mode :: access
  pm_line :: nat

record project =
  pj_path :: ppath
  pj_name :: ustr
  pj_description :: ustr
  pj_context :: ustr
  pj_teams :: "project_team list"
  pj_mounts :: "project_mount list"
  pj_sha256 :: ustr

definition team_name :: "project_team \<Rightarrow> ustr" where "team_name t = path_name (pt_path t)"

definition container_path_of :: "project_mount \<Rightarrow> ppath" where
  "container_path_of m = mount_container_path (pm_name m) (pm_mode m)"

definition mount_json :: "project_mount \<Rightarrow> json" where
  "mount_json m = JObj [(lit ''name'', JStr (pm_name m)), (lit ''path'', JStr (path_str (pm_path m))),
     (lit ''mode'', JStr (mode_str (pm_mode m)))]"

section \<open>Reading\<close>

definition selected_path :: "os_env \<Rightarrow> ustr \<Rightarrow> ppath" where
  "selected_path os value = abspath os (expanduser os (path_of value))"

definition read_project_file :: "os_env \<Rightarrow> ppath \<Rightarrow> bytes res" where
  "read_project_file os path =
     (case read_nofollow os path of
        Missing \<Rightarrow> Inl (CycloError ''not found'')
      | IsLink \<Rightarrow> Inl (CycloError ''must not be a symlink'')
      | NotRegular \<Rightarrow> Inl (CycloError ''is not a regular file'')
      | Unreadable \<Rightarrow> Inl (CycloError ''cannot read'')
      | Content content \<Rightarrow>
          (if MAX_PROJECT_FILE_BYTES < length content then Inl (CycloError ''exceeds the limit'')
           else Inr content))"

definition decode_text_file :: "bytes \<Rightarrow> ustr res" where
  "decode_text_file content =
     (case utf8_decode content of
        None \<Rightarrow> Inl (CycloError ''is not valid UTF-8'')
      | Some s \<Rightarrow>
          (let body = join_crlf s in
           if (\<exists>c\<in>set body. c \<noteq> 10 \<and> is_control c)
           then Inl (CycloError ''contains a control character'') else Inr body))"

definition read_project_context :: "os_env \<Rightarrow> ustr \<Rightarrow> ustr res" where
  "read_project_context os value =
     rbind (read_project_file os (selected_path os value)) (\<lambda>content.
     rbind (decode_text_file content) (\<lambda>body.
     let context = strip_by (\<lambda>c. c = 10) body in
     if strip context = [] then Inl (CycloError ''project context must not be empty'')
     else Inr context))"

section \<open>Directives\<close>

definition validate_identifier :: "(ustr \<Rightarrow> bool) \<Rightarrow> ustr \<Rightarrow> unit res" where
  "validate_identifier pattern value =
     ensure (value \<notin> {lit ''.'', lit ''..''} \<and> pattern value) (CycloError ''invalid identifier'')"

definition validate_mode :: "ustr \<Rightarrow> access res" where
  "validate_mode value =
     (if value = lit ''ro'' then Inr RO else if value = lit ''rw'' then Inr RW
      else Inl (CycloError ''invalid access mode''))"

definition bad_path_char :: "uchar \<Rightarrow> bool" where
  "bad_path_char c \<longleftrightarrow> c \<in> {126, 44, 39, 34, 92} \<or> isspace c \<or> is_control c"

definition validate_path_token :: "ustr \<Rightarrow> unit res" where
  "validate_path_token value =
     ensure (value \<noteq> [] \<and> \<not> (\<exists>c\<in>set value. bad_path_char c)) (CycloError ''invalid path'')"

definition resolve_directory :: "os_env \<Rightarrow> ppath \<Rightarrow> ustr \<Rightarrow> ppath res" where
  "resolve_directory os source value =
     rbind (validate_path_token value) (\<lambda>_.
     case resolve_strict os (joinpath (path_parent source) (path_of value)) of
       None \<Rightarrow> Inl (CycloError ''path not found'')
     | Some resolved \<Rightarrow>
         if \<not> is_dir os resolved then Inl (CycloError ''path is not a directory'')
         else if (\<exists>c\<in>set (path_str resolved). c = 44 \<or> is_control c)
         then Inl (CycloError ''resolved path cannot contain a comma or control character'')
         else Inr resolved)"

record project_state =
  js_name :: "ustr option"
  js_description :: "ustr option"
  js_context :: "ustr option"
  js_teams :: "project_team list"
  js_mounts :: "project_mount list"

definition name_directive :: "project_state \<Rightarrow> ustr \<Rightarrow> project_state res" where
  "name_directive st line =
     (let ws = split_ws line in
      if length ws \<noteq> 2 then Inl (CycloError ''expected name'')
      else if js_name st \<noteq> None then Inl (CycloError ''duplicate name directive'')
      else rbind (validate_identifier is_project_name (ws ! 1)) (\<lambda>_.
        Inr (st\<lparr>js_name := Some (ws ! 1)\<rparr>)))"

definition description_directive :: "project_state \<Rightarrow> bool \<Rightarrow> ustr \<Rightarrow> project_state res" where
  "description_directive st separator remainder =
     (if \<not> separator \<or> strip remainder = [] then Inl (CycloError ''expected description'')
      else if js_description st \<noteq> None then Inl (CycloError ''duplicate description directive'')
      else Inr (st\<lparr>js_description := Some (strip remainder)\<rparr>))"

text \<open>The marker a context directive announces.\<close>

definition context_directive :: "project_state \<Rightarrow> ustr \<Rightarrow> ustr res" where
  "context_directive st line =
     (let ws = split_ws line in
      if length ws \<noteq> 2 \<or> \<not> startswith (lit ''<<'') (ws ! 1) \<or> \<not> is_context_marker (drop 2 (ws ! 1))
      then Inl (CycloError ''expected context <<MARKER'')
      else if js_context st \<noteq> None then Inl (CycloError ''duplicate context directive'')
      else Inr (drop 2 (ws ! 1)))"

definition blank :: "ustr \<Rightarrow> bool" where "blank s \<longleftrightarrow> strip s = []"

definition trim_blank :: "ustr list \<Rightarrow> ustr list" where
  "trim_blank ls = rev (dropWhile blank (rev (dropWhile blank ls)))"

definition context_block :: "ustr list \<Rightarrow> ustr res" where
  "context_block ls =
     (if trim_blank ls = [] then Inl (CycloError ''project context must not be empty'')
      else Inr (join [10] (trim_blank ls)))"

definition team_directive ::
    "os_env \<Rightarrow> ppath \<Rightarrow> project_state \<Rightarrow> nat \<Rightarrow> ustr \<Rightarrow> project_state res" where
  "team_directive os source st n line =
     (let ws = split_ws line in
      if length ws \<noteq> 3 then Inl (CycloError ''expected team'')
      else
        rbind (resolve_directory os source (ws ! 1)) (\<lambda>path.
        rbind (validate_mode (ws ! 2)) (\<lambda>mode.
        rbind (validate_identifier is_team_name (path_name path)) (\<lambda>_.
        if path \<in> pt_path ` set (js_teams st) then Inl (CycloError ''duplicate team path'')
        else if lower (path_name path) \<in> (lower \<circ> team_name) ` set (js_teams st)
        then Inl (CycloError ''duplicate team name'')
        else Inr (st\<lparr>js_teams := js_teams st @
                    [\<lparr>pt_path = path, pt_mode = mode, pt_line = n\<rparr>]\<rparr>)))))"

definition mount_directive ::
    "os_env \<Rightarrow> ppath \<Rightarrow> project_state \<Rightarrow> nat \<Rightarrow> ustr \<Rightarrow> project_state res" where
  "mount_directive os source st n line =
     (let ws = split_ws line in
      if length ws \<noteq> 4 then Inl (CycloError ''expected mount'')
      else
        rbind (validate_identifier is_mount_name (ws ! 1)) (\<lambda>_.
        rbind (resolve_directory os source (ws ! 2)) (\<lambda>path.
        rbind (validate_mode (ws ! 3)) (\<lambda>mode.
        if ws ! 1 \<in> pm_name ` set (js_mounts st) then Inl (CycloError ''duplicate mount name'')
        else if path \<in> pm_path ` set (js_mounts st) then Inl (CycloError ''duplicate mount path'')
        else Inr (st\<lparr>js_mounts := js_mounts st @
                    [\<lparr>pm_name = ws ! 1, pm_path = path, pm_mode = mode, pm_line = n\<rparr>]\<rparr>)))))"

definition project_directive ::
    "os_env \<Rightarrow> ppath \<Rightarrow> project_state \<Rightarrow> nat \<Rightarrow> ustr \<Rightarrow> project_state res" where
  "project_directive os source st n line =
     (let (directive, separator, remainder) = partition_at 32 line in
      if directive = lit ''name'' then name_directive st line
      else if directive = lit ''description'' then description_directive st separator remainder
      else if directive = lit ''team'' then team_directive os source st n line
      else if directive = lit ''mount'' then mount_directive os source st n line
      else if directive = lit ''mcp'' then Inl (CycloError ''MCP servers are not supported'')
      else Inl (CycloError ''unknown project directive''))"

text \<open>
  The loop over the numbered lines.  A context directive consumes the lines up to and
  including its marker.
\<close>

function project_lines ::
    "os_env \<Rightarrow> ppath \<Rightarrow> project_state \<Rightarrow> (nat \<times> ustr) list \<Rightarrow> project_state res" where
  "project_lines os source st [] = Inr st"
| "project_lines os source st (numbered # rest) =
     (let line = strip (snd numbered) in
      if line = [] \<or> startswith [35] line then project_lines os source st rest
      else if fst (partition_at 32 line) = lit ''context'' then
        (case context_directive st line of
           Inl e \<Rightarrow> Inl e
         | Inr marker \<Rightarrow>
             (case dropWhile (\<lambda>l. snd l \<noteq> marker) rest of
                [] \<Rightarrow> Inl (CycloError ''unterminated context block'')
              | _ # rest' \<Rightarrow>
                  (case context_block (map snd (takeWhile (\<lambda>l. snd l \<noteq> marker) rest)) of
                     Inl e \<Rightarrow> Inl e
                   | Inr c \<Rightarrow> project_lines os source (st\<lparr>js_context := Some c\<rparr>) rest')))
      else
        (case project_directive os source st (fst numbered) line of
           Inl e \<Rightarrow> Inl e
         | Inr st' \<Rightarrow> project_lines os source st' rest))"
  by pat_completeness auto

termination
proof (relation "measure (\<lambda>(os, source, st, ls). length ls)")
  fix os :: os_env and source :: ppath and st :: project_state and numbered :: "nat \<times> ustr"
    and rest :: "(nat \<times> ustr) list" and line marker x rest' c
  assume "dropWhile (\<lambda>l. snd l \<noteq> marker) rest = x # rest'"
  then have "length rest' < length (rest :: (nat \<times> ustr) list)"
    using length_dropWhile_le [of "\<lambda>l. snd l \<noteq> marker" rest] by simp
  then show "((os, source, st\<lparr>js_context := Some c\<rparr>, rest'), os, source, st, numbered # rest)
      \<in> measure (\<lambda>(os, source, st, ls). length ls)" by simp
qed simp_all

section \<open>The definition\<close>

definition paths_overlap :: "ppath \<Rightarrow> ppath \<Rightarrow> bool" where
  "paths_overlap left right \<longleftrightarrow>
     left = right \<or> is_relative_to left right \<or> is_relative_to right left"

definition definition_sha256 ::
    "ustr \<Rightarrow> ustr \<Rightarrow> ustr \<Rightarrow> project_team list \<Rightarrow> project_mount list \<Rightarrow> ustr res" where
  "definition_sha256 name description context teams mounts =
     (let payload = JObj
        [(lit ''context'', JStr context), (lit ''description'', JStr description),
         (lit ''mounts'', JList (map (\<lambda>m. JObj [(lit ''mode'', JStr (mode_str (pm_mode m))),
            (lit ''name'', JStr (pm_name m)), (lit ''path'', JStr (path_str (pm_path m)))]) mounts)),
         (lit ''name'', JStr name), (lit ''schema'', JInt 3),
         (lit ''teams'', JList (map (\<lambda>t. JObj [(lit ''mode'', JStr (mode_str (pt_mode t))),
            (lit ''path'', JStr (path_str (pt_path t)))]) teams))]
      in rbind (utf8_encode (dump_compact False (sort_keys payload))) (\<lambda>encoded.
         Inr (sha256_hex encoded)))"

definition check_roots :: "ppath list \<Rightarrow> unit res" where
  "check_roots roots =
     checkE (\<lambda>i. checkE (\<lambda>earlier. ensure (\<not> paths_overlap (roots ! i) earlier)
                                     (CycloError ''overlaps an earlier root'')) (take i roots))
       [0..<length roots]"

definition finish_project :: "ppath \<Rightarrow> project_state \<Rightarrow> project res" where
  "finish_project source st =
     rbind (of_option (CycloError ''missing required name directive'') (js_name st)) (\<lambda>name.
     rbind (of_option (CycloError ''missing required description directive'') (js_description st))
       (\<lambda>description.
     rbind (ensure (js_teams st \<noteq> []) (CycloError ''project definition has no teams'')) (\<lambda>_.
     rbind (ensure (js_mounts st \<noteq> []) (CycloError ''project definition has no mounts'')) (\<lambda>_.
     rbind (check_roots (map pt_path (js_teams st) @ map pm_path (js_mounts st))) (\<lambda>_.
     let context = (case js_context st of None \<Rightarrow> [] | Some c \<Rightarrow> c) in
     rbind (definition_sha256 name description context (js_teams st) (js_mounts st)) (\<lambda>sha.
     Inr \<lparr>pj_path = source, pj_name = name, pj_description = description, pj_context = context,
          pj_teams = js_teams st, pj_mounts = js_mounts st, pj_sha256 = sha\<rparr>))))))"

definition empty_project :: project_state where
  "empty_project = \<lparr>js_name = None, js_description = None, js_context = None, js_teams = [],
     js_mounts = []\<rparr>"

definition numbered_lines :: "ustr \<Rightarrow> (nat \<times> ustr) list" where
  "numbered_lines body = (let ls = splitlines body in zip [1..<Suc (length ls)] ls)"

definition load_project :: "os_env \<Rightarrow> ustr \<Rightarrow> project res" where
  "load_project os value =
     (let source = selected_path os value in
      rbind (read_project_file os source) (\<lambda>content.
      rbind (decode_text_file content) (\<lambda>body.
      rbind (project_lines os source empty_project (numbered_lines body)) (\<lambda>st.
      finish_project source st))))"

section \<open>The project as a container sees it\<close>

definition marker_name :: "nat \<Rightarrow> ustr" where
  "marker_name k = (if k = 1 then lit ''CYCLO_CONTEXT'' else lit ''CYCLO_CONTEXT_'' @ dec k)"

lemma marker_name_inj: "inj marker_name"
proof
  fix j k assume "marker_name j = marker_name k"
  then show "j = k" by (auto simp: marker_name_def lit_def split: if_splits)
qed

lemma finite_markers: "finite {k. j < k \<and> marker_name k \<in> set lines}"
proof -
  have "finite (marker_name -` set lines)" by (rule finite_vimageI [OF _ marker_name_inj]) simp
  then show ?thesis by (rule rev_finite_subset) auto
qed

text \<open>The loop of \<open>project_context_marker\<close>: the variables are \<open>marker\<close> and \<open>sfx\<close>.\<close>

function marker_loop :: "ustr list \<Rightarrow> ustr \<Rightarrow> nat \<Rightarrow> ustr" where
  "marker_loop lines marker sfx =
     (if marker \<in> set lines
      then marker_loop lines (lit ''CYCLO_CONTEXT_'' @ dec (sfx + 1)) (sfx + 1)
      else marker)"
  by pat_completeness auto

termination
proof (relation "measure (\<lambda>(lines, marker, sfx).
    card {k. max sfx 1 < k \<and> marker_name k \<in> set lines} +
    (if sfx = 0 then 1 else 0) + (if marker \<in> set lines then 1 else 0))")
  fix lines :: "ustr list" and marker :: ustr and sfx :: nat
  assume m: "marker \<in> set lines"
  let ?S = "\<lambda>s. {k. max s 1 < k \<and> marker_name k \<in> set lines}"
  let ?next = "lit ''CYCLO_CONTEXT_'' @ dec (sfx + 1)"
  have fin: "finite (?S s)" for s using finite_markers [of "max s 1" lines] by simp
  have le: "card (?S (sfx + 1)) + (if ?next \<in> set lines then 1 else 0) \<le>
      card (?S sfx) + (if sfx = 0 then 1 else 0)"
  proof (cases "sfx = 0 \<or> ?next \<notin> set lines")
    case True
    have "card (?S (sfx + 1)) \<le> card (?S sfx)"
      by (rule card_mono [OF fin]) auto
    then show ?thesis using True by auto
  next
    case False
    then have nx: "marker_name (sfx + 1) \<in> set lines" by (simp add: marker_name_def)
    have ins: "?S sfx = insert (sfx + 1) (?S (sfx + 1))" using False nx by auto
    have "card (?S sfx) = Suc (card (?S (sfx + 1)))"
      unfolding ins by (rule card_insert_disjoint [OF fin]) simp
    then show ?thesis by simp
  qed
  have one: "(if marker \<in> set lines then 1 else 0) = (1::nat)" "(if sfx + 1 = 0 then 1 else 0) = (0::nat)"
    using m by simp_all
  show "((lines, ?next, sfx + 1), lines, marker, sfx)
    \<in> measure (\<lambda>(lines, marker, sfx). card {k. max sfx 1 < k \<and> marker_name k \<in> set lines} +
        (if sfx = 0 then 1 else 0) + (if marker \<in> set lines then 1 else 0))"
    unfolding in_measure case_prod_conv one using le by linarith
qed simp

declare marker_loop.simps [simp del]

definition project_context_marker :: "ustr \<Rightarrow> ustr" where
  "project_context_marker context = marker_loop (splitlines context) (lit ''CYCLO_CONTEXT'') 1"

definition mount_line :: "project_mount \<Rightarrow> ustr" where
  "mount_line m =
     sp [lit ''mount'', pm_name m, path_str (container_path_of m), mode_str (pm_mode m)]"

definition context_lines :: "ustr \<Rightarrow> ustr list" where
  "context_lines context =
     (if context = [] then []
      else let marker = project_context_marker context in
        [[], lit ''context <<'' @ marker, context, marker])"

definition render_container_project :: "project \<Rightarrow> project_team \<Rightarrow> ustr res" where
  "render_container_project p team =
     (if team \<notin> set (pj_teams p)
      then Inl (ValueErr ''selected team is not part of this project definition'')
      else
        let lines =
          [lit ''# Generated by Cyclo for this team container.'',
           lit ''# Team and mount paths are container paths; host paths are omitted.'',
           sp [lit ''name'', pj_name p], sp [lit ''description'', pj_description p]] @
          context_lines (pj_context p) @
          [[], sp [lit ''team'', lit ''/team'', mode_str (pt_mode team)], []] @
          map mount_line (pj_mounts p);
          rendered = join [10] lines @ [10]
        in rbind (utf8_encode rendered) (\<lambda>encoded.
           if MAX_PROJECT_FILE_BYTES < length encoded
           then Inl (CycloError ''container project configuration exceeds the limit'')
           else Inr rendered))"

lemma marker_loop_spec:
  assumes "0 < sfx" "marker = marker_name sfx"
  shows "\<exists>k\<ge>sfx. marker_loop lines marker sfx = marker_name k \<and>
    marker_name k \<notin> set lines \<and> (\<forall>j. sfx \<le> j \<and> j < k \<longrightarrow> marker_name j \<in> set lines)"
  using assms
proof (induction lines marker sfx rule: marker_loop.induct)
  case (1 lines marker sfx)
  show ?case
  proof (cases "marker \<in> set lines")
    case True
    have "lit ''CYCLO_CONTEXT_'' @ dec (sfx + 1) = marker_name (sfx + 1)"
      using 1(2) by (simp add: marker_name_def)
    with 1(1) [OF True] obtain k where k: "sfx + 1 \<le> k"
      "marker_loop lines (lit ''CYCLO_CONTEXT_'' @ dec (sfx + 1)) (sfx + 1) = marker_name k"
      "marker_name k \<notin> set lines" "\<forall>j. sfx + 1 \<le> j \<and> j < k \<longrightarrow> marker_name j \<in> set lines"
      by auto
    have "marker_name j \<in> set lines" if "sfx \<le> j" "j < k" for j
      using that k(4) True 1(3) by (cases "j = sfx") auto
    then show ?thesis using k True
      by (intro exI [of _ k]) (simp add: marker_loop.simps [of lines marker sfx])
  next
    case False
    then show ?thesis using 1(3)
      by (intro exI [of _ sfx]) (auto simp: marker_loop.simps [of lines "marker_name sfx" sfx])
  qed
qed

lemma marker_bound:
  assumes "\<forall>j. 1 \<le> j \<and> j < k \<longrightarrow> marker_name j \<in> set lines"
  shows "k \<le> Suc (length lines)"
proof -
  have "card (marker_name ` {1..<k}) \<le> card (set lines)"
    using assms by (intro card_mono) auto
  moreover have "card (marker_name ` {1..<k}) = k - 1"
    using marker_name_inj by (simp add: card_image inj_on_subset)
  ultimately show ?thesis using card_length [of lines] by linarith
qed

lemma project_context_marker_spec:
  "\<exists>k\<le>Suc (length (splitlines context)). project_context_marker context = marker_name k \<and> 1 \<le> k \<and>
     marker_name k \<notin> set (splitlines context)"
proof -
  have "lit ''CYCLO_CONTEXT'' = marker_name 1" by (simp add: marker_name_def)
  with marker_loop_spec [of 1 "lit ''CYCLO_CONTEXT''" "splitlines context"] obtain k where
    "1 \<le> k" "project_context_marker context = marker_name k" "marker_name k \<notin> set (splitlines context)"
    "\<forall>j. 1 \<le> j \<and> j < k \<longrightarrow> marker_name j \<in> set (splitlines context)"
    by (auto simp: project_context_marker_def)
  then show ?thesis using marker_bound by blast
qed

lemma marker_name_valid:
  assumes "k < 10 ^ 18"
  shows "is_context_marker (marker_name k)"
proof -
  have "length (dec k) \<le> 18" using dec_length [of k 17] assms by simp
  then show ?thesis
    using dec_digits [of _ k]
    by (auto simp: is_context_marker_def re_name_def marker_name_def lit_def ident_tail_def
        ascii_defs list_all_iff)
qed

section \<open>What a project that loads says\<close>

definition good_line :: "ustr \<Rightarrow> bool" where
  "good_line l \<longleftrightarrow> (\<forall>c\<in>set l. \<not> is_linebreak c \<and> \<not> is_control c)"

text \<open>A context is a block of lines of which the first and the last are not blank.\<close>

definition block_wf :: "ustr list \<Rightarrow> bool" where
  "block_wf ls \<longleftrightarrow> ls \<noteq> [] \<and> \<not> blank (hd ls) \<and> \<not> blank (last ls) \<and> (\<forall>l\<in>set ls. good_line l)"

definition context_wf :: "ustr \<Rightarrow> bool" where
  "context_wf c \<longleftrightarrow> (\<exists>ls. c = join [10] ls \<and> block_wf ls)"

definition root_ok :: "os_env \<Rightarrow> ppath \<Rightarrow> bool" where
  "root_ok os p \<longleftrightarrow> is_dir os p \<and> (\<exists>q. resolve_strict os q = Some p) \<and>
     (\<forall>c\<in>set (path_str p). c \<noteq> 44 \<and> \<not> is_control c)"

definition description_wf :: "ustr \<Rightarrow> bool" where
  "description_wf d \<longleftrightarrow> d \<noteq> [] \<and> strip d = d \<and> good_line d"

definition teams_wf :: "os_env \<Rightarrow> project_team list \<Rightarrow> bool" where
  "teams_wf os ts \<longleftrightarrow> (\<forall>t\<in>set ts. is_team_name (team_name t) \<and> root_ok os (pt_path t)) \<and>
     distinct (map pt_path ts) \<and> distinct (map (lower \<circ> team_name) ts)"

definition mounts_wf :: "os_env \<Rightarrow> project_mount list \<Rightarrow> bool" where
  "mounts_wf os ms \<longleftrightarrow> (\<forall>m\<in>set ms. is_mount_name (pm_name m) \<and> root_ok os (pm_path m)) \<and>
     distinct (map pm_name ms) \<and> distinct (map pm_path ms)"

definition state_inv :: "os_env \<Rightarrow> project_state \<Rightarrow> bool" where
  "state_inv os st \<longleftrightarrow>
     (\<forall>n. js_name st = Some n \<longrightarrow> is_project_name n) \<and>
     (\<forall>d. js_description st = Some d \<longrightarrow> description_wf d) \<and>
     (\<forall>c. js_context st = Some c \<longrightarrow> context_wf c) \<and>
     teams_wf os (js_teams st) \<and> mounts_wf os (js_mounts st)"

lemma resolve_directory_ok: "resolve_directory os source v = Inr p \<Longrightarrow> root_ok os p"
  by (auto simp: resolve_directory_def root_ok_def split: option.splits if_splits)

lemma team_directive_inv:
  assumes "team_directive os source st n line = Inr st'" "state_inv os st"
  shows "state_inv os st'"
proof -
  obtain p m where rd: "resolve_directory os source (split_ws line ! 1) = Inr p" and
    vm: "validate_mode (split_ws line ! 2) = Inr m" and *: "is_team_name (path_name p)" "p \<notin> pt_path ` set (js_teams st)"
    "lower (path_name p) \<notin> (lower \<circ> team_name) ` set (js_teams st)"
    "st' = st\<lparr>js_teams := js_teams st @ [\<lparr>pt_path = p, pt_mode = m, pt_line = n\<rparr>]\<rparr>"
    using assms(1)
    by (auto simp: team_directive_def Let_def validate_identifier_def comp_def split: if_split_asm)
  then show ?thesis using assms(2) resolve_directory_ok [OF rd] *
    by (simp add: state_inv_def teams_wf_def team_name_def comp_def)
qed

lemma mount_directive_inv:
  assumes "mount_directive os source st n line = Inr st'" "state_inv os st"
  shows "state_inv os st'"
proof -
  let ?w = "split_ws line ! 1"
  obtain p m where rd: "resolve_directory os source (split_ws line ! 2) = Inr p" and
    vm: "validate_mode (split_ws line ! 3) = Inr m" and *: "is_mount_name ?w" "?w \<notin> pm_name ` set (js_mounts st)"
    "p \<notin> pm_path ` set (js_mounts st)"
    "st' = st\<lparr>js_mounts := js_mounts st @ [\<lparr>pm_name = ?w, pm_path = p, pm_mode = m, pm_line = n\<rparr>]\<rparr>"
    using assms(1)
    by (auto simp: mount_directive_def Let_def validate_identifier_def split: if_split_asm)
  then show ?thesis using assms(2) resolve_directory_ok [OF rd] *
    by (simp add: state_inv_def mounts_wf_def)
qed

lemma good_line_subset: "good_line l \<Longrightarrow> set r \<subseteq> set l \<Longrightarrow> good_line r"
  by (auto simp: good_line_def)

lemma partition_subset:
  assumes "partition_at c s = (a, b, r)"
  shows "set r \<subseteq> set s"
proof -
  have "set (tl xs) \<subseteq> set xs" for xs :: ustr by (cases xs) auto
  moreover have "r = tl (dropWhile (\<lambda>x. x \<noteq> c) s)" using assms by (simp add: partition_at_def)
  ultimately show ?thesis using set_dropWhile_subset by (metis order_trans)
qed

lemma project_directive_inv:
  assumes "project_directive os source st n line = Inr st'" "state_inv os st" "good_line line"
  shows "state_inv os st'"
proof -
  obtain d sep r where p: "partition_at 32 line = (d, sep, r)" by (cases "partition_at 32 line")
  have "set (strip r) \<subseteq> set line" using set_strip partition_subset [OF p] by (rule order_trans)
  then have good: "good_line (strip r)" using assms(3) by (rule good_line_subset [rotated])
  consider "name_directive st line = Inr st'" | "description_directive st sep r = Inr st'"
    | "team_directive os source st n line = Inr st'" | "mount_directive os source st n line = Inr st'"
    using assms(1) by (simp add: project_directive_def p split: if_split_asm)
  then show ?thesis
  proof cases
    case 1
    then show ?thesis using assms(2)
      by (auto simp: name_directive_def Let_def validate_identifier_def state_inv_def split: if_split_asm)
  next
    case 2
    then show ?thesis using assms(2) good
      by (auto simp: description_directive_def state_inv_def description_wf_def split: if_split_asm)
  next
    case 3
    then show ?thesis using assms(2) by (rule team_directive_inv)
  next
    case 4
    then show ?thesis using assms(2) by (rule mount_directive_inv)
  qed
qed

lemma trim_blank_subset: "set (trim_blank ls) \<subseteq> set ls"
  unfolding trim_blank_def set_rev
  by (rule order_trans [OF set_dropWhile_subset]) (simp add: set_dropWhile_subset)

lemma trim_blank_ends:
  assumes "trim_blank ls \<noteq> []"
  shows "\<not> blank (hd (trim_blank ls))" "\<not> blank (last (trim_blank ls))"
proof -
  let ?d = "dropWhile blank ls"
  have t: "trim_blank ls = rev (dropWhile blank (rev ?d))" by (simp add: trim_blank_def)
  have ne: "dropWhile blank (rev ?d) \<noteq> []" using assms by (simp add: t)
  show "\<not> blank (last (trim_blank ls))" using hd_dropWhile [OF ne] by (simp add: t last_rev)
  obtain e where e: "?d = trim_blank ls @ e"
    by (metis rev_append rev_rev_ident t takeWhile_dropWhile_id)
  then have "?d \<noteq> []" using assms by simp
  from hd_dropWhile [OF this] show "\<not> blank (hd (trim_blank ls))"
    using assms by (simp add: e)
qed

lemma context_block_wf:
  assumes "context_block ls = Inr c" "\<forall>l\<in>set ls. good_line l"
  shows "context_wf c"
proof -
  have "trim_blank ls \<noteq> []" "c = join [10] (trim_blank ls)"
    using assms(1) by (auto simp: context_block_def split: if_splits)
  then show ?thesis
    using trim_blank_ends [of ls] trim_blank_subset [of ls] assms(2)
    unfolding context_wf_def block_wf_def by blast
qed

lemma project_lines_inv:
  "project_lines os source st xs = Inr st' \<Longrightarrow> state_inv os st \<Longrightarrow> \<forall>x\<in>set xs. good_line (snd x) \<Longrightarrow>
     state_inv os st'"
proof (induction os source st xs arbitrary: st' rule: project_lines.induct)
  case (2 os source st numbered rest)
  let ?line = "strip (snd numbered)"
  have good: "good_line ?line" using "2.prems"(3) set_strip by (auto intro: good_line_subset)
  have rest: "\<forall>x\<in>set rest. good_line (snd x)" using "2.prems"(3) by simp
  show ?case
  proof (cases "?line = [] \<or> startswith [35] ?line")
    case True
    then have "project_lines os source st rest = Inr st'"
      using "2.prems"(1) by (simp add: Let_def)
    with "2.IH"(1) [OF refl True] show ?thesis using "2.prems"(2) rest by blast
  next
    case plain: False
    show ?thesis
    proof (cases "fst (partition_at 32 ?line) = lit ''context''")
      case True
      obtain marker x rest' c where
        1: "context_directive st ?line = Inr marker" and
        2: "dropWhile (\<lambda>l. snd l \<noteq> marker) rest = x # rest'" and
        3: "context_block (map snd (takeWhile (\<lambda>l. snd l \<noteq> marker) rest)) = Inr c" and
        4: "project_lines os source (st\<lparr>js_context := Some c\<rparr>) rest' = Inr st'"
        using "2.prems"(1) plain True by (simp add: Let_def split: sum.splits list.splits)
      have "\<forall>l\<in>set (map snd (takeWhile (\<lambda>l. snd l \<noteq> marker) rest)). good_line l"
        using rest set_takeWhile_subset [of _ rest] by auto
      with 3 have "context_wf c" by (rule context_block_wf)
      then have "state_inv os (st\<lparr>js_context := Some c\<rparr>)"
        using "2.prems"(2) by (simp add: state_inv_def)
      moreover have "\<forall>x\<in>set rest'. good_line (snd x)"
        using rest 2 by (metis list.set_intros(2) set_dropWhileD)
      ultimately show ?thesis
        using "2.IH"(2) [OF refl plain True 1 2 3] 4 by blast
    next
      case False
      obtain st1 where 1: "project_directive os source st (fst numbered) ?line = Inr st1"
        and 2: "project_lines os source st1 rest = Inr st'"
        using "2.prems"(1) plain False by (simp add: Let_def split: sum.splits)
      have "state_inv os st1" using 1 "2.prems"(2) good by (rule project_directive_inv)
      then show ?thesis using "2.IH"(3) [OF refl plain False 1] 2 rest by blast
    qed
  qed
qed simp

lemma check_roots_iff:
  "check_roots rs = Inr u \<longleftrightarrow>
     (\<forall>i<length rs. \<forall>j<length rs. i \<noteq> j \<longrightarrow> \<not> overlap_lexical (rs ! i) (rs ! j))"
proof -
  have "check_roots rs = Inr u \<longleftrightarrow> (\<forall>i<length rs. \<forall>x\<in>set (take i rs). \<not> overlap_lexical (rs ! i) x)"
    by (auto simp: check_roots_def paths_overlap_def overlap_lexical_def)
  also have "\<dots> \<longleftrightarrow> (\<forall>i<length rs. \<forall>j<i. \<not> overlap_lexical (rs ! i) (rs ! j))"
    by (auto simp: nth_image [symmetric])
  also have "\<dots> \<longleftrightarrow> (\<forall>i<length rs. \<forall>j<length rs. i \<noteq> j \<longrightarrow> \<not> overlap_lexical (rs ! i) (rs ! j))"
    by (metis lexical.overlap_sym less_trans linorder_neqE_nat nat_neq_iff)
  finally show ?thesis .
qed

definition project_wf :: "os_env \<Rightarrow> project \<Rightarrow> bool" where
  "project_wf os p \<longleftrightarrow>
     is_project_name (pj_name p) \<and> description_wf (pj_description p) \<and>
     (pj_context p = [] \<or> context_wf (pj_context p)) \<and>
     pj_teams p \<noteq> [] \<and> pj_mounts p \<noteq> [] \<and> teams_wf os (pj_teams p) \<and> mounts_wf os (pj_mounts p) \<and>
     (let roots = map pt_path (pj_teams p) @ map pm_path (pj_mounts p)
      in \<forall>i<length roots. \<forall>j<length roots. i \<noteq> j \<longrightarrow> \<not> overlap_lexical (roots ! i) (roots ! j))"

lemma numbered_lines_snd: "map snd (numbered_lines body) = splitlines body"
  by (simp add: numbered_lines_def Let_def del: upt_Suc)

lemma decode_text_chars:
  assumes "decode_text_file content = Inr body" "c \<in> set body"
  shows "c = 10 \<or> \<not> is_control c"
  using assms by (auto simp: decode_text_file_def Let_def split: option.splits if_splits)

lemma load_project_parts:
  assumes "load_project os value = Inr p"
  shows "\<exists>body st. project_lines os (selected_path os value) empty_project (numbered_lines body) = Inr st \<and>
    finish_project (selected_path os value) st = Inr p \<and> state_inv os st"
proof -
  from assms obtain content body st where
    1: "decode_text_file content = Inr body" and
    2: "project_lines os (selected_path os value) empty_project (numbered_lines body) = Inr st" and
    3: "finish_project (selected_path os value) st = Inr p"
    unfolding load_project_def Let_def by auto
  have "good_line (snd x)" if "x \<in> set (numbered_lines body)" for x
  proof -
    have "snd x \<in> set (splitlines body)"
      using that by (metis image_eqI list.set_map numbered_lines_snd)
    from splitlines_no_break [OF this] have s: "set (snd x) \<subseteq> set body"
      and b: "\<forall>c\<in>set (snd x). \<not> is_linebreak c" by blast+
    show ?thesis unfolding good_line_def
    proof
      fix c assume c: "c \<in> set (snd x)"
      then have "\<not> is_linebreak c" using b by blast
      moreover from this have "c \<noteq> 10" by (auto simp: is_linebreak_def)
      ultimately show "\<not> is_linebreak c \<and> \<not> is_control c"
        using decode_text_chars [OF 1] s c by blast
    qed
  qed
  moreover have "state_inv os empty_project"
    by (simp add: state_inv_def empty_project_def teams_wf_def mounts_wf_def)
  ultimately have "state_inv os st" using project_lines_inv [OF 2] by blast
  then show ?thesis using 2 3 by blast
qed

lemma load_project_inv:
  assumes "load_project os value = Inr p"
  shows "project_wf os p"
proof -
  from load_project_parts [OF assms] obtain st where
    f: "finish_project (selected_path os value) st = Inr p" and i: "state_inv os st" by blast
  from f obtain n d where
    "js_name st = Some n" "js_description st = Some d" "js_teams st \<noteq> []" "js_mounts st \<noteq> []"
    "check_roots (map pt_path (js_teams st) @ map pm_path (js_mounts st)) = Inr ()"
    "pj_name p = n" "pj_description p = d" "pj_teams p = js_teams st" "pj_mounts p = js_mounts st"
    "pj_context p = (case js_context st of None \<Rightarrow> [] | Some c \<Rightarrow> c)"
    unfolding finish_project_def Let_def by auto
  then show ?thesis using i
    unfolding project_wf_def state_inv_def Let_def check_roots_iff
    by (auto split: option.splits)
qed

text \<open>Every project that loads is well formed: a valid name, a trimmed one-line description, a
  context that is empty or a block of lines without blank ends, at least one team and one
  mount, valid and distinct names (of teams also up to letter case), and roots that exist as
  directories and of which no two are nested.\<close>

theorem load_project_wf:
  assumes "load_project os value = Inr p"
  shows "project_wf os p"
  using assms by (rule load_project_inv)

end
