(* ===== verification/Project_Roundtrip.thy ===== *)
theory Project_Roundtrip imports Project begin

text \<open>
  The two directions of \<open>src/cyclo/project.py\<close> against each other: the text
  \<open>render_container_project\<close> writes for a team is read back by \<open>load_project\<close>, in a container
  where the named directories exist, as the same project with container paths.
\<close>

section \<open>What is rendered parses back\<close>

lemma slash_lits: "lit ''/'' = [47]" "lit ''//'' = [47, 47]" "lit ''.'' = [46]" "lit ''..'' = [46, 46]"
  by (simp_all add: lit_def)

lemma path_of_name:
  assumes "n \<noteq> []" "n \<noteq> [46]" "47 \<notin> set n"
  shows "path_of n = Path [] [n]"
  using assms split_at_single [OF assms(3)]
  by (cases n) (auto simp: path_of_def slash_lits startswith_Cons lit_def)

lemma mount_name_chars:
  assumes "is_mount_name n"
  shows "n \<noteq> [] \<and> n \<noteq> [46] \<and> n \<noteq> [46, 46] \<and> (\<forall>c\<in>set n. slug_tail c)"
  using assms by (auto simp: is_mount_name_def is_project_name_def re_name_def slug_head_def
      slug_tail_def ascii_defs list_all_iff split: list.splits)

lemma slug_char: "slug_tail c \<Longrightarrow> \<not> isspace c \<and> \<not> is_control c \<and> c \<noteq> 35 \<and> c \<noteq> 47 \<and> \<not> bad_path_char c"
  by (auto simp: slug_tail_def ascii_defs isspace_def is_control_def bad_path_char_def)

lemma clean_slug: "is_mount_name n \<Longrightarrow> clean n"
  using mount_name_chars [of n] slug_char by (simp add: clean_def)

definition root_text :: "access \<Rightarrow> ustr" where
  "root_text m = (if m = RW then lit ''workspace'' else lit ''readonly'')"

lemma container_path_parts:
  assumes "is_mount_name n"
  shows "mount_container_path n m = Path [47] [root_text m, n]"
proof -
  have "47 \<notin> set n" using mount_name_chars [OF assms] slug_char by blast
  then have n: "path_of n = Path [] [n]" using mount_name_chars [OF assms] by (intro path_of_name) auto
  have roots: "CONTAINER_WORKSPACE_ROOT = Path [47] [lit ''workspace'']" 
    "CONTAINER_READONLY_ROOT = Path [47] [lit ''readonly'']" by code_simp+
  show ?thesis
    by (simp add: mount_container_path_def n joinpath_def is_absolute_def root_text_def roots)
qed

lemma container_path_text:
  assumes "is_mount_name n"
  shows "path_str (mount_container_path n m) = [47] @ root_text m @ [47] @ n"
    "path_of (path_str (mount_container_path n m)) = mount_container_path n m"
proof -
  show "path_str (mount_container_path n m) = [47] @ root_text m @ [47] @ n"
    by (simp add: container_path_parts [OF assms] path_str_def)
  have "47 \<notin> set n" using mount_name_chars [OF assms] slug_char by blast
  then have "wf_path (mount_container_path n m)"
    using mount_name_chars [OF assms]
    by (auto simp: container_path_parts [OF assms] wf_path_def wf_part_def slash_lits root_text_def lit_def)
  then show "path_of (path_str (mount_container_path n m)) = mount_container_path n m"
    by (rule path_of_str) (simp add: container_path_parts [OF assms])
qed

text \<open>
  The container: the team's directory and the mount points are the directories they are
  named as.
\<close>

definition team_root :: ppath where "team_root = path_of (lit ''/team'')"

definition container_env :: "os_env \<Rightarrow> project \<Rightarrow> bool" where
  "container_env os p \<longleftrightarrow>
     (\<forall>d\<in>set (team_root # map container_path_of (pj_mounts p)).
        resolve_strict os d = Some d \<and> is_dir os d)"

lemma resolve_own_path:
  assumes "resolve_strict os d = Some d" "is_dir os d" "is_absolute d" "path_of s = d" "path_str d = s"
    "s \<noteq> []" "\<forall>c\<in>set s. \<not> bad_path_char c"
  shows "resolve_directory os source s = Inr d"
  using assms by (auto simp: resolve_directory_def validate_path_token_def joinpath_def bad_path_char_def)

lemma clean_access [simp]: "clean (mode_str m)"
  by (cases m) (simp_all add: mode_str_def clean_def lit_def isspace_def is_control_def)

lemma validate_mode_str [simp]: "validate_mode (mode_str m) = Inr m"
  by (cases m) (simp_all add: mode_str_def validate_mode_def)

lemma strip_sp:
  assumes "ws \<noteq> []" "\<forall>w\<in>set ws. clean w"
  shows "strip (sp ws) = sp ws" "sp ws \<noteq> []" "split_ws (sp ws) = ws" "\<not> startswith [35] (sp ws)"
proof -
  have *: "line_content (sp ws) = sp ws" "sp ws \<noteq> []" "split_ws (sp ws) = ws"
    using descriptor_step_sp [OF assms] by auto
  show "sp ws \<noteq> []" "split_ws (sp ws) = ws" by fact+
  show "strip (sp ws) = sp ws" using *(1) by (metis line_content_def strip_idem)
  show "\<not> startswith [35] (sp ws)" using * by (auto simp: line_content_def)
qed

lemma partition_sp:
  assumes "clean w" "ws \<noteq> []"
  shows "partition_at 32 (sp (w # ws)) = (w, True, sp ws)"
proof -
  have "32 \<notin> set w" using assms(1) by (auto simp: clean_def)
  moreover have "sp (w # ws) = w @ 32 # sp ws" using assms(2) by (cases ws) (simp_all add: sp_def)
  ultimately show ?thesis by (simp add: partition_at_append)
qed

lemma clean_directives [simp]:
  "clean (lit ''name'')" "clean (lit ''description'')" "clean (lit ''context'')"
  "clean (lit ''team'')" "clean (lit ''mount'')" "clean (lit ''/team'')"
  by (simp_all add: clean_def lit_def isspace_def is_control_def)

text \<open>One step of the loop on each kind of rendered line.\<close>

lemma lines_skip:
  "strip l = [] \<or> startswith [35] (strip l) \<Longrightarrow>
     project_lines os src st ((n, l) # rest) = project_lines os src st rest"
  by (auto simp: Let_def)

lemma lines_directive:
  assumes "strip l = l" "l \<noteq> []" "\<not> startswith [35] l" "partition_at 32 l = (d, sep, r)"
    "d \<noteq> lit ''context''" "project_directive os src st n l = Inr st'"
  shows "project_lines os src st ((n, l) # rest) = project_lines os src st' rest"
  using assms by (simp add: Let_def)

lemma lines_name:
  assumes "is_project_name w" "js_name st = None"
  shows "project_lines os src st ((n, sp [lit ''name'', w]) # rest) =
    project_lines os src (st\<lparr>js_name := Some w\<rparr>) rest"
proof -
  have c: "\<forall>x\<in>set [lit ''name'', w]. clean x" using clean_slug assms(1) by (simp add: is_mount_name_def)
  note s = strip_sp [OF _ c, simplified]
  have dots: "w \<noteq> lit ''.''" "w \<noteq> lit ''..''"
    using mount_name_chars [of w] assms(1) by (simp_all add: is_mount_name_def slash_lits)
  show ?thesis
    by (rule lines_directive [OF s(1,2,4) partition_sp])
      (use assms s(3) dots in \<open>simp_all add: project_directive_def partition_sp name_directive_def
        validate_identifier_def\<close>)
qed

lemma sp_single: "sp [d] = d"
  by (simp add: sp_def)

lemma lines_description:
  assumes "description_wf d" "js_description st = None"
  shows "project_lines os src st ((n, sp [lit ''description'', d]) # rest) =
    project_lines os src (st\<lparr>js_description := Some d\<rparr>) rest"
proof -
  let ?l = "sp [lit ''description'', d]"
  have d: "d \<noteq> []" "strip d = d" using assms(1) by (auto simp: description_wf_def)
  then have "\<not> isspace (last d)" using strip_hd_last(2) [of d] by simp
  then have s: "strip ?l = ?l" using d(1)
    by (intro strip_id) (simp add: sp_def lit_def isspace_def)
  have h: "\<not> startswith [35] ?l" by (simp add: sp_def lit_def startswith_Cons)
  have n: "?l \<noteq> []" by (simp add: sp_def)
  show ?thesis
    by (rule lines_directive [OF s n h partition_sp])
      (use assms d in \<open>simp_all add: project_directive_def partition_sp description_directive_def sp_single\<close>)
qed

lemma lines_context:
  assumes "is_context_marker m" "js_context st = None" "block_wf ls" "m \<notin> set ls"
    and xs: "map snd xs = ls @ m # after"
  shows "\<exists>ys. map snd ys = after \<and>
    project_lines os src st ((n, sp [lit ''context'', lit ''<<'' @ m]) # xs) =
    project_lines os src (st\<lparr>js_context := Some (join [10] ls)\<rparr>) ys"
proof -
  have "\<forall>c\<in>set m. \<not> isspace c \<and> \<not> is_control c \<and> c \<noteq> 35"
    using assms(1) ident_char re_nameD(4) [of is_alpha ident_tail 31 m]
    by (fastforce simp: is_context_marker_def ident_head_def)
  then have c: "\<forall>x\<in>set [lit ''context'', lit ''<<'' @ m]. clean x"
    by (auto simp: clean_def lit_def isspace_def is_control_def)
  note s = strip_sp [OF _ c, simplified]
  obtain as b bs where split: "xs = as @ b # bs" "map snd as = ls" "snd b = m" "map snd bs = after"
    using xs by (auto simp: map_eq_append_conv map_eq_Cons_conv)
  have as: "\<forall>x\<in>set as. snd x \<noteq> m" using split(2) assms(4) by force
  have tw: "takeWhile (\<lambda>l. snd l \<noteq> m) xs = as" "dropWhile (\<lambda>l. snd l \<noteq> m) xs = b # bs"
    using as split by (simp_all add: takeWhile_append dropWhile_append)
  have "dropWhile blank ls = ls" "dropWhile blank (rev ls) = rev ls"
    using assms(3) by (simp_all add: block_wf_def dropWhile_eq_self_iff hd_rev)
  then have "context_block ls = Inr (join [10] ls)"
    using assms(3) by (simp add: context_block_def trim_blank_def block_wf_def)
  moreover have "context_directive st (sp [lit ''context'', lit ''<<'' @ m]) = Inr m"
    using assms(1,2) s(3) by (simp add: context_directive_def startswith_iff)
  ultimately show ?thesis
    using s partition_sp [of "lit ''context''" "[lit ''<<'' @ m]"] tw split
    by (intro exI [of _ bs]) (simp add: Let_def)
qed

lemma lines_team:
  assumes "resolve_strict os team_root = Some team_root" "is_dir os team_root" "js_teams st = []"
  shows "project_lines os src st ((n, sp [lit ''team'', lit ''/team'', mode_str m]) # rest) =
    project_lines os src (st\<lparr>js_teams := [\<lparr>pt_path = team_root, pt_mode = m, pt_line = n\<rparr>]\<rparr>) rest"
proof -
  have c: "\<forall>x\<in>set [lit ''team'', lit ''/team'', mode_str m]. clean x" by simp
  note s = strip_sp [OF _ c, simplified]
  have "is_absolute team_root" "path_str team_root = lit ''/team''" "is_team_name (path_name team_root)"
    "path_name team_root \<noteq> lit ''.''" "path_name team_root \<noteq> lit ''..''"
    by code_simp+
  moreover from this have "resolve_directory os src (lit ''/team'') = Inr team_root"
    using assms by (intro resolve_own_path)
      (auto simp: team_root_def lit_def bad_path_char_def isspace_def is_control_def)
  ultimately show ?thesis
    by (intro lines_directive [OF s(1,2,4) partition_sp])
      (use assms s(3) in \<open>simp_all add: project_directive_def partition_sp team_directive_def
        validate_identifier_def numeral_2_eq_2\<close>)
qed

definition mount_view :: "project_mount \<Rightarrow> ustr \<times> ppath \<times> access" where
  "mount_view m = (pm_name m, pm_path m, pm_mode m)"

definition container_view :: "project_mount \<Rightarrow> ustr \<times> ppath \<times> access" where
  "container_view m = (pm_name m, container_path_of m, pm_mode m)"

lemma container_path_inj:
  assumes "is_mount_name n" "is_mount_name k" "mount_container_path n a = mount_container_path k b"
  shows "n = k"
  using assms by (simp add: container_path_parts)

lemma lines_mount:
  assumes "is_mount_name (pm_name m)"
    "resolve_strict os (container_path_of m) = Some (container_path_of m)" "is_dir os (container_path_of m)"
    "pm_name m \<notin> pm_name ` set (js_mounts st)"
    "\<forall>x\<in>set (js_mounts st). is_mount_name (pm_name x) \<and> (\<exists>a. pm_path x = mount_container_path (pm_name x) a)"
  shows "project_lines os src st ((n, mount_line m) # rest) =
    project_lines os src (st\<lparr>js_mounts := js_mounts st @
      [\<lparr>pm_name = pm_name m, pm_path = container_path_of m, pm_mode = pm_mode m, pm_line = n\<rparr>]\<rparr>) rest"
proof -
  let ?p = "path_str (container_path_of m)"
  note t = container_path_text [OF assms(1), of "pm_mode m"]
  have pc: "\<forall>c\<in>set ?p. \<not> bad_path_char c \<and> c \<noteq> 35"
    using mount_name_chars [OF assms(1)] slug_char
    by (auto simp: container_path_of_def t root_text_def lit_def bad_path_char_def isspace_def is_control_def)
  then have "clean ?p" by (auto simp: clean_def bad_path_char_def container_path_of_def t)
  then have c: "\<forall>x\<in>set [lit ''mount'', pm_name m, ?p, mode_str (pm_mode m)]. clean x"
    using clean_slug assms(1) by simp
  note s = strip_sp [OF _ c, simplified]
  have "is_absolute (container_path_of m)"
    by (simp add: container_path_of_def container_path_parts [OF assms(1)] is_absolute_def)
  then have r: "resolve_directory os src ?p = Inr (container_path_of m)"
    using assms(2,3) t pc by (intro resolve_own_path) (auto simp: container_path_of_def)
  have new: "container_path_of m \<notin> pm_path ` set (js_mounts st)"
  proof
    assume "container_path_of m \<in> pm_path ` set (js_mounts st)"
    then obtain x where x: "x \<in> set (js_mounts st)" "pm_path x = container_path_of m" by auto
    then have "pm_name x = pm_name m"
      using assms(1,5) container_path_inj unfolding container_path_of_def by metis
    then show False using assms(4) x(1) by (metis image_eqI)
  qed
  have dots: "pm_name m \<noteq> lit ''.''" "pm_name m \<noteq> lit ''..''"
    using mount_name_chars [OF assms(1)] by (simp_all add: slash_lits)
  show ?thesis unfolding mount_line_def
    by (rule lines_directive [OF s(1,2,4) partition_sp])
      (use assms(1,4) s(3) r new dots in \<open>simp_all add: project_directive_def partition_sp mount_directive_def
        validate_identifier_def numeral_2_eq_2 numeral_3_eq_3\<close>)
qed

lemma lines_mounts:
  assumes "\<forall>m\<in>set ms. is_mount_name (pm_name m) \<and>
      resolve_strict os (container_path_of m) = Some (container_path_of m) \<and> is_dir os (container_path_of m)"
    and "distinct (map pm_name (js_mounts st) @ map pm_name ms)"
    and "\<forall>x\<in>set (js_mounts st). is_mount_name (pm_name x) \<and> (\<exists>a. pm_path x = mount_container_path (pm_name x) a)"
    and "map snd xs = map mount_line ms"
  shows "\<exists>new. project_lines os src st xs = Inr (st\<lparr>js_mounts := js_mounts st @ new\<rparr>) \<and>
    map mount_view new = map container_view ms"
  using assms
proof (induction ms arbitrary: st xs)
  case Nil
  then show ?case by simp
next
  case (Cons m ms)
  obtain n xs' where xs: "xs = (n, mount_line m) # xs'" "map snd xs' = map mount_line ms"
    using Cons.prems(4) by (auto simp: map_eq_Cons_conv)
  let ?e = "\<lparr>pm_name = pm_name m, pm_path = container_path_of m, pm_mode = pm_mode m, pm_line = n\<rparr>"
  let ?st = "st\<lparr>js_mounts := js_mounts st @ [?e]\<rparr>"
  have step: "project_lines os src st xs = project_lines os src ?st xs'"
    unfolding xs using Cons.prems by (intro lines_mount) auto
  have "\<exists>new. project_lines os src ?st xs' = Inr (?st\<lparr>js_mounts := js_mounts ?st @ new\<rparr>) \<and>
      map mount_view new = map container_view ms"
    using Cons.prems xs(2) by (intro Cons.IH) (auto simp: container_path_of_def)
  then obtain new where
    new: "project_lines os src ?st xs' = Inr (?st\<lparr>js_mounts := js_mounts ?st @ new\<rparr>)"
      "map mount_view new = map container_view ms" by blast
  show ?case
    by (rule exI [of _ "?e # new"])
      (simp add: step new mount_view_def [of ?e] container_view_def [of m])
qed

lemma join_flatten:
  assumes "ls \<noteq> []"
  shows "join sep (as @ join sep ls # bs) = join sep (as @ ls @ bs)"
proof -
  have app: "join sep (xs @ ys) = join sep xs @ (if xs = [] \<or> ys = [] then [] else sep) @ join sep ys"
    for xs ys :: "ustr list"
    by (induction sep xs rule: join.induct) (auto simp: neq_Nil_conv)
  have "join sep (join sep ls # bs) = join sep (ls @ bs)"
    using assms app [of ls bs] by (cases bs) auto
  then show ?thesis using assms by (simp add: app [of as])
qed

lemma splitlines_join_open:
  "ls \<noteq> [] \<Longrightarrow> \<forall>l\<in>set ls. \<forall>c\<in>set l. \<not> is_linebreak c \<Longrightarrow> last ls \<noteq> [] \<Longrightarrow>
    splitlines (join [10] ls) = ls"
  by (induction "[10::nat]" ls rule: join.induct) (auto simp: splitlines_single splitlines_cons)

lemma join_member_length: "x \<in> set xs \<Longrightarrow> length x \<le> length (join sep xs)"
  by (induction sep xs rule: join.induct) auto

lemma join_member_set: "x \<in> set xs \<Longrightarrow> set x \<subseteq> set (join sep xs)"
  by (induction sep xs rule: join.induct) auto

lemma join_count: "length xs \<le> Suc (length (join [c] xs))"
  by (induction "[c]" xs rule: join.induct) auto

lemma utf8_char_length: "0 < length (utf8_char c)"
  by (simp add: utf8_char_def)

lemma utf8_encode_length: "utf8_encode s = Inr bs \<Longrightarrow> length s \<le> length bs"
proof -
  have "length s \<le> length (concat (map utf8_char s))"
  proof (induction s)
    case (Cons c s)
    have "Suc 0 \<le> length (utf8_char c)" using utf8_char_length [of c] by linarith
    with Cons show ?case by simp
  qed simp
  then show "utf8_encode s = Inr bs \<Longrightarrow> length s \<le> length bs"
    by (auto simp: utf8_encode_def split: if_splits)
qed

lemma utf8_encode_scalars: "utf8_encode s = Inr bs \<Longrightarrow> list_all is_scalar s"
  by (auto simp: utf8_encode_def split: if_splits)

section \<open>JSON text is encodable\<close>

fun jstrs :: "json \<Rightarrow> bool" where
  "jstrs (JStr s) = list_all is_scalar s"
| "jstrs (JFloat s) = list_all is_scalar s"
| "jstrs (JList xs) = list_all jstrs xs"
| "jstrs (JObj kvs) = list_all (\<lambda>(k, v). list_all is_scalar k \<and> jstrs v) kvs"
| "jstrs _ = True"

lemma jstrs_sort_keys: "jstrs j \<Longrightarrow> jstrs (sort_keys j)"
  by (induction j rule: sort_keys.induct) (auto simp: list_all_iff)

lemma hex_digit_ascii: "n < 16 \<Longrightarrow> hex_digit n < 128"
  by (simp add: hex_digit_def)

lemma list_all_ascii: "\<forall>c\<in>set s. c < 128 \<Longrightarrow> list_all is_scalar s"
  by (auto simp: list_all_iff intro: ascii_scalar)

lemma u_escape_scalar: "list_all is_scalar (u_escape n)"
  by (rule list_all_ascii) (auto simp: u_escape_def hex4_def intro: hex_digit_ascii)

lemma dump_char_scalar: "is_scalar c \<Longrightarrow> list_all is_scalar (dump_char a c)"
  by (simp add: dump_char_def u_escape_scalar ascii_scalar)

lemma dump_str_scalar: "list_all is_scalar s \<Longrightarrow> list_all is_scalar (dump_str a s)"
  by (auto simp: dump_str_def list_all_iff ascii_scalar dump_char_scalar [unfolded list_all_iff])

lemma dump_int_scalar: "list_all is_scalar (dump_int i)"
proof -
  have "list_all is_scalar (dec n)" for n
    by (rule list_all_ascii) (auto dest: dec_digits simp: is_digit_def)
  then show ?thesis by (simp add: dump_int_def ascii_scalar)
qed

lemma join_scalar: "list_all is_scalar sep \<Longrightarrow> \<forall>x\<in>set xs. list_all is_scalar x \<Longrightarrow> list_all is_scalar (join sep xs)"
  by (induction sep xs rule: join.induct) auto

lemma dump_compact_scalar: "jstrs j \<Longrightarrow> list_all is_scalar (dump_compact a j)"
proof (induction j)
  case (JList xs)
  then show ?case by (auto simp: ascii_scalar list_all_iff [of jstrs] intro!: join_scalar)
next
  case (JObj kvs)
  then show ?case
    by (fastforce simp: ascii_scalar list_all_iff [of "\<lambda>(k, v). _ k \<and> _ v"] dump_str_scalar intro!: join_scalar)
qed (auto simp: dump_int_scalar dump_str_scalar lit_def ascii_scalar)

section \<open>The round trip\<close>

definition flat_lines :: "project \<Rightarrow> project_team \<Rightarrow> ustr list \<Rightarrow> ustr list" where
  "flat_lines p team ls =
     [lit ''# Generated by Cyclo for this team container.'',
      lit ''# Team and mount paths are container paths; host paths are omitted.'',
      sp [lit ''name'', pj_name p], sp [lit ''description'', pj_description p]] @
     (if ls = [] then []
      else let m = project_context_marker (pj_context p) in
        [[], sp [lit ''context'', lit ''<<'' @ m]] @ ls @ [m]) @
     [[], sp [lit ''team'', lit ''/team'', mode_str (pt_mode team)], []] @
     map mount_line (pj_mounts p)"

lemma render_flat:
  assumes "render_container_project p team = Inr s"
    and "pj_context p = [] \<and> ls = [] \<or> pj_context p \<noteq> [] \<and> pj_context p = join [10] ls \<and> ls \<noteq> []"
  shows "s = join [10] (flat_lines p team ls) @ [10] \<and> team \<in> set (pj_teams p) \<and>
    (\<exists>bs. utf8_encode s = Inr bs \<and> length bs \<le> MAX_PROJECT_FILE_BYTES)"
proof -
  let ?m = "project_context_marker (pj_context p)"
  have ctx: "sp [lit ''context'', lit ''<<'' @ ?m] = lit ''context <<'' @ ?m"
    by (simp add: sp_def lit_def)
  let ?head = "[lit ''# Generated by Cyclo for this team container.'',
      lit ''# Team and mount paths are container paths; host paths are omitted.'',
      sp [lit ''name'', pj_name p], sp [lit ''description'', pj_description p]]"
  let ?tail = "[[], sp [lit ''team'', lit ''/team'', mode_str (pt_mode team)], []] @ map mount_line (pj_mounts p)"
  have "join [10] (?head @ context_lines (pj_context p) @ ?tail) = join [10] (flat_lines p team ls)"
  proof (cases "ls = []")
    case True
    then show ?thesis using assms(2) by (simp add: context_lines_def flat_lines_def)
  next
    case False
    then have c: "pj_context p \<noteq> []" "pj_context p = join [10] ls" using assms(2) by auto
    have eq: "?head @ context_lines (pj_context p) @ ?tail =
        (?head @ [[], lit ''context <<'' @ ?m]) @ join [10] ls # (?m # ?tail)"
      using c by (simp add: context_lines_def Let_def)
    have "flat_lines p team ls = (?head @ [[], lit ''context <<'' @ ?m]) @ ls @ (?m # ?tail)"
      using False by (simp add: flat_lines_def ctx Let_def)
    then show ?thesis unfolding eq join_flatten [OF False] by (rule arg_cong [OF sym])
  qed
  then show ?thesis using assms(1)
    by (auto simp: render_container_project_def Let_def split: if_split_asm)
qed

lemma good_sp: "\<forall>w\<in>set ws. clean w \<Longrightarrow> good_line (sp ws)"
  using sp_chars by (auto simp: good_line_def)

lemma good_literal:
  "good_line []" "good_line (lit ''# Generated by Cyclo for this team container.'')"
  "good_line (lit ''# Team and mount paths are container paths; host paths are omitted.'')"
  by (simp_all add: good_line_def lit_def is_linebreak_def is_control_def)

lemma mount_line_clean:
  assumes "is_mount_name (pm_name m)"
  shows "good_line (mount_line m)"
proof -
  let ?p = "path_str (container_path_of m)"
  have "\<forall>c\<in>set ?p. \<not> isspace c \<and> \<not> is_control c \<and> c \<noteq> 35" "?p \<noteq> []"
    using mount_name_chars [OF assms] slug_char
    by (auto simp: container_path_of_def container_path_text [OF assms] root_text_def lit_def
        isspace_def is_control_def)
  then have "clean ?p" by (simp add: clean_def)
  then show ?thesis unfolding mount_line_def
    by (intro good_sp) (simp add: clean_slug [OF assms])
qed

lemma clean_marker: "is_context_marker m \<Longrightarrow> clean m \<and> clean (lit ''<<'' @ m)"
proof -
  assume m: "is_context_marker m"
  have "\<forall>c\<in>set m. \<not> isspace c \<and> \<not> is_control c \<and> c \<noteq> 35"
    using m ident_char re_nameD(4) [of is_alpha ident_tail 31 m]
    by (fastforce simp: is_context_marker_def ident_head_def)
  moreover have "m \<noteq> []" using m re_nameD(1) by (auto simp: is_context_marker_def)
  ultimately show ?thesis by (auto simp: clean_def lit_def isspace_def is_control_def)
qed

lemma flat_lines_good:
  assumes "project_wf os p" "ls = [] \<or> block_wf ls \<and> is_context_marker (project_context_marker (pj_context p))"
    "l \<in> set (flat_lines p team ls)"
  shows "good_line l"
proof -
  have n: "clean (pj_name p)"
    using assms(1) clean_slug [of "pj_name p"] by (simp add: project_wf_def is_mount_name_def)
  have d: "good_line (pj_description p)" using assms(1) by (simp add: project_wf_def description_wf_def)
  then have d': "good_line (sp [lit ''description'', pj_description p])"
    by (auto simp: good_line_def sp_def lit_def is_linebreak_def is_control_def)
  have m: "\<forall>x\<in>set (pj_mounts p). good_line (mount_line x)"
    using assms(1) mount_line_clean by (simp add: project_wf_def mounts_wf_def)
  have ctx: "good_line x" if "block_wf ls" "is_context_marker k"
    "x \<in> set ([[], sp [lit ''context'', lit ''<<'' @ k]] @ ls @ [k])" for x k
    using that good_sp [of "[lit ''context'', lit ''<<'' @ k]"] good_sp [of "[k]"] clean_marker [of k]
    by (auto simp: good_literal block_wf_def sp_single)
  show ?thesis
    using assms(2,3) n d' m ctx good_sp [of "[lit ''name'', pj_name p]"]
      good_sp [of "[lit ''team'', lit ''/team'', mode_str (pt_mode team)]"]
    by (auto simp: flat_lines_def good_literal Let_def split: if_split_asm)
qed

lemma lines_opening:
  assumes "is_project_name (pj_name p)" "description_wf (pj_description p)"
    and "map snd xs = [lit ''# Generated by Cyclo for this team container.'',
      lit ''# Team and mount paths are container paths; host paths are omitted.'',
      sp [lit ''name'', pj_name p], sp [lit ''description'', pj_description p]] @ rest"
  shows "\<exists>ys. map snd ys = rest \<and> project_lines os src empty_project xs =
    project_lines os src (empty_project\<lparr>js_name := Some (pj_name p),
      js_description := Some (pj_description p)\<rparr>) ys"
proof -
  from assms(3) obtain n1 n2 n3 n4 ys where
    xs: "xs = (n1, lit ''# Generated by Cyclo for this team container.'') #
      (n2, lit ''# Team and mount paths are container paths; host paths are omitted.'') #
      (n3, sp [lit ''name'', pj_name p]) # (n4, sp [lit ''description'', pj_description p]) # ys"
    "map snd ys = rest" by (auto simp: map_eq_Cons_conv)
  have com: "strip l = [] \<or> startswith [35] (strip l)"
    if "l = lit ''# Generated by Cyclo for this team container.'' \<or>
      l = lit ''# Team and mount paths are container paths; host paths are omitted.''" for l
  proof -
    have "strip l = l" using that by (intro strip_id) (auto simp: lit_def isspace_def)
    then show ?thesis using that by (auto simp: lit_def startswith_Cons)
  qed
  have "project_lines os src empty_project xs =
      project_lines os src (empty_project\<lparr>js_name := Some (pj_name p),
        js_description := Some (pj_description p)\<rparr>) ys"
    using assms(1,2)
    by (simp add: xs(1) lines_skip com lines_name lines_description empty_project_def del: project_lines.simps)
  then show ?thesis using xs(2) by blast
qed

lemma lines_closing:
  assumes "container_env os p" "mounts_wf hos (pj_mounts p)" "js_teams st = []" "js_mounts st = []"
    and "map snd xs = [[], sp [lit ''team'', lit ''/team'', mode_str m], []] @ map mount_line (pj_mounts p)"
  shows "\<exists>n new. project_lines os src st xs = Inr (st\<lparr>js_teams := [\<lparr>pt_path = team_root, pt_mode = m, pt_line = n\<rparr>],
      js_mounts := new\<rparr>) \<and> map mount_view new = map container_view (pj_mounts p)"
proof -
  from assms(5) obtain n1 n2 n3 ys where xs: "xs = (n1, []) # (n2, sp [lit ''team'', lit ''/team'', mode_str m]) # (n3, []) # ys"
    and ys: "map snd ys = map mount_line (pj_mounts p)"
    by (auto simp: map_eq_Cons_conv)
  let ?st = "st\<lparr>js_teams := [\<lparr>pt_path = team_root, pt_mode = m, pt_line = n2\<rparr>]\<rparr>"
  have r: "resolve_strict os team_root = Some team_root" "is_dir os team_root"
    using assms(1) by (simp_all add: container_env_def)
  have step: "project_lines os src st xs = project_lines os src ?st ys"
    by (simp add: xs lines_skip lines_team [OF r assms(3)] del: project_lines.simps)
  have "\<exists>new. project_lines os src ?st ys = Inr (?st\<lparr>js_mounts := js_mounts ?st @ new\<rparr>) \<and>
      map mount_view new = map container_view (pj_mounts p)"
    using assms(1,2,4) ys by (intro lines_mounts) (auto simp: mounts_wf_def container_env_def)
  then show ?thesis using step assms(4) by auto
qed

text \<open>The roots of a container: pairwise apart.\<close>

lemma container_roots_apart:
  assumes "mounts_wf hos ms"
  shows "check_roots (team_root # map container_path_of ms) = Inr ()"
proof -
  have tr: "team_root = Path [47] [lit ''team'']" by code_simp
  have cp: "container_path_of m = Path [47] [root_text (pm_mode m), pm_name m]" if "m \<in> set ms" for m
    using assms that by (simp add: mounts_wf_def container_path_of_def container_path_parts)
  have team: "\<not> overlap_lexical team_root (container_path_of m)" if "m \<in> set ms" for m
    using cp [OF that] by (auto simp: tr overlap_lexical_def is_relative_to_def root_text_def)
  have apart: "\<not> overlap_lexical (container_path_of m) (container_path_of k)"
    if "m \<in> set ms" "k \<in> set ms" "pm_name m \<noteq> pm_name k" for m k
    using cp that by (auto simp: overlap_lexical_def is_relative_to_def)
  have names: "distinct (map pm_name ms)" using assms by (simp add: mounts_wf_def)
  show ?thesis unfolding check_roots_iff
  proof (intro allI impI)
    fix i j let ?rs = "team_root # map container_path_of ms"
    assume b: "i < length ?rs" "j < length ?rs" "i \<noteq> j"
    show "\<not> overlap_lexical (?rs ! i) (?rs ! j)"
    proof (cases i)
      case 0
      then show ?thesis using b team by (cases j) auto
    next
      case i: (Suc i')
      show ?thesis
      proof (cases j)
        case 0
        then show ?thesis using b i team lexical.overlap_sym by auto
      next
        case (Suc j')
        then have "pm_name (ms ! i') \<noteq> pm_name (ms ! j')"
          using names b i by (simp add: distinct_conv_nth)
        then show ?thesis using b i Suc apart by simp
      qed
    qed
  qed
qed

lemma scalar_ascii_path:
  assumes "is_mount_name n"
  shows "list_all is_scalar (path_str (mount_container_path n m))" "list_all is_scalar n"
proof -
  have "\<forall>c\<in>set n. c < 128"
    using mount_name_chars [OF assms] by (auto simp: slug_tail_def ascii_defs)
  then show "list_all is_scalar n" by (rule list_all_ascii)
  then show "list_all is_scalar (path_str (mount_container_path n m))"
    by (simp add: container_path_text [OF assms] ascii_scalar root_text_def lit_def)
qed

lemma definition_sha_ok:
  assumes "list_all is_scalar n" "list_all is_scalar d" "list_all is_scalar c"
    "\<forall>t\<in>set ts. list_all is_scalar (path_str (pt_path t))"
    "\<forall>m\<in>set ms. list_all is_scalar (path_str (pm_path m)) \<and> list_all is_scalar (pm_name m)"
  shows "\<exists>sha. definition_sha256 n d c ts ms = Inr sha"
proof -
  have mode: "list_all is_scalar (mode_str m)" for m
    by (cases m) (simp_all add: mode_str_def lit_def ascii_scalar)
  let ?j = "JObj
        [(lit ''context'', JStr c), (lit ''description'', JStr d),
         (lit ''mounts'', JList (map (\<lambda>m. JObj [(lit ''mode'', JStr (mode_str (pm_mode m))),
            (lit ''name'', JStr (pm_name m)), (lit ''path'', JStr (path_str (pm_path m)))]) ms)),
         (lit ''name'', JStr n), (lit ''schema'', JInt 3),
         (lit ''teams'', JList (map (\<lambda>t. JObj [(lit ''mode'', JStr (mode_str (pt_mode t))),
            (lit ''path'', JStr (path_str (pt_path t)))]) ts))]"
  have "jstrs ?j" using assms mode
    by (simp add: list_all_iff [of jstrs]) (simp add: lit_def ascii_scalar)
  then have "list_all is_scalar (dump_compact False (sort_keys ?j))"
    by (intro dump_compact_scalar jstrs_sort_keys)
  from utf8_encode_scalar [OF this] show ?thesis by (auto simp: definition_sha256_def Let_def)
qed

lemma finish_container:
  assumes "mounts_wf hos (pj_mounts p)" "pj_mounts p \<noteq> []" "map mount_view new = map container_view (pj_mounts p)"
    "list_all is_scalar (pj_name p)" "list_all is_scalar (pj_description p)" "list_all is_scalar (pj_context p)"
    "js_name st = Some (pj_name p)" "js_description st = Some (pj_description p)"
    "(case js_context st of None \<Rightarrow> [] | Some c \<Rightarrow> c) = pj_context p"
    "js_teams st = [\<lparr>pt_path = team_root, pt_mode = m, pt_line = k\<rparr>]" "js_mounts st = new"
  shows "\<exists>sha. finish_project source st = Inr \<lparr>pj_path = source, pj_name = pj_name p,
    pj_description = pj_description p, pj_context = pj_context p,
    pj_teams = [\<lparr>pt_path = team_root, pt_mode = m, pt_line = k\<rparr>], pj_mounts = new, pj_sha256 = sha\<rparr>"
proof -
  let ?ts = "[\<lparr>pt_path = team_root, pt_mode = m, pt_line = k\<rparr>]"
  have paths: "map pm_path new = map container_path_of (pj_mounts p)"
    using arg_cong [OF assms(3), of "map (fst \<circ> snd)"]
    by (simp add: comp_def mount_view_def container_view_def)
  have "new \<noteq> []" using assms(2,3) by auto
  have "\<forall>x\<in>set new. \<exists>y\<in>set (pj_mounts p). mount_view x = container_view y"
    using assms(3) by (metis image_iff list.set_map)
  then have "\<forall>x\<in>set new. list_all is_scalar (path_str (pm_path x)) \<and> list_all is_scalar (pm_name x)"
    using assms(1) scalar_ascii_path
    by (fastforce simp: mount_view_def container_view_def mounts_wf_def container_path_of_def)
  moreover have "path_str team_root = lit ''/team''" by code_simp
  then have "list_all is_scalar (path_str team_root)" by (simp add: lit_def ascii_scalar)
  ultimately obtain sha where
    sha: "definition_sha256 (pj_name p) (pj_description p) (pj_context p) ?ts new = Inr sha"
    using definition_sha_ok [OF assms(4,5,6), of ?ts new] by auto
  have roots: "check_roots (map pt_path ?ts @ map pm_path new) = Inr ()"
    using container_roots_apart [OF assms(1)] by (simp add: paths)
  show ?thesis
    using roots sha \<open>new \<noteq> []\<close> by (simp add: finish_project_def assms(7,8,9,10,11) Let_def)
qed

text \<open>What the rendered text is: its lines, and that it is readable.\<close>

definition context_block_of :: "project \<Rightarrow> ustr list \<Rightarrow> bool" where
  "context_block_of p ls \<longleftrightarrow>
     pj_context p = [] \<and> ls = [] \<or> pj_context p \<noteq> [] \<and> pj_context p = join [10] ls \<and> block_wf ls"

lemma context_block_exists:
  assumes "project_wf os p"
  shows "\<exists>ls. context_block_of p ls"
proof (cases "pj_context p = []")
  case False
  then obtain ls where "pj_context p = join [10] ls" "block_wf ls"
    using assms by (auto simp: project_wf_def context_wf_def)
  then show ?thesis using False by (auto simp: context_block_of_def)
qed (simp add: context_block_of_def)

lemma context_block_lines:
  assumes "context_block_of p ls" "ls \<noteq> []"
  shows "splitlines (pj_context p) = ls"
  using assms by (auto simp: context_block_of_def block_wf_def good_line_def blank_def
      intro!: splitlines_join_open)

lemma rendered_marker:
  assumes "context_block_of p ls" "ls \<noteq> []" "length (join [10] (flat_lines p team ls)) \<le> 1048576"
  shows "is_context_marker (project_context_marker (pj_context p)) \<and>
    project_context_marker (pj_context p) \<notin> set ls"
proof -
  let ?m = "project_context_marker (pj_context p)"
  obtain k where k: "k \<le> Suc (length ls)" "?m = marker_name k" "marker_name k \<notin> set ls"
    using project_context_marker_spec [of "pj_context p"] context_block_lines [OF assms(1,2)] by auto
  have "length ls \<le> length (flat_lines p team ls)" using assms(2) by (simp add: flat_lines_def Let_def)
  also have "\<dots> \<le> Suc 1048576"
    using join_count [of "flat_lines p team ls" 10] assms(3) by linarith
  finally have "k < 10 ^ 18" using k(1) by simp
  then show ?thesis using marker_name_valid k by simp
qed

lemma rendered_text:
  assumes wf: "project_wf os p" and ls: "context_block_of p ls"
    and render: "render_container_project p team = Inr s" and enc: "utf8_encode s = Inr bs"
  shows "s = join [10] (flat_lines p team ls) @ [10]" "length bs \<le> MAX_PROJECT_FILE_BYTES"
    "ls \<noteq> [] \<Longrightarrow> is_context_marker (project_context_marker (pj_context p)) \<and>
       project_context_marker (pj_context p) \<notin> set ls"
    "l \<in> set (flat_lines p team ls) \<Longrightarrow> good_line l"
proof -
  have "pj_context p = [] \<and> ls = [] \<or> pj_context p \<noteq> [] \<and> pj_context p = join [10] ls \<and> ls \<noteq> []"
    using ls by (auto simp: context_block_of_def block_wf_def)
  from render_flat [OF render this] enc show s: "s = join [10] (flat_lines p team ls) @ [10]"
    and small: "length bs \<le> MAX_PROJECT_FILE_BYTES" by auto
  have len: "length (join [10] (flat_lines p team ls)) \<le> 1048576"
    using utf8_encode_length [OF enc] small by (simp add: s MAX_PROJECT_FILE_BYTES_def)
  show m: "is_context_marker (project_context_marker (pj_context p)) \<and>
       project_context_marker (pj_context p) \<notin> set ls" if "ls \<noteq> []"
    using rendered_marker [OF ls that len] .
  show "good_line l" if "l \<in> set (flat_lines p team ls)"
    using flat_lines_good [OF wf _ that] ls m by (auto simp: context_block_of_def)
qed

lemma rendered_decodes:
  assumes wf: "project_wf os p" and ls: "context_block_of p ls"
    and render: "render_container_project p team = Inr s" and enc: "utf8_encode s = Inr bs"
  shows "decode_text_file bs = Inr s" "splitlines s = flat_lines p team ls"
proof -
  note t = rendered_text [OF assms]
  have chars: "c = 10 \<or> \<not> is_control c" if c: "c \<in> set s" for c
  proof (cases "c = 10")
    case False
    then obtain l where "l \<in> set (flat_lines p team ls)" "c \<in> set l"
      using c set_join [of "[10]" "flat_lines p team ls"] by (auto simp: t(1))
    then show ?thesis using t(4) by (auto simp: good_line_def)
  qed simp
  then have "13 \<notin> set s" by (force simp: is_control_def)
  then show "decode_text_file bs = Inr s"
    using chars by (auto simp: decode_text_file_def utf8_decode_encode [OF enc] join_crlf_id Let_def)
  show "splitlines s = flat_lines p team ls" unfolding t(1)
    using t(4) by (intro splitlines_join) (auto simp: flat_lines_def good_line_def)
qed

lemma rendered_scalars:
  assumes wf: "project_wf os p" and ls: "context_block_of p ls"
    and render: "render_container_project p team = Inr s" and enc: "utf8_encode s = Inr bs"
  shows "list_all is_scalar (pj_name p)" "list_all is_scalar (pj_description p)"
    "list_all is_scalar (pj_context p)"
proof -
  have sub: "list_all is_scalar l" if "l \<in> set (flat_lines p team ls)" for l
    using utf8_encode_scalars [OF enc] join_member_set [OF that, of "[10]"]
    by (auto simp: rendered_text(1) [OF assms] list_all_iff)
  have "list_all is_scalar (sp [lit ''name'', pj_name p])"
    "list_all is_scalar (sp [lit ''description'', pj_description p])"
    by (rule sub, simp add: flat_lines_def)+
  then show "list_all is_scalar (pj_name p)" "list_all is_scalar (pj_description p)"
    by (simp_all add: sp_def)
  have "set ls \<subseteq> set (flat_lines p team ls)" by (cases "ls = []") (auto simp: flat_lines_def Let_def)
  then have "\<forall>l\<in>set ls. list_all is_scalar l" using sub by blast
  then have "list_all is_scalar (join [10] ls)" by (intro join_scalar) (simp_all add: ascii_scalar)
  then show "list_all is_scalar (pj_context p)" using ls by (auto simp: context_block_of_def)
qed

text \<open>Reading the rendered lines in the container.\<close>

definition header_state :: "project \<Rightarrow> ustr list \<Rightarrow> project_state" where
  "header_state p ls = empty_project\<lparr>js_name := Some (pj_name p),
     js_description := Some (pj_description p),
     js_context := (if ls = [] then None else Some (join [10] ls))\<rparr>"

lemma lines_header:
  assumes wf: "project_wf os p" and ls: "context_block_of p ls"
    and m: "ls \<noteq> [] \<Longrightarrow> is_context_marker (project_context_marker (pj_context p)) \<and>
       project_context_marker (pj_context p) \<notin> set ls"
    and xs: "map snd xs = flat_lines p team ls"
  shows "\<exists>zs. map snd zs = [[], sp [lit ''team'', lit ''/team'', mode_str (pt_mode team)], []] @
      map mount_line (pj_mounts p) \<and>
    project_lines cos src empty_project xs = project_lines cos src (header_state p ls) zs"
proof -
  let ?m = "project_context_marker (pj_context p)"
  let ?tail = "[[], sp [lit ''team'', lit ''/team'', mode_str (pt_mode team)], []] @ map mount_line (pj_mounts p)"
  let ?rest = "(if ls = [] then [] else [[], sp [lit ''context'', lit ''<<'' @ ?m]] @ ls @ [?m]) @ ?tail"
  let ?st = "empty_project\<lparr>js_name := Some (pj_name p), js_description := Some (pj_description p)\<rparr>"
  have flat: "map snd xs = [lit ''# Generated by Cyclo for this team container.'',
      lit ''# Team and mount paths are container paths; host paths are omitted.'',
      sp [lit ''name'', pj_name p], sp [lit ''description'', pj_description p]] @ ?rest"
    unfolding xs flat_lines_def Let_def by simp
  have "is_project_name (pj_name p)" "description_wf (pj_description p)"
    using wf by (simp_all add: project_wf_def)
  from lines_opening [OF this flat, of cos src] obtain ys where
    ys: "map snd ys = ?rest" and p1: "project_lines cos src empty_project xs = project_lines cos src ?st ys"
    by blast
  show ?thesis
  proof (cases "ls = []")
    case True
    then have "map snd ys = ?tail" "header_state p ls = ?st"
      using ys by (simp_all add: header_state_def empty_project_def)
    then show ?thesis using p1 by metis
  next
    case False
    obtain n0 n1 ys' where ys': "ys = (n0, []) # (n1, sp [lit ''context'', lit ''<<'' @ ?m]) # ys'"
      and t: "map snd ys' = ls @ ?m # ?tail"
      using ys False by (auto simp: map_eq_Cons_conv)
    have "block_wf ls" using ls False by (auto simp: context_block_of_def)
    from lines_context [OF _ _ this _ t, of ?st cos src n1] m [OF False] show ?thesis
      using False p1
      by (auto simp: ys' lines_skip empty_project_def header_state_def simp del: project_lines.simps)
  qed
qed

text \<open>What a project is, apart from where it was read and the host's paths.\<close>

definition container_project :: "project \<Rightarrow> project_team \<Rightarrow> project \<Rightarrow> bool" where
  "container_project p team q \<longleftrightarrow>
     pj_name q = pj_name p \<and> pj_description q = pj_description p \<and> pj_context q = pj_context p \<and>
     map (\<lambda>t. (pt_path t, pt_mode t)) (pj_teams q) = [(team_root, pt_mode team)] \<and>
     map mount_view (pj_mounts q) = map container_view (pj_mounts p)"

text \<open>C4: the project a team reads in its container is the project the host loaded: for every
  project that loads on the host and every team of it, the rendered text, published in a
  container whose mount points are directories, loads there with the same name, description
  and context, the one team at its container path with its own mode, and the mounts in order
  with their names, modes and container paths.\<close>

theorem rendered_project_loads:
  assumes load: "load_project hos value = Inr p"
    and render: "render_container_project p team = Inr s" and enc: "utf8_encode s = Inr bs"
    and published: "read_nofollow cos (selected_path cos path) = Content bs"
    and env: "container_env cos p"
  shows "\<exists>q. load_project cos path = Inr q \<and> container_project p team q"
proof -
  have wf: "project_wf hos p" by (rule load_project_inv [OF load])
  then obtain ls where ls: "context_block_of p ls" using context_block_exists by blast
  note rt = rendered_text [OF wf ls render enc] and dcd = rendered_decodes [OF wf ls render enc]
  let ?src = "selected_path cos path" and ?st = "header_state p ls"
  have nd: "mounts_wf hos (pj_mounts p)" "pj_mounts p \<noteq> []" using wf by (simp_all add: project_wf_def)
  have "map snd (numbered_lines s) = flat_lines p team ls" by (simp add: numbered_lines_snd dcd)
  from lines_header [OF wf ls rt(3) this, of cos ?src] obtain zs where
    zs: "map snd zs = [[], sp [lit ''team'', lit ''/team'', mode_str (pt_mode team)], []] @ map mount_line (pj_mounts p)"
    and p1: "project_lines cos ?src empty_project (numbered_lines s) = project_lines cos ?src ?st zs" by blast
  have st: "js_teams ?st = []" "js_mounts ?st = []" "js_name ?st = Some (pj_name p)"
    "js_description ?st = Some (pj_description p)"
    "(case js_context ?st of None \<Rightarrow> [] | Some c \<Rightarrow> c) = pj_context p"
    using ls by (auto simp: header_state_def empty_project_def context_block_of_def block_wf_def)
  from lines_closing [OF env nd(1) st(1,2) zs, of ?src] obtain k new where
    p2: "project_lines cos ?src ?st zs = Inr (?st\<lparr>js_teams := [\<lparr>pt_path = team_root, pt_mode = pt_mode team, pt_line = k\<rparr>], js_mounts := new\<rparr>)"
    and new: "map mount_view new = map container_view (pj_mounts p)" by blast
  show ?thesis
    using finish_container [OF nd new rendered_scalars [OF wf ls render enc],
        of "?st\<lparr>js_teams := [\<lparr>pt_path = team_root, pt_mode = pt_mode team, pt_line = k\<rparr>], js_mounts := new\<rparr>"
          "pt_mode team" k ?src] st new published rt(2) dcd(1) p1 p2
    by (auto simp: load_project_def read_project_file_def container_project_def Let_def)
qed

section \<open>A concrete project\<close>

definition ex_project_text :: ustr where
  "ex_project_text = join [10]
     [lit ''# demo'', lit ''name demo'', lit ''description A  demo '', [], lit ''context <<END'', [],
      lit ''CYCLO_CONTEXT'', [], lit ''# two'', lit ''END'', lit ''team /t/Alpha rw'',
      lit ''mount code /src/code rw'', lit ''mount docs /src/docs ro''] @ [10]"

definition ex_project_os :: os_env where
  "ex_project_os = ex_os\<lparr>read_nofollow := (\<lambda>p.
     if p = path_of (lit ''/h/project.cyclo'') then Content ex_project_text else Missing)\<rparr>"

definition ex_team :: project_team where
  "ex_team = \<lparr>pt_path = path_of (lit ''/t/Alpha''), pt_mode = RW, pt_line = 11\<rparr>"

definition ex_mounts :: "project_mount list" where
  "ex_mounts =
     [\<lparr>pm_name = lit ''code'', pm_path = path_of (lit ''/src/code''), pm_mode = RW, pm_line = 12\<rparr>,
      \<lparr>pm_name = lit ''docs'', pm_path = path_of (lit ''/src/docs''), pm_mode = RO, pm_line = 13\<rparr>]"

definition ex_context :: ustr where
  "ex_context = join [10] [lit ''CYCLO_CONTEXT'', [], lit ''# two'']"

definition ex_project :: "ustr \<Rightarrow> project" where
  "ex_project sha = \<lparr>pj_path = path_of (lit ''/h/project.cyclo''), pj_name = lit ''demo'',
     pj_description = lit ''A  demo'', pj_context = ex_context, pj_teams = [ex_team],
     pj_mounts = ex_mounts, pj_sha256 = sha\<rparr>"

lemma ex_project_state:
  "project_lines ex_project_os (path_of (lit ''/h/project.cyclo'')) empty_project
     (numbered_lines ex_project_text) =
   Inr \<lparr>js_name = Some (lit ''demo''), js_description = Some (lit ''A  demo''),
        js_context = Some ex_context, js_teams = [ex_team], js_mounts = ex_mounts\<rparr>"
  by code_simp

lemma ex_project_loads: "\<exists>sha. load_project ex_project_os (lit ''/h/project.cyclo'') = Inr (ex_project sha)"
proof -
  have sel: "selected_path ex_project_os (lit ''/h/project.cyclo'') = path_of (lit ''/h/project.cyclo'')"
    by code_simp
  have rd: "read_project_file ex_project_os (path_of (lit ''/h/project.cyclo'')) = Inr ex_project_text"
    by code_simp
  have dec: "decode_text_file ex_project_text = Inr ex_project_text" by code_simp
  have roots: "check_roots (map pt_path [ex_team] @ map pm_path ex_mounts) = Inr ()" by code_simp
  have "list_all is_scalar (lit ''demo'') \<and> list_all is_scalar (lit ''A  demo'') \<and>
      list_all is_scalar ex_context \<and> (\<forall>t\<in>set [ex_team]. list_all is_scalar (path_str (pt_path t))) \<and>
      (\<forall>m\<in>set ex_mounts. list_all is_scalar (path_str (pm_path m)) \<and> list_all is_scalar (pm_name m))"
    by code_simp
  then obtain sha where
    sha: "definition_sha256 (lit ''demo'') (lit ''A  demo'') ex_context [ex_team] ex_mounts = Inr sha"
    using definition_sha_ok by blast
  have "ex_mounts \<noteq> []" by (simp add: ex_mounts_def)
  then show ?thesis using roots sha
    by (simp add: load_project_def sel rd dec ex_project_state finish_project_def ex_project_def Let_def)
qed

lemma load_project_wf_witness: "\<exists>sha. project_wf ex_project_os (ex_project sha)"
  using ex_project_loads load_project_wf by blast

definition ex_rendered :: ustr where
  "ex_rendered = join [10]
     [lit ''# Generated by Cyclo for this team container.'',
      lit ''# Team and mount paths are container paths; host paths are omitted.'',
      lit ''name demo'', lit ''description A  demo'', [], lit ''context <<CYCLO_CONTEXT_2'',
      lit ''CYCLO_CONTEXT'', [], lit ''# two'', lit ''CYCLO_CONTEXT_2'', [], lit ''team /team rw'', [],
      lit ''mount code /workspace/code rw'', lit ''mount docs /readonly/docs ro''] @ [10]"

lemma ex_project_rendered:
  "render_container_project (ex_project sha) ex_team = Inr ex_rendered"
proof -
  have "project_context_marker ex_context = lit ''CYCLO_CONTEXT_2''" by code_simp
  then have ctx: "context_lines ex_context = [[], lit ''context <<'' @ lit ''CYCLO_CONTEXT_2'', ex_context, lit ''CYCLO_CONTEXT_2'']"
    by (simp add: context_lines_def ex_context_def Let_def)
  have r: "join [10]
     ([lit ''# Generated by Cyclo for this team container.'',
       lit ''# Team and mount paths are container paths; host paths are omitted.'',
       sp [lit ''name'', lit ''demo''], sp [lit ''description'', lit ''A  demo'']] @
      [[], lit ''context <<'' @ lit ''CYCLO_CONTEXT_2'', ex_context, lit ''CYCLO_CONTEXT_2''] @
      [[], sp [lit ''team'', lit ''/team'', mode_str RW], []] @ map mount_line ex_mounts) @ [10] = ex_rendered"
    by code_simp
  have e: "utf8_encode ex_rendered = Inr ex_rendered" "length ex_rendered \<le> MAX_PROJECT_FILE_BYTES" by code_simp+
  show ?thesis using r e
    by (simp add: render_container_project_def ex_project_def ctx ex_team_def)
qed

definition ex_container_os :: os_env where
  "ex_container_os = ex_os\<lparr>read_nofollow := (\<lambda>p.
     if p = path_of (lit ''/w/project.cyclo'') then Content ex_rendered else Missing)\<rparr>"

lemma rendered_project_loads_witness:
  "\<exists>sha q. load_project ex_project_os (lit ''/h/project.cyclo'') = Inr (ex_project sha) \<and>
     load_project ex_container_os (lit ''/w/project.cyclo'') = Inr q \<and>
     container_project (ex_project sha) ex_team q"
proof -
  obtain sha where l: "load_project ex_project_os (lit ''/h/project.cyclo'') = Inr (ex_project sha)"
    using ex_project_loads by blast
  have e: "utf8_encode ex_rendered = Inr ex_rendered" by code_simp
  have r: "read_nofollow ex_container_os (selected_path ex_container_os (lit ''/w/project.cyclo'')) = Content ex_rendered"
    by code_simp
  have c: "container_env ex_container_os (ex_project sha)"
    by (simp add: container_env_def ex_container_os_def ex_os_def)
  show ?thesis using rendered_project_loads [OF l ex_project_rendered e r c] l by blast
qed

end
