(* ===== verification/Model_Ids.thy ===== *)
theory Model_Ids imports PyStr begin

text \<open>
  \<open>src/cyclo/model_ids.py\<close>: provider prefixes, provider-local model identifiers and the public
  \<open>PROVIDER/MODEL\<close> form that names a model everywhere else.  A value that is not a string is
  \<open>None\<close>.  The abstract side is UTF-16: the code units a JavaScript peer sees, and what it
  means for them to be well formed.
\<close>

definition MAX_PROVIDER_PREFIX_LENGTH :: nat where "MAX_PROVIDER_PREFIX_LENGTH = 64"
definition MAX_LOCAL_MODEL_ID_UTF16_UNITS :: nat where "MAX_LOCAL_MODEL_ID_UTF16_UNITS = 1024"

definition RESERVED_PROVIDER_PREFIXES :: "ustr list" where
  "RESERVED_PROVIDER_PREFIXES =
     [lit ''__proto__'', lit ''constructor'', lit ''gateway'', lit ''prototype'']"

definition prefix_head :: "uchar \<Rightarrow> bool" where
  "prefix_head c \<longleftrightarrow> is_lower c \<or> is_digit c"
definition prefix_tail :: "uchar \<Rightarrow> bool" where
  "prefix_tail c \<longleftrightarrow> is_lower c \<or> is_digit c \<or> c = 95 \<or> c = 45"

definition is_provider_prefix :: "ustr option \<Rightarrow> bool" where
  "is_provider_prefix value =
     (case value of
        None \<Rightarrow> False
      | Some s \<Rightarrow> re_name prefix_head prefix_tail (MAX_PROVIDER_PREFIX_LENGTH - 1) s \<and>
                  s \<notin> set RESERVED_PROVIDER_PREFIXES)"

text \<open>\<open>len(value.encode("utf-16-le", errors="surrogatepass")) // 2\<close>.\<close>

definition utf16_char :: "uchar \<Rightarrow> nat list" where
  "utf16_char c =
     (if c < 65536 then [c]
      else [55296 + (c - 65536) div 1024, 56320 + (c - 65536) mod 1024])"

definition utf16 :: "ustr \<Rightarrow> nat list" where
  "utf16 s = concat (map utf16_char s)"

definition utf16_units :: "ustr \<Rightarrow> nat" where
  "utf16_units s = length (utf16 s)"

definition is_high :: "nat \<Rightarrow> bool" where "is_high u \<longleftrightarrow> 55296 \<le> u \<and> u \<le> 56319"
definition is_low :: "nat \<Rightarrow> bool" where "is_low u \<longleftrightarrow> 56320 \<le> u \<and> u \<le> 57343"

text \<open>The loop of \<open>_has_unpaired_surrogate\<close>; the argument is \<open>value[index:]\<close>.\<close>

fun has_unpaired_surrogate :: "ustr \<Rightarrow> bool" where
  "has_unpaired_surrogate [] = False"
| "has_unpaired_surrogate [c] = (is_high c \<or> is_low c)"
| "has_unpaired_surrogate (c # d # cs) =
     (if is_high c then (if \<not> is_low d then True else has_unpaired_surrogate cs)
      else if is_low c then True
      else has_unpaired_surrogate (d # cs))"

definition forbidden_model_char :: "uchar \<Rightarrow> bool" where
  "forbidden_model_char c \<longleftrightarrow> isspace c \<or> c = 65279 \<or> c \<le> 31 \<or> c = 127"

definition is_local_model_id :: "ustr option \<Rightarrow> bool" where
  "is_local_model_id value =
     (case value of
        None \<Rightarrow> False
      | Some s \<Rightarrow> s \<noteq> [] \<and> utf16_units s \<le> MAX_LOCAL_MODEL_ID_UTF16_UNITS \<and>
          \<not> has_unpaired_surrogate s \<and> \<not> (\<exists>c\<in>set s. forbidden_model_char c))"

definition split_public_model_id :: "ustr option \<Rightarrow> (ustr \<times> ustr) option" where
  "split_public_model_id value =
     (case value of
        None \<Rightarrow> None
      | Some s \<Rightarrow>
          (case partition_at 47 s of
             (provider, separator, model) \<Rightarrow>
               if \<not> separator \<or> \<not> is_provider_prefix (Some provider) \<or>
                  \<not> is_local_model_id (Some model)
               then None else Some (provider, model)))"

section \<open>UTF-16 as the peer reads it\<close>

text \<open>A code-unit sequence is well formed when every high surrogate is followed by a low one.\<close>

fun wf_utf16 :: "nat list \<Rightarrow> bool" where
  "wf_utf16 [] = True"
| "wf_utf16 (u # us) =
     (if is_high u then us \<noteq> [] \<and> is_low (hd us) \<and> wf_utf16 (tl us)
      else \<not> is_low u \<and> wf_utf16 us)"

lemma high_low_disjoint: "is_high u \<Longrightarrow> \<not> is_low u"
  by (simp add: is_high_def is_low_def)

lemma astral_units:
  assumes "65536 \<le> c" "c < 1114112"
  shows "is_high (55296 + (c - 65536) div 1024)" "is_low (56320 + (c - 65536) mod 1024)"
proof -
  have "(c - 65536) div 1024 < 1024" using assms by (intro less_mult_imp_div_less) simp
  then show "is_high (55296 + (c - 65536) div 1024)" by (simp add: is_high_def)
  have "(c - 65536) mod 1024 < 1024" by simp
  then show "is_low (56320 + (c - 65536) mod 1024)" by (simp add: is_low_def)
qed

lemma utf16_Cons: "utf16 (c # s) = utf16_char c @ utf16 s"
  by (simp add: utf16_def)

lemma wf_utf16_astral:
  assumes "65536 \<le> c" "c < 1114112"
  shows "wf_utf16 (utf16_char c @ us) = wf_utf16 us" "\<not> is_high c" "\<not> is_low c"
  using assms astral_units [OF assms] by (simp_all add: utf16_char_def is_high_def is_low_def)

lemma wf_utf16_utf16:
  "\<forall>c\<in>set s. c < 1114112 \<Longrightarrow> wf_utf16 (utf16 s) \<longleftrightarrow> \<not> has_unpaired_surrogate s"
proof (induction s rule: has_unpaired_surrogate.induct)
  case 1
  then show ?case by (simp add: utf16_def)
next
  case (2 c)
  show ?case
  proof (cases "c < 65536")
    case True
    then show ?thesis by (auto simp: utf16_def utf16_char_def)
  next
    case False
    then show ?thesis using 2 wf_utf16_astral [of c] wf_utf16_astral(1) [of c "[]"]
      by (simp add: utf16_def)
  qed
next
  case (3 c d cs)
  show ?case
  proof (cases "is_high c")
    case True
    then have c: "utf16_char c = [c]" by (simp add: utf16_char_def is_high_def)
    show ?thesis
    proof (cases "is_low d")
      case low: True
      then have "utf16_char d = [d]" by (simp add: utf16_char_def is_low_def)
      then show ?thesis using True low 3 c by (simp add: utf16_Cons)
    next
      case low: False
      have "\<not> is_low (hd (utf16_char d @ utf16 cs))"
      proof (cases "d < 65536")
        case True
        then show ?thesis using low by (simp add: utf16_char_def)
      next
        case False
        then show ?thesis
          using "3.prems" astral_units(1) [of d] by (auto simp: utf16_char_def dest: high_low_disjoint)
      qed
      then show ?thesis using True low c by (simp add: utf16_Cons)
    qed
  next
    case False
    show ?thesis
    proof (cases "is_low c")
      case True
      then show ?thesis using False by (simp add: utf16_Cons utf16_char_def is_low_def)
    next
      case low: False
      have "wf_utf16 (utf16 (c # d # cs)) = wf_utf16 (utf16 (d # cs))"
      proof (cases "c < 65536")
        case True
        then show ?thesis using False low by (simp add: utf16_Cons utf16_char_def)
      next
        case big: False
        then show ?thesis using "3.prems" wf_utf16_astral(1) [of c "utf16 (d # cs)"]
          by (simp add: utf16_Cons)
      qed
      then show ?thesis using False low 3 by simp
    qed
  qed
qed

lemma length_le_utf16_units: "length s \<le> utf16_units s"
  by (induction s) (auto simp: utf16_units_def utf16_def utf16_char_def)

section \<open>The public form\<close>

lemma prefix_no_slash: "is_provider_prefix (Some p) \<Longrightarrow> 47 \<notin> set p"
  by (auto simp: is_provider_prefix_def prefix_head_def prefix_tail_def is_lower_def is_digit_def
      dest!: re_nameD(4) [where c = 47])

lemma prefix_length:
  "is_provider_prefix (Some p) \<Longrightarrow> p \<noteq> [] \<and> length p \<le> MAX_PROVIDER_PREFIX_LENGTH"
  using re_nameD(1,2) [of prefix_head prefix_tail "MAX_PROVIDER_PREFIX_LENGTH - 1" p]
  by (auto simp: is_provider_prefix_def MAX_PROVIDER_PREFIX_LENGTH_def)

lemma split_public_Some:
  "split_public_model_id (Some s) = Some (p, m) \<longleftrightarrow>
     s = p @ 47 # m \<and> is_provider_prefix (Some p) \<and> is_local_model_id (Some m)"
proof
  assume "split_public_model_id (Some s) = Some (p, m)"
  then have "partition_at 47 s = (p, True, m) \<and> is_provider_prefix (Some p) \<and>
      is_local_model_id (Some m)"
    by (auto simp: split_public_model_id_def split: prod.splits if_splits)
  then show "s = p @ 47 # m \<and> is_provider_prefix (Some p) \<and> is_local_model_id (Some m)"
    by (simp add: partition_at_True)
next
  assume *: "s = p @ 47 # m \<and> is_provider_prefix (Some p) \<and> is_local_model_id (Some m)"
  then have "partition_at 47 s = (p, True, m)"
    by (simp add: partition_at_True prefix_no_slash)
  then show "split_public_model_id (Some s) = Some (p, m)"
    using * by (simp add: split_public_model_id_def)
qed

lemma local_model_no_space:
  "is_local_model_id (Some m) \<Longrightarrow> c \<in> set m \<Longrightarrow> \<not> isspace c \<and> \<not> is_control c"
  by (auto simp: is_local_model_id_def forbidden_model_char_def is_control_def)

text \<open>The public form is a bijection: \<open>split_public_model_id\<close> returns a pair exactly for the text
  that is a valid provider prefix, one slash and a valid local identifier, so every pair of
  valid parts is recovered from its text and no text has two readings.\<close>

theorem split_public_model_id_iff:
  "split_public_model_id (Some s) = Some (p, m) \<longleftrightarrow>
     s = p @ 47 # m \<and> is_provider_prefix (Some p) \<and> is_local_model_id (Some m)"
  by (rule split_public_Some)

text \<open>Every local identifier that is accepted encodes to at most 1024 UTF-16 code units, and
  to a well-formed sequence of them: the surrogate scan finds exactly the texts a UTF-16 peer
  could not decode.\<close>

theorem local_model_id_utf16:
  assumes "is_local_model_id (Some s)" and "\<forall>c\<in>set s. c < 1114112"
  shows "length (utf16 s) \<le> 1024 \<and> wf_utf16 (utf16 s)"
  using assms by (simp add: is_local_model_id_def utf16_units_def
      MAX_LOCAL_MODEL_ID_UTF16_UNITS_def wf_utf16_utf16)

lemma local_model_id_utf16_witness:
  "length (utf16 [71, 128512]) \<le> 1024 \<and> wf_utf16 (utf16 [71, 128512])"
  by (rule local_model_id_utf16)
    (simp_all add: is_local_model_id_def utf16_units_def utf16_def utf16_char_def
      MAX_LOCAL_MODEL_ID_UTF16_UNITS_def forbidden_model_char_def isspace_def is_high_def is_low_def)

end
