(* ===== verification/Instance.thy ===== *)
theory Instance imports Project begin

text \<open>
  The durable record of one running team: \<open>Instance\<close> with \<open>from_json\<close> and \<open>as_json\<close> of
  \<open>src/cyclo/state.py\<close>, and \<open>src/cyclo/project_state.py\<close>, which reads the project fields back
  out of it.  A document is the value \<open>json.load\<close> returns.  \<open>decode_project_fields\<close> takes the
  fields as JSON values, since the code tests their types; of an instance they are strings.
\<close>

definition STATE_SCHEMA :: int where "STATE_SCHEMA = 1"
definition INSTANCE_INTENTS :: "ustr list" where
  "INSTANCE_INTENTS = [lit ''running'', lit ''stopped'']"

definition instance_tail :: "uchar \<Rightarrow> bool" where
  "instance_tail c \<longleftrightarrow> is_alnum c \<or> c = 46 \<or> c = 95 \<or> c = 45"

definition is_instance_id :: "ustr \<Rightarrow> bool" where
  "is_instance_id s \<longleftrightarrow> re_name is_alnum instance_tail 63 s"

definition validate_instance_id :: "ustr \<Rightarrow> ustr res" where
  "validate_instance_id value =
     (if value \<in> {lit ''.'', lit ''..''} \<or> \<not> is_instance_id value
      then Inl (CycloError ''invalid Cyclo instance ID'') else Inr value)"

text \<open>\<open>slug\<close>: keep the name characters, cut the ends, lower-case, at most \<open>limit\<close>.\<close>

definition slug_keep :: "uchar \<Rightarrow> bool" where
  "slug_keep c \<longleftrightarrow> is_alnum c \<or> c = 95 \<or> c = 46 \<or> c = 45"

definition slug :: "ustr \<Rightarrow> nat \<Rightarrow> ustr" where
  "slug value limit =
     (let r = lower (strip_by (\<lambda>c. c = 45 \<or> c = 46 \<or> c = 95) (sub_runs slug_keep 45 value))
      in take limit (if r \<noteq> [] then r else lit ''team''))"

record instance_rec =
  in_id :: ustr
  in_team_name :: ustr
  in_team_path :: ustr
  in_generation :: ustr
  in_models :: "ustr list"
  in_image :: ustr
  in_image_override :: ustr
  in_team_write :: bool
  in_offline :: bool
  in_verbose :: bool
  in_agentws_host :: ustr
  in_intent :: ustr
  in_requested_port :: int
  in_team_roster :: ustr
  in_team_protocol :: bool
  in_pi_default_provider :: ustr
  in_pi_default_model :: ustr
  in_project_name :: ustr
  in_project_file :: ustr
  in_project_description :: ustr
  in_project_generation :: ustr
  in_project_config :: ustr
  in_project_mounts :: "json list"
  in_runtime_version :: ustr
  in_created_at :: ustr
  in_updated_at :: ustr
  in_schema :: json

section \<open>The project of an instance\<close>

record instance_project =
  ip_instance_id :: ustr
  ip_name :: ustr
  ip_path :: "ppath option"
  ip_definition :: "ppath option"
  ip_description :: ustr
  ip_generation :: ustr
  ip_mounts :: "project_mount list"
  ip_errors :: "string list"

definition require_valid :: "instance_project \<Rightarrow> instance_project res" where
  "require_valid p =
     (if ip_errors p \<noteq> [] then Inl (CycloError ''invalid project metadata'') else Inr p)"

definition encode_project_mounts :: "project_mount list \<Rightarrow> json list" where
  "encode_project_mounts ms = map mount_json ms"

text \<open>\<open>text(value, field)\<close>: the string, or the empty string and an error.\<close>

definition text_field :: "json \<Rightarrow> string \<Rightarrow> ustr \<times> string list" where
  "text_field value field =
     (case as_str value of
        Some s \<Rightarrow> (s, [])
      | None \<Rightarrow> ([], [field @ '' must be a string'']))"

text \<open>\<open>raw_mount.get(key)\<close>; an unhashable mode makes the membership test raise.\<close>

definition jget :: "jobj \<Rightarrow> ustr \<Rightarrow> json" where
  "jget kvs k = (case map_of kvs k of None \<Rightarrow> JNull | Some v \<Rightarrow> v)"

definition unhashable :: "json \<Rightarrow> bool" where
  "unhashable j \<longleftrightarrow> (case j of JList _ \<Rightarrow> True | JObj _ \<Rightarrow> True | _ \<Rightarrow> False)"

definition decode_mount :: "json \<Rightarrow> (string + project_mount) res" where
  "decode_mount raw =
     (case as_obj raw of
        None \<Rightarrow> Inr (Inl ''must be an object'')
      | Some kvs \<Rightarrow>
         (case as_str (jget kvs (lit ''name'')) of
            None \<Rightarrow> Inr (Inl ''has an invalid name'')
          | Some mount_name \<Rightarrow>
             if mount_name \<in> {lit ''.'', lit ''..''} \<or> \<not> is_mount_name mount_name
             then Inr (Inl ''has an invalid name'')
             else
              (case as_str (jget kvs (lit ''path'')) of
                 None \<Rightarrow> Inr (Inl ''has an invalid host path'')
               | Some mount_path \<Rightarrow>
                  if mount_path = [] \<or> \<not> is_absolute (path_of mount_path)
                  then Inr (Inl ''has an invalid host path'')
                  else
                    let mode = jget kvs (lit ''mode'') in
                    if unhashable mode then Inl (TypeErr ''unhashable type'')
                    else if mode = JStr (lit ''ro'') then
                      Inr (Inr \<lparr>pm_name = mount_name, pm_path = path_of mount_path, pm_mode = RO, pm_line = 0\<rparr>)
                    else if mode = JStr (lit ''rw'') then
                      Inr (Inr \<lparr>pm_name = mount_name, pm_path = path_of mount_path, pm_mode = RW, pm_line = 0\<rparr>)
                    else Inr (Inl ''has an invalid mode''))))"

fun decode_mounts :: "json list \<Rightarrow> (project_mount list \<times> string list) res" where
  "decode_mounts [] = Inr ([], [])"
| "decode_mounts (raw # rest) =
     rbind (decode_mount raw) (\<lambda>d. rbind (decode_mounts rest) (\<lambda>(ms, es).
       Inr (case d of Inl e \<Rightarrow> (ms, e # es) | Inr m \<Rightarrow> (m # ms, es))))"

definition decode_project_fields ::
    "ustr \<Rightarrow> json \<Rightarrow> json \<Rightarrow> json \<Rightarrow> json \<Rightarrow> json \<Rightarrow> instance_project res" where
  "decode_project_fields identifier jfile jname jdescription jgeneration jmounts =
     (let (definition_text, e1) = text_field jfile ''project_file'';
          given = (if definition_text \<noteq> [] then Some (path_of definition_text) else None);
          (def_path, e2) =
            (case given of
               None \<Rightarrow> (None, [''project_file is required''])
             | Some p \<Rightarrow> if \<not> is_absolute p then (None, [''project_file must be absolute''])
                         else (Some p, []));
          path = map_option path_parent def_path;
          (name, e3) = text_field jname ''project_name'';
          (description, e4) = text_field jdescription ''project_description'';
          (generation, e5) = text_field jgeneration ''project_generation'';
          e6 = (if name = [] then [''project_name is required''] else []);
          e7 = (if description = [] then [''project_description is required''] else []);
          e8 = (if generation = [] then [''project_generation is required''] else []);
          (raw_mounts, e9) =
            (case as_list jmounts of
               None \<Rightarrow> ([], [''project_mounts must be a list''])
             | Some xs \<Rightarrow> (xs, if xs = [] then [''project_mounts must contain at least one mount'']
                               else []))
      in rbind (decode_mounts raw_mounts) (\<lambda>(mounts, e10).
         Inr \<lparr>ip_instance_id = identifier,
              ip_name = (if name \<noteq> [] then name
                         else case path of Some p \<Rightarrow> path_name p | None \<Rightarrow> []),
              ip_path = path, ip_definition = def_path, ip_description = description,
              ip_generation = generation, ip_mounts = mounts,
              ip_errors = e1 @ e2 @ e3 @ e4 @ e5 @ e6 @ e7 @ e8 @ e9 @ e10\<rparr>))"

definition decode_instance_project :: "instance_rec \<Rightarrow> instance_project res" where
  "decode_instance_project i =
     decode_project_fields (in_id i) (JStr (in_project_file i)) (JStr (in_project_name i))
       (JStr (in_project_description i)) (JStr (in_project_generation i)) (JList (in_project_mounts i))"

definition mount_location :: "project_mount \<Rightarrow> json" where
  "mount_location m = JObj [(lit ''name'', JStr (pm_name m)), (lit ''path'', JStr (path_str (pm_path m))),
     (lit ''container_path'', JStr (path_str (container_path_of m)))]"

definition dashboard_value :: "instance_project \<Rightarrow> json" where
  "dashboard_value p = JObj
     [(lit ''name'', JStr (ip_name p)),
      (lit ''path'', JStr (case ip_path p of Some q \<Rightarrow> path_str q | None \<Rightarrow> [])),
      (lit ''definition'', case ip_definition p of Some q \<Rightarrow> JStr (path_str q) | None \<Rightarrow> JNull),
      (lit ''description'', JStr (ip_description p)),
      (lit ''generation'', JStr (ip_generation p)),
      (lit ''workspaces'', JList (map mount_location (filter (\<lambda>m. pm_mode m = RW) (ip_mounts p)))),
      (lit ''read_only_mounts'',
        JList (map mount_location (filter (\<lambda>m. pm_mode m = RO) (ip_mounts p))))]"

section \<open>The document\<close>

definition as_json :: "instance_rec \<Rightarrow> jobj" where
  "as_json i =
     [(lit ''id'', JStr (in_id i)), (lit ''team_name'', JStr (in_team_name i)),
      (lit ''team_path'', JStr (in_team_path i)), (lit ''generation'', JStr (in_generation i)),
      (lit ''models'', JList (map JStr (in_models i))), (lit ''image'', JStr (in_image i)),
      (lit ''image_override'', JStr (in_image_override i)), (lit ''team_write'', JBool (in_team_write i)),
      (lit ''offline'', JBool (in_offline i)), (lit ''verbose'', JBool (in_verbose i)),
      (lit ''agentws_host'', JStr (in_agentws_host i)), (lit ''intent'', JStr (in_intent i)),
      (lit ''requested_port'', JInt (in_requested_port i)), (lit ''team_roster'', JStr (in_team_roster i)),
      (lit ''team_protocol'', JBool (in_team_protocol i)),
      (lit ''pi_default_provider'', JStr (in_pi_default_provider i)),
      (lit ''pi_default_model'', JStr (in_pi_default_model i)),
      (lit ''project_name'', JStr (in_project_name i)), (lit ''project_file'', JStr (in_project_file i)),
      (lit ''project_description'', JStr (in_project_description i)),
      (lit ''project_generation'', JStr (in_project_generation i)),
      (lit ''project_config'', JStr (in_project_config i)),
      (lit ''project_mounts'', JList (in_project_mounts i)),
      (lit ''runtime_version'', JStr (in_runtime_version i)),
      (lit ''created_at'', JStr (in_created_at i)), (lit ''updated_at'', JStr (in_updated_at i)),
      (lit ''schema'', in_schema i)]"

definition field_names :: "ustr list" where
  "field_names = map lit
     [''id'', ''team_name'', ''team_path'', ''generation'', ''models'', ''image'', ''image_override'',
      ''team_write'', ''offline'', ''verbose'', ''agentws_host'', ''intent'', ''requested_port'',
      ''team_roster'', ''team_protocol'', ''pi_default_provider'', ''pi_default_model'',
      ''project_name'', ''project_file'', ''project_description'', ''project_generation'',
      ''project_config'', ''project_mounts'', ''runtime_version'', ''created_at'', ''updated_at'',
      ''schema'']"

definition optional_fields :: "ustr list" where
  "optional_fields = [lit ''created_at'', lit ''updated_at'', lit ''schema'']"

text \<open>\<open>payload["schema"] != 1\<close>: in Python \<open>True\<close> and \<open>1.0\<close> equal 1.\<close>

definition equals_schema :: "json \<Rightarrow> bool" where
  "equals_schema j \<longleftrightarrow> j = JInt STATE_SCHEMA \<or> j = JBool True \<or> j = JFloat (lit ''1.0'')"

definition need_str :: "jobj \<Rightarrow> string \<Rightarrow> ustr res" where
  "need_str kvs k = of_option (TypeErr ''must be a string'') (as_str (jget kvs (lit k)))"

definition need_bool :: "jobj \<Rightarrow> string \<Rightarrow> bool res" where
  "need_bool kvs k = of_option (TypeErr ''must be a boolean'') (as_bool (jget kvs (lit k)))"

definition model_list :: "json \<Rightarrow> ustr list option" where
  "model_list j =
     (case as_list j of
        None \<Rightarrow> None
      | Some xs \<Rightarrow>
          if xs \<noteq> [] \<and> list_all (\<lambda>x. case as_str x of None \<Rightarrow> False | Some s \<Rightarrow> s \<noteq> []) xs
          then Some (map (\<lambda>x. the (as_str x)) xs) else None)"

definition is_lower_hex :: "uchar \<Rightarrow> bool" where
  "is_lower_hex c \<longleftrightarrow> is_digit c \<or> 97 \<le> c \<and> c \<le> 102"

definition is_image_id :: "ustr \<Rightarrow> bool" where
  "is_image_id s \<longleftrightarrow> startswith (lit ''sha256:'') s \<and> length s = 71 \<and> (\<forall>c\<in>set (drop 7 s). is_lower_hex c)"

definition required_texts :: "instance_rec \<Rightarrow> ustr list" where
  "required_texts i =
     [in_team_name i, in_team_path i, in_generation i, in_image i, in_agentws_host i,
      in_team_roster i, in_pi_default_provider i, in_pi_default_model i, in_project_name i,
      in_project_file i, in_project_description i, in_project_generation i, in_project_config i,
      in_runtime_version i]"

text \<open>The checks \<open>from_json\<close> makes once the record is built.\<close>

definition check_instance :: "instance_rec \<Rightarrow> instance_rec res" where
  "check_instance i =
     rbind (validate_instance_id (in_id i)) (\<lambda>_.
     rbind (checkE (\<lambda>t. ensure (strip t \<noteq> []) (TypeErr ''is required'')) (required_texts i)) (\<lambda>_.
     rbind (ensure (is_image_id (in_image i))
       (TypeErr ''image must be an immutable sha256 Docker image ID'')) (\<lambda>_.
     rbind (checkE (\<lambda>t. ensure (is_absolute (path_of t)) (TypeErr ''must be absolute''))
       [in_team_path i, in_project_file i]) (\<lambda>_.
     rbind (ensure (path_name (path_of (in_team_roster i)) = in_team_roster i \<and>
                    in_team_roster i \<notin> {lit ''.'', lit ''..''})
       (TypeErr ''team_roster must be a direct file name'')) (\<lambda>_.
     rbind (decode_instance_project i) (\<lambda>p.
     rbind (require_valid p) (\<lambda>_. Inr i)))))))"

text \<open>\<open>payload = dict(data)\<close> with its three defaults.\<close>

definition with_defaults :: "jobj \<Rightarrow> jobj" where
  "with_defaults data = data @
     [(lit ''created_at'', JStr []), (lit ''updated_at'', JStr []), (lit ''schema'', JInt STATE_SCHEMA)]"

definition build_instance :: "jobj \<Rightarrow> instance_rec res" where
  "build_instance payload =
     rbind (need_str payload ''id'') (\<lambda>identifier.
     rbind (need_str payload ''team_name'') (\<lambda>team_name.
     rbind (need_str payload ''team_path'') (\<lambda>team_path.
     rbind (need_str payload ''generation'') (\<lambda>generation.
     rbind (need_str payload ''image'') (\<lambda>img.
     rbind (need_str payload ''image_override'') (\<lambda>image_override.
     rbind (need_str payload ''agentws_host'') (\<lambda>agentws_host.
     rbind (need_str payload ''intent'') (\<lambda>intent.
     rbind (need_str payload ''team_roster'') (\<lambda>team_roster.
     rbind (need_str payload ''pi_default_provider'') (\<lambda>pi_default_provider.
     rbind (need_str payload ''pi_default_model'') (\<lambda>pi_default_model.
     rbind (need_str payload ''project_name'') (\<lambda>project_name.
     rbind (need_str payload ''project_file'') (\<lambda>project_file.
     rbind (need_str payload ''project_description'') (\<lambda>project_description.
     rbind (need_str payload ''project_generation'') (\<lambda>project_generation.
     rbind (need_str payload ''project_config'') (\<lambda>project_config.
     rbind (need_str payload ''runtime_version'') (\<lambda>runtime_version.
     rbind (need_str payload ''created_at'') (\<lambda>created_at.
     rbind (need_str payload ''updated_at'') (\<lambda>updated_at.
     rbind (need_bool payload ''team_write'') (\<lambda>team_write.
     rbind (need_bool payload ''offline'') (\<lambda>offline.
     rbind (need_bool payload ''verbose'') (\<lambda>verbose.
     rbind (need_bool payload ''team_protocol'') (\<lambda>team_protocol.
     rbind (ensure (intent \<in> set INSTANCE_INTENTS) (TypeErr ''intent must be running or stopped'')) (\<lambda>_.
     rbind (of_option (TypeErr ''models must be a non-empty list of strings'')
       (model_list (jget payload (lit ''models'')))) (\<lambda>models.
     rbind (of_option (TypeErr ''project_mounts must be a list'')
       (as_list (jget payload (lit ''project_mounts'')))) (\<lambda>mounts.
     rbind (of_option (TypeErr ''requested_port must be an integer from 0 to 65535'')
       (as_int (jget payload (lit ''requested_port'')))) (\<lambda>port.
     rbind (ensure (0 \<le> port \<and> port \<le> 65535)
       (TypeErr ''requested_port must be an integer from 0 to 65535'')) (\<lambda>_.
     Inr \<lparr>in_id = identifier, in_team_name = team_name, in_team_path = team_path,
          in_generation = generation, in_models = models, in_image = img,
          in_image_override = image_override, in_team_write = team_write, in_offline = offline,
          in_verbose = verbose, in_agentws_host = agentws_host, in_intent = intent,
          in_requested_port = port, in_team_roster = team_roster, in_team_protocol = team_protocol,
          in_pi_default_provider = pi_default_provider, in_pi_default_model = pi_default_model,
          in_project_name = project_name, in_project_file = project_file,
          in_project_description = project_description, in_project_generation = project_generation,
          in_project_config = project_config, in_project_mounts = mounts,
          in_runtime_version = runtime_version, in_created_at = created_at,
          in_updated_at = updated_at, in_schema = jget payload (lit ''schema'')\<rparr>))))))))))))))))))))))))))))"

definition from_json :: "jobj \<Rightarrow> instance_rec res" where
  "from_json data =
     rbind (ensure (fst ` set data \<subseteq> set field_names) (TypeErr ''unknown state field(s)'')) (\<lambda>_.
     rbind (ensure (set field_names - set optional_fields \<subseteq> fst ` set data)
       (TypeErr ''missing state field(s)'')) (\<lambda>_.
     let payload = with_defaults data in
     rbind (ensure (equals_schema (jget payload (lit ''schema'')))
       (TypeErr ''unsupported Cyclo state schema'')) (\<lambda>_.
     rbind (build_instance payload) check_instance)))"

section \<open>Documents and records\<close>

definition instance_valid :: "instance_rec \<Rightarrow> bool" where
  "instance_valid i \<longleftrightarrow>
     in_intent i \<in> set INSTANCE_INTENTS \<and> 0 \<le> in_requested_port i \<and> in_requested_port i \<le> 65535 \<and>
     in_models i \<noteq> [] \<and> (\<forall>m\<in>set (in_models i). m \<noteq> []) \<and> equals_schema (in_schema i) \<and>
     check_instance i = Inr i"

lemma check_instance_self: "check_instance i = Inr j \<Longrightarrow> j = i"
  by (auto simp: check_instance_def)

lemma model_list_Some: "model_list j = Some ms \<longleftrightarrow> j = JList (map JStr ms) \<and> ms \<noteq> [] \<and> (\<forall>m\<in>set ms. m \<noteq> [])"
proof
  assume "model_list j = Some ms"
  then obtain xs where j: "j = JList xs" "xs \<noteq> []" "ms = map (\<lambda>x. the (as_str x)) xs"
    and all: "\<forall>x\<in>set xs. \<exists>s. x = JStr s \<and> s \<noteq> []"
    by (auto simp: model_list_def list_all_iff split: option.splits if_splits)
  have "map JStr ms = xs" unfolding j map_map by (rule map_idI) (use all in auto)
  then show "j = JList (map JStr ms) \<and> ms \<noteq> [] \<and> (\<forall>m\<in>set ms. m \<noteq> [])"
    using j all by auto
next
  assume *: "j = JList (map JStr ms) \<and> ms \<noteq> [] \<and> (\<forall>m\<in>set ms. m \<noteq> [])"
  then show "model_list j = Some ms"
    by (simp add: model_list_def list_all_iff comp_def)
qed

lemma map_JStr_eq [simp]: "map JStr xs = map JStr ys \<longleftrightarrow> xs = ys"
  by (rule inj_map_eq_map) (simp add: inj_def)

lemma need_str_Inr [simp]: "need_str kvs k = Inr s \<longleftrightarrow> jget kvs (lit k) = JStr s"
  by (simp add: need_str_def)

lemma need_bool_Inr [simp]: "need_bool kvs k = Inr b \<longleftrightarrow> jget kvs (lit k) = JBool b"
  by (simp add: need_bool_def)

text \<open>A payload that has the fields of a record, the schema apart.\<close>

definition has_fields :: "jobj \<Rightarrow> instance_rec \<Rightarrow> bool" where
  "has_fields payload i \<longleftrightarrow> (\<forall>(k, v)\<in>set (as_json i). jget payload k = v)"

lemma build_instance_Inr:
  "build_instance payload = Inr i \<longleftrightarrow> has_fields payload i \<and> in_intent i \<in> set INSTANCE_INTENTS \<and>
     0 \<le> in_requested_port i \<and> in_requested_port i \<le> 65535 \<and>
     in_models i \<noteq> [] \<and> (\<forall>m\<in>set (in_models i). m \<noteq> [])"
proof
  assume "build_instance payload = Inr i"
  then show "has_fields payload i \<and> in_intent i \<in> set INSTANCE_INTENTS \<and>
     0 \<le> in_requested_port i \<and> in_requested_port i \<le> 65535 \<and>
     in_models i \<noteq> [] \<and> (\<forall>m\<in>set (in_models i). m \<noteq> [])"
    unfolding build_instance_def rbind_eq_Inr need_str_Inr need_bool_Inr of_option_eq ensure_eq sum.inject
    by (elim exE conjE, hypsubst) (simp add: has_fields_def as_json_def model_list_Some)
next
  assume "has_fields payload i \<and> in_intent i \<in> set INSTANCE_INTENTS \<and>
     0 \<le> in_requested_port i \<and> in_requested_port i \<le> 65535 \<and>
     in_models i \<noteq> [] \<and> (\<forall>m\<in>set (in_models i). m \<noteq> [])"
  then show "build_instance payload = Inr i"
    by (simp add: build_instance_def has_fields_def as_json_def model_list_Some)
qed

lemma keys_as_json: "map fst (as_json i) = field_names"
  by (simp add: as_json_def field_names_def)

lemma distinct_field_names: "distinct field_names"
  by code_simp

lemma jget_as_json: "(k, v) \<in> set (as_json i) \<Longrightarrow> jget (as_json i @ rest) k = v"
proof -
  assume kv: "(k, v) \<in> set (as_json i)"
  have "distinct (map fst (as_json i))" by (simp add: keys_as_json distinct_field_names)
  then have "map_of (as_json i) k = Some v" using kv by simp
  then show ?thesis by (simp add: jget_def map_add_Some_iff map_of_append)
qed

lemma has_fields_as_json: "has_fields (with_defaults (as_json i)) i"
  using jget_as_json by (fastforce simp: has_fields_def with_defaults_def)

lemma schema_field: "has_fields payload i \<Longrightarrow> jget payload (lit ''schema'') = in_schema i"
  by (simp add: has_fields_def as_json_def)

lemma build_then_check:
  "rbind (build_instance p) check_instance = Inr i \<longleftrightarrow>
     build_instance p = Inr i \<and> check_instance i = Inr i"
  using check_instance_self by (simp only: rbind_eq_Inr) blast

lemma from_json_Inr:
  "from_json data = Inr i \<longleftrightarrow> fst ` set data \<subseteq> set field_names \<and>
     set field_names - set optional_fields \<subseteq> fst ` set data \<and>
     has_fields (with_defaults data) i \<and> instance_valid i"
proof -
  have s: "equals_schema (jget (with_defaults data) (lit ''schema'')) \<and> has_fields (with_defaults data) i \<longleftrightarrow>
      equals_schema (in_schema i) \<and> has_fields (with_defaults data) i"
    using schema_field [of "with_defaults data" i] by metis
  have "from_json data = Inr i \<longleftrightarrow> fst ` set data \<subseteq> set field_names \<and>
     set field_names - set optional_fields \<subseteq> fst ` set data \<and>
     equals_schema (jget (with_defaults data) (lit ''schema'')) \<and>
     rbind (build_instance (with_defaults data)) check_instance = Inr i"
    unfolding from_json_def Let_def rbind_eq_Inr [of "ensure _ _"] ensure_eq by blast
  then show ?thesis unfolding build_then_check build_instance_Inr instance_valid_def using s by argo
qed

lemma from_json_as_json:
  assumes "instance_valid i"
  shows "from_json (as_json i) = Inr i"
proof -
  have "fst ` set (as_json i) = set field_names" by (metis keys_as_json list.set_map)
  then show ?thesis using assms has_fields_as_json by (simp add: from_json_Inr)
qed

lemma jget_Some: "jget kvs k = v \<Longrightarrow> v \<noteq> JNull \<Longrightarrow> map_of kvs k = Some v"
  by (simp add: jget_def split: option.splits)

lemma as_json_not_null:
  "equals_schema (in_schema i) \<Longrightarrow> (k, v) \<in> set (as_json i) \<Longrightarrow> v \<noteq> JNull"
  by (auto simp: as_json_def equals_schema_def)

lemma as_json_map:
  assumes "has_fields payload i" "equals_schema (in_schema i)" "fst ` set payload \<subseteq> set field_names"
  shows "map_of (as_json i) = map_of payload"
proof
  fix k
  show "map_of (as_json i) k = map_of payload k"
  proof (cases "map_of (as_json i) k")
    case None
    then have "k \<notin> set field_names" unfolding map_of_eq_None_iff by (metis keys_as_json list.set_map)
    then have "map_of payload k = None" using assms(3) by (auto simp: map_of_eq_None_iff)
    then show ?thesis using None by simp
  next
    case (Some v)
    then have kv: "(k, v) \<in> set (as_json i)" by (rule map_of_SomeD)
    then have "jget payload k = v" using assms(1) by (auto simp: has_fields_def)
    then show ?thesis using Some jget_Some as_json_not_null [OF assms(2) kv] by metis
  qed
qed

text \<open>C29: a state document that loads is stored again without loss, field by field, and what is stored loads
  as the same instance.\<close>

theorem from_json_lossless:
  assumes "from_json data = Inr i"
  shows "map_of (as_json i) = map_of (with_defaults data) \<and> from_json (as_json i) = Inr i"
proof -
  have *: "fst ` set data \<subseteq> set field_names" "has_fields (with_defaults data) i" "instance_valid i"
    using assms by (simp_all add: from_json_Inr)
  have "fst ` set (with_defaults data) \<subseteq> set field_names"
    using *(1) by (auto simp: with_defaults_def field_names_def)
  then show ?thesis using * as_json_map from_json_as_json by (simp add: instance_valid_def)
qed

section \<open>Mounts\<close>

definition stored_mount :: "project_mount \<Rightarrow> project_mount" where
  "stored_mount m = m\<lparr>pm_line := 0\<rparr>"

definition storable :: "project_mount \<Rightarrow> bool" where
  "storable m \<longleftrightarrow> is_mount_name (pm_name m) \<and> wf_path (pm_path m) \<and> is_absolute (pm_path m)"

lemma path_str_absolute: "is_absolute p \<Longrightarrow> path_str p \<noteq> []"
  by (auto simp: path_str_def is_absolute_def)

lemma path_of_absolute: "wf_path p \<Longrightarrow> is_absolute p \<Longrightarrow> path_of (path_str p) = p"
  by (rule path_of_str) (auto simp: is_absolute_def)

lemma decode_mount_json:
  assumes "storable m"
  shows "decode_mount (mount_json m) = Inr (Inr (stored_mount m))"
proof -
  have n: "is_mount_name (pm_name m)" "pm_name m \<noteq> lit ''.''" "pm_name m \<noteq> lit ''..''"
    using assms by (auto simp: storable_def is_mount_name_def is_project_name_def re_name_def lit_def
        slug_head_def ascii_defs split: list.splits)
  have p: "path_of (path_str (pm_path m)) = pm_path m" "path_str (pm_path m) \<noteq> []" "is_absolute (pm_path m)"
    using assms path_of_absolute path_str_absolute by (auto simp: storable_def)
  have g: "jget [(lit ''name'', a), (lit ''path'', b), (lit ''mode'', c)] (lit ''name'') = a"
    "jget [(lit ''name'', a), (lit ''path'', b), (lit ''mode'', c)] (lit ''path'') = b"
    "jget [(lit ''name'', a), (lit ''path'', b), (lit ''mode'', c)] (lit ''mode'') = c" for a b c
    by (simp_all add: jget_def)
  show ?thesis
    using n p by (cases "pm_mode m")
      (simp_all add: decode_mount_def mount_json_def g mode_str_def unhashable_def stored_mount_def Let_def)
qed

lemma decode_mounts_json:
  "\<forall>m\<in>set ms. storable m \<Longrightarrow> decode_mounts (map mount_json ms) = Inr (map stored_mount ms, [])"
  by (induction ms) (simp_all add: decode_mount_json)

lemma decode_encoded_ok:
  assumes "in_project_mounts i = encode_project_mounts ms" "ms \<noteq> []" "\<forall>m\<in>set ms. storable m"
    and "in_project_file i = path_str f" "wf_path f" "is_absolute f"
    and "in_project_name i \<noteq> []" "in_project_description i \<noteq> []" "in_project_generation i \<noteq> []"
  shows "\<exists>p. decode_instance_project i = Inr p \<and> require_valid p = Inr p \<and>
    ip_mounts p = map stored_mount ms \<and> ip_definition p = Some f \<and> ip_path p = Some (path_parent f) \<and>
    ip_name p = in_project_name i \<and> ip_instance_id p = in_id i"
proof -
  have "path_of (path_str f) = f" "path_str f \<noteq> []"
    using assms(5,6) path_of_absolute path_str_absolute by auto
  then show ?thesis using assms
    by (simp add: decode_instance_project_def decode_project_fields_def text_field_def
        encode_project_mounts_def decode_mounts_json require_valid_def)
qed

text \<open>The project fields an instance stores decode, without an error, to the mounts, the definition
  and the directory they were encoded from.\<close>

theorem decode_encoded_project:
  assumes "in_project_mounts i = encode_project_mounts ms" "ms \<noteq> []" "\<forall>m\<in>set ms. storable m"
    and "in_project_file i = path_str f" "wf_path f" "is_absolute f"
    and "in_project_name i \<noteq> []" "in_project_description i \<noteq> []" "in_project_generation i \<noteq> []"
  shows "\<exists>p. decode_instance_project i = Inr p \<and> require_valid p = Inr p \<and>
    ip_mounts p = map stored_mount ms \<and> ip_definition p = Some f \<and> ip_path p = Some (path_parent f) \<and>
    ip_name p = in_project_name i \<and> ip_instance_id p = in_id i"
  using assms by (rule decode_encoded_ok)

section \<open>An instance\<close>

definition ex_mount :: project_mount where
  "ex_mount = \<lparr>pm_name = lit ''app'', pm_path = path_of (lit ''/srv/app''), pm_mode = RW, pm_line = 0\<rparr>"

definition ex_instance :: instance_rec where
  "ex_instance = \<lparr>in_id = lit ''web.demo'', in_team_name = lit ''web'', in_team_path = lit ''/srv/team'',
     in_generation = lit ''g'', in_models = [lit ''p/m''],
     in_image = lit ''sha256:'' @ replicate 64 48, in_image_override = [], in_team_write = False,
     in_offline = False, in_verbose = False, in_agentws_host = lit ''127.0.0.1'',
     in_intent = lit ''running'', in_requested_port = 0, in_team_roster = lit ''team.toml'',
     in_team_protocol = True, in_pi_default_provider = lit ''p'', in_pi_default_model = lit ''m'',
     in_project_name = lit ''demo'', in_project_file = lit ''/srv/demo.project'',
     in_project_description = lit ''d'', in_project_generation = lit ''h'',
     in_project_config = lit ''{}'', in_project_mounts = encode_project_mounts [ex_mount],
     in_runtime_version = lit ''1'', in_created_at = [], in_updated_at = [],
     in_schema = JInt STATE_SCHEMA\<rparr>"

lemma ex_instance_valid: "instance_valid ex_instance"
  unfolding instance_valid_def by (intro conjI; code_simp)

theorem from_json_lossless_witness: "\<exists>data i. from_json data = Inr i \<and> from_json (as_json i) = Inr i"
  using from_json_lossless [OF from_json_as_json [OF ex_instance_valid]] from_json_as_json [OF ex_instance_valid]
  by blast

theorem decode_encoded_project_witness:
  "\<exists>p. decode_instance_project ex_instance = Inr p \<and> ip_name p = lit ''demo''"
proof -
  have "\<exists>p. decode_instance_project ex_instance = Inr p \<and> require_valid p = Inr p \<and>
    ip_mounts p = map stored_mount [ex_mount] \<and>
    ip_definition p = Some (path_of (lit ''/srv/demo.project'')) \<and>
    ip_path p = Some (path_parent (path_of (lit ''/srv/demo.project''))) \<and>
    ip_name p = in_project_name ex_instance \<and> ip_instance_id p = in_id ex_instance"
    by (rule decode_encoded_project; code_simp)
  then show ?thesis by (auto simp: ex_instance_def)
qed

end
