(* ===== verification/State_Store.thy ===== *)
theory State_Store imports Instance begin

text \<open>
  \<open>StateStore\<close> of \<open>src/cyclo/state.py\<close>: the instance directories with their \<open>run.json\<close> and the
  pending batch that makes \<open>save_many\<close> atomic.  An operation is the list of the changes it makes
  to the disk, in order, and its result; a crash leaves the disk after a prefix of the list.  A
  file that was written holds the value \<open>json.load\<close> returns for it (the order of an object's
  keys is not observable to \<open>from_json\<close>).  \<open>now\<close> is \<open>utc_now\<close> at the time the instance of that
  ID is prepared.  Locks and \<open>fsync\<close> are not modelled.
\<close>

section \<open>The disk\<close>

text \<open>What \<open>open(path, O_NOFOLLOW)\<close> and \<open>json.load\<close> find: a JSON value, a regular file that does
  not parse, a special file, or a symbolic link (\<open>True\<close>: its target exists).\<close>

datatype sfile = SDoc json | SBad | SSpecial | SLink bool

datatype inode = IDir "sfile option" bool | ILink | IOther

record sstore =
  ss_entries :: "(ustr \<times> inode) list"
  ss_pending :: "sfile option"

definition entry_of :: "sstore \<Rightarrow> ustr \<Rightarrow> inode option" where
  "entry_of st = map_of (ss_entries st)"

datatype sop =
    MkInstance ustr
  | ReplaceMeta ustr jobj
  | SetPending jobj
  | UnlinkPending
  | Quarantine ustr ustr
  | Delete ustr

definition set_entry :: "ustr \<Rightarrow> inode \<Rightarrow> sstore \<Rightarrow> sstore" where
  "set_entry k v st = st\<lparr>ss_entries := (k, v) # filter (\<lambda>e. fst e \<noteq> k) (ss_entries st)\<rparr>"

definition drop_entry :: "ustr \<Rightarrow> sstore \<Rightarrow> sstore" where
  "drop_entry k st = st\<lparr>ss_entries := filter (\<lambda>e. fst e \<noteq> k) (ss_entries st)\<rparr>"

fun apply_sop :: "sstore \<Rightarrow> sop \<Rightarrow> sstore" where
  "apply_sop st (MkInstance k) =
     (case entry_of st k of None \<Rightarrow> set_entry k (IDir None False) st | Some _ \<Rightarrow> st)"
| "apply_sop st (ReplaceMeta k doc) =
     (case entry_of st k of
        Some (IDir _ others) \<Rightarrow> set_entry k (IDir (Some (SDoc (JObj doc))) others) st
      | _ \<Rightarrow> st)"
| "apply_sop st (SetPending batch) = st\<lparr>ss_pending := Some (SDoc (JObj batch))\<rparr>"
| "apply_sop st UnlinkPending = st\<lparr>ss_pending := None\<rparr>"
| "apply_sop st (Quarantine k q) =
     (case entry_of st k of None \<Rightarrow> st | Some n \<Rightarrow> set_entry q n (drop_entry k st))"
| "apply_sop st (Delete q) = drop_entry q st"

definition exec :: "sstore \<Rightarrow> sop list \<Rightarrow> sstore" where
  "exec st ops = foldl apply_sop st ops"

type_synonym 'a sresult = "sop list \<times> 'a res"

text \<open>Run one operation, then another on the disk it leaves.\<close>

definition and_then :: "sstore \<Rightarrow> 'a sresult \<Rightarrow> (sstore \<Rightarrow> 'a \<Rightarrow> 'b sresult) \<Rightarrow> 'b sresult" where
  "and_then st run k =
     (case snd run of
        Inl e \<Rightarrow> (fst run, Inl e)
      | Inr x \<Rightarrow> (let (ops, r) = k (exec st (fst run)) x in (fst run @ ops, r)))"

section \<open>Documents\<close>

text \<open>\<open>_read_json\<close>: the exceptions of the standard library, then the code's own.\<close>

definition read_json :: "sfile option \<Rightarrow> jobj res" where
  "read_json f =
     (case f of
        None \<Rightarrow> Inl (OSErr ''file not found'')
      | Some (SLink _) \<Rightarrow> Inl (OSErr ''too many levels of symbolic links'')
      | Some SSpecial \<Rightarrow> Inl (CycloError ''metadata is not a regular file'')
      | Some SBad \<Rightarrow> Inl (ValueErr ''json'')
      | Some (SDoc j) \<Rightarrow> of_option (CycloError ''metadata is not a JSON object'') (as_obj j))"

definition file_exists :: "sfile option \<Rightarrow> bool" where
  "file_exists f \<longleftrightarrow> f \<noteq> None \<and> f \<noteq> Some (SLink False)"

text \<open>\<open>except (...) as exc: raise CycloError(...) from exc\<close>.\<close>

definition reraise :: "string \<Rightarrow> 'a res \<Rightarrow> 'a res" where
  "reraise msg r = (case r of Inl e \<Rightarrow> Inl (CycloError msg) | Inr x \<Rightarrow> Inr x)"

definition instance_dir :: "sstore \<Rightarrow> ustr \<Rightarrow> inode option res" where
  "instance_dir st identifier =
     rbind (validate_instance_id identifier) (\<lambda>_.
     rbind (ensure (entry_of st identifier \<noteq> Some ILink)
       (CycloError ''refusing symlinked Cyclo instance directory'')) (\<lambda>_.
     Inr (entry_of st identifier)))"

definition encode_document :: "jobj \<Rightarrow> bytes res" where
  "encode_document document = utf8_encode (dump_indent False 0 (sort_keys (JObj document)) @ [10])"

definition stamp :: "(ustr \<Rightarrow> ustr) \<Rightarrow> instance_rec \<Rightarrow> instance_rec" where
  "stamp now i =
     i\<lparr>in_created_at := (if in_created_at i = [] then now (in_id i) else in_created_at i),
       in_updated_at := now (in_id i)\<rparr>"

definition prepare_instance :: "(ustr \<Rightarrow> ustr) \<Rightarrow> instance_rec \<Rightarrow> instance_rec res" where
  "prepare_instance now i =
     rbind (validate_instance_id (in_id i)) (\<lambda>_.
     rbind (reraise ''invalid Cyclo instance'' (from_json (as_json (stamp now i)))) (\<lambda>_.
     Inr (stamp now i)))"

definition validate_existing :: "ustr \<Rightarrow> sfile \<Rightarrow> unit res" where
  "validate_existing identifier f =
     rbind (reraise ''invalid existing Cyclo instance state'' (rbind (read_json (Some f)) from_json)) (\<lambda>existing.
     ensure (in_id existing = identifier) (CycloError ''existing Cyclo instance state ID mismatch''))"

text \<open>What \<open>_write_instance_document\<close> checks before it touches the disk.\<close>

definition check_write :: "sstore \<Rightarrow> ustr \<Rightarrow> unit res" where
  "check_write st identifier =
     rbind (instance_dir st identifier) (\<lambda>directory.
     case directory of
       None \<Rightarrow> Inr ()
     | Some (IDir (Some f) _) \<Rightarrow>
         if f = SSpecial \<or> (\<exists>t\<in>{True, False}. f = SLink t)
         then Inl (CycloError ''metadata is not a regular file'')
         else validate_existing identifier f
     | Some (IDir None others) \<Rightarrow>
         ensure (\<not> others) (CycloError ''uncommitted Cyclo instance directory is not empty'')
     | Some ILink \<Rightarrow> Inl (CycloError ''refusing symlinked Cyclo instance directory'')
     | Some IOther \<Rightarrow> Inl (CycloError ''cannot save Cyclo instance''))"

definition write_document :: "sstore \<Rightarrow> ustr \<Rightarrow> jobj \<Rightarrow> unit sresult" where
  "write_document st identifier document =
     (case check_write st identifier of
        Inl e \<Rightarrow> ([], Inl e)
      | Inr _ \<Rightarrow>
         let mk = (if entry_of st identifier = None then [MkInstance identifier] else []) in
         (case encode_document document of
            Inl e \<Rightarrow> (mk, Inl e)
          | Inr _ \<Rightarrow> (mk @ [ReplaceMeta identifier document], Inr ())))"

fun publish_batch :: "sstore \<Rightarrow> jobj list \<Rightarrow> unit sresult" where
  "publish_batch st [] = ([], Inr ())"
| "publish_batch st (document # rest) =
     (case as_str (jget document (lit ''id'')) of
        None \<Rightarrow> ([], Inl (CycloError ''pending instance batch has an invalid ID''))
      | Some identifier \<Rightarrow>
          and_then st (write_document st identifier document) (\<lambda>st' _. publish_batch st' rest))"

section \<open>The pending batch\<close>

fun decode_batch :: "ustr set \<Rightarrow> json list \<Rightarrow> jobj list res" where
  "decode_batch seen [] = Inr []"
| "decode_batch seen (raw # rest) =
     rbind (of_option (CycloError ''pending instance batch contains a non-object'') (as_obj raw)) (\<lambda>kvs.
     rbind (from_json kvs) (\<lambda>i.
     rbind (ensure (in_id i \<notin> seen) (CycloError ''pending instance batch repeats'')) (\<lambda>_.
     rbind (decode_batch (insert (in_id i) seen) rest) (\<lambda>docs. Inr (as_json i # docs)))))"

definition pending_documents :: "sfile option \<Rightarrow> jobj list res" where
  "pending_documents f =
     rbind (read_json f) (\<lambda>payload.
     rbind (ensure (equals_schema (jget payload (lit ''schema'')))
       (CycloError ''unsupported pending instance batch schema'')) (\<lambda>_.
     rbind (of_option (CycloError ''pending instance batch has no instances'')
       (as_list (jget payload (lit ''instances'')))) (\<lambda>raw.
     rbind (ensure (raw \<noteq> []) (CycloError ''pending instance batch has no instances'')) (\<lambda>_.
     decode_batch {} raw))))"

text \<open>The handlers of \<open>_recover_pending_batch_locked\<close>: a \<open>CycloError\<close> passes, every other exception
  becomes one.\<close>

definition as_cyclo :: "string \<Rightarrow> 'a res \<Rightarrow> 'a res" where
  "as_cyclo msg r = (case r of Inl (CycloError m) \<Rightarrow> Inl (CycloError m) | _ \<Rightarrow> reraise msg r)"

definition recover :: "sstore \<Rightarrow> unit sresult" where
  "recover st =
     (if \<not> file_exists (ss_pending st) then ([], Inr ())
      else
        let (ops, r) = and_then st ([], pending_documents (ss_pending st)) (\<lambda>st docs.
              and_then st (publish_batch st docs) (\<lambda>_ _. ([UnlinkPending], Inr ())))
        in (ops, as_cyclo ''cannot recover pending instance batch'' r))"

section \<open>Operations\<close>

definition save :: "(ustr \<Rightarrow> ustr) \<Rightarrow> sstore \<Rightarrow> instance_rec \<Rightarrow> unit sresult" where
  "save now st i =
     and_then st (recover st) (\<lambda>st _.
     and_then st ([], prepare_instance now i) (\<lambda>st i'.
     write_document st (in_id i') (as_json i')))"

fun prepare_batch :: "(ustr \<Rightarrow> ustr) \<Rightarrow> ustr set \<Rightarrow> instance_rec list \<Rightarrow> instance_rec list res" where
  "prepare_batch now seen [] = Inr []"
| "prepare_batch now seen (i # rest) =
     rbind (ensure (in_id i \<notin> seen) (CycloError ''duplicate Cyclo instance in batch'')) (\<lambda>_.
     rbind (prepare_instance now i) (\<lambda>i'.
     rbind (prepare_batch now (insert (in_id i) seen) rest) (\<lambda>is. Inr (i' # is))))"

definition batch_payload :: "jobj list \<Rightarrow> jobj" where
  "batch_payload docs =
     [(lit ''schema'', JInt STATE_SCHEMA), (lit ''instances'', JList (map JObj docs))]"

definition save_many :: "(ustr \<Rightarrow> ustr) \<Rightarrow> sstore \<Rightarrow> instance_rec list \<Rightarrow> unit sresult" where
  "save_many now st selected =
     and_then st (recover st) (\<lambda>st _.
     if selected = [] then ([], Inr ())
     else
       and_then st ([], prepare_batch now {} selected) (\<lambda>st insts.
       let docs = map as_json insts in
       and_then st ([], encode_document (batch_payload docs)) (\<lambda>st _.
       and_then st ([SetPending (batch_payload docs)], Inr ()) (\<lambda>st _.
       and_then st (publish_batch st docs) (\<lambda>_ _. ([UnlinkPending], Inr ()))))))"

definition load_document :: "sstore \<Rightarrow> ustr \<Rightarrow> instance_rec res" where
  "load_document st identifier =
     rbind (instance_dir st identifier) (\<lambda>directory.
     if directory = None \<or> (\<exists>others\<in>{True, False}. directory = Some (IDir None others))
     then Inl (CycloError ''Cyclo instance not found'')
     else
       rbind (reraise ''invalid Cyclo instance state''
         (case directory of
            Some (IDir f _) \<Rightarrow> rbind (read_json f) from_json
          | _ \<Rightarrow> Inl (OSErr ''not a directory''))) (\<lambda>i.
       rbind (ensure (in_id i = identifier) (CycloError ''Cyclo instance metadata ID mismatch'')) (\<lambda>_.
       Inr i)))"

definition load :: "sstore \<Rightarrow> ustr \<Rightarrow> instance_rec sresult" where
  "load st identifier = and_then st (recover st) (\<lambda>st _. ([], load_document st identifier))"

text \<open>One entry of the inventory: skipped, an instance, or an error line.\<close>

definition list_entry :: "sstore \<Rightarrow> ustr \<Rightarrow> instance_rec option res" where
  "list_entry st name =
     rbind (validate_instance_id name) (\<lambda>_.
     case entry_of st name of
       Some (IDir f others) \<Rightarrow>
         if \<not> file_exists f then
           (if f = None \<and> \<not> others then Inr None
            else Inl (CycloError ''instance directory has no run.json''))
         else rbind (load_document st name) (\<lambda>i. Inr (Some i))
     | _ \<Rightarrow> Inl (CycloError ''instance entry is not a directory''))"

definition list_names :: "sstore \<Rightarrow> ustr list" where
  "list_names st = filter (\<lambda>n. \<not> startswith (lit ''.'') n) (sort (map fst (ss_entries st)))"

fun list_entries :: "sstore \<Rightarrow> ustr list \<Rightarrow> instance_rec list \<times> (ustr \<times> error) list" where
  "list_entries st [] = ([], [])"
| "list_entries st (name # rest) =
     (let (result, errors) = list_entries st rest in
      case list_entry st name of
        Inl e \<Rightarrow> (result, (name, e) # errors)
      | Inr None \<Rightarrow> (result, errors)
      | Inr (Some i) \<Rightarrow> (i # result, errors))"

definition list_report :: "sstore \<Rightarrow> (instance_rec list \<times> (ustr \<times> error) list) sresult" where
  "list_report st =
     (let (ops, r) = and_then st (recover st) (\<lambda>st _.
            let (result, errors) = list_entries st (list_names st)
            in ([], Inr (sort_key in_id result, errors)))
      in case r of
           Inl (CycloError m) \<Rightarrow> (ops, Inr ([], [([], CycloError m)]))
         | _ \<Rightarrow> (ops, r))"

text \<open>\<open>list()\<close> raises when any entry is in error.\<close>

definition list_all_instances :: "sstore \<Rightarrow> instance_rec list sresult" where
  "list_all_instances st =
     and_then st (list_report st) (\<lambda>_ (result, errors).
       ([], if errors \<noteq> [] then Inl (CycloError ''cannot enumerate Cyclo instance state'') else Inr result))"

text \<open>\<open>tail\<close> is the process ID and the random part of the quarantine's name.\<close>

definition remove_instance :: "ustr \<Rightarrow> sstore \<Rightarrow> ustr \<Rightarrow> unit sresult" where
  "remove_instance tail st identifier =
     and_then st (load st identifier) (\<lambda>st i.
     if in_intent i \<noteq> lit ''stopped''
     then ([], Inl (CycloError ''refusing to forget running Cyclo instance''))
     else
       let q = lit ''.deleted-'' @ identifier @ lit ''-'' @ tail in
       ([Quarantine identifier q, Delete q], Inr ()))"

section \<open>What the store holds\<close>

text \<open>The committed documents, by directory name.\<close>

definition committed :: "sstore \<Rightarrow> ustr \<Rightarrow> jobj option" where
  "committed st k = (case entry_of st k of Some (IDir (Some (SDoc (JObj d))) _) \<Rightarrow> Some d | _ \<Rightarrow> None)"

definition sound_doc :: "ustr \<Rightarrow> jobj \<Rightarrow> bool" where
  "sound_doc k d \<longleftrightarrow> (\<exists>i. d = as_json i \<and> instance_valid i \<and> in_id i = k) \<and> is_ok (encode_document d)"

definition writable :: "sstore \<Rightarrow> ustr \<Rightarrow> jobj \<Rightarrow> bool" where
  "writable st k d \<longleftrightarrow> check_write st k = Inr () \<and> sound_doc k d"

lemma entry_set [simp]: "entry_of (set_entry k v st) = (entry_of st)(k \<mapsto> v)"
proof
  fix x
  have "map_of (filter (\<lambda>e. fst e \<noteq> k) es) x = (if x = k then None else map_of es x)" for es :: "(ustr \<times> inode) list"
    by (induction es) auto
  then show "entry_of (set_entry k v st) x = ((entry_of st)(k \<mapsto> v)) x"
    by (simp add: entry_of_def set_entry_def)
qed

lemma entry_drop [simp]: "entry_of (drop_entry k st) = (entry_of st)(k := None)"
proof
  fix x
  have "map_of (filter (\<lambda>e. fst e \<noteq> k) es) x = (if x = k then None else map_of es x)" for es :: "(ustr \<times> inode) list"
    by (induction es) auto
  then show "entry_of (drop_entry k st) x = ((entry_of st)(k := None)) x"
    by (simp add: entry_of_def drop_entry_def)
qed

lemma entry_pending [simp]: "entry_of (st\<lparr>ss_pending := p\<rparr>) = entry_of st"
  by (simp add: entry_of_def)

lemma pending_entry [simp]:
  "ss_pending (set_entry k v st) = ss_pending st" "ss_pending (drop_entry k st) = ss_pending st"
  by (simp_all add: set_entry_def drop_entry_def)

lemma exec_simps [simp]:
  "exec st [] = st" "exec st (op # ops) = exec (apply_sop st op) ops"
  "exec st (xs @ ys) = exec (exec st xs) ys"
  by (simp_all add: exec_def)

lemma and_then_simps [simp]:
  "and_then st (ops, Inl e) k = (ops, Inl e)"
  "and_then st (ops, Inr x) k = (let (ops', r) = k (exec st ops) x in (ops @ ops', r))"
  by (simp_all add: and_then_def)

lemma and_then_Inr:
  "and_then st run k = (ops, Inr y) \<longleftrightarrow>
    (\<exists>o1 x o2. run = (o1, Inr x) \<and> k (exec st o1) x = (o2, Inr y) \<and> ops = o1 @ o2)"
  by (cases run; cases "snd run") (auto simp: and_then_def split: prod.splits)

lemma jget_id [simp]: "jget (as_json i) (lit ''id'') = JStr (in_id i)"
  by (simp add: jget_def as_json_def)

lemma valid_id: "instance_valid i \<Longrightarrow> validate_instance_id (in_id i) = Inr (in_id i)"
  by (auto simp: instance_valid_def check_instance_def validate_instance_id_def split: if_splits)

section \<open>The changes of a publication\<close>

definition sound_op :: "sop \<Rightarrow> bool" where
  "sound_op op \<longleftrightarrow> (case op of MkInstance k \<Rightarrow> True | ReplaceMeta k d \<Rightarrow> sound_doc k d | _ \<Rightarrow> False)"

lemma check_write_cong:
  "entry_of st k = entry_of st' k \<Longrightarrow> check_write st k = check_write st' k"
  by (simp add: check_write_def instance_dir_def)

lemma check_write_doc:
  assumes "sound_doc k d" "validate_instance_id k = Inr u" "entry_of st k = Some (IDir (Some (SDoc (JObj d))) b)"
  shows "check_write st k = Inr ()"
  using assms by (auto simp: check_write_def instance_dir_def validate_existing_def read_json_def
      sound_doc_def from_json_as_json reraise_def)

lemma check_write_valid: "check_write st k = Inr () \<Longrightarrow> \<exists>u. validate_instance_id k = Inr u"
  by (auto simp: check_write_def instance_dir_def)

lemma sound_op_writable:
  assumes "sound_op op" "writable st k d"
  shows "writable (apply_sop st op) k d"
proof -
  have cw: "check_write st k = Inr ()" and d: "sound_doc k d" using assms(2) by (auto simp: writable_def)
  obtain u where u: "validate_instance_id k = Inr u" using check_write_valid [OF cw] by blast
  have "check_write (apply_sop st op) k = Inr ()"
  proof (cases op)
    case (MkInstance j)
    show ?thesis
    proof (cases "entry_of st j = None \<and> j = k")
      case True
      then show ?thesis using MkInstance u by (auto simp: check_write_def instance_dir_def)
    next
      case False
      then have "entry_of (apply_sop st op) k = entry_of st k"
        using MkInstance by (auto split: option.splits)
      then show ?thesis using cw check_write_cong by metis
    qed
  next
    case (ReplaceMeta j e)
    then have e: "sound_doc j e" using assms(1) by (simp add: sound_op_def)
    show ?thesis
    proof (cases "j = k \<and> (\<exists>f b. entry_of st k = Some (IDir f b))")
      case True
      then obtain f b where "j = k" "entry_of st k = Some (IDir f b)" by blast
      then have "entry_of (apply_sop st op) k = Some (IDir (Some (SDoc (JObj e))) b)"
        using ReplaceMeta by simp
      then show ?thesis using check_write_doc e u \<open>j = k\<close> by blast
    next
      case False
      then have "entry_of (apply_sop st op) k = entry_of st k"
        using ReplaceMeta by (auto split: option.splits inode.splits)
      then show ?thesis using cw check_write_cong by metis
    qed
  qed (use assms(1) in \<open>simp_all add: sound_op_def\<close>)
  then show ?thesis using d by (simp add: writable_def)
qed

lemma sound_ops_writable:
  "list_all sound_op ops \<Longrightarrow> writable st k d \<Longrightarrow> writable (exec st ops) k d"
  by (induction ops arbitrary: st) (auto intro: sound_op_writable)

lemma sound_ops_pending: "list_all sound_op ops \<Longrightarrow> ss_pending (exec st ops) = ss_pending st"
proof (induction ops arbitrary: st)
  case (Cons op ops)
  have "ss_pending (apply_sop st op) = ss_pending st"
    using Cons.prems by (cases op) (auto simp: sound_op_def split: option.splits inode.splits)
  then show ?case using Cons by simp
qed simp

definition op_key :: "sop \<Rightarrow> ustr option" where
  "op_key op = (case op of ReplaceMeta k _ \<Rightarrow> Some k | _ \<Rightarrow> None)"

lemma committed_cong: "entry_of st k = entry_of st' k \<Longrightarrow> committed st k = committed st' k"
  by (simp add: committed_def)

lemma sound_op_committed:
  "sound_op op \<Longrightarrow> op_key op \<noteq> Some k \<Longrightarrow> committed (apply_sop st op) k = committed st k"
  by (cases op) (auto simp: sound_op_def op_key_def committed_def split: option.splits inode.splits)

lemma sound_ops_committed:
  "list_all sound_op ops \<Longrightarrow> Some k \<notin> op_key ` set ops \<Longrightarrow> committed (exec st ops) k = committed st k"
  by (induction ops arbitrary: st) (auto simp: sound_op_committed)

section \<open>Writing documents\<close>

definition write_ops :: "sstore \<Rightarrow> ustr \<Rightarrow> jobj \<Rightarrow> sop list" where
  "write_ops st k d = (if entry_of st k = None then [MkInstance k] else []) @ [ReplaceMeta k d]"

lemma write_writable: "writable st k d \<Longrightarrow> write_document st k d = (write_ops st k d, Inr ())"
  by (auto simp: write_document_def writable_def sound_doc_def is_ok_iff write_ops_def)

lemma write_ops_sound: "sound_doc k d \<Longrightarrow> list_all sound_op (write_ops st k d)"
  by (simp add: write_ops_def sound_op_def)

lemma write_ops_key: "op_key ` set (write_ops st k d) - {None} = {Some k}"
  by (auto simp: write_ops_def op_key_def)

lemma writable_dir: "writable st k d \<Longrightarrow> entry_of st k = None \<or> (\<exists>f b. entry_of st k = Some (IDir f b))"
  by (auto simp: writable_def check_write_def instance_dir_def split: option.splits inode.splits)

lemma write_ops_committed:
  assumes "writable st k d"
  shows "committed (exec st (write_ops st k d)) = (committed st)(k \<mapsto> d)"
proof
  fix x
  show "committed (exec st (write_ops st k d)) x = ((committed st)(k \<mapsto> d)) x"
    using writable_dir [OF assms] by (auto simp: write_ops_def committed_def)
qed

text \<open>The contract of a store whose documents are written one key at a time.\<close>

locale keyed_store =
  fixes lookup :: "'s \<Rightarrow> 'k \<Rightarrow> 'v option"
    and ok :: "'s \<Rightarrow> 'k \<Rightarrow> 'v \<Rightarrow> bool"
    and put :: "'s \<Rightarrow> 'k \<Rightarrow> 'v \<Rightarrow> 's"
  assumes lookup_put: "ok s k v \<Longrightarrow> lookup (put s k v) = (lookup s)(k \<mapsto> v)"
    and ok_put: "ok s k v \<Longrightarrow> ok s k' v' \<Longrightarrow> ok (put s k v) k' v'"
begin

lemma ok_puts:
  "\<forall>(k, v)\<in>set kvs. ok s k v \<Longrightarrow> ok s k' v' \<Longrightarrow> ok (foldl (\<lambda>s (k, v). put s k v) s kvs) k' v'"
proof (induction kvs arbitrary: s)
  case (Cons kv kvs)
  obtain k v where [simp]: "kv = (k, v)" by (cases kv)
  have "ok s k v" using Cons.prems by auto
  then have "\<forall>(k', v')\<in>set kvs. ok (put s k v) k' v'" "ok (put s k v) k' v'"
    using Cons.prems by (auto intro: ok_put)
  then show ?case using Cons.IH by simp
qed simp

lemma lookup_puts:
  "\<forall>(k, v)\<in>set kvs. ok s k v \<Longrightarrow>
    lookup (foldl (\<lambda>s (k, v). put s k v) s kvs) = lookup s ++ map_of (rev kvs)"
proof (induction kvs arbitrary: s)
  case (Cons kv kvs)
  obtain k v where [simp]: "kv = (k, v)" by (cases kv)
  have o: "ok s k v" using Cons.prems by auto
  then have "\<forall>(k', v')\<in>set kvs. ok (put s k v) k' v'"
    using Cons.prems by (auto intro: ok_put)
  then have "lookup (foldl (\<lambda>s (k, v). put s k v) s (kv # kvs)) = lookup (put s k v) ++ map_of (rev kvs)"
    using Cons.IH by simp
  then show ?case by (simp add: lookup_put [OF o] fun_eq_iff map_add_def split: option.splits)
qed simp

end

interpretation ks: keyed_store committed writable "\<lambda>st k d. exec st (fst (write_document st k d))"
proof
  show "writable st k d \<Longrightarrow> committed (exec st (fst (write_document st k d))) = (committed st)(k \<mapsto> d)"
    for st k d by (simp add: write_writable write_ops_committed)
  show "writable st k d \<Longrightarrow> writable st k' d' \<Longrightarrow> writable (exec st (fst (write_document st k d))) k' d'"
    for st k d k' d'
  proof -
    assume w: "writable st k d" "writable st k' d'"
    then have "list_all sound_op (write_ops st k d)" by (simp add: write_ops_sound writable_def)
    then show "writable (exec st (fst (write_document st k d))) k' d'"
      using w(2) by (simp add: write_writable [OF w(1)] sound_ops_writable)
  qed
qed

lemma publish_writable:
  assumes "\<forall>(k, d)\<in>set kvs. writable st k d"
  shows "\<exists>ops. publish_batch st (map snd kvs) = (ops, Inr ()) \<and> list_all sound_op ops \<and>
    op_key ` set ops \<subseteq> insert None (Some ` fst ` set kvs) \<and>
    exec st ops = foldl (\<lambda>st (k, d). exec st (fst (write_document st k d))) st kvs"
  using assms
proof (induction kvs arbitrary: st)
  case (Cons kd kvs)
  obtain k d where [simp]: "kd = (k, d)" by (cases kd)
  have w: "writable st k d" using Cons.prems by auto
  let ?st = "exec st (write_ops st k d)"
  have "\<forall>(k', d')\<in>set kvs. writable ?st k' d'"
    using Cons.prems ks.ok_put [OF w] by (auto simp: write_writable [OF w])
  from Cons.IH [OF this] obtain ops where
    o: "publish_batch ?st (map snd kvs) = (ops, Inr ())" "list_all sound_op ops"
    "op_key ` set ops \<subseteq> insert None (Some ` fst ` set kvs)"
    "exec ?st ops = foldl (\<lambda>st (k, d). exec st (fst (write_document st k d))) ?st kvs" by blast
  have d: "sound_doc k d" using w by (simp add: writable_def)
  then have j: "as_str (jget d (lit ''id'')) = Some k" by (auto simp: sound_doc_def)
  have "publish_batch st (map snd (kd # kvs)) = (write_ops st k d @ ops, Inr ())"
    by (simp add: j write_writable [OF w] o(1))
  moreover have "op_key ` set (write_ops st k d @ ops) \<subseteq> insert None (Some ` fst ` set (kd # kvs))"
    using o(3) write_ops_key [of st k d] by auto
  ultimately show ?case
    using o(2,4) write_ops_sound [OF d] by (simp add: write_writable [OF w])
qed simp


section \<open>Saving a cohort\<close>

lemma decode_batch_map:
  assumes "\<forall>i\<in>set is. instance_valid i" "distinct (map in_id is)" "in_id ` set is \<inter> seen = {}"
  shows "decode_batch seen (map (JObj \<circ> as_json) is) = Inr (map as_json is)"
  using assms by (induction "is" arbitrary: seen) (auto simp: from_json_as_json)

lemma pending_documents_payload:
  assumes "\<forall>i\<in>set is. instance_valid i" "distinct (map in_id is)" "is \<noteq> []"
  shows "pending_documents (Some (SDoc (JObj (batch_payload (map as_json is))))) = Inr (map as_json is)"
proof -
  have "jget (batch_payload docs) (lit ''schema'') = JInt STATE_SCHEMA"
    "jget (batch_payload docs) (lit ''instances'') = JList (map JObj docs)" for docs
    by (simp_all add: jget_def batch_payload_def)
  then show ?thesis using decode_batch_map [OF assms(1,2)] assms(3)
    by (simp add: pending_documents_def read_json_def equals_schema_def)
qed

lemma has_fields_unique:
  assumes "has_fields p i" "has_fields p j"
  shows "i = j"
proof -
  have "fst ` set (as_json i) = fst ` set (as_json j)" by (metis keys_as_json list.set_map)
  have "\<forall>(k, v)\<in>set (as_json j). map_of (as_json i) k = Some v"
  proof clarify
    fix k v assume kv: "(k, v) \<in> set (as_json j)"
    then have "k \<in> set (map fst (as_json i))" unfolding keys_as_json by (metis fst_conv image_eqI keys_as_json list.set_map)
    then obtain w where "(k, w) \<in> set (as_json i)" by auto
    moreover have "w = jget p k" "v = jget p k"
      using assms kv calculation by (auto simp: has_fields_def)
    ultimately show "map_of (as_json i) k = Some v"
      using keys_as_json [of i] distinct_field_names by simp
  qed
  then show ?thesis by (simp add: as_json_def instance_rec.equality)
qed

lemma stamp_id [simp]: "in_id (stamp now i) = in_id i"
  by (simp add: stamp_def)

lemma prepare_instance_Inr:
  "prepare_instance now i = Inr j \<longleftrightarrow> instance_valid j \<and> j = stamp now i"
proof -
  have v: "(\<exists>x. from_json (as_json k) = Inr x) \<longleftrightarrow> instance_valid k" for k
    using from_json_as_json has_fields_as_json has_fields_unique by (metis from_json_Inr)
  have r: "(\<exists>x. reraise m (from_json (as_json k)) = Inr x) \<longleftrightarrow> instance_valid k" for m k
    unfolding v [symmetric] by (cases "from_json (as_json k)") (auto simp: reraise_def)
  have "instance_valid (stamp now i) \<Longrightarrow> validate_instance_id (in_id i) = Inr (in_id i)"
    using valid_id [of "stamp now i"] by simp
  then show ?thesis
    using r [of "''invalid Cyclo instance''" "stamp now i"] by (auto simp: prepare_instance_def)
qed

lemma prepare_batch_Inr:
  "prepare_batch now seen xs = Inr ys \<longleftrightarrow> ys = map (stamp now) xs \<and> (\<forall>y\<in>set ys. instance_valid y) \<and>
     distinct (map in_id xs) \<and> in_id ` set xs \<inter> seen = {}"
proof (induction xs arbitrary: seen ys)
  case (Cons x xs)
  have "prepare_batch now seen (x # xs) = Inr ys \<longleftrightarrow> in_id x \<notin> seen \<and> instance_valid (stamp now x) \<and>
      (\<exists>zs. prepare_batch now (insert (in_id x) seen) xs = Inr zs \<and> ys = stamp now x # zs)"
    by (auto simp: prepare_instance_Inr)
  then show ?case unfolding Cons.IH by fastforce
qed auto

lemma recover_none [simp]: "\<not> file_exists (ss_pending st) \<Longrightarrow> recover st = ([], Inr ())"
  by (simp add: recover_def)

lemma prefix_snoc_cases: "pre @ post = xs @ [y] \<Longrightarrow> (\<exists>r. xs = pre @ r) \<or> pre = xs @ [y]"
  by (cases post rule: rev_cases) auto

lemma committed_merge:
  assumes "list_all sound_op ops" "\<forall>k. Some k \<in> op_key ` set ops \<longrightarrow> k \<in> dom m"
  shows "committed (exec st ops) ++ m = committed st ++ m"
proof
  fix k
  show "(committed (exec st ops) ++ m) k = (committed st ++ m) k"
  proof (cases "m k")
    case None
    then have "Some k \<notin> op_key ` set ops" using assms(2) by blast
    then show ?thesis using sound_ops_committed [OF assms(1)] by (simp add: map_add_def None)
  qed (simp add: map_add_def)
qed

lemma publish_success_writable:
  assumes "publish_batch st (map as_json is) = (ops, Inr ())"
    and "\<forall>i\<in>set is. instance_valid i" "distinct (map in_id is)"
  shows "\<forall>i\<in>set is. writable st (in_id i) (as_json i)"
  using assms
proof (induction "is" arbitrary: st ops)
  case (Cons i "is")
  from Cons.prems(1) obtain o1 o2 where
    w: "write_document st (in_id i) (as_json i) = (o1, Inr ())" and
    p: "publish_batch (exec st o1) (map as_json is) = (o2, Inr ())"
    by (auto simp: and_then_Inr)
  from w have "check_write st (in_id i) = Inr ()" "is_ok (encode_document (as_json i))"
    by (auto simp: write_document_def is_ok_iff Let_def split: sum.splits)
  then have i: "writable st (in_id i) (as_json i)"
    using Cons.prems(2) by (auto simp: writable_def sound_doc_def)
  have o1: "o1 = write_ops st (in_id i) (as_json i)" using w write_writable [OF i] by simp
  have "writable st (in_id j) (as_json j)" if "j \<in> set is" for j
  proof -
    have "writable (exec st o1) (in_id j) (as_json j)"
      using Cons.IH [OF p] Cons.prems(2,3) that by simp
    moreover have "in_id j \<noteq> in_id i" using Cons.prems(3) that by (metis distinct.simps(2) image_eqI list.set_map list.simps(9))
    then have "entry_of (exec st o1) (in_id j) = entry_of st (in_id j)"
      using writable_dir [OF i] by (auto simp: o1 write_ops_def)
    ultimately show ?thesis using check_write_cong by (metis writable_def)
  qed
  then show ?case using i by simp
qed simp

lemma save_many_Inr:
  assumes "save_many now st insts = (ops, Inr ())" "\<not> file_exists (ss_pending st)" "insts \<noteq> []"
  defines "payload \<equiv> batch_payload (map as_json (map (stamp now) insts))"
  shows "\<exists>pops. ops = SetPending payload # pops @ [UnlinkPending] \<and>
    publish_batch (apply_sop st (SetPending payload)) (map as_json (map (stamp now) insts)) = (pops, Inr ()) \<and>
    (\<forall>i\<in>set (map (stamp now) insts). instance_valid i) \<and> distinct (map in_id (map (stamp now) insts))"
proof -
  let ?is = "map (stamp now) insts"
  from assms(1) have "prepare_batch now {} insts = Inr ?is"
    using assms(2,3) by (auto simp: save_many_def and_then_Inr prepare_batch_Inr)
  then have v: "(\<forall>i\<in>set ?is. instance_valid i)" "distinct (map in_id ?is)" and
    b: "prepare_batch now {} insts = Inr ?is"
    by (simp_all add: prepare_batch_Inr comp_def)
  from assms(1) obtain pops where "ops = SetPending payload # pops @ [UnlinkPending]"
    "publish_batch (apply_sop st (SetPending payload)) (map as_json ?is) = (pops, Inr ())"
    using assms(2,3) by (auto simp: save_many_def and_then_Inr b payload_def Let_def
      simp del: map_map apply_sop.simps split: prod.splits)
  then show ?thesis using v by blast
qed


lemma map_of_rev_distinct: "distinct (map fst xs) \<Longrightarrow> map_of (rev xs) = map_of xs"
proof (induction xs)
  case (Cons x xs)
  then have "map_of xs (fst x) = None" by (simp add: map_of_eq_None_iff)
  then show ?case using Cons by (auto simp: fun_eq_iff map_of_append map_add_def split: option.splits)
qed simp

definition documents :: "instance_rec list \<Rightarrow> (ustr \<times> jobj) list" where
  "documents is = map (\<lambda>i. (in_id i, as_json i)) is"

lemma publish_documents:
  assumes "\<forall>i\<in>set is. writable st (in_id i) (as_json i)" "distinct (map in_id is)"
  shows "\<exists>ops. publish_batch st (map as_json is) = (ops, Inr ()) \<and> list_all sound_op ops \<and>
    op_key ` set ops \<subseteq> insert None (Some ` in_id ` set is) \<and>
    committed (exec st ops) = committed st ++ map_of (documents is)"
proof -
  have w: "\<forall>(k, d)\<in>set (documents is). writable st k d" using assms(1) by (auto simp: documents_def)
  have d: "map_of (rev (documents is)) = map_of (documents is)"
    by (rule map_of_rev_distinct) (use assms(2) in \<open>simp add: documents_def comp_def\<close>)
  have m: "map snd (documents is) = map as_json is" "fst ` set (documents is) = in_id ` set is"
    by (auto simp: documents_def image_image)
  from publish_writable [OF w] ks.lookup_puts [OF w] show ?thesis
    unfolding m d by auto
qed

lemma recover_documents:
  assumes "ss_pending st = Some (SDoc (JObj (batch_payload (map as_json is))))"
    and "\<forall>i\<in>set is. instance_valid i" "distinct (map in_id is)" "is \<noteq> []"
    and "\<forall>i\<in>set is. writable st (in_id i) (as_json i)"
  shows "\<exists>rops. recover st = (rops, Inr ()) \<and> ss_pending (exec st rops) = None \<and>
    committed (exec st rops) = committed st ++ map_of (documents is)"
proof -
  from publish_documents [OF assms(5,3)] obtain ops where
    p: "publish_batch st (map as_json is) = (ops, Inr ())" and
    c: "committed (exec st ops) = committed st ++ map_of (documents is)" by blast
  have u: "committed (apply_sop st' UnlinkPending) = committed st'" for st'
    by (simp add: committed_def fun_eq_iff)
  have "recover st = (ops @ [UnlinkPending], Inr ())"
    using assms(1) pending_documents_payload [OF assms(2-4)]
    by (simp add: recover_def file_exists_def p as_cyclo_def reraise_def)
  then show ?thesis using c u by simp
qed

text \<open>C6: a crash at any point of \<open>save_many\<close>, followed by the recovery every later operation starts with,
  leaves either the documents that were there or those documents with the whole cohort written.\<close>

theorem save_many_atomic:
  assumes "save_many now st insts = (ops, Inr ())" "\<not> file_exists (ss_pending st)" "ops = pre @ post"
  shows "\<exists>rops. recover (exec st pre) = (rops, Inr ()) \<and>
    \<not> file_exists (ss_pending (exec st (pre @ rops))) \<and>
    (committed (exec st (pre @ rops)) = committed st \<or>
     committed (exec st (pre @ rops)) = committed st ++ map_of (documents (map (stamp now) insts)))"
proof (cases "insts = [] \<or> pre = []")
  case True
  then have "pre = []" using assms by (auto simp: save_many_def)
  then show ?thesis using assms(2) by simp
next
  case False
  let ?is = "map (stamp now) insts" and ?m = "map_of (documents (map (stamp now) insts))"
  let ?p = "batch_payload (map as_json ?is)"
  let ?st0 = "apply_sop st (SetPending ?p)"
  from save_many_Inr [OF assms(1,2)] False obtain pops where
    ops: "ops = SetPending ?p # pops @ [UnlinkPending]" and
    p: "publish_batch ?st0 (map as_json ?is) = (pops, Inr ())" and
    v: "\<forall>i\<in>set ?is. instance_valid i" "distinct (map in_id ?is)" by blast
  have w: "\<forall>i\<in>set ?is. writable ?st0 (in_id i) (as_json i)"
    by (rule publish_success_writable [OF p v])
  from publish_documents [OF w v(2)] p have
    s: "list_all sound_op pops" "op_key ` set pops \<subseteq> insert None (Some ` in_id ` set ?is)" and
    c: "committed (exec ?st0 pops) = committed ?st0 ++ ?m" by auto
  have c0: "committed ?st0 = committed st" by (simp add: committed_def fun_eq_iff)
  from False ops assms(3) obtain pre' where pre: "pre = SetPending ?p # pre'"
    and split: "pre' @ post = pops @ [UnlinkPending]" by (cases pre) auto
  from prefix_snoc_cases [OF split] show ?thesis
  proof
    assume "\<exists>r. pops = pre' @ r"
    then obtain r where r: "pops = pre' @ r" by blast
    let ?st1 = "exec ?st0 pre'"
    have s1: "list_all sound_op pre'" "op_key ` set pre' \<subseteq> insert None (Some ` in_id ` set ?is)"
      using s r by auto
    have "\<forall>i\<in>set ?is. writable ?st1 (in_id i) (as_json i)"
      using w sound_ops_writable [OF s1(1)] by blast
    moreover have "ss_pending ?st1 = Some (SDoc (JObj ?p))"
      using sound_ops_pending [OF s1(1)] by simp
    ultimately obtain rops where "recover ?st1 = (rops, Inr ())" "ss_pending (exec ?st1 rops) = None"
      "committed (exec ?st1 rops) = committed ?st1 ++ ?m"
      using recover_documents v False by blast
    moreover have "committed ?st1 ++ ?m = committed ?st0 ++ ?m"
    proof (rule committed_merge [OF s1(1)])
      have "dom ?m = in_id ` set ?is"
        by (auto simp: documents_def dom_map_of_conv_image_fst image_image)
      then show "\<forall>k. Some k \<in> op_key ` set pre' \<longrightarrow> k \<in> dom ?m" using s1(2) by blast
    qed
    ultimately show ?thesis using c0 by (simp add: pre file_exists_def del: apply_sop.simps)
  next
    assume r: "pre' = pops @ [UnlinkPending]"
    have u: "committed (apply_sop st' UnlinkPending) = committed st'" for st'
      by (simp add: committed_def fun_eq_iff)
    have "exec st pre = apply_sop (exec ?st0 pops) UnlinkPending" by (simp add: pre r)
    then have "committed (exec st pre) = committed st ++ ?m" "ss_pending (exec st pre) = None"
      using u c c0 by simp_all
    then show ?thesis by (simp add: file_exists_def)
  qed
qed


section \<open>Loading what was saved\<close>

lemma load_committed:
  assumes "committed st k = Some (as_json i)" "instance_valid i" "in_id i = k"
  shows "load_document st k = Inr i"
  using assms valid_id [OF assms(2)]
  by (auto simp: committed_def load_document_def instance_dir_def read_json_def reraise_def from_json_as_json
      split: option.splits inode.splits sfile.splits json.splits)

lemma load_document_cong:
  "entry_of st k = entry_of st' k \<Longrightarrow> load_document st k = load_document st' k"
  by (simp add: load_document_def instance_dir_def)

text \<open>C33: after \<open>save\<close> returns, \<open>load\<close> of that ID returns the instance with its time stamps, and \<open>load\<close> of
  every other ID returns what it returned before.\<close>

theorem load_after_save:
  assumes "save now st i = (ops, Inr ())" "\<not> file_exists (ss_pending st)"
  shows "load (exec st ops) (in_id i) = ([], Inr (stamp now i)) \<and>
    (\<forall>k. k \<noteq> in_id i \<longrightarrow> load (exec st ops) k = load st k)"
proof -
  let ?i = "stamp now i"
  from assms have p: "instance_valid ?i" and
    w: "write_document st (in_id ?i) (as_json ?i) = (ops, Inr ())"
    by (auto simp: save_def and_then_Inr prepare_instance_Inr)
  then have "publish_batch st (map as_json [?i]) = (ops, Inr ())" by simp
  from publish_success_writable [OF this] p
  have wr: "writable st (in_id ?i) (as_json ?i)" by simp
  have ops: "ops = write_ops st (in_id ?i) (as_json ?i)" using w write_writable [OF wr] by simp
  have "committed (exec st ops) (in_id i) = Some (as_json ?i)"
    using write_ops_committed [OF wr] by (simp add: ops)
  then have l: "load_document (exec st ops) (in_id i) = Inr ?i"
    using load_committed [OF _ p] by simp
  have "list_all sound_op ops" using wr by (simp add: ops write_ops_sound writable_def)
  then have np: "\<not> file_exists (ss_pending (exec st ops))" using assms(2) sound_ops_pending by metis
  have e: "load_document (exec st ops) k = load_document st k" if "k \<noteq> in_id i" for k
    by (rule load_document_cong) (use that writable_dir [OF wr] in \<open>auto simp: ops write_ops_def\<close>)
  have "load s k = ([], load_document s k)" if "\<not> file_exists (ss_pending s)" for s k
    by (simp add: load_def that)
  then show ?thesis using l np assms(2) e by presburger
qed

section \<open>A batch that cannot be published\<close>

lemma write_frame:
  assumes "check_write st k = Inl e"
  shows "check_write (exec st (fst (write_document st k' d))) k = Inl e \<and>
    ss_pending (exec st (fst (write_document st k' d))) = ss_pending st"
proof (cases "check_write st k'")
  case (Inl e')
  then show ?thesis using assms by (simp add: write_document_def)
next
  case (Inr u)
  let ?ops = "fst (write_document st k' d)"
  have "k' \<noteq> k" using Inr assms by auto
  then have "entry_of (exec st ?ops) k = entry_of st k"
    using Inr by (auto simp: write_document_def Let_def split: sum.splits option.splits inode.splits)
  moreover have "ss_pending (exec st ?ops) = ss_pending st"
    using Inr by (auto simp: write_document_def Let_def split: sum.splits option.splits inode.splits)
  ultimately show ?thesis using assms check_write_cong by metis
qed

lemma publish_frame:
  assumes "check_write st k = Inl e"
  shows "check_write (exec st (fst (publish_batch st docs))) k = Inl e \<and>
    ss_pending (exec st (fst (publish_batch st docs))) = ss_pending st"
  using assms
proof (induction docs arbitrary: st)
  case (Cons d docs)
  show ?case
  proof (cases "as_str (jget d (lit ''id''))")
    case None
    then show ?thesis using Cons.prems by simp
  next
    case (Some k')
    obtain o1 r where w: "write_document st k' d = (o1, r)" by (cases "write_document st k' d")
    have f: "check_write (exec st o1) k = Inl e" "ss_pending (exec st o1) = ss_pending st"
      using write_frame [OF Cons.prems, of k' d] by (simp_all add: w)
    then show ?thesis using Cons.IH [OF f(1)]
      by (cases r) (simp_all add: Some w case_prod_beta Let_def del: as_str_Some)
  qed
qed simp

lemma publish_fails:
  assumes "check_write st k = Inl e" "d \<in> set docs" "jget d (lit ''id'') = JStr k"
  shows "\<exists>ops e'. publish_batch st docs = (ops, Inl e')"
  using assms(1,2)
proof (induction docs arbitrary: st)
  case (Cons d' docs)
  show ?case
  proof (cases "as_str (jget d' (lit ''id''))")
    case (Some k')
    obtain o1 r where w: "write_document st k' d' = (o1, r)" by (cases "write_document st k' d'")
    show ?thesis
    proof (cases r)
      case (Inr u)
      then have "d' \<noteq> d" using w Cons.prems(1) Some assms(3) by (auto simp: write_document_def)
      then have "d \<in> set docs" using Cons.prems(2) by simp
      moreover have "check_write (exec st o1) k = Inl e" using write_frame [OF Cons.prems(1), of k' d'] w by simp
      ultimately obtain ops e' where "publish_batch (exec st o1) docs = (ops, Inl e')" using Cons.IH by blast
      then show ?thesis using Some w Inr by (simp add: Let_def del: as_str_Some)
    qed (use Some w in \<open>simp del: as_str_Some\<close>)
  qed simp
qed simp

text \<open>A pending batch one of whose instances cannot be written.\<close>

definition wedged :: "sstore \<Rightarrow> bool" where
  "wedged st \<longleftrightarrow> file_exists (ss_pending st) \<and>
     (\<exists>docs d k e. pending_documents (ss_pending st) = Inr docs \<and> d \<in> set docs \<and>
        jget d (lit ''id'') = JStr k \<and> check_write st k = Inl e)"

lemma recover_wedged:
  assumes "wedged st"
  shows "(\<exists>e. snd (recover st) = Inl e) \<and> wedged (exec st (fst (recover st)))"
proof -
  from assms obtain docs d k e where w: "file_exists (ss_pending st)"
    "pending_documents (ss_pending st) = Inr docs" "d \<in> set docs" "jget d (lit ''id'') = JStr k"
    "check_write st k = Inl e" by (auto simp: wedged_def)
  from publish_fails [OF w(5,3,4)] obtain ops e' where p: "publish_batch st docs = (ops, Inl e')" by blast
  have "fst (recover st) = ops" "\<exists>e. snd (recover st) = Inl e"
    by (auto simp: recover_def w(1,2) p as_cyclo_def reraise_def split: error.splits)
  moreover have "wedged (exec st ops)"
    using publish_frame [OF w(5), of docs] w by (auto simp: p wedged_def)
  ultimately show ?thesis by simp
qed

text \<open>C34: a pending batch that names an instance whose existing state is invalid is never published:
  every later operation of the store fails, for every instance, and leaves it pending.\<close>

theorem wedged_forever:
  assumes "wedged st" "run \<in> {fst (load st k), fst (save now st i), fst (save_many now st is), fst (remove_instance tail st k)}"
  shows "wedged (exec st run) \<and> (\<exists>e. snd (load st k) = Inl e) \<and> (\<exists>e. snd (save now st i) = Inl e) \<and>
    (\<exists>e. snd (save_many now st is) = Inl e) \<and> (\<exists>e. snd (remove_instance tail st k) = Inl e)"
proof -
  from recover_wedged [OF assms(1)] obtain rops e where
    r: "recover st = (rops, Inl e)" "wedged (exec st rops)" by (cases "recover st") auto
  have "load st k = (rops, Inl e)" "save now st i = (rops, Inl e)" "save_many now st is = (rops, Inl e)"
    "remove_instance tail st k = (rops, Inl e)"
    by (simp_all add: load_def save_def save_many_def remove_instance_def r(1))
  then show ?thesis using assms(2) r(2) by auto
qed

section \<open>The inventory\<close>

lemma load_document_Inr:
  assumes "load_document st name = Inr i"
  shows "in_id i = name \<and> validate_instance_id name = Inr name \<and>
    (\<exists>d b. entry_of st name = Some (IDir (Some (SDoc d)) b))"
  using assms
  by (auto simp: load_document_def instance_dir_def reraise_def read_json_def validate_instance_id_def
      split: option.splits inode.splits sfile.splits sum.splits if_splits)

lemma list_entry_Inr:
  "list_entry st name = Inr (Some i) \<longleftrightarrow> load_document st name = Inr i"
proof
  assume "list_entry st name = Inr (Some i)"
  then show "load_document st name = Inr i"
    by (auto simp: list_entry_def split: option.splits inode.splits if_splits)
next
  assume l: "load_document st name = Inr i"
  then show "list_entry st name = Inr (Some i)"
    using load_document_Inr [OF l] by (auto simp: list_entry_def file_exists_def)
qed

lemma list_entries_set:
  "list_entries st names = (result, errors) \<Longrightarrow>
    set result = {i. in_id i \<in> set names \<and> load_document st (in_id i) = Inr i} \<and>
    (distinct names \<longrightarrow> distinct result) \<and> map in_id result = filter (\<lambda>n. is_ok (load_document st n)) names \<and>
    (errors = [] \<longleftrightarrow> (\<forall>n\<in>set names. is_ok (list_entry st n)))"
proof (induction names arbitrary: result errors)
  case (Cons n names)
  obtain r es where r: "list_entries st names = (r, es)" by fastforce
  note IH = Cons.IH [OF r]
  have nl: "\<not> is_ok (load_document st n)" if "\<forall>i. list_entry st n \<noteq> Inr (Some i)"
    using that list_entry_Inr [of st n] by (auto simp: is_ok_iff)
  show ?case
  proof (cases "list_entry st n")
    case (Inl e)
    then have "\<not> is_ok (load_document st n)" using nl by auto
    then show ?thesis using Inl Cons.prems IH r by (auto simp: is_ok_iff)
  next
    case (Inr oi)
    show ?thesis
    proof (cases oi)
      case None
      then have "\<not> is_ok (load_document st n)" using Inr nl by auto
      then show ?thesis using Inr None Cons.prems IH r by (auto simp: is_ok_iff)
    next
      case (Some i)
      then have l: "load_document st n = Inr i" using Inr list_entry_Inr by blast
      then have n: "n = in_id i" using load_document_Inr by blast
      have e: "result = i # r" "errors = es" using Cons.prems by (simp_all add: r Inr Some)
      have ok: "is_ok (load_document st n)" "is_ok (list_entry st n)" by (simp_all add: l Inr)
      have "x = i" if "load_document st (in_id x) = Inr x" "in_id x = n" for x using that l by simp
      then have "set result = {x. in_id x \<in> set (n # names) \<and> load_document st (in_id x) = Inr x}"
        using IH l n unfolding e by auto
      moreover have "distinct result" if "distinct (n # names)"
        using that IH n by (auto simp: e)
      moreover have "map in_id result = filter (\<lambda>n. is_ok (load_document st n)) (n # names)"
        using IH n ok by (simp add: e)
      moreover have "errors = [] \<longleftrightarrow> (\<forall>n\<in>set (n # names). is_ok (list_entry st n))"
        using IH ok by (simp add: e)
      ultimately show ?thesis by blast
    qed
  qed
qed simp

lemma valid_id_no_dot: "validate_instance_id n = Inr n \<Longrightarrow> \<not> startswith (lit ''.'') n"
  by (cases n) (auto simp: validate_instance_id_def is_instance_id_def re_name_def startswith_def lit_def
      is_alnum_def ascii_defs split: if_splits)

text \<open>\<open>list_report\<close> returns, sorted by ID, exactly the instances that load; it reports an error
  exactly when some entry that is not hidden is neither a loadable instance nor an empty directory.\<close>

theorem list_report_exact:
  assumes "\<not> file_exists (ss_pending st)" "distinct (map fst (ss_entries st))"
  shows "\<exists>result errors. list_report st = ([], Inr (result, errors)) \<and>
    set result = {i. load_document st (in_id i) = Inr i} \<and> sorted (map in_id result) \<and>
    distinct (map in_id result) \<and>
    (errors = [] \<longleftrightarrow> (\<forall>n\<in>set (list_names st). is_ok (list_entry st n)))"
proof -
  obtain r es where r: "list_entries st (list_names st) = (r, es)" by fastforce
  note l = list_entries_set [OF r]
  have "distinct (list_names st)" using assms(2) by (simp add: list_names_def)
  then have "distinct (map in_id r)" using l by simp
  then have "distinct (map in_id (sort_key in_id r))" by (metis distinct_map distinct_sort set_sort)
  moreover have "in_id i \<in> set (list_names st)" if "load_document st (in_id i) = Inr i" for i
  proof -
    from load_document_Inr [OF that] obtain d b where
      "entry_of st (in_id i) = Some (IDir (Some (SDoc d)) b)" "validate_instance_id (in_id i) = Inr (in_id i)"
      by blast
    then show ?thesis using valid_id_no_dot
      by (auto simp: list_names_def entry_of_def dest!: map_of_SomeD intro: rev_image_eqI)
  qed
  then have "set r = {i. load_document st (in_id i) = Inr i}" using l by auto
  moreover have "list_report st = ([], Inr (sort_key in_id r, es))"
    using assms(1) by (simp add: list_report_def r)
  ultimately show ?thesis using l by auto
qed

section \<open>A concrete store\<close>

definition ex_now :: "ustr \<Rightarrow> ustr" where "ex_now k = lit ''t''"

definition ex_empty :: sstore where "ex_empty = \<lparr>ss_entries = [], ss_pending = None\<rparr>"

definition ex_damaged :: sstore where
  "ex_damaged = \<lparr>ss_entries = [(lit ''web.demo'', IDir (Some SBad) True)], ss_pending = None\<rparr>"

lemma ex_encode: "is_ok (encode_document (as_json (stamp ex_now ex_instance)))"
  by code_simp

lemma ex_encode_batch: "is_ok (encode_document (batch_payload [as_json (stamp ex_now ex_instance)]))"
  by code_simp


lemma ex_stamp_valid: "instance_valid (stamp ex_now ex_instance)"
  unfolding instance_valid_def by (intro conjI; code_simp)

lemma ex_prepare: "prepare_instance ex_now ex_instance = Inr (stamp ex_now ex_instance)"
  by (simp add: prepare_instance_Inr ex_stamp_valid)

lemma ex_check: "check_write ex_empty (in_id ex_instance) = Inr ()"
  by code_simp

lemma ex_writable: "writable (apply_sop ex_empty p) (in_id ex_instance) (as_json (stamp ex_now ex_instance))"
  if "\<exists>j. p = SetPending j"
proof -
  have "entry_of (apply_sop ex_empty p) = entry_of ex_empty" using that by auto
  then have "check_write (apply_sop ex_empty p) (in_id ex_instance) = Inr ()"
    using ex_check check_write_cong by metis
  then show ?thesis using ex_encode ex_stamp_valid by (auto simp: writable_def sound_doc_def)
qed

lemma ex_save: "\<exists>ops. save ex_now ex_empty ex_instance = (ops, Inr ())"
proof -
  have "writable ex_empty (in_id ex_instance) (as_json (stamp ex_now ex_instance))"
    using ex_encode ex_stamp_valid ex_check by (auto simp: writable_def sound_doc_def)
  then show ?thesis
    by (simp add: save_def recover_def ex_empty_def file_exists_def ex_prepare write_writable)
qed

lemma load_after_save_witness:
  "\<exists>ops. load (exec ex_empty ops) (in_id ex_instance) = ([], Inr (stamp ex_now ex_instance))"
proof -
  obtain ops where "save ex_now ex_empty ex_instance = (ops, Inr ())" using ex_save by blast
  from load_after_save [OF this] show ?thesis by (auto simp: ex_empty_def file_exists_def)
qed

lemma ex_save_many:
  "\<exists>ops. save_many ex_now ex_empty [ex_instance] =
     (SetPending (batch_payload [as_json (stamp ex_now ex_instance)]) # ops, Inr ())"
proof -
  have np: "recover ex_empty = ([], Inr ())" by (simp add: ex_empty_def file_exists_def)
  obtain b where b: "encode_document (batch_payload [as_json (stamp ex_now ex_instance)]) = Inr b"
    using ex_encode_batch by (auto simp: is_ok_iff)
  let ?p = "SetPending (batch_payload [as_json (stamp ex_now ex_instance)])"
  have "writable (apply_sop ex_empty ?p) (in_id ex_instance) (as_json (stamp ex_now ex_instance))"
    by (rule ex_writable) blast
  from write_writable [OF this] show ?thesis
    by (simp add: save_many_def np ex_prepare b Let_def del: apply_sop.simps)
qed

lemma save_many_atomic_witness:
  "\<exists>rops. recover (exec ex_empty [SetPending (batch_payload [as_json (stamp ex_now ex_instance)])]) = (rops, Inr ())"
proof -
  obtain ops where "save_many ex_now ex_empty [ex_instance] =
     ([SetPending (batch_payload [as_json (stamp ex_now ex_instance)])] @ ops, Inr ())" using ex_save_many by auto
  from save_many_atomic [OF this _ refl] show ?thesis by (auto simp: ex_empty_def file_exists_def)
qed

text \<open>\<open>save_many\<close> over a damaged \<open>run.json\<close> leaves the batch pending.\<close>

lemma ex_wedged:
  "wedged (exec ex_damaged (fst (save_many ex_now ex_damaged [ex_instance])))"
proof -
  let ?doc = "as_json (stamp ex_now ex_instance)"
  let ?p = "batch_payload [?doc]"
  have np: "recover ex_damaged = ([], Inr ())" by (simp add: ex_damaged_def file_exists_def)
  obtain b where b: "encode_document ?p = Inr b" using ex_encode_batch by (auto simp: is_ok_iff)
  have "is_ok (check_write ex_damaged (lit ''web.demo'')) = False" by code_simp
  moreover have id: "in_id ex_instance = lit ''web.demo''" by (simp add: ex_instance_def)
  ultimately obtain e where e0: "check_write ex_damaged (in_id ex_instance) = Inl e"
    by (cases "check_write ex_damaged (in_id ex_instance)") auto
  have e: "check_write (ex_damaged\<lparr>ss_pending := Some (SDoc (JObj ?p))\<rparr>) (in_id ex_instance) = Inl e"
    unfolding e0 [symmetric] by (rule check_write_cong) simp
  have d: "pending_documents (Some (SDoc (JObj ?p))) = Inr [?doc]"
    using pending_documents_payload [of "[stamp ex_now ex_instance]"] ex_stamp_valid by simp
  have "fst (save_many ex_now ex_damaged [ex_instance]) = [SetPending ?p]"
    using e by (simp add: save_many_def np ex_prepare b Let_def write_document_def)
  then show ?thesis using e d by (auto simp: wedged_def file_exists_def)
qed

lemma wedged_forever_witness:
  "\<exists>e. snd (load (exec ex_damaged (fst (save_many ex_now ex_damaged [ex_instance]))) (lit ''other'')) = Inl e"
  using wedged_forever [OF ex_wedged insertI1] by blast

lemma list_report_exact_witness:
  "\<exists>result errors. list_report ex_damaged = ([], Inr (result, errors)) \<and> errors \<noteq> []"
proof -
  have "\<exists>result errors. list_report ex_damaged = ([], Inr (result, errors)) \<and>
    set result = {i. load_document ex_damaged (in_id i) = Inr i} \<and> sorted (map in_id result) \<and>
    distinct (map in_id result) \<and>
    (errors = [] \<longleftrightarrow> (\<forall>n\<in>set (list_names ex_damaged). is_ok (list_entry ex_damaged n)))"
    by (rule list_report_exact) (simp_all add: ex_damaged_def file_exists_def)
  moreover have "\<not> (\<forall>n\<in>set (list_names ex_damaged). is_ok (list_entry ex_damaged n))" by code_simp
  ultimately show ?thesis by blast
qed

end
