(* ===== verification/State_Lock.thy ===== *)
theory State_Lock imports Prelude begin

text \<open>
  The lock of a state root, \<open>StateStore.locked\<close> and \<open>_state_locked\<close> of \<open>src/cyclo/state.py\<close>, between the threads of any
  number of processes, such as those of the dashboard server, which share one store.  Every \<open>locked\<close> opens the lock file
  anew, so that \<open>flock\<close> excludes threads of one process as well.  A thread has a frame for every context it entered;
  the innermost is first.  A move is what a thread does between two points where another may run.
\<close>

section \<open>Frames\<close>

text \<open>\<open>Waiting store bind blocking\<close>: before \<open>flock\<close>; \<open>Binding\<close>: it has the lock and binds the scope; \<open>Inside\<close>: in the body, with
  \<open>_lock_owner\<close> set; \<open>Leaving\<close>: \<open>_lock_owner\<close> is cleared, or was not set; \<open>Passing\<close>: in the body of a \<open>_state_locked\<close> that
  found the thread to be the owner.\<close>

datatype frame = Waiting nat bool bool | Binding nat | Entering nat | Inside nat | Leaving nat | Passing nat

record locks =
  lk_flock :: "nat option"
  lk_owner :: "nat \<Rightarrow> nat option"
  lk_frames :: "nat \<Rightarrow> frame list"

definition no_locks :: locks where
  "no_locks = \<lparr>lk_flock = None, lk_owner = (\<lambda>s. None), lk_frames = (\<lambda>t. [])\<rparr>"

section \<open>Moves\<close>

datatype lock_move = CallLocked nat bool bool | CallStateLocked nat | OpenFails | Flock | Bound bool | SetOwner | LeaveBody | Unlock

abbreviation set_frames :: "nat \<Rightarrow> frame list \<Rightarrow> locks \<Rightarrow> locks" where
  "set_frames t fs l \<equiv> l\<lparr>lk_frames := (lk_frames l)(t := fs)\<rparr>"

text \<open>A thread that is in the body of one store uses that store; it enters \<open>locked\<close> only outside of any, as the commands do.\<close>

definition in_body :: "nat \<Rightarrow> frame list \<Rightarrow> bool" where
  "in_body s fs \<longleftrightarrow> fs = [] \<or> hd fs = Inside s \<or> hd fs = Passing s"

fun lock_step :: "nat \<Rightarrow> lock_move \<Rightarrow> locks \<Rightarrow> locks option" where
  "lock_step t (CallLocked s bind blocking) l =
     (if lk_frames l t = [] then Some (set_frames t [Waiting s bind blocking] l) else None)"
| "lock_step t (CallStateLocked s) l =
     (if in_body s (lk_frames l t)
      then Some (set_frames t ((if lk_owner l s = Some t then Passing s else Waiting s False True) # lk_frames l t) l)
      else None)"
| "lock_step t OpenFails l =
     (case lk_frames l t of Waiting s bind blocking # fs \<Rightarrow> Some (set_frames t fs l) | _ \<Rightarrow> None)"
| "lock_step t Flock l =
     (case lk_frames l t of
        Waiting s bind blocking # fs \<Rightarrow>
          if lk_flock l = None
          then Some (set_frames t ((if bind then Binding s else Entering s) # fs) (l\<lparr>lk_flock := Some t\<rparr>))
          else if blocking then None else Some (set_frames t fs l)
      | _ \<Rightarrow> None)"
| "lock_step t (Bound ok) l =
     (case lk_frames l t of
        Binding s # fs \<Rightarrow> Some (set_frames t ((if ok then Entering s else Leaving s) # fs) l)
      | _ \<Rightarrow> None)"
| "lock_step t SetOwner l =
     (case lk_frames l t of
        Entering s # fs \<Rightarrow> Some (set_frames t (Inside s # fs) (l\<lparr>lk_owner := (lk_owner l)(s := Some t)\<rparr>))
      | _ \<Rightarrow> None)"
| "lock_step t LeaveBody l =
     (case lk_frames l t of
        Inside s # fs \<Rightarrow> Some (set_frames t (Leaving s # fs) (l\<lparr>lk_owner := (lk_owner l)(s := None)\<rparr>))
      | Passing s # fs \<Rightarrow> Some (set_frames t fs l)
      | _ \<Rightarrow> None)"
| "lock_step t Unlock l =
     (case lk_frames l t of Leaving s # fs \<Rightarrow> Some (set_frames t fs (l\<lparr>lk_flock := None\<rparr>)) | _ \<Rightarrow> None)"

inductive lock_reach :: "locks \<Rightarrow> bool" where
  initially: "lock_reach no_locks"
| moved: "lock_reach l \<Longrightarrow> lock_step t m l = Some l' \<Longrightarrow> lock_reach l'"

section \<open>The shape of a thread\<close>

definition passes :: "nat \<Rightarrow> frame list \<Rightarrow> bool" where
  "passes s fs \<longleftrightarrow> (\<forall>f\<in>set fs. f = Passing s)"

text \<open>A thread waits with one frame, or holds the lock with one frame below those that pass.\<close>

inductive thread_ok :: "locks \<Rightarrow> nat \<Rightarrow> frame list \<Rightarrow> bool" for l t where
  outside: "lk_flock l \<noteq> Some t \<Longrightarrow> \<forall>s. lk_owner l s \<noteq> Some t \<Longrightarrow> thread_ok l t []"
| waits: "lk_flock l \<noteq> Some t \<Longrightarrow> \<forall>s. lk_owner l s \<noteq> Some t \<Longrightarrow> thread_ok l t [Waiting s bind blocking]"
| holds: "lk_flock l = Some t \<Longrightarrow> \<forall>s. lk_owner l s \<noteq> Some t \<Longrightarrow> f \<in> {Binding s, Entering s, Leaving s} \<Longrightarrow> thread_ok l t [f]"
| inside: "lk_flock l = Some t \<Longrightarrow> \<forall>s'. lk_owner l s' = Some t \<longleftrightarrow> s' = s \<Longrightarrow> passes s fs \<Longrightarrow> thread_ok l t (fs @ [Inside s])"

definition locks_inv :: "locks \<Rightarrow> bool" where
  "locks_inv l \<longleftrightarrow> (\<forall>t. thread_ok l t (lk_frames l t))"

lemma thread_ok_other:
  "thread_ok l t fs \<Longrightarrow> (lk_flock l' = Some t \<longleftrightarrow> lk_flock l = Some t) \<Longrightarrow> \<forall>s. lk_owner l' s = Some t \<longleftrightarrow> lk_owner l s = Some t \<Longrightarrow>
    thread_ok l' t fs"
  by (induction rule: thread_ok.induct) (auto intro: thread_ok.intros)

inductive_cases thread_okE: "thread_ok l t fs"

lemma waiting_alone: "thread_ok l t (Waiting s bind blocking # fs) \<Longrightarrow>
    fs = [] \<and> lk_flock l \<noteq> Some t \<and> (\<forall>s. lk_owner l s \<noteq> Some t)"
  by (erule thread_okE) (auto simp: Cons_eq_append_conv passes_def)

lemma holding_alone: "thread_ok l t (f # fs) \<Longrightarrow> f \<in> {Binding s, Entering s, Leaving s} \<Longrightarrow>
    fs = [] \<and> lk_flock l = Some t \<and> (\<forall>s. lk_owner l s \<noteq> Some t)"
  by (erule thread_okE) (auto simp: Cons_eq_append_conv passes_def)

lemma inside_last: "thread_ok l t (Inside s # fs) \<Longrightarrow> fs = [] \<and> lk_flock l = Some t \<and> (\<forall>s'. lk_owner l s' = Some t \<longleftrightarrow> s' = s)"
  by (erule thread_okE) (auto simp: Cons_eq_append_conv passes_def)

lemma passing_more: "thread_ok l t (Passing s # fs) \<Longrightarrow>
    \<exists>gs. fs = gs @ [Inside s] \<and> passes s gs \<and> lk_flock l = Some t \<and> (\<forall>s'. lk_owner l s' = Some t \<longleftrightarrow> s' = s)"
  by (erule thread_okE) (auto simp: Cons_eq_append_conv passes_def)

lemma waiter_shape: "thread_ok l t fs \<Longrightarrow> lk_flock l = None \<Longrightarrow> fs \<noteq> [] \<Longrightarrow> \<exists>s bind blocking. fs = [Waiting s bind blocking]"
  by (erule thread_okE) auto

lemma locks_inv_set:
  assumes "locks_inv l" "thread_ok l' t (lk_frames l' t)" "\<And>u. u \<noteq> t \<Longrightarrow> lk_frames l' u = lk_frames l u"
    and "\<And>u. u \<noteq> t \<Longrightarrow> (lk_flock l' = Some u \<longleftrightarrow> lk_flock l = Some u)"
    and "\<And>u s. u \<noteq> t \<Longrightarrow> (lk_owner l' s = Some u \<longleftrightarrow> lk_owner l s = Some u)"
  shows "locks_inv l'"
  unfolding locks_inv_def
proof
  fix u
  show "thread_ok l' u (lk_frames l' u)"
  proof (cases "u = t")
    case False
    then show ?thesis using thread_ok_other [of l u "lk_frames l u" l'] assms unfolding locks_inv_def by simp
  qed (simp add: assms(2))
qed

lemma in_body_cases:
  assumes "thread_ok l t fs" "in_body s fs"
  obtains (idle) "fs = []" "lk_flock l \<noteq> Some t" "\<forall>s. lk_owner l s \<noteq> Some t"
  | (body) gs where "fs = gs @ [Inside s]" "passes s gs" "lk_flock l = Some t" "\<forall>s'. lk_owner l s' = Some t \<longleftrightarrow> s' = s"
proof (cases fs)
  case Nil
  then show thesis using assms(1) idle by (auto elim: thread_okE)
next
  case (Cons f rest)
  then consider "f = Inside s" | "f = Passing s" using assms(2) by (auto simp: in_body_def)
  then show thesis
  proof cases
    case 1
    then show thesis using inside_last assms(1) Cons body [of "[]"] by (auto simp: passes_def)
  next
    case 2
    then obtain gs where "rest = gs @ [Inside s]" "passes s gs" "lk_flock l = Some t" "\<forall>s'. lk_owner l s' = Some t \<longleftrightarrow> s' = s"
      using passing_more assms(1) Cons by metis
    then show thesis using body [of "Passing s # gs"] Cons 2 by (simp add: passes_def)
  qed
qed

lemma call_state_ok:
  assumes "thread_ok l t (lk_frames l t)" "in_body s (lk_frames l t)"
    "l' = set_frames t ((if lk_owner l s = Some t then Passing s else Waiting s False True) # lk_frames l t) l"
  shows "thread_ok l' t (lk_frames l' t)"
proof (cases rule: in_body_cases [OF assms(1,2)])
  case 1
  then show ?thesis unfolding assms(3) by (auto intro: thread_ok.waits)
next
  case (2 gs)
  then have "thread_ok l' t ((Passing s # gs) @ [Inside s])" unfolding assms(3) by (intro thread_ok.inside) (auto simp: passes_def)
  then show ?thesis using 2 by (simp add: assms(3))
qed

lemma step_thread_ok:
  assumes ok: "thread_ok l t (lk_frames l t)" and step: "lock_step t m l = Some l'"
  shows "thread_ok l' t (lk_frames l' t)"
proof (cases m)
  case (CallLocked s bind blocking)
  then have f: "lk_frames l t = []" "l' = set_frames t [Waiting s bind blocking] l" using step by (auto split: if_splits)
  have "lk_flock l \<noteq> Some t \<and> (\<forall>s. lk_owner l s \<noteq> Some t)" using ok unfolding f(1) by (auto elim: thread_okE)
  then show ?thesis unfolding f(2) by (auto intro: thread_ok.waits)
next
  case (CallStateLocked s)
  then have "in_body s (lk_frames l t)"
    "l' = set_frames t ((if lk_owner l s = Some t then Passing s else Waiting s False True) # lk_frames l t) l"
    using step by (simp_all split: if_splits)
  then show ?thesis by (rule call_state_ok [OF ok])
next
  case OpenFails
  then obtain s bind blocking fs where f: "lk_frames l t = Waiting s bind blocking # fs" "l' = set_frames t fs l"
    using step by (auto split: list.splits frame.splits)
  then have "fs = []" "lk_flock l \<noteq> Some t" "\<forall>s. lk_owner l s \<noteq> Some t"
    using waiting_alone [of l t s bind blocking fs] ok by auto
  then show ?thesis using f(2) by (auto intro: thread_ok.outside)
next
  case Flock
  then obtain s bind blocking fs where f: "lk_frames l t = Waiting s bind blocking # fs" and
    l': "l' = (if lk_flock l = None then set_frames t ((if bind then Binding s else Entering s) # fs) (l\<lparr>lk_flock := Some t\<rparr>)
         else set_frames t fs l)"
    using step by (auto split: list.splits frame.splits if_splits)
  then show ?thesis using waiting_alone [of l t s bind blocking fs] ok
    by (auto intro: thread_ok.outside thread_ok.holds)
next
  case (Bound okay)
  then obtain s fs where f: "lk_frames l t = Binding s # fs" "l' = set_frames t ((if okay then Entering s else Leaving s) # fs) l"
    using step by (auto split: list.splits frame.splits)
  then show ?thesis using holding_alone [of l t "Binding s" fs s] ok by (auto intro: thread_ok.holds)
next
  case SetOwner
  then obtain s fs where f: "lk_frames l t = Entering s # fs"
      "l' = set_frames t (Inside s # fs) (l\<lparr>lk_owner := (lk_owner l)(s := Some t)\<rparr>)"
    using step by (auto split: list.splits frame.splits)
  then have "fs = []" "lk_flock l = Some t" "\<forall>s. lk_owner l s \<noteq> Some t" using holding_alone [of l t "Entering s" fs s] ok by auto
  then show ?thesis using thread_ok.inside [of l' t s "[]"] f(2) by (simp add: passes_def)
next
  case LeaveBody
  then consider s fs where "lk_frames l t = Inside s # fs" "l' = set_frames t (Leaving s # fs) (l\<lparr>lk_owner := (lk_owner l)(s := None)\<rparr>)"
    | s fs where "lk_frames l t = Passing s # fs" "l' = set_frames t fs l"
    using step by (auto split: list.splits frame.splits)
  then show ?thesis
  proof cases
    case (1 s fs)
    then have "fs = []" "lk_flock l = Some t" "\<forall>s'. lk_owner l s' = Some t \<longleftrightarrow> s' = s" using inside_last [of l t s fs] ok by simp_all
    then show ?thesis using thread_ok.holds [of l' t "Leaving s" s] 1(2) by simp
  next
    case (2 s fs)
    then obtain gs where "fs = gs @ [Inside s]" "passes s gs" "lk_flock l = Some t" "\<forall>s'. lk_owner l s' = Some t \<longleftrightarrow> s' = s"
      using passing_more ok by metis
    then show ?thesis using thread_ok.inside [of l' t s gs] 2 by simp
  qed
next
  case Unlock
  then obtain s fs where f: "lk_frames l t = Leaving s # fs" "l' = set_frames t fs (l\<lparr>lk_flock := None\<rparr>)"
    using step by (auto split: list.splits frame.splits)
  then show ?thesis using holding_alone [of l t "Leaving s" fs s] ok by (auto intro: thread_ok.outside)
qed

lemma step_others:
  assumes inv: "locks_inv l" and step: "lock_step t m l = Some l'" and "u \<noteq> t"
  shows "lk_frames l' u = lk_frames l u \<and> (lk_flock l' = Some u \<longleftrightarrow> lk_flock l = Some u) \<and>
    (lk_owner l' s = Some u \<longleftrightarrow> lk_owner l s = Some u)"
proof -
  have ok: "thread_ok l v (lk_frames l v)" for v using inv by (simp add: locks_inv_def)
  have holder: "lk_flock l = Some v" if "lk_owner l s = Some v" for v s
    using ok [of v] that by (auto elim: thread_okE)
  have "lk_frames l' u = lk_frames l u" using step assms(3) by (cases m) (auto split: if_splits list.splits frame.splits)
  moreover have "lk_flock l' = Some u \<longleftrightarrow> lk_flock l = Some u"
  proof (cases "m = Unlock")
    case True
    then obtain q fs where "lk_frames l t = Leaving q # fs" "lk_flock l' = None" using step by (auto split: list.splits frame.splits)
    then show ?thesis using holding_alone [of l t "Leaving q" fs q] ok [of t] assms(3) by auto
  next
    case False
    then show ?thesis using step assms(3) by (cases m) (auto split: if_splits list.splits frame.splits)
  qed
  moreover have "lk_owner l' s = Some u \<longleftrightarrow> lk_owner l s = Some u"
  proof (cases m)
    case SetOwner
    then obtain q fs where f: "lk_frames l t = Entering q # fs" "lk_owner l' = (lk_owner l)(q := Some t)"
      using step by (auto split: list.splits frame.splits)
    then have "lk_flock l = Some t" using holding_alone [of l t "Entering q" fs q] ok [of t] by auto
    then show ?thesis using holder [of q u] f assms(3) by auto
  next
    case LeaveBody
    then consider q fs where "lk_frames l t = Inside q # fs" "lk_owner l' = (lk_owner l)(q := None)" | "lk_owner l' = lk_owner l"
      using step by (auto split: list.splits frame.splits)
    then show ?thesis
    proof cases
      case (1 q fs)
      then have "lk_owner l q = Some t" using inside_last [of l t q fs] ok [of t] by auto
      then show ?thesis using 1(2) assms(3) by auto
    qed simp
  qed (use step in \<open>auto split: if_splits list.splits frame.splits\<close>)
  ultimately show ?thesis by blast
qed

lemma locks_inv_step: "locks_inv l \<Longrightarrow> lock_step t m l = Some l' \<Longrightarrow> locks_inv l'"
proof (rule locks_inv_set [where t = t and l = l])
  assume inv: "locks_inv l" and step: "lock_step t m l = Some l'"
  show "thread_ok l' t (lk_frames l' t)" by (rule step_thread_ok [OF _ step]) (use inv in \<open>simp add: locks_inv_def\<close>)
  show "lk_frames l' u = lk_frames l u" "lk_flock l' = Some u \<longleftrightarrow> lk_flock l = Some u"
    "lk_owner l' s = Some u \<longleftrightarrow> lk_owner l s = Some u" if "u \<noteq> t" for u s
    using step_others [OF inv step that] by blast+
qed

lemma locks_inv_reach: "lock_reach l \<Longrightarrow> locks_inv l"
proof (induction rule: lock_reach.induct)
  case initially
  show ?case by (auto simp: locks_inv_def no_locks_def intro: thread_ok.outside)
next
  case (moved l t m l')
  then show ?case using locks_inv_step by blast
qed

section \<open>What the lock promises\<close>

definition in_critical :: "nat \<Rightarrow> locks \<Rightarrow> bool" where
  "in_critical t l \<longleftrightarrow> list_ex (\<lambda>f. case f of Waiting s bind blocking \<Rightarrow> False | _ \<Rightarrow> True) (lk_frames l t)"

lemma critical_holds: "thread_ok l t (lk_frames l t) \<Longrightarrow> in_critical t l \<longleftrightarrow> lk_flock l = Some t"
  by (erule thread_ok.cases) (auto simp: in_critical_def)

lemma holder_moves:
  assumes "thread_ok l t (lk_frames l t)" "lk_flock l = Some t"
  shows "\<exists>m. lock_step t m l \<noteq> None"
  using assms(1)
proof (cases rule: thread_ok.cases)
  case (holds f s)
  then show ?thesis by (auto intro: exI [of _ "Bound True"] exI [of _ SetOwner] exI [of _ Unlock])
next
  case (inside s fs)
  then show ?thesis by (cases fs) (auto intro!: exI [of _ LeaveBody] simp: passes_def)
qed (use assms(2) in simp_all)

text \<open>C25: no two threads, of one process or of several, are inside \<open>locked\<close> at once; \<open>_lock_owner\<close> names a thread exactly while that
  thread is in the body of the store, so that \<open>_state_locked\<close> neither runs unlocked nor waits for its own thread; and
  while any thread is inside or waits, some thread can move on.\<close>

theorem lock_exclusive:
  assumes "lock_reach l"
  shows "(in_critical t l \<and> in_critical u l \<longrightarrow> t = u) \<and>
    (lk_owner l s = Some t \<longleftrightarrow> Inside s \<in> set (lk_frames l t)) \<and>
    (Passing s \<in> set (lk_frames l t) \<longrightarrow> Inside s \<in> set (lk_frames l t)) \<and>
    (\<forall>bind blocking. Waiting s bind blocking \<in> set (lk_frames l t) \<longrightarrow> \<not> in_critical t l) \<and>
    (lk_frames l t \<noteq> [] \<longrightarrow> (\<exists>v m. lk_frames l v \<noteq> [] \<and> lock_step v m l \<noteq> None))"
proof -
  have ok: "thread_ok l v (lk_frames l v)" for v using locks_inv_reach [OF assms] by (simp add: locks_inv_def)
  have c: "in_critical v l \<longleftrightarrow> lk_flock l = Some v" for v by (rule critical_holds [OF ok])
  have body: "(lk_owner l s = Some t \<longleftrightarrow> Inside s \<in> set (lk_frames l t)) \<and>
      (Passing s \<in> set (lk_frames l t) \<longrightarrow> Inside s \<in> set (lk_frames l t)) \<and>
      (\<forall>bind blocking. Waiting s bind blocking \<in> set (lk_frames l t) \<longrightarrow> lk_flock l \<noteq> Some t)"
    using ok [of t] by (cases rule: thread_ok.cases) (auto simp: passes_def)
  have "\<exists>v m. lk_frames l v \<noteq> [] \<and> lock_step v m l \<noteq> None" if f: "lk_frames l t \<noteq> []"
  proof (cases "lk_flock l")
    case (Some v)
    then have "lk_frames l v \<noteq> []" using c [of v] by (auto simp: in_critical_def)
    then show ?thesis using holder_moves [OF ok Some] by blast
  next
    case None
    then obtain q bind blocking where "lk_frames l t = [Waiting q bind blocking]"
      using waiter_shape [OF ok None f] by blast
    then have "lock_step t Flock l \<noteq> None" using None by simp
    then show ?thesis using f by blast
  qed
  then show ?thesis using c body by auto
qed

section \<open>A witness\<close>

text \<open>A command holds the lock and lists instances; a thread of the dashboard waits.\<close>

definition ex_locks :: locks where
  "ex_locks = (case Option.bind (Option.bind (Option.bind (Option.bind (Option.bind (Option.bind (Some no_locks)
       (lock_step 1 (CallLocked 7 True True))) (lock_step 1 Flock)) (lock_step 1 (Bound True))) (lock_step 1 SetOwner))
       (lock_step 1 (CallStateLocked 7))) (lock_step 2 (CallStateLocked 9)) of Some l \<Rightarrow> l | None \<Rightarrow> no_locks)"

lemma lock_exclusive_witness:
  "lk_owner ex_locks 7 = Some 1 \<and> in_critical 1 ex_locks \<and> \<not> in_critical 2 ex_locks \<and> (\<exists>v m. lock_step v m ex_locks \<noteq> None)"
proof -
  let ?l1 = "the (lock_step 1 (CallLocked 7 True True) no_locks)"
  let ?l2 = "the (lock_step 1 Flock ?l1)"
  let ?l3 = "the (lock_step 1 (Bound True) ?l2)"
  let ?l4 = "the (lock_step 1 SetOwner ?l3)"
  let ?l5 = "the (lock_step 1 (CallStateLocked 7) ?l4)"
  let ?l6 = "the (lock_step 2 (CallStateLocked 9) ?l5)"
  have s: "lock_step 1 (CallLocked 7 True True) no_locks = Some ?l1" "lock_step 1 Flock ?l1 = Some ?l2"
    "lock_step 1 (Bound True) ?l2 = Some ?l3" "lock_step 1 SetOwner ?l3 = Some ?l4"
    "lock_step 1 (CallStateLocked 7) ?l4 = Some ?l5" "lock_step 2 (CallStateLocked 9) ?l5 = Some ?l6"
    by (simp_all add: no_locks_def in_body_def)
  have "ex_locks = ?l6" unfolding ex_locks_def by (simp add: no_locks_def in_body_def)
  moreover have "lock_reach ?l6"
    using lock_reach.moved [OF lock_reach.moved [OF lock_reach.moved [OF lock_reach.moved [OF lock_reach.moved [OF lock_reach.moved
      [OF lock_reach.initially s(1)] s(2)] s(3)] s(4)] s(5)] s(6)] .
  ultimately have r: "lock_reach ex_locks" by simp
  have f: "lk_frames ex_locks 1 = [Passing 7, Inside 7]" "lk_frames ex_locks 2 = [Waiting 9 False True]"
    by (simp_all add: ex_locks_def no_locks_def in_body_def)
  then have "in_critical 1 ex_locks" by (simp add: in_critical_def)
  then show ?thesis using lock_exclusive [OF r, of 1 2 7] f by auto
qed

end
