(* ===== verification/Fs_Tree.thy ===== *)
theory Fs_Tree imports Json begin

text \<open>
  The directory trees that the components read: the entries of a directory in the order of
  \<open>os.scandir\<close>, the bytes and the modification time of a file.  Times are microseconds since the
  epoch, within the years \<open>datetime\<close> represents.  \<open>QDenied\<close> is a directory that cannot be opened
  for want of permission.  Also the lenient UTF-8 decoder.
\<close>

section \<open>Trees\<close>

datatype qnode =
    QFile int bytes
  | QDir int "(ustr \<times> qnode) list"
  | QLink
  | QSpecial
  | QDenied

type_synonym qdir = "(ustr \<times> qnode) list"

datatype errno = ENOENT | ELOOP | ENOTDIR | EACCES

definition strerror :: "errno \<Rightarrow> ustr" where
  "strerror e = (case e of
      ENOENT \<Rightarrow> lit ''No such file or directory''
    | ELOOP \<Rightarrow> lit ''Too many levels of symbolic links''
    | ENOTDIR \<Rightarrow> lit ''Not a directory''
    | EACCES \<Rightarrow> lit ''Permission denied'')"

definition open_directory_at :: "qdir \<Rightarrow> ustr \<Rightarrow> errno + int \<times> qdir" where
  "open_directory_at entries name =
     (case map_of entries name of
        None \<Rightarrow> Inl ENOENT
      | Some (QDir mtime es) \<Rightarrow> Inr (mtime, es)
      | Some QLink \<Rightarrow> Inl ELOOP
      | Some QDenied \<Rightarrow> Inl EACCES
      | Some _ \<Rightarrow> Inl ENOTDIR)"

text \<open>\<open>_open_directory\<close>: every component in turn, from the root directory.\<close>

fun open_directory :: "qdir \<Rightarrow> ustr list \<Rightarrow> errno + qdir" where
  "open_directory d [] = Inr d"
| "open_directory d (component # rest) =
     rbind (open_directory_at d component) (\<lambda>(_, es). open_directory es rest)"

section \<open>Decoding with replacement\<close>

text \<open>\<open>bytes.decode("utf-8", errors="replace")\<close>: each maximal prefix of a sequence that is not
  well-formed becomes one U+FFFD.  \<open>tails\<close> gives, for a lead byte, the ranges of the bytes that
  follow it.\<close>

definition tails :: "nat \<Rightarrow> (nat \<times> nat) list option" where
  "tails b =
     (if 194 \<le> b \<and> b \<le> 223 then Some [(128, 191)]
      else if b = 224 then Some [(160, 191), (128, 191)]
      else if b = 237 then Some [(128, 159), (128, 191)]
      else if 225 \<le> b \<and> b \<le> 239 then Some [(128, 191), (128, 191)]
      else if b = 240 then Some [(144, 191), (128, 191), (128, 191)]
      else if 241 \<le> b \<and> b \<le> 243 then Some [(128, 191), (128, 191), (128, 191)]
      else if b = 244 then Some [(128, 143), (128, 191), (128, 191)]
      else None)"

fun matched :: "(nat \<times> nat) list \<Rightarrow> bytes \<Rightarrow> nat" where
  "matched ((lo, hi) # rs) (b # bs) = (if lo \<le> b \<and> b \<le> hi then Suc (matched rs bs) else 0)"
| "matched _ _ = 0"

definition code_point :: "nat \<Rightarrow> bytes \<Rightarrow> uchar" where
  "code_point b cs =
     foldl (\<lambda>acc c. 64 * acc + (c - 128))
       (if length cs = 1 then b - 192 else if length cs = 2 then b - 224 else b - 240) cs"

function utf8_decode_replace :: "bytes \<Rightarrow> ustr" where
  "utf8_decode_replace [] = []"
| "utf8_decode_replace (b # bs) =
     (if b < 128 then b # utf8_decode_replace bs
      else
        case tails b of
          None \<Rightarrow> 65533 # utf8_decode_replace bs
        | Some rs \<Rightarrow>
            let n = matched rs bs in
            (if n = length rs then code_point b (take n bs) else 65533) #
            utf8_decode_replace (drop n bs))"
  by pat_completeness auto
termination by (relation "measure length") auto

fun first_some :: "('a \<Rightarrow> 'b option) \<Rightarrow> 'a list \<Rightarrow> 'b option" where
  "first_some f [] = None"
| "first_some f (x # xs) = (case f x of None \<Rightarrow> first_some f xs | Some y \<Rightarrow> Some y)"

end
