(* ===== verification/Queue.thy ===== *)
theory Queue imports Fs_Tree begin

text \<open>
  The bounded scan of an AgentWS queue, \<open>src/cyclo/team/queue.py\<close>.  The tree does not change during
  a scan; descriptors are not modelled.
\<close>

section \<open>Limits and the budget\<close>

definition is_queue_char :: "uchar \<Rightarrow> bool" where
  "is_queue_char c \<longleftrightarrow> is_alnum c \<or> c = 46 \<or> c = 95 \<or> c = 45"

definition safe_queue_id :: "ustr \<Rightarrow> bool" where
  "safe_queue_id s \<longleftrightarrow> re_name_star is_alnum is_queue_char s"

definition TASK_STATES :: "ustr list" where
  "TASK_STATES = [lit ''open'', lit ''closed'', lit ''unknown'']"
definition KNOWN_JOB_STATUSES :: "ustr list" where
  "KNOWN_JOB_STATUSES =
     [lit ''pending'', lit ''claimed'', lit ''running'', lit ''done'', lit ''failed'']"
definition JOB_STATUSES :: "ustr list" where
  "JOB_STATUSES = KNOWN_JOB_STATUSES @ [lit ''unknown'']"
definition SUPERVISOR_DIRECTORY :: ustr where "SUPERVISOR_DIRECTORY = lit ''.team-runs''"
definition SUSPENDED_SUFFIX :: ustr where "SUSPENDED_SUFFIX = lit ''.suspended''"
definition SUPERVISOR_READY_FILE :: ustr where "SUPERVISOR_READY_FILE = lit ''supervisor.ready''"

record queue_limits =
  ql_max_entries :: int
  ql_max_read_bytes :: int
  ql_recent_tasks :: int
  ql_recent_activity :: int

definition make_limits :: "int \<Rightarrow> int \<Rightarrow> int \<Rightarrow> int \<Rightarrow> queue_limits res" where
  "make_limits e b t a =
     (if e < 0 \<or> b < 0 \<or> t < 0 \<or> a < 0 then Inl (ValueErr ''must not be negative'')
      else Inr \<lparr>ql_max_entries = e, ql_max_read_bytes = b, ql_recent_tasks = t, ql_recent_activity = a\<rparr>)"

record scan_budget =
  sb_limits :: queue_limits
  sb_entries :: int
  sb_read_bytes :: int
  sb_truncated :: bool

definition new_budget :: "queue_limits \<Rightarrow> scan_budget" where
  "new_budget limits = \<lparr>sb_limits = limits, sb_entries = 0, sb_read_bytes = 0, sb_truncated = False\<rparr>"

definition take_entry :: "scan_budget \<Rightarrow> bool \<times> scan_budget" where
  "take_entry b =
     (if ql_max_entries (sb_limits b) \<le> sb_entries b then (False, b\<lparr>sb_truncated := True\<rparr>)
      else (True, b\<lparr>sb_entries := sb_entries b + 1\<rparr>))"

definition read_allowance :: "scan_budget \<Rightarrow> int \<Rightarrow> int \<times> scan_budget" where
  "read_allowance b requested =
     (let remaining = ql_max_read_bytes (sb_limits b) - sb_read_bytes b in
      if remaining \<le> 0 then (0, b\<lparr>sb_truncated := True\<rparr>) else (min requested remaining, b))"

section \<open>Reading\<close>

definition read_regular_at :: "qdir \<Rightarrow> ustr \<Rightarrow> scan_budget \<Rightarrow> int \<Rightarrow> ustr \<Rightarrow> ustr \<times> scan_budget" where
  "read_regular_at entries name budget max_bytes default_text =
     (let (allowance, budget) = read_allowance budget max_bytes in
      if allowance = 0 then (default_text, budget)
      else
        case map_of entries name of
          Some (QFile _ content) \<Rightarrow>
            let raw = take (nat allowance) content in
            (utf8_decode_replace raw, budget\<lparr>sb_read_bytes := sb_read_bytes budget + int (length raw)\<rparr>)
        | _ \<Rightarrow> (default_text, budget))"

fun latest_regular_mtime_at :: "qdir \<Rightarrow> int \<Rightarrow> ustr list \<Rightarrow> int" where
  "latest_regular_mtime_at entries baseline [] = baseline"
| "latest_regular_mtime_at entries baseline (name # names) =
     latest_regular_mtime_at entries
       (case map_of entries name of Some (QFile m _) \<Rightarrow> max baseline m | _ \<Rightarrow> baseline) names"

text \<open>\<open>value.split("\n\n")\<close>.\<close>

fun split_paragraphs :: "ustr \<Rightarrow> ustr list" where
  "split_paragraphs (a # b # cs) =
     (if a = 10 \<and> b = 10 then [] # split_paragraphs cs
      else case split_paragraphs (b # cs) of [] \<Rightarrow> [[a]] | w # ws \<Rightarrow> (a # w) # ws)"
| "split_paragraphs s = [s]"

definition heading :: "ustr \<Rightarrow> ustr option" where
  "heading raw =
     (let line = strip raw; title = strip (dropWhile (\<lambda>c. c = 35) line) in
      if startswith [35] line \<and> title \<noteq> [] then Some (take 160 title) else None)"

definition paragraph_title :: "ustr \<Rightarrow> ustr option" where
  "paragraph_title p =
     (let title = join [32] (split_ws p) in if title \<noteq> [] then Some (take 160 title) else None)"

definition first_title :: "ustr \<Rightarrow> ustr \<Rightarrow> ustr" where
  "first_title value fallback =
     (case first_some heading (splitlines value) of
        Some t \<Rightarrow> t
      | None \<Rightarrow>
         (case first_some paragraph_title (split_paragraphs value) of Some t \<Rightarrow> t | None \<Rightarrow> fallback))"

section \<open>Timestamps\<close>

text \<open>The proleptic Gregorian date of a day number, and \<open>isoformat\<close> with \<open>+00:00\<close> as \<open>Z\<close>.\<close>

definition civil :: "int \<Rightarrow> int \<times> int \<times> int" where
  "civil days =
     (let z = days + 719468; era = z div 146097; doe = z mod 146097;
          yoe = (doe - doe div 1460 + doe div 36524 - doe div 146096) div 365;
          doy = doe - (365 * yoe + yoe div 4 - yoe div 100);
          mp = (5 * doy + 2) div 153;
          d = doy - (153 * mp + 2) div 5 + 1;
          m = (if mp < 10 then mp + 3 else mp - 9)
      in (yoe + era * 400 + (if m \<le> 2 then 1 else 0), m, d))"

definition zfill :: "nat \<Rightarrow> int \<Rightarrow> ustr" where
  "zfill w n = (let s = dec (nat n) in replicate (w - length s) 48 @ s)"

definition timestamp :: "int \<Rightarrow> ustr" where
  "timestamp us =
     (let secs = us div 1000000; frac = us mod 1000000;
          (y, m, d) = civil (secs div 86400); s = secs mod 86400
      in zfill 4 y @ [45] @ zfill 2 m @ [45] @ zfill 2 d @ [84] @
         zfill 2 (s div 3600) @ [58] @ zfill 2 (s div 60 mod 60) @ [58] @ zfill 2 (s mod 60) @
         (if frac = 0 then [] else 46 # zfill 6 frac) @ [90])"

section \<open>The scan\<close>

record task_row =
  tr_id :: ustr
  tr_state :: ustr
  tr_updated :: int

record job_row =
  jr_id :: ustr
  jr_status :: ustr
  jr_task_id :: ustr
  jr_agent_id :: ustr
  jr_updated :: int

text \<open>\<open>_iter_queue_directories\<close> with the body of the loop that consumes it: the body's reads use the
  same budget.\<close>

fun iter_queue_directories ::
    "(ustr \<Rightarrow> int \<Rightarrow> qdir \<Rightarrow> scan_budget \<Rightarrow> 'r \<times> scan_budget) \<Rightarrow> ustr list \<Rightarrow> qdir \<Rightarrow> scan_budget \<Rightarrow>
      ustr list \<Rightarrow> 'r list \<times> scan_budget \<times> ustr list" where
  "iter_queue_directories body ignored [] budget errors = ([], budget, errors)"
| "iter_queue_directories body ignored ((name, node) # rest) budget errors =
     (let (more, budget) = take_entry budget in
      if \<not> more then ([], budget, errors)
      else if name \<in> set ignored then iter_queue_directories body ignored rest budget errors
      else if \<not> safe_queue_id name then
        iter_queue_directories body ignored rest budget (errors @ [lit ''ignored an unsafe queue entry name''])
      else
        case node of
          QDir mtime es \<Rightarrow>
            (let (row, budget) = body name mtime es budget;
                 (rows, budget, errors) = iter_queue_directories body ignored rest budget errors
             in (row # rows, budget, errors))
        | QDenied \<Rightarrow>
            iter_queue_directories body ignored rest budget
              (errors @ [lit ''cannot inspect queue entry '' @ name @ lit '': '' @ strerror EACCES])
        | _ \<Rightarrow> iter_queue_directories body ignored rest budget errors)"

definition open_category :: "qdir \<Rightarrow> ustr \<Rightarrow> ustr list \<Rightarrow> qdir option \<times> ustr list" where
  "open_category root name errors =
     (case open_directory_at root name of
        Inr (_, es) \<Rightarrow> (Some es, errors)
      | Inl e \<Rightarrow>
         (None, errors @
           [if e \<in> {ENOENT, ELOOP, ENOTDIR}
            then lit ''AgentWS queue directory is unavailable: '' @ name
            else lit ''cannot open AgentWS queue directory '' @ name @ lit '': '' @ strerror e]))"

definition or_unknown :: "ustr \<Rightarrow> ustr" where
  "or_unknown s = (if s = [] then lit ''unknown'' else s)"

definition task_state :: "ustr \<Rightarrow> ustr" where
  "task_state s = (if s = lit ''open'' then lit ''open'' else if s = lit ''done'' then lit ''closed''
     else lit ''unknown'')"

definition scan_task :: "ustr \<Rightarrow> int \<Rightarrow> qdir \<Rightarrow> scan_budget \<Rightarrow> task_row \<times> scan_budget" where
  "scan_task task_id mtime es budget =
     (let (state_text, budget) = read_regular_at es (lit ''state'') budget 128 (lit ''unknown'')
      in (\<lparr>tr_id = task_id, tr_state = task_state (or_unknown (strip state_text)),
           tr_updated = latest_regular_mtime_at es mtime
             [lit ''state'', lit ''spec.md'', lit ''log.md'', lit ''result.md'']\<rparr>, budget))"

definition job_status :: "ustr \<Rightarrow> ustr" where
  "job_status s =
     (let v = or_unknown (lower (strip s)) in if v \<in> set KNOWN_JOB_STATUSES then v else lit ''unknown'')"

definition scan_job :: "ustr \<Rightarrow> int \<Rightarrow> qdir \<Rightarrow> scan_budget \<Rightarrow> job_row \<times> scan_budget" where
  "scan_job job_id mtime es budget =
     (let (status_text, budget) = read_regular_at es (lit ''status'') budget 64 (lit ''unknown'');
          (task_text, budget) = read_regular_at es (lit ''task-id'') budget 128 [];
          (agent_text, budget) = read_regular_at es (lit ''agent-id'') budget 128 []
      in (\<lparr>jr_id = job_id, jr_status = job_status status_text, jr_task_id = strip task_text,
           jr_agent_id = strip agent_text,
           jr_updated = latest_regular_mtime_at es mtime
             [lit ''status'', lit ''log.md'', lit ''spec.md'', lit ''agent-id'', lit ''task-id'', lit ''role'']\<rparr>,
         budget))"

definition scan_agent :: "ustr \<Rightarrow> int \<Rightarrow> qdir \<Rightarrow> scan_budget \<Rightarrow> ustr \<times> scan_budget" where
  "scan_agent agent_id mtime es budget = (agent_id, budget)"

definition scan_category ::
    "(ustr \<Rightarrow> int \<Rightarrow> qdir \<Rightarrow> scan_budget \<Rightarrow> 'r \<times> scan_budget) \<Rightarrow> ustr list \<Rightarrow> qdir \<Rightarrow> ustr \<Rightarrow>
      scan_budget \<Rightarrow> ustr list \<Rightarrow> 'r list \<times> scan_budget \<times> ustr list" where
  "scan_category body ignored root name budget errors =
     (case open_category root name errors of
        (None, errors) \<Rightarrow> ([], budget, errors)
      | (Some es, errors) \<Rightarrow> iter_queue_directories body ignored es budget errors)"

text \<open>The sort key \<open>(-updated_ts, id)\<close>.\<close>

definition recency :: "int \<Rightarrow> ustr \<Rightarrow> int \<times> ustr" where
  "recency updated ident = (- updated, ident)"

record recent_task =
  rt_id :: ustr
  rt_state :: ustr
  rt_title :: ustr
  rt_updated_at :: ustr

datatype activity_item =
    TaskActivity ustr ustr int
  | JobActivity ustr ustr ustr ustr int

fun activity_key :: "activity_item \<Rightarrow> int \<times> ustr" where
  "activity_key (TaskActivity i s t) = recency t i"
| "activity_key (JobActivity i s k a t) = recency t i"

fun read_titles :: "qdir \<Rightarrow> task_row list \<Rightarrow> scan_budget \<Rightarrow> ustr list \<times> scan_budget" where
  "read_titles tasks [] budget = ([], budget)"
| "read_titles tasks (t # ts) budget =
     (let (title, budget) =
        (case open_directory_at tasks (tr_id t) of
           Inl _ \<Rightarrow> (tr_id t, budget)
         | Inr (_, es) \<Rightarrow>
             (let (spec, budget) = read_regular_at es (lit ''spec.md'') budget 4096 []
              in (first_title spec (tr_id t), budget)));
        (titles, budget) = read_titles tasks ts budget
      in (title # titles, budget))"

definition recent_task_rows :: "queue_limits \<Rightarrow> task_row list \<Rightarrow> task_row list" where
  "recent_task_rows limits rows =
     take (nat (ql_recent_tasks limits)) (sort_key (\<lambda>t. recency (tr_updated t) (tr_id t)) rows)"

definition all_activity :: "task_row list \<Rightarrow> job_row list \<Rightarrow> activity_item list" where
  "all_activity tasks jobs =
     map (\<lambda>t. TaskActivity (tr_id t) (tr_state t) (tr_updated t)) tasks @
     map (\<lambda>j. JobActivity (jr_id j) (jr_status j) (jr_task_id j) (jr_agent_id j) (jr_updated j)) jobs"

record queue_counts =
  qc_tasks :: nat
  qc_task_states :: "(ustr \<times> nat) list"
  qc_jobs :: nat
  qc_job_statuses :: "(ustr \<times> nat) list"
  qc_agents :: nat
  qc_active :: nat

definition empty_counts :: queue_counts where
  "empty_counts = \<lparr>qc_tasks = 0, qc_task_states = map (\<lambda>s. (s, 0)) TASK_STATES, qc_jobs = 0,
     qc_job_statuses = map (\<lambda>s. (s, 0)) JOB_STATUSES, qc_agents = 0, qc_active = 0\<rparr>"

definition tally :: "ustr list \<Rightarrow> ustr list \<Rightarrow> (ustr \<times> nat) list" where
  "tally names values = map (\<lambda>n. (n, count_list values n)) names"

record queue_report =
  qr_counts :: queue_counts
  qr_recent_tasks :: "recent_task list"
  qr_recent_activity :: "activity_item list"
  qr_errors :: "ustr list"

definition unknown_error :: "string \<Rightarrow> string \<Rightarrow> nat \<Rightarrow> ustr list" where
  "unknown_error noun what count =
     (if count = 0 then []
      else [dec count @ lit '' '' @ lit noun @ (if count \<noteq> 1 then lit ''s have'' else lit '' has'') @
            lit '' an unknown or unreadable '' @ lit what])"

definition truncation_error :: "scan_budget \<Rightarrow> ustr list" where
  "truncation_error b =
     (if sb_truncated b
      then [lit ''queue scan truncated at '' @ dump_int (ql_max_entries (sb_limits b)) @ lit '' entries or '' @
            dump_int (ql_max_read_bytes (sb_limits b)) @ lit '' bytes'']
      else [])"

text \<open>\<open>dict.fromkeys\<close>: the first occurrence of each.\<close>

fun unique :: "'a list \<Rightarrow> 'a list" where
  "unique [] = []" | "unique (x # xs) = x # unique (filter (\<lambda>y. y \<noteq> x) xs)"

definition count_rows :: "task_row list \<Rightarrow> job_row list \<Rightarrow> ustr list \<Rightarrow> queue_counts" where
  "count_rows tasks jobs agents =
     (let busy = filter (\<lambda>j. jr_status j \<in> {lit ''claimed'', lit ''running''} \<and> jr_agent_id j \<noteq> []) jobs in
      \<lparr>qc_tasks = length tasks, qc_task_states = tally TASK_STATES (map tr_state tasks),
       qc_jobs = length jobs, qc_job_statuses = tally JOB_STATUSES (map jr_status jobs),
       qc_agents = card (set agents), qc_active = card (set agents \<inter> set (map jr_agent_id busy))\<rparr>)"

definition scan_agentws_queue :: "(errno + qdir) \<Rightarrow> queue_limits \<Rightarrow> queue_report" where
  "scan_agentws_queue opened limits =
     (case opened of
        Inl e \<Rightarrow> \<lparr>qr_counts = empty_counts, qr_recent_tasks = [], qr_recent_activity = [],
                  qr_errors = [lit ''AgentWS queue is unavailable: '' @ strerror e]\<rparr>
      | Inr root \<Rightarrow>
         let (tasks, budget, errors) = scan_category scan_task [] root (lit ''tasks'') (new_budget limits) [];
             (jobs, budget, errors) = scan_category scan_job [] root (lit ''jobs'') budget errors;
             (agents, budget, errors) =
               scan_category scan_agent [SUPERVISOR_DIRECTORY] root (lit ''agents'') budget errors;
             recent = recent_task_rows limits tasks;
             (titles, budget, errors) =
               (if recent = [] then ([], budget, errors)
                else case open_category root (lit ''tasks'') errors of
                       (None, errors) \<Rightarrow> (map tr_id recent, budget, errors)
                     | (Some es, errors) \<Rightarrow> (let (ts, b) = read_titles es recent budget in (ts, b, errors)));
             counts = count_rows tasks jobs agents
         in \<lparr>qr_counts = counts,
             qr_recent_tasks = map2 (\<lambda>t title. \<lparr>rt_id = tr_id t, rt_state = tr_state t, rt_title = title,
               rt_updated_at = timestamp (tr_updated t)\<rparr>) recent titles,
             qr_recent_activity = take (nat (ql_recent_activity limits)) (sort_key activity_key (all_activity tasks jobs)),
             qr_errors = unique (errors @ truncation_error budget @
               unknown_error ''job'' ''status'' (the (map_of (qc_job_statuses counts) (lit ''unknown''))) @
               unknown_error ''task'' ''state'' (the (map_of (qc_task_states counts) (lit ''unknown''))))\<rparr>)"

section \<open>The supervisor's state\<close>

record supervisor_status =
  ss_suspended :: "ustr list"
  ss_attention :: "ustr list"
  ss_error :: ustr

definition read_small_regular :: "qdir \<Rightarrow> ustr \<Rightarrow> ustr option" where
  "read_small_regular es name =
     (case map_of es name of
        Some (QFile _ content) \<Rightarrow> Some (utf8_decode_replace (take 256 content))
      | _ \<Rightarrow> None)"

definition suspended_entry :: "ustr \<times> qnode \<Rightarrow> ustr option" where
  "suspended_entry e =
     (let agent_id = take (length (fst e) - length SUSPENDED_SUFFIX) (fst e) in
      if endswith SUSPENDED_SUFFIX (fst e) \<and> safe_queue_id agent_id
        \<and> (case snd e of QFile _ _ \<Rightarrow> True | _ \<Rightarrow> False)
      then Some agent_id else None)"

definition attention_entry :: "ustr \<times> qnode \<Rightarrow> ustr option" where
  "attention_entry e =
     (case snd e of
        QDir _ es \<Rightarrow>
          if safe_queue_id (fst e) \<and> map_option strip (read_small_regular es (lit ''role'')) = Some (lit ''planner'')
            \<and> map_option strip (read_small_regular es (lit ''status'')) = Some (lit ''failed'')
          then Some (fst e) else None
      | _ \<Rightarrow> None)"

text \<open>One of the two loops, at most \<open>k\<close> more entries; whether it was cut short.\<close>

fun supervisor_loop :: "(ustr \<times> qnode \<Rightarrow> ustr option) \<Rightarrow> qdir \<Rightarrow> nat \<Rightarrow> ustr list \<times> nat \<times> bool" where
  "supervisor_loop f [] k = ([], k, False)"
| "supervisor_loop f (e # es) 0 = ([], 0, True)"
| "supervisor_loop f (e # es) (Suc k) =
     (let (found, k', ended) = supervisor_loop f es k
      in (case f e of None \<Rightarrow> found | Some x \<Rightarrow> x # found, k', ended))"

definition scan_exceeded :: "int \<Rightarrow> bool \<Rightarrow> ustr list" where
  "scan_exceeded max_entries ended =
     (if ended then [lit ''supervisor scan exceeded '' @ dump_int max_entries @ lit '' entries''] else [])"

definition readiness_errors :: "qdir \<Rightarrow> int \<Rightarrow> int \<Rightarrow> ustr list" where
  "readiness_errors runs max_age now =
     (case map_of runs SUPERVISOR_READY_FILE of
        None \<Rightarrow> [lit ''supervisor readiness marker missing'']
      | Some (QFile mtime _) \<Rightarrow>
          if max 0 (now - mtime) > max_age then [lit ''supervisor heartbeat stale''] else []
      | Some _ \<Rightarrow> [lit ''supervisor readiness marker is not a regular file''])"

text \<open>The age and its limit are left out of the message of a stale heartbeat.\<close>

definition read_agent_supervisor_status ::
    "(errno + qdir) \<Rightarrow> int \<Rightarrow> int \<Rightarrow> int \<Rightarrow> supervisor_status res" where
  "read_agent_supervisor_status opened max_entries max_age now =
     (if max_entries < 0 then Inl (ValueErr ''max_entries must not be negative'')
      else if max_age \<le> 0 then Inl (ValueErr ''max_ready_age_seconds must be positive'')
      else case opened of
        Inl e \<Rightarrow> Inr \<lparr>ss_suspended = [], ss_attention = [], ss_error = strerror e\<rparr>
      | Inr root \<Rightarrow>
         let (suspended, k, errors) =
               (case rbind (open_directory_at root (lit ''agents'')) (\<lambda>(_, agents).
                       open_directory_at agents SUPERVISOR_DIRECTORY) of
                  Inl e \<Rightarrow> ([], nat max_entries, [lit ''supervisor state directory unavailable: '' @ strerror e])
                | Inr (_, runs) \<Rightarrow>
                    let (found, k, ended) = supervisor_loop suspended_entry runs (nat max_entries)
                    in (found, k, readiness_errors runs max_age now @ scan_exceeded max_entries ended));
             (attention, errors) =
               (case open_directory_at root (lit ''jobs'') of
                  Inl e \<Rightarrow> ([], errors @ [lit ''planner attention state unavailable: '' @ strerror e])
                | Inr (_, jobs) \<Rightarrow>
                    let (found, k, ended) = supervisor_loop attention_entry jobs k
                    in (found, errors @ scan_exceeded max_entries ended))
         in Inr \<lparr>ss_suspended = sort (remdups suspended), ss_attention = sort (remdups attention),
                 ss_error = join (lit ''; '') (unique errors)\<rparr>)"

section \<open>What a loop over a category reads\<close>

text \<open>The directories a category yields, and the errors its loop reports, when nothing is cut.\<close>

definition queue_dirs :: "ustr list \<Rightarrow> qdir \<Rightarrow> (ustr \<times> int \<times> qdir) list" where
  "queue_dirs ignored es = concat (map (\<lambda>(n, node).
     case node of QDir m d \<Rightarrow> if n \<notin> set ignored \<and> safe_queue_id n then [(n, m, d)] else [] | _ \<Rightarrow> []) es)"

definition queue_errors :: "ustr list \<Rightarrow> qdir \<Rightarrow> ustr list" where
  "queue_errors ignored es = concat (map (\<lambda>(n, node).
     if n \<in> set ignored then []
     else if \<not> safe_queue_id n then [lit ''ignored an unsafe queue entry name'']
     else if node = QDenied then [lit ''cannot inspect queue entry '' @ n @ lit '': '' @ strerror EACCES]
     else []) es)"

definition room :: "scan_budget \<Rightarrow> int" where
  "room b = ql_max_read_bytes (sb_limits b) - sb_read_bytes b"

text \<open>A loop body leaves the entry count and the limits alone.\<close>

locale frugal_body =
  fixes body :: "ustr \<Rightarrow> int \<Rightarrow> qdir \<Rightarrow> scan_budget \<Rightarrow> 'r \<times> scan_budget"
  assumes frugal: "sb_entries (snd (body n m d b)) = sb_entries b" "sb_limits (snd (body n m d b)) = sb_limits b"
begin

lemma iter_bounded:
  "iter_queue_directories body ignored es b errs = (rows, b', errs') \<Longrightarrow>
    sb_entries b \<le> ql_max_entries (sb_limits b) \<Longrightarrow>
    sb_limits b' = sb_limits b \<and> sb_entries b + int (length rows) \<le> sb_entries b' \<and>
    sb_entries b' \<le> ql_max_entries (sb_limits b)"
proof (induction es arbitrary: b errs rows b' errs')
  case (Cons e es)
  obtain n node where [simp]: "e = (n, node)" by (cases e)
  show ?case
  proof (cases "ql_max_entries (sb_limits b) \<le> sb_entries b")
    case True
    then show ?thesis using Cons.prems by (auto simp: take_entry_def)
  next
    case False
    let ?b = "b\<lparr>sb_entries := sb_entries b + 1\<rparr>"
    have t: "take_entry b = (True, ?b)" using False by (simp add: take_entry_def)
    have le: "sb_entries ?b \<le> ql_max_entries (sb_limits ?b)" using False by simp
    have skip: ?thesis if "\<exists>errs. iter_queue_directories body ignored es ?b errs = (rows, b', errs')"
      using that Cons.IH [OF _ le] by fastforce
    show ?thesis
    proof (cases "n \<in> set ignored \<or> \<not> safe_queue_id n \<or> (\<forall>m d. node \<noteq> QDir m d)")
      case True
      then show ?thesis using skip Cons.prems(1) by (auto simp: t split: if_splits qnode.splits)
    next
      case False
      then obtain m d where node: "node = QDir m d" and ok: "n \<notin> set ignored" "safe_queue_id n" by blast
      obtain row b1 where r: "body n m d ?b = (row, b1)" by fastforce
      obtain rs b2 errs2 where it: "iter_queue_directories body ignored es b1 errs = (rs, b2, errs2)"
        by (cases "iter_queue_directories body ignored es b1 errs") auto
      have b1: "sb_entries b1 = sb_entries b + 1" "sb_limits b1 = sb_limits b"
        using frugal [of n m d ?b] by (simp_all add: r)
      have "rows = row # rs" "b' = b2" using Cons.prems(1) ok by (simp_all add: t node r it)
      then show ?thesis using Cons.IH [OF it] b1 le by simp
    qed
  qed
qed simp

end

text \<open>A body that, given room for what it may read, computes a function of the tree.\<close>

locale scan_body = frugal_body +
  fixes ref :: "ustr \<Rightarrow> int \<Rightarrow> qdir \<Rightarrow> 'r" and cost :: int
  assumes cost_pos: "0 \<le> cost"
    and reads: "cost \<le> room b \<Longrightarrow> \<exists>r. body n m d b = (ref n m d, b\<lparr>sb_read_bytes := r\<rparr>) \<and>
      r \<le> sb_read_bytes b + cost"
begin

lemma iter_exact:
  assumes "int (length es) \<le> ql_max_entries (sb_limits b) - sb_entries b" "cost * int (length es) \<le> room b"
  shows "\<exists>r. iter_queue_directories body ignored es b errs =
      (map (\<lambda>(n, m, d). ref n m d) (queue_dirs ignored es),
       b\<lparr>sb_entries := sb_entries b + int (length es), sb_read_bytes := r\<rparr>, errs @ queue_errors ignored es) \<and>
    r \<le> sb_read_bytes b + cost * int (length es)"
  using assms
proof (induction es arbitrary: b errs)
  case Nil
  have "b\<lparr>sb_entries := sb_entries b + int (length []), sb_read_bytes := sb_read_bytes b\<rparr> = b" by simp
  then show ?case by (auto simp: queue_dirs_def queue_errors_def intro!: exI [of _ "sb_read_bytes b"])
next
  case (Cons e es)
  obtain n node where [simp]: "e = (n, node)" by (cases e)
  let ?b = "b\<lparr>sb_entries := sb_entries b + 1\<rparr>"
  have t: "take_entry b = (True, ?b)" using Cons.prems(1) by (simp add: take_entry_def)
  have c: "cost * int (length (e # es)) = cost + cost * int (length es)" by (simp add: algebra_simps)
  have pos: "0 \<le> cost * int (length es)" using cost_pos by simp
  show ?case
  proof (cases "n \<in> set ignored \<or> \<not> safe_queue_id n \<or> (\<forall>m d. node \<noteq> QDir m d)")
    case True
    have "int (length es) \<le> ql_max_entries (sb_limits ?b) - sb_entries ?b" "cost * int (length es) \<le> room ?b"
      using Cons.prems cost_pos c by (simp_all add: room_def)
    from Cons.IH [OF this, of "errs @ queue_errors ignored [e]"] obtain r where
      r: "iter_queue_directories body ignored es ?b (errs @ queue_errors ignored [e]) =
        (map (\<lambda>(n, m, d). ref n m d) (queue_dirs ignored es),
         b\<lparr>sb_entries := sb_entries b + int (length (e # es)), sb_read_bytes := r\<rparr>,
         errs @ queue_errors ignored (e # es))" "r \<le> sb_read_bytes b + cost * int (length es)"
      by (auto simp: queue_errors_def algebra_simps)
    have "iter_queue_directories body ignored (e # es) b errs =
        iter_queue_directories body ignored es ?b (errs @ queue_errors ignored [e])"
      using True by (auto simp: t queue_errors_def split: qnode.splits)
    moreover have "queue_dirs ignored (e # es) = queue_dirs ignored es"
      using True by (auto simp: queue_dirs_def split: qnode.splits)
    ultimately show ?thesis using r c cost_pos by (intro exI [of _ r]) simp
  next
    case False
    then obtain m d where node: "node = QDir m d" and ok: "n \<notin> set ignored" "safe_queue_id n" by blast
    have "cost \<le> room ?b" using Cons.prems(2) c pos by (simp add: room_def)
    from reads [OF this, of n m d] obtain r1 where
      r1: "body n m d ?b = (ref n m d, ?b\<lparr>sb_read_bytes := r1\<rparr>)" "r1 \<le> sb_read_bytes b + cost" by auto
    let ?b1 = "?b\<lparr>sb_read_bytes := r1\<rparr>"
    have "int (length es) \<le> ql_max_entries (sb_limits ?b1) - sb_entries ?b1" "cost * int (length es) \<le> room ?b1"
      using Cons.prems r1(2) c by (simp_all add: room_def)
    from Cons.IH [OF this, of errs] obtain r where
      r: "iter_queue_directories body ignored es ?b1 errs =
        (map (\<lambda>(n, m, d). ref n m d) (queue_dirs ignored es),
         b\<lparr>sb_entries := sb_entries b + int (length (e # es)), sb_read_bytes := r\<rparr>,
         errs @ queue_errors ignored es)" "r \<le> r1 + cost * int (length es)"
      by (auto simp: algebra_simps)
    have "iter_queue_directories body ignored (e # es) b errs =
        (map (\<lambda>(n, m, d). ref n m d) (queue_dirs ignored (e # es)),
         b\<lparr>sb_entries := sb_entries b + int (length (e # es)), sb_read_bytes := r\<rparr>,
         errs @ queue_errors ignored (e # es))"
      using ok by (simp add: t node r1(1) r(1) queue_dirs_def queue_errors_def)
    then show ?thesis using r(2) r1(2) c by (intro exI [of _ r]) simp
  qed
qed

end

definition category :: "qdir \<Rightarrow> ustr \<Rightarrow> qdir" where
  "category root name = (case open_directory_at root name of Inr (_, es) \<Rightarrow> es | Inl _ \<Rightarrow> [])"

context frugal_body begin

lemma iter_rows:
  assumes "\<And>n m d b. P (fst (body n m d b))"
  shows "\<forall>row\<in>set (fst (iter_queue_directories body ignored es b errs)). P row"
  by (induction es arbitrary: b errs)
    (auto simp: case_prod_beta Let_def assms split: if_splits qnode.splits)

lemma category_rows:
  assumes "\<And>n m d b. P (fst (body n m d b))"
  shows "\<forall>row\<in>set (fst (scan_category body ignored root name b errs)). P row"
  using iter_rows [of P, OF assms] by (simp add: scan_category_def case_prod_beta split: prod.splits option.splits)

lemma category_bounded:
  assumes "scan_category body ignored root name b errs = (rows, b', errs')"
    and "sb_entries b \<le> ql_max_entries (sb_limits b)"
  shows "sb_limits b' = sb_limits b \<and> sb_entries b + int (length rows) \<le> sb_entries b' \<and>
    sb_entries b' \<le> ql_max_entries (sb_limits b)"
proof (cases "open_directory_at root name")
  case (Inl e)
  then show ?thesis using assms by (auto simp: scan_category_def open_category_def)
next
  case (Inr me)
  obtain m es where [simp]: "me = (m, es)" by (cases me)
  have "iter_queue_directories body ignored es b errs = (rows, b', errs')"
    using assms(1) Inr by (simp add: scan_category_def open_category_def)
  from iter_bounded [OF this assms(2)] show ?thesis .
qed

end

context scan_body begin

lemma category_exact:
  assumes "int (length (category root name)) \<le> ql_max_entries (sb_limits b) - sb_entries b"
    and "cost * int (length (category root name)) \<le> room b"
  shows "\<exists>r errs'. scan_category body ignored root name b errs =
      (map (\<lambda>(n, m, d). ref n m d) (queue_dirs ignored (category root name)),
       b\<lparr>sb_entries := sb_entries b + int (length (category root name)), sb_read_bytes := r\<rparr>, errs') \<and>
    r \<le> sb_read_bytes b + cost * int (length (category root name))"
proof (cases "open_directory_at root name")
  case (Inl e)
  have "b\<lparr>sb_entries := sb_entries b + 0, sb_read_bytes := sb_read_bytes b\<rparr> = b" by simp
  then show ?thesis using Inl
    by (auto simp: scan_category_def open_category_def category_def queue_dirs_def intro!: exI [of _ "sb_read_bytes b"])
next
  case (Inr me)
  obtain m es where [simp]: "me = (m, es)" by (cases me)
  have "category root name = es" using Inr by (simp add: category_def)
  then show ?thesis using assms iter_exact [of es b ignored errs] Inr
    by (auto simp: scan_category_def open_category_def)
qed

end

section \<open>The three bodies\<close>

definition ref_read :: "qdir \<Rightarrow> ustr \<Rightarrow> int \<Rightarrow> ustr \<Rightarrow> ustr" where
  "ref_read es name max_bytes default_text =
     (case map_of es name of
        Some (QFile _ c) \<Rightarrow> utf8_decode_replace (take (nat max_bytes) c)
      | _ \<Rightarrow> default_text)"

lemma read_exact:
  assumes "0 < k" "k \<le> room b"
  shows "\<exists>r. read_regular_at es name b k dflt = (ref_read es name k dflt, b\<lparr>sb_read_bytes := r\<rparr>) \<and>
    r \<le> sb_read_bytes b + k"
proof -
  have a: "read_allowance b k = (k, b)" using assms by (auto simp: read_allowance_def room_def Let_def)
  show ?thesis
  proof (cases "\<exists>m c. map_of es name = Some (QFile m c)")
    case True
    then obtain m c where "map_of es name = Some (QFile m c)" by blast
    then show ?thesis using assms(1) by (auto simp: read_regular_at_def a ref_read_def Let_def)
  next
    case False
    then show ?thesis using assms(1)
      by (auto simp: read_regular_at_def a ref_read_def Let_def split: option.splits qnode.splits
          intro!: exI [of _ "sb_read_bytes b"])
  qed
qed

lemma read_frugal [simp]:
  "sb_entries (snd (read_regular_at es name b k dflt)) = sb_entries b"
  "sb_limits (snd (read_regular_at es name b k dflt)) = sb_limits b"
  by (simp_all add: read_regular_at_def read_allowance_def Let_def split: option.splits qnode.splits)

definition ref_task :: "ustr \<Rightarrow> int \<Rightarrow> qdir \<Rightarrow> task_row" where
  "ref_task n m d = \<lparr>tr_id = n,
     tr_state = task_state (or_unknown (strip (ref_read d (lit ''state'') 128 (lit ''unknown'')))),
     tr_updated = latest_regular_mtime_at d m
       [lit ''state'', lit ''spec.md'', lit ''log.md'', lit ''result.md'']\<rparr>"

definition ref_job :: "ustr \<Rightarrow> int \<Rightarrow> qdir \<Rightarrow> job_row" where
  "ref_job n m d = \<lparr>jr_id = n,
     jr_status = job_status (ref_read d (lit ''status'') 64 (lit ''unknown'')),
     jr_task_id = strip (ref_read d (lit ''task-id'') 128 []),
     jr_agent_id = strip (ref_read d (lit ''agent-id'') 128 []),
     jr_updated = latest_regular_mtime_at d m
       [lit ''status'', lit ''log.md'', lit ''spec.md'', lit ''agent-id'', lit ''task-id'', lit ''role'']\<rparr>"

interpretation tasks: scan_body scan_task ref_task 128
proof
  show "\<exists>r. scan_task n m d b = (ref_task n m d, b\<lparr>sb_read_bytes := r\<rparr>) \<and> r \<le> sb_read_bytes b + 128"
    if "128 \<le> room b" for n m d b
    using read_exact [OF _ that, of d "lit ''state''" "lit ''unknown''"]
    by (auto simp: scan_task_def ref_task_def)
qed (simp_all add: scan_task_def case_prod_beta Let_def)

interpretation jobs: scan_body scan_job ref_job 320
proof
  show "\<exists>r. scan_job n m d b = (ref_job n m d, b\<lparr>sb_read_bytes := r\<rparr>) \<and> r \<le> sb_read_bytes b + 320"
    if "320 \<le> room b" for n m d b
  proof -
    have "64 \<le> room b" using that by simp
    from read_exact [OF _ this, of d "lit ''status''" "lit ''unknown''"] obtain r1 where
      r1: "read_regular_at d (lit ''status'') b 64 (lit ''unknown'') =
        (ref_read d (lit ''status'') 64 (lit ''unknown''), b\<lparr>sb_read_bytes := r1\<rparr>)" "r1 \<le> sb_read_bytes b + 64"
      by auto
    let ?b1 = "b\<lparr>sb_read_bytes := r1\<rparr>"
    have "128 \<le> room ?b1" using that r1(2) by (simp add: room_def)
    from read_exact [OF _ this, of d "lit ''task-id''" "[]"] obtain r2 where
      r2: "read_regular_at d (lit ''task-id'') ?b1 128 [] =
        (ref_read d (lit ''task-id'') 128 [], b\<lparr>sb_read_bytes := r2\<rparr>)" "r2 \<le> r1 + 128" by auto
    let ?b2 = "b\<lparr>sb_read_bytes := r2\<rparr>"
    have "128 \<le> room ?b2" using that r1(2) r2(2) by (simp add: room_def)
    from read_exact [OF _ this, of d "lit ''agent-id''" "[]"] obtain r3 where
      r3: "read_regular_at d (lit ''agent-id'') ?b2 128 [] =
        (ref_read d (lit ''agent-id'') 128 [], b\<lparr>sb_read_bytes := r3\<rparr>)" "r3 \<le> r2 + 128" by auto
    show ?thesis using r1 r2 r3 by (auto simp: scan_job_def ref_job_def)
  qed
qed (simp_all add: scan_job_def case_prod_beta Let_def)

interpretation agents: scan_body scan_agent "\<lambda>n m d. n" 0
proof
  show "\<exists>r. scan_agent n m d b = (n, b\<lparr>sb_read_bytes := r\<rparr>) \<and> r \<le> sb_read_bytes b + 0" for n m d b
    by (rule exI [of _ "sb_read_bytes b"]) (simp add: scan_agent_def)
qed (simp_all add: scan_agent_def)


section \<open>The report\<close>

definition title_of :: "qdir \<Rightarrow> task_row \<Rightarrow> ustr" where
  "title_of tasks t =
     (case open_directory_at tasks (tr_id t) of
        Inl _ \<Rightarrow> tr_id t
      | Inr (_, d) \<Rightarrow> first_title (ref_read d (lit ''spec.md'') 4096 []) (tr_id t))"

lemma read_titles_exact:
  "4096 * int (length ts) \<le> room b \<Longrightarrow> fst (read_titles es ts b) = map (title_of es) ts"
proof (induction ts arbitrary: b)
  case (Cons t ts)
  show ?case
  proof (cases "open_directory_at es (tr_id t)")
    case (Inl e)
    have "fst (read_titles es ts b) = map (title_of es) ts" using Cons by simp
    then show ?thesis using Inl by (cases "read_titles es ts b") (simp add: title_of_def)
  next
    case (Inr md)
    obtain m d where [simp]: "md = (m, d)" by (cases md)
    have "4096 \<le> room b" using Cons.prems by simp
    from read_exact [OF _ this, of d "lit ''spec.md''" "[]"] obtain r where
      r: "read_regular_at d (lit ''spec.md'') b 4096 [] =
        (ref_read d (lit ''spec.md'') 4096 [], b\<lparr>sb_read_bytes := r\<rparr>)" "r \<le> sb_read_bytes b + 4096" by auto
    have "4096 * int (length ts) \<le> room (b\<lparr>sb_read_bytes := r\<rparr>)" using Cons.prems r(2) by (simp add: room_def)
    from Cons.IH [OF this] show ?thesis
      using Inr r(1) by (simp add: title_of_def case_prod_beta Let_def)
  qed
qed simp

definition ref_tasks :: "qdir \<Rightarrow> task_row list" where
  "ref_tasks root = map (\<lambda>(n, m, d). ref_task n m d) (queue_dirs [] (category root (lit ''tasks'')))"
definition ref_jobs :: "qdir \<Rightarrow> job_row list" where
  "ref_jobs root = map (\<lambda>(n, m, d). ref_job n m d) (queue_dirs [] (category root (lit ''jobs'')))"
definition ref_agents :: "qdir \<Rightarrow> ustr list" where
  "ref_agents root =
     map (\<lambda>(n, m, d). n) (queue_dirs [SUPERVISOR_DIRECTORY] (category root (lit ''agents'')))"

text \<open>Limits whose byte limit cannot be reached before the entry limit.\<close>

definition roomy :: "queue_limits \<Rightarrow> bool" where
  "roomy l \<longleftrightarrow> 0 \<le> ql_recent_tasks l \<and> 320 * ql_max_entries l + 4096 * ql_recent_tasks l \<le> ql_max_read_bytes l"

definition default_limits :: queue_limits where
  "default_limits = \<lparr>ql_max_entries = 4096, ql_max_read_bytes = 2 * 1024 * 1024, ql_recent_tasks = 8,
     ql_recent_activity = 12\<rparr>"

lemma default_roomy: "roomy default_limits"
  by (simp add: roomy_def default_limits_def)

lemma map2_map_same: "map2 f xs (map g xs) = map (\<lambda>x. f x (g x)) xs"
  by (induction xs) auto

text \<open>C38: with limits such as the default ones, a queue of at most \<open>max_entries\<close> entries is reported in
  full: the counts, the titles of the recent tasks and the recent activity are those of a scan
  without any budget.\<close>

theorem scan_exact:
  assumes "roomy limits"
    and "int (length (category root (lit ''tasks'')) + length (category root (lit ''jobs'')) +
           length (category root (lit ''agents''))) \<le> ql_max_entries limits"
  shows "qr_counts (scan_agentws_queue (Inr root) limits) =
      count_rows (ref_tasks root) (ref_jobs root) (ref_agents root) \<and>
    qr_recent_activity (scan_agentws_queue (Inr root) limits) =
      take (nat (ql_recent_activity limits)) (sort_key activity_key (all_activity (ref_tasks root) (ref_jobs root))) \<and>
    qr_recent_tasks (scan_agentws_queue (Inr root) limits) =
      map (\<lambda>t. \<lparr>rt_id = tr_id t, rt_state = tr_state t,
          rt_title = title_of (category root (lit ''tasks'')) t,
          rt_updated_at = timestamp (tr_updated t)\<rparr>) (recent_task_rows limits (ref_tasks root))"
proof -
  let ?n = "\<lambda>s. int (length (category root (lit s)))"
  let ?rt = "recent_task_rows limits (ref_tasks root)"
  let ?b0 = "new_budget limits"
  have le: "?n ''tasks'' + ?n ''jobs'' + ?n ''agents'' \<le> ql_max_entries limits" using assms(2) by simp
  have rm: "320 * ql_max_entries limits + 4096 * ql_recent_tasks limits \<le> ql_max_read_bytes limits"
    "0 \<le> ql_recent_tasks limits" using assms(1) by (auto simp: roomy_def)
  have "?n ''tasks'' \<le> ql_max_entries (sb_limits ?b0) - sb_entries ?b0" "128 * ?n ''tasks'' \<le> room ?b0"
    using le rm by (simp_all add: new_budget_def room_def)
  from tasks.category_exact [OF this, of "[]" "[]"] obtain r1 e1 where
    t: "scan_category scan_task [] root (lit ''tasks'') ?b0 [] =
      (ref_tasks root, ?b0\<lparr>sb_entries := ?n ''tasks'', sb_read_bytes := r1\<rparr>, e1)" and r1: "r1 \<le> 128 * ?n ''tasks''"
    by (auto simp: new_budget_def ref_tasks_def)
  let ?b1 = "?b0\<lparr>sb_entries := ?n ''tasks'', sb_read_bytes := r1\<rparr>"
  have "?n ''jobs'' \<le> ql_max_entries (sb_limits ?b1) - sb_entries ?b1" "320 * ?n ''jobs'' \<le> room ?b1"
    using le rm r1 by (simp_all add: new_budget_def room_def)
  from jobs.category_exact [OF this, of "[]" e1] obtain r2 e2 where
    j: "scan_category scan_job [] root (lit ''jobs'') ?b1 e1 =
      (ref_jobs root, ?b0\<lparr>sb_entries := ?n ''tasks'' + ?n ''jobs'', sb_read_bytes := r2\<rparr>, e2)" and
    r2: "r2 \<le> r1 + 320 * ?n ''jobs''"
    by (auto simp: new_budget_def ref_jobs_def)
  let ?b2 = "?b0\<lparr>sb_entries := ?n ''tasks'' + ?n ''jobs'', sb_read_bytes := r2\<rparr>"
  have "?n ''agents'' \<le> ql_max_entries (sb_limits ?b2) - sb_entries ?b2" "0 * ?n ''agents'' \<le> room ?b2"
    using le rm r1 r2 by (simp_all add: new_budget_def room_def)
  from agents.category_exact [OF this, of "[SUPERVISOR_DIRECTORY]" e2] obtain r3 e3 b3 where
    a: "scan_category scan_agent [SUPERVISOR_DIRECTORY] root (lit ''agents'') ?b2 e2 = (ref_agents root, b3, e3)" and
    b3: "sb_limits b3 = limits" "sb_read_bytes b3 = r3" and r3: "r3 \<le> r2"
    by (auto simp: new_budget_def ref_agents_def)
  have "int (length ?rt) \<le> ql_recent_tasks limits" using rm(2) by (simp add: recent_task_rows_def)
  then have "4096 * int (length ?rt) \<le> room b3"
    using le rm r1 r2 r3 by (simp add: room_def b3)
  from read_titles_exact [OF this, of "category root (lit ''tasks'')"] have
    ti: "fst (read_titles (category root (lit ''tasks'')) ?rt b3) = map (title_of (category root (lit ''tasks''))) ?rt" .
  have ne: "\<exists>m es. open_directory_at root (lit ''tasks'') = Inr (m, es)" if "?rt \<noteq> []"
    using that by (auto simp: ref_tasks_def recent_task_rows_def category_def queue_dirs_def split: sum.splits)
  show ?thesis
  proof (cases "?rt = []")
    case True
    then show ?thesis by (simp add: scan_agentws_queue_def t j a Let_def)
  next
    case False
    from ne [OF False] obtain m where
      o: "open_directory_at root (lit ''tasks'') = Inr (m, category root (lit ''tasks''))"
      by (auto simp: category_def)
    then show ?thesis using ti False
      by (simp add: scan_agentws_queue_def t j a o open_category_def Let_def case_prod_beta map2_map_same)
  qed
qed


lemma tally_total:
  "distinct names \<Longrightarrow> set values \<subseteq> set names \<Longrightarrow> sum_list (map snd (tally names values)) = length values"
proof -
  assume d: "distinct names" and sub: "set values \<subseteq> set names"
  have "sum_list (map snd (tally names values)) = (\<Sum>n\<in>set names. count_list values n)"
    by (simp add: tally_def comp_def sum_list_distinct_conv_sum_set [OF d])
  also have "\<dots> = length values" using sum_count_set [OF sub] by simp
  finally show ?thesis .
qed

text \<open>A report counts at most \<open>max_entries\<close> directories, whatever the tree, and lists at most as many
  tasks and events as the limits allow.\<close>

theorem scan_bounded:
  fixes opened limits
  assumes "0 \<le> ql_max_entries limits" "0 \<le> ql_recent_tasks limits" "0 \<le> ql_recent_activity limits"
  defines "r \<equiv> scan_agentws_queue opened limits"
  shows "int (qc_tasks (qr_counts r) + qc_jobs (qr_counts r) + qc_agents (qr_counts r)) \<le> ql_max_entries limits \<and>
    qc_active (qr_counts r) \<le> qc_agents (qr_counts r) \<and>
    int (length (qr_recent_tasks r)) \<le> ql_recent_tasks limits \<and>
    int (length (qr_recent_activity r)) \<le> ql_recent_activity limits"
proof (cases opened)
  case (Inl e)
  then show ?thesis using assms by (simp add: r_def scan_agentws_queue_def empty_counts_def)
next
  case (Inr root)
  obtain T b1 e1 where t: "scan_category scan_task [] root (lit ''tasks'') (new_budget limits) [] = (T, b1, e1)"
    by (cases "scan_category scan_task [] root (lit ''tasks'') (new_budget limits) []") auto
  obtain J b2 e2 where j: "scan_category scan_job [] root (lit ''jobs'') b1 e1 = (J, b2, e2)"
    by (cases "scan_category scan_job [] root (lit ''jobs'') b1 e1") auto
  obtain A b3 e3 where a: "scan_category scan_agent [SUPERVISOR_DIRECTORY] root (lit ''agents'') b2 e2 = (A, b3, e3)"
    by (cases "scan_category scan_agent [SUPERVISOR_DIRECTORY] root (lit ''agents'') b2 e2") auto
  have "sb_entries (new_budget limits) \<le> ql_max_entries (sb_limits (new_budget limits))"
    using assms(1) by (simp add: new_budget_def)
  from tasks.category_bounded [OF t this] have
    1: "sb_limits b1 = limits" "int (length T) \<le> sb_entries b1" "sb_entries b1 \<le> ql_max_entries limits"
    by (simp_all add: new_budget_def)
  from jobs.category_bounded [OF j] 1 have
    2: "sb_limits b2 = limits" "sb_entries b1 + int (length J) \<le> sb_entries b2" "sb_entries b2 \<le> ql_max_entries limits"
    by simp_all
  from agents.category_bounded [OF a] 2 have
    3: "sb_entries b2 + int (length A) \<le> sb_entries b3" "sb_entries b3 \<le> ql_max_entries limits"
    by simp_all
  have c: "qr_counts r = count_rows T J A"
    by (simp add: r_def Inr scan_agentws_queue_def t j a Let_def case_prod_beta)
  have "card (set A) \<le> length A" by (rule card_length)
  then have "int (qc_tasks (qr_counts r) + qc_jobs (qr_counts r) + qc_agents (qr_counts r)) \<le> ql_max_entries limits"
    using 1 2 3 by (simp add: c count_rows_def Let_def)
  moreover have "qc_active (qr_counts r) \<le> qc_agents (qr_counts r)"
    by (simp add: c count_rows_def Let_def card_mono)
  moreover have "int (length (qr_recent_tasks r)) \<le> ql_recent_tasks limits"
    using assms(2) by (simp add: r_def Inr scan_agentws_queue_def t j a Let_def case_prod_beta recent_task_rows_def)
  moreover have "int (length (qr_recent_activity r)) \<le> ql_recent_activity limits"
    using assms(3) by (simp add: r_def Inr scan_agentws_queue_def t j a Let_def case_prod_beta)
  ultimately show ?thesis by blast
qed

text \<open>Every task counts under exactly one state and every job under exactly one status.\<close>

theorem scan_counts_partition:
  "sum_list (map snd (qc_task_states (qr_counts (scan_agentws_queue opened limits)))) =
     qc_tasks (qr_counts (scan_agentws_queue opened limits)) \<and>
   sum_list (map snd (qc_job_statuses (qr_counts (scan_agentws_queue opened limits)))) =
     qc_jobs (qr_counts (scan_agentws_queue opened limits))"
proof (cases opened)
  case (Inl e)
  then show ?thesis by (simp add: scan_agentws_queue_def empty_counts_def comp_def)
next
  case (Inr root)
  let ?t = "scan_category scan_task [] root (lit ''tasks'') (new_budget limits) []"
  let ?j = "scan_category scan_job [] root (lit ''jobs'') (fst (snd ?t)) (snd (snd ?t))"
  have c: "\<exists>A. qr_counts (scan_agentws_queue opened limits) = count_rows (fst ?t) (fst ?j) A"
    by (simp add: Inr scan_agentws_queue_def Let_def case_prod_beta) blast
  then obtain A where A: "qr_counts (scan_agentws_queue opened limits) = count_rows (fst ?t) (fst ?j) A" by blast
  have "\<forall>t\<in>set (fst ?t). tr_state t \<in> set TASK_STATES"
    by (rule tasks.category_rows)
      (simp add: scan_task_def task_state_def TASK_STATES_def case_prod_beta Let_def)
  then have 1: "set (map tr_state (fst ?t)) \<subseteq> set TASK_STATES" by auto
  have "\<forall>x\<in>set (fst ?j). jr_status x \<in> set JOB_STATUSES"
    by (rule jobs.category_rows)
      (simp add: scan_job_def job_status_def JOB_STATUSES_def case_prod_beta Let_def)
  then have 2: "set (map jr_status (fst ?j)) \<subseteq> set JOB_STATUSES" by auto
  have "distinct TASK_STATES" "distinct JOB_STATUSES" by code_simp+
  then show ?thesis unfolding A
    using tally_total [OF _ 1] tally_total [OF _ 2] by (simp add: count_rows_def Let_def)
qed

section \<open>A concrete queue\<close>

definition ex_queue :: qdir where
  "ex_queue =
     [(lit ''tasks'', QDir 0 [(lit ''t1'', QDir 5 [(lit ''state'', QFile 7 (lit ''open'')),
        (lit ''spec.md'', QFile 6 (lit ''# Title''))])]),
      (lit ''jobs'', QDir 0 [(lit ''j1'', QDir 8 [(lit ''status'', QFile 9 (lit ''running'')),
        (lit ''agent-id'', QFile 9 (lit ''a1''))])]),
      (lit ''agents'', QDir 0 [(lit ''a1'', QDir 1 [])])]"

lemma scan_bounded_witness:
  "qc_active (qr_counts (scan_agentws_queue (Inr ex_queue) default_limits)) \<le>
    qc_agents (qr_counts (scan_agentws_queue (Inr ex_queue) default_limits))"
  using scan_bounded [of default_limits "Inr ex_queue"] by (simp add: default_limits_def)

lemma scan_exact_witness:
  "qr_counts (scan_agentws_queue (Inr ex_queue) default_limits) =
    count_rows (ref_tasks ex_queue) (ref_jobs ex_queue) (ref_agents ex_queue)"
proof -
  have "int (length (category ex_queue (lit ''tasks'')) + length (category ex_queue (lit ''jobs'')) +
           length (category ex_queue (lit ''agents''))) \<le> ql_max_entries default_limits"
    by (simp add: category_def open_directory_at_def ex_queue_def default_limits_def)
  from scan_exact [OF default_roomy this] show ?thesis by blast
qed

end
