(* ===== verification/Team.thy ===== *)
theory Team imports Fs_Tree Model_Ids Paths begin

text \<open>
  Team definitions, \<open>src/cyclo/team/definition.py\<close>: the snapshot read from a team directory, the
  roster, the Dockerfile, the generation, and the roster \<open>init_team\<close> writes.  A team directory is
  the tree that is read; what Git prints is a parameter.
\<close>

section \<open>Names and models\<close>

definition is_team_entry_name :: "ustr \<Rightarrow> bool" where
  "is_team_entry_name s \<longleftrightarrow> re_name_star is_alnum (\<lambda>c. is_alnum c \<or> c = 46 \<or> c = 95 \<or> c = 45) s"

definition SUPPORTED_ENGINES :: "ustr list" where
  "SUPPORTED_ENGINES = [lit ''pi'', lit ''pi-interactive'']"
definition ROSTER_NAMES :: "ustr list" where
  "ROSTER_NAMES = [lit ''team'', lit ''default.team'']"
definition MAX_TEAM_FILE_BYTES :: nat where "MAX_TEAM_FILE_BYTES = 1024 * 1024"

record agent =
  ag_name :: ustr
  ag_role :: ustr
  ag_engine :: ustr
  ag_model :: ustr

text \<open>\<open>model.split("/", 1)\<close>: the second part exists when the model has a slash.\<close>

definition agent_provider :: "agent \<Rightarrow> ustr" where
  "agent_provider a = fst (partition_at 47 (ag_model a))"

definition agent_model_id :: "agent \<Rightarrow> ustr option" where
  "agent_model_id a =
     (case partition_at 47 (ag_model a) of (_, found, rest) \<Rightarrow> if found then Some rest else None)"

record team =
  te_root :: ppath
  te_roster :: ppath
  te_roles_dir :: ppath
  te_protocol :: "ppath option"
  te_dockerfile :: ppath
  te_agents :: "agent list"

definition team_providers :: "team \<Rightarrow> ustr list" where
  "team_providers t = sort (remdups (map agent_provider (te_agents t)))"

definition resolve_team_directory :: "os_env \<Rightarrow> ustr \<Rightarrow> ppath res" where
  "resolve_team_directory os value =
     (let path = resolve_lax os (expanduser os (path_of value)) in
      if \<not> is_dir os path then Inl (CycloError ''directory not found'')
      else if 44 \<in> set (path_str path) then Inl (CycloError ''path cannot contain a comma'')
      else Inr path)"

definition validate_entry_name :: "ustr \<Rightarrow> unit res" where
  "validate_entry_name value = ensure (is_team_entry_name value) (CycloError ''invalid name'')"

definition validate_proxy_model :: "ustr \<Rightarrow> (ustr \<times> ustr) res" where
  "validate_proxy_model model =
     rbind (ensure (47 \<in> set model) (CycloError ''model must be a proxy name such as provider/model'')) (\<lambda>_.
     of_option (CycloError ''invalid proxy model'') (split_public_model_id (Some model)))"

section \<open>The snapshot\<close>

datatype file_label = Roster | RoleFile ustr | Protocol | Dockerfile

type_synonym team_file = "ppath \<times> file_label \<times> bytes"

record team_snapshot =
  sn_roster :: ppath
  sn_roles_dir :: ppath
  sn_protocol :: "ppath option"
  sn_dockerfile :: ppath
  sn_files :: "team_file list"

definition child :: "ppath \<Rightarrow> ustr \<Rightarrow> ppath" where
  "child p name = Path (anchor p) (parts p @ [name])"

definition read_regular_file_at :: "qdir \<Rightarrow> ustr \<Rightarrow> bytes res" where
  "read_regular_file_at d name =
     (case map_of d name of
        None \<Rightarrow> Inl (CycloError ''team file not found'')
      | Some QLink \<Rightarrow> Inl (CycloError ''team file must not be a symlink'')
      | Some QDenied \<Rightarrow> Inl (CycloError ''cannot open team file'')
      | Some (QFile _ content) \<Rightarrow>
          if MAX_TEAM_FILE_BYTES < length content
          then Inl (CycloError ''team file exceeds the byte limit'') else Inr content
      | Some _ \<Rightarrow> Inl (CycloError ''team file is not a regular file''))"

definition decode_team_file :: "bytes \<Rightarrow> ustr res" where
  "decode_team_file content = of_option (CycloError ''team file is not valid UTF-8'') (utf8_decode content)"

definition open_team_root :: "qnode option \<Rightarrow> qdir res" where
  "open_team_root node =
     (case node of
        Some (QDir _ es) \<Rightarrow> Inr es
      | _ \<Rightarrow> Inl (CycloError ''team directory must be a real directory, not a symlink''))"

definition open_roles_directory :: "qdir \<Rightarrow> qdir res" where
  "open_roles_directory root =
     (case open_directory_at root (lit ''roles'') of
        Inl ENOENT \<Rightarrow> Inl (CycloError ''team roles directory not found'')
      | Inl _ \<Rightarrow> Inl (CycloError ''team roles directory must be a real directory, not a symlink'')
      | Inr (_, es) \<Rightarrow> Inr es)"

definition directory_entry_exists :: "qdir \<Rightarrow> ustr \<Rightarrow> bool" where
  "directory_entry_exists d name \<longleftrightarrow> map_of d name \<noteq> None"

definition role_md :: "ustr \<Rightarrow> bool" where
  "role_md name \<longleftrightarrow> endswith (lit ''.md'') name"

definition read_role_files :: "ppath \<Rightarrow> qdir \<Rightarrow> team_file list res" where
  "read_role_files root roles =
     mapE (\<lambda>name. rbind (read_regular_file_at roles name) (\<lambda>c.
         Inr (child (child root (lit ''roles'')) name, RoleFile name, c)))
       (sort (filter role_md (map fst roles)))"

definition read_protocol :: "ppath \<Rightarrow> qdir \<Rightarrow> team_file list res" where
  "read_protocol root d =
     (if directory_entry_exists d (lit ''AGENTS.md'')
      then rbind (read_regular_file_at d (lit ''AGENTS.md'')) (\<lambda>c.
        Inr [(child root (lit ''AGENTS.md''), Protocol, c)])
      else Inr [])"

definition team_files :: "ppath \<Rightarrow> ustr \<Rightarrow> bytes \<Rightarrow> team_file list \<Rightarrow> team_file list \<Rightarrow> bytes \<Rightarrow> team_file list" where
  "team_files root roster_name roster_content role_files protocol docker_content =
     [(child root roster_name, Roster, roster_content)] @ role_files @ protocol @
     [(child root (lit ''Dockerfile''), Dockerfile, docker_content)]"

definition snapshot_of_files :: "ppath \<Rightarrow> ustr \<Rightarrow> bool \<Rightarrow> team_file list \<Rightarrow> team_snapshot" where
  "snapshot_of_files root roster_name has_protocol files =
     \<lparr>sn_roster = child root roster_name, sn_roles_dir = child root (lit ''roles''),
      sn_protocol = (if has_protocol then Some (child root (lit ''AGENTS.md'')) else None),
      sn_dockerfile = child root (lit ''Dockerfile''), sn_files = files\<rparr>"

definition read_team_snapshot :: "ppath \<Rightarrow> qnode option \<Rightarrow> ustr option \<Rightarrow> team_snapshot res" where
  "read_team_snapshot root node roster_name =
     rbind (open_team_root node) (\<lambda>d.
     rbind (of_option (CycloError ''team roster not found'')
       (case roster_name of Some n \<Rightarrow> Some n | None \<Rightarrow> find (directory_entry_exists d) ROSTER_NAMES)) (\<lambda>roster_name.
     rbind (ensure (roster_name \<in> set ROSTER_NAMES) (CycloError ''unsupported team roster name'')) (\<lambda>_.
     rbind (read_regular_file_at d roster_name) (\<lambda>roster_content.
     rbind (open_roles_directory d) (\<lambda>roles.
     rbind (read_role_files root roles) (\<lambda>role_files.
     rbind (read_protocol root d) (\<lambda>protocol.
     rbind (read_regular_file_at d (lit ''Dockerfile'')) (\<lambda>docker_content.
     let files = team_files root roster_name roster_content role_files protocol docker_content in
     rbind (checkE (\<lambda>(_, _, c). rbind (decode_team_file c) (\<lambda>_. Inr ())) files) (\<lambda>_.
     Inr (snapshot_of_files root roster_name (protocol \<noteq> []) files))))))))))"

text \<open>\<open>files[0][2]\<close>, \<open>next(...)\<close> and the names of the role files.\<close>

definition roster_content :: "team_snapshot \<Rightarrow> bytes" where
  "roster_content s = snd (snd (hd (sn_files s)))"

definition dockerfile_content :: "team_snapshot \<Rightarrow> bytes option" where
  "dockerfile_content s =
     map_option (\<lambda>(_, _, c). c) (find (\<lambda>(p, l, c). p = sn_dockerfile s \<and> l = Dockerfile) (sn_files s))"

definition is_role_label :: "file_label \<Rightarrow> bool" where
  "is_role_label l = (case l of RoleFile _ \<Rightarrow> True | _ \<Rightarrow> False)"

definition role_names :: "team_snapshot \<Rightarrow> ustr list" where
  "role_names s = map (\<lambda>(p, _, _). path_name p) (filter (\<lambda>(_, l, _). is_role_label l) (sn_files s))"

section \<open>The roster\<close>

definition roster_agent :: "ustr list \<Rightarrow> ustr list \<Rightarrow> agent \<Rightarrow> unit res" where
  "roster_agent roles names a =
     rbind (validate_entry_name (ag_name a)) (\<lambda>_.
     rbind (validate_entry_name (ag_role a)) (\<lambda>_.
     rbind (ensure (ag_name a \<notin> set names) (CycloError ''duplicate agent name'')) (\<lambda>_.
     rbind (ensure (ag_engine a \<in> set SUPPORTED_ENGINES) (CycloError ''unsupported agent'')) (\<lambda>_.
     rbind (validate_proxy_model (ag_model a)) (\<lambda>_.
     ensure (ag_role a @ lit ''.md'' \<in> set roles) (CycloError ''team role file not found''))))))"

fun agent_of_fields :: "ustr list \<Rightarrow> agent option" where
  "agent_of_fields [name, role, engine, model] =
     Some \<lparr>ag_name = name, ag_role = role, ag_engine = engine, ag_model = model\<rparr>"
| "agent_of_fields _ = None"

definition roster_line :: "ustr list \<Rightarrow> agent list \<Rightarrow> ustr \<Rightarrow> agent list res" where
  "roster_line roles agents raw =
     (let line = strip raw in
      if line = [] \<or> startswith [35] line then Inr agents
      else
        rbind (of_option (CycloError ''expected <name> <role> <agent> <provider/model>'')
          (agent_of_fields (split_ws line))) (\<lambda>a.
        rbind (roster_agent roles (map ag_name agents) a) (\<lambda>_. Inr (agents @ [a]))))"

definition parse_roster :: "team_snapshot \<Rightarrow> agent list res" where
  "parse_roster s =
     rbind (decode_team_file (roster_content s)) (\<lambda>t.
     rbind (foldE (roster_line (role_names s)) [] (splitlines t)) (\<lambda>agents.
     rbind (ensure (agents \<noteq> []) (CycloError ''team roster has no agents'')) (\<lambda>_.
     rbind (ensure (list_ex (\<lambda>a. ag_role a = lit ''planner'') agents)
       (CycloError ''team roster must include at least one planner agent'')) (\<lambda>_.
     Inr agents))))"

section \<open>The Dockerfile\<close>

definition upper_char :: "uchar \<Rightarrow> uchar" where
  "upper_char c = (if is_lower c then c - 32 else c)"

text \<open>\<open>line.split(None, 1)\<close>: the first word, and the rest without its leading space if there is one.\<close>

definition split_once :: "ustr \<Rightarrow> ustr \<times> ustr option" where
  "split_once line =
     (let s = lstrip line; w = takeWhile (\<lambda>c. \<not> isspace c) s;
          rest = lstrip (dropWhile (\<lambda>c. \<not> isspace c) s)
      in (w, if rest = [] then None else Some rest))"

definition keyword_of :: "ustr \<Rightarrow> ustr" where
  "keyword_of line = map upper_char (fst (split_once line))"

definition docker_directives :: "ustr \<Rightarrow> ustr list" where
  "docker_directives t =
     map strip (filter (\<lambda>l. strip l \<noteq> [] \<and> \<not> startswith [35] (lstrip l)) (splitlines t))"

definition docker_arguments :: "ustr list \<Rightarrow> ustr list" where
  "docker_arguments ds =
     concat (map (\<lambda>l. case split_once l of
         (w, Some rest) \<Rightarrow>
           if map upper_char w = lit ''ARG'' then [strip (fst (partition_at 61 rest))] else []
       | (w, None) \<Rightarrow> []) ds)"

definition validate_team_dockerfile :: "team_snapshot \<Rightarrow> ppath res" where
  "validate_team_dockerfile s =
     rbind (of_option (OSErr ''stop iteration'') (dockerfile_content s)) (\<lambda>c.
     rbind (decode_team_file c) (\<lambda>t.
     let ds = docker_directives t; froms = filter (\<lambda>l. keyword_of l = lit ''FROM'') ds in
     rbind (ensure (froms \<noteq> []) (CycloError ''team Dockerfile has no FROM directive'')) (\<lambda>_.
     rbind (ensure (lit ''CYCLO_TEAM_BASE'' \<in> set (docker_arguments (takeWhile (\<lambda>l. keyword_of l \<noteq> lit ''FROM'') ds)))
       (CycloError ''team Dockerfile must declare ARG CYCLO_TEAM_BASE before FROM'')) (\<lambda>_.
     let fields = split_ws (last froms);
         image_index = (if 1 < length fields \<and> startswith (lit ''--'') (fields ! 1) then 2 else 1)
     in rbind (ensure (image_index < length fields \<and>
           fields ! image_index \<in> {lit ''${CYCLO_TEAM_BASE}'', lit ''$CYCLO_TEAM_BASE''})
         (CycloError ''team Dockerfile final stage must use FROM ${CYCLO_TEAM_BASE}'')) (\<lambda>_.
     Inr (sn_dockerfile s))))))"

section \<open>Teams\<close>

definition load_team :: "os_env \<Rightarrow> (ppath \<Rightarrow> qnode option) \<Rightarrow> ustr \<Rightarrow> team res" where
  "load_team os node_at value =
     rbind (resolve_team_directory os value) (\<lambda>root.
     rbind (read_team_snapshot root (node_at root) None) (\<lambda>s.
     rbind (parse_roster s) (\<lambda>agents.
     rbind (validate_team_dockerfile s) (\<lambda>dockerfile.
     Inr \<lparr>te_root = root, te_roster = sn_roster s, te_roles_dir = sn_roles_dir s,
          te_protocol = sn_protocol s, te_dockerfile = dockerfile, te_agents = agents\<rparr>))))"

text \<open>\<open>git rev-parse --show-toplevel\<close>: its output, or \<open>None\<close> for a failure.\<close>

definition git_root :: "os_env \<Rightarrow> ustr option \<Rightarrow> ppath res" where
  "git_root os output =
     (case output of
        Some t \<Rightarrow> if strip t = [] then Inl (CycloError ''team is not a Git repository'')
                  else Inr (resolve_lax os (path_of (strip t)))
      | None \<Rightarrow> Inl (CycloError ''team is not a Git repository''))"

definition require_team_repository :: "os_env \<Rightarrow> ustr option \<Rightarrow> team \<Rightarrow> unit res" where
  "require_team_repository os output t =
     rbind (git_root os output) (\<lambda>root.
     ensure (root = te_root t) (CycloError ''the team must live at its Git repository root''))"

definition digest_chunk :: "ppath \<Rightarrow> team_file \<Rightarrow> bytes res" where
  "digest_chunk root f =
     rbind (of_option (ValueErr ''relative_to'') (relative_to (fst f) root)) (\<lambda>r.
     rbind (utf8_encode (path_str r)) (\<lambda>n. Inr (n @ [0] @ snd (snd f) @ [0])))"

definition digest_input :: "ppath \<Rightarrow> team_file list \<Rightarrow> bytes res" where
  "digest_input root files = rbind (mapE (digest_chunk root) files) (\<lambda>cs. Inr (concat cs))"

text \<open>What \<open>team_generation\<close> checks again and hashes; \<open>head\<close> is the output of \<open>git rev-parse HEAD\<close>,
  \<open>None\<close> when it fails.\<close>

definition generation_input :: "qnode option \<Rightarrow> team \<Rightarrow> bytes res" where
  "generation_input node t =
     rbind (read_team_snapshot (te_root t) node (Some (path_name (te_roster t)))) (\<lambda>s.
     rbind (ensure ((sn_protocol s = None) = (te_protocol t = None))
       (CycloError ''team protocol changed after validation; reload the team'')) (\<lambda>_.
     rbind (parse_roster s) (\<lambda>agents.
     rbind (ensure (agents = te_agents t)
       (CycloError ''team roster changed after validation; reload the team'')) (\<lambda>_.
     rbind (validate_team_dockerfile s) (\<lambda>_.
     digest_input (te_root t) (sn_files s))))))"

definition team_generation :: "qnode option \<Rightarrow> ustr option \<Rightarrow> team \<Rightarrow> ustr res" where
  "team_generation node head t =
     (let commit = (case head of Some h \<Rightarrow> strip h | None \<Rightarrow> lit ''unborn'') in
      rbind (generation_input node t) (\<lambda>input.
      Inr (commit @ lit ''-content-'' @ take 16 (sha256_hex input))))"

section \<open>New teams\<close>

text \<open>The roster \<open>init_team\<close> writes: the template's, every agent on the chosen model.\<close>

definition with_model :: "ustr \<Rightarrow> ustr \<Rightarrow> ustr" where
  "with_model model raw =
     (let stripped = strip raw in
      if stripped \<noteq> [] \<and> \<not> startswith [35] stripped then
        let fields = split_ws stripped in
        if length fields = 3 then raw @ [32] @ model
        else if length fields = 4 then join [32] (take 3 fields @ [model])
        else raw
      else raw)"

definition init_roster :: "ustr \<Rightarrow> ustr \<Rightarrow> ustr" where
  "init_roster model template = join [10] (map (with_model model) (splitlines template)) @ [10]"

section \<open>The bundled runtime\<close>

definition required_runtime_files :: "string list" where
  "required_runtime_files = [''tools/run_agentws'', ''tools/agent'', ''tools/agentws'', ''tools/pi_rpc.py'',
     ''tools/planner_notification.py'', ''bin/agent-new'', ''bin/job-notify-planner'',
     ''bin/job-reset-orphans'', ''bin/task-create'']"

definition runtime_seams :: "(string \<times> string list) list" where
  "runtime_seams =
     [(''tools/run_agentws'', [''AGENTWS_SYSTEM_PROTOCOL'', ''AGENTWS_TEAM_PROTOCOL'',
         ''AGENTWS_TEAM_ROLES_DIR'', ''AGENTWS_WORKSPACE'']),
      (''tools/agent'', [''AGENTWS_SYSTEM_PROTOCOL'', ''AGENTWS_TEAM_PROTOCOL'', ''AGENTWS_WORKSPACE'']),
      (''tools/agentws'', [''--pin-root'', ''--read-only'']),
      (''bin/agent-new'', [''AGENTWS_TEAM_ROLES_DIR'']),
      (''bin/job-reset-orphans'', [''--all-active'', ''CYCLO_RUNTIME_LOCK_FD''])]"

fun contains :: "ustr \<Rightarrow> ustr \<Rightarrow> bool" where
  "contains m [] \<longleftrightarrow> m = []"
| "contains m (c # cs) \<longleftrightarrow> startswith m (c # cs) \<or> contains m cs"

text \<open>\<open>runtime\<close> gives the content of each regular file (through links), by its relative path.\<close>

definition verify_agentws_runtime :: "(ustr \<Rightarrow> bytes option) \<Rightarrow> unit res" where
  "verify_agentws_runtime runtime =
     rbind (ensure (list_all (\<lambda>p. runtime (lit p) \<noteq> None) required_runtime_files)
       (CycloError ''the bundled job-loop runtime is incomplete'')) (\<lambda>_.
     checkE (\<lambda>(p, markers).
       rbind (of_option (OSErr ''read_text'') (runtime (lit p))) (\<lambda>content.
       ensure (list_all (\<lambda>m. contains (lit m) (utf8_decode_replace content)) markers)
         (CycloError ''the bundled job-loop runtime lacks a required marker''))) runtime_seams)"

section \<open>What a snapshot holds\<close>

definition good_file :: "qdir \<Rightarrow> ustr \<Rightarrow> bytes \<Rightarrow> bool" where
  "good_file d name c \<longleftrightarrow> (\<exists>t. map_of d name = Some (QFile t c)) \<and> length c \<le> MAX_TEAM_FILE_BYTES \<and>
     utf8_decode c \<noteq> None"

lemma read_regular_file_Inr:
  "read_regular_file_at d name = Inr c \<longleftrightarrow> (\<exists>t. map_of d name = Some (QFile t c)) \<and> length c \<le> MAX_TEAM_FILE_BYTES"
  by (auto simp: read_regular_file_at_def split: option.splits qnode.splits)

lemma decode_team_file_Inr [simp]: "decode_team_file c = Inr t \<longleftrightarrow> utf8_decode c = Some t"
  by (simp add: decode_team_file_def)

lemma open_roles_Inr:
  "open_roles_directory d = Inr roles \<longleftrightarrow> (\<exists>m. map_of d (lit ''roles'') = Some (QDir m roles))"
  by (auto simp: open_roles_directory_def open_directory_at_def
      split: option.splits qnode.splits sum.splits errno.splits)

lemma open_team_root_Inr: "open_team_root node = Inr d \<longleftrightarrow> (\<exists>m. node = Some (QDir m d))"
  by (auto simp: open_team_root_def split: option.splits qnode.splits)

lemma read_team_snapshot_Inr:
  assumes "read_team_snapshot root node name = Inr s"
  shows "\<exists>d roster rc roles rf protocol dc. open_team_root node = Inr d \<and> roster \<in> set ROSTER_NAMES \<and>
    read_regular_file_at d roster = Inr rc \<and> open_roles_directory d = Inr roles \<and>
    read_role_files root roles = Inr rf \<and> read_protocol root d = Inr protocol \<and>
    read_regular_file_at d (lit ''Dockerfile'') = Inr dc \<and>
    (\<forall>f\<in>set (team_files root roster rc rf protocol dc). utf8_decode (snd (snd f)) \<noteq> None) \<and>
    s = snapshot_of_files root roster (protocol \<noteq> []) (team_files root roster rc rf protocol dc)"
proof -
  have c: "(case f of (_, _, c) \<Rightarrow> rbind (decode_team_file c) (\<lambda>_. Inr ())) = Inr () \<longleftrightarrow>
      utf8_decode (snd (snd f)) \<noteq> None" for f :: team_file
    by (auto simp: case_prod_beta)
  show ?thesis using assms
    unfolding read_team_snapshot_def Let_def rbind_eq_Inr ensure_eq checkE_Inr c sum.inject by blast
qed

lemma snapshot_roles:
  assumes "read_team_snapshot root node name = Inr s"
  shows "\<exists>m d mr roles. node = Some (QDir m d) \<and> map_of d (lit ''roles'') = Some (QDir mr roles) \<and>
    (\<forall>n\<in>set (role_names s). n \<in> set (map fst roles) \<and> (\<exists>c. good_file roles n c))"
proof -
  from read_team_snapshot_Inr [OF assms] obtain d roster rc roles rf protocol dc where
    r: "open_team_root node = Inr d" "open_roles_directory d = Inr roles"
    "read_role_files root roles = Inr rf" "read_protocol root d = Inr protocol" and
    u: "\<forall>f\<in>set (team_files root roster rc rf protocol dc). utf8_decode (snd (snd f)) \<noteq> None" and
    s: "s = snapshot_of_files root roster (protocol \<noteq> []) (team_files root roster rc rf protocol dc)"
    by blast
  have p: "\<forall>x\<in>set protocol. \<not> is_role_label (fst (snd x))"
    using r(4) by (auto simp: read_protocol_def is_role_label_def split: if_splits)
  have "n \<in> set (map fst roles) \<and> (\<exists>c. good_file roles n c)" if "n \<in> set (role_names s)" for n
  proof -
    from that p obtain x where x: "x \<in> set rf" "n = path_name (fst x)"
      by (auto simp: role_names_def s snapshot_of_files_def team_files_def is_role_label_def)
    from mapE_in_set [OF r(3) [unfolded read_role_files_def] x(1)] obtain k c where
      k: "k \<in> set (map fst roles)" "read_regular_file_at roles k = Inr c" and
      xe: "x = (child (child root (lit ''roles'')) k, RoleFile k, c)" by auto
    have "n = k" using x(2) by (simp add: xe child_def path_name_def)
    moreover have "utf8_decode c \<noteq> None" using u x(1) by (force simp: team_files_def xe)
    ultimately show ?thesis using k by (auto simp: good_file_def read_regular_file_Inr)
  qed
  then show ?thesis using r(1,2) unfolding open_team_root_Inr open_roles_Inr by blast
qed

section \<open>Teams that load\<close>

definition wf_agent :: "ustr list \<Rightarrow> agent \<Rightarrow> bool" where
  "wf_agent roles a \<longleftrightarrow> is_team_entry_name (ag_name a) \<and> is_team_entry_name (ag_role a) \<and>
     ag_engine a \<in> set SUPPORTED_ENGINES \<and> ag_role a @ lit ''.md'' \<in> set roles \<and>
     (\<exists>p m. ag_model a = p @ 47 # m \<and> is_provider_prefix (Some p) \<and> is_local_model_id (Some m))"

lemma validate_proxy_model_Inr:
  "validate_proxy_model model = Inr (p, m) \<longleftrightarrow>
     model = p @ 47 # m \<and> is_provider_prefix (Some p) \<and> is_local_model_id (Some m)"
  by (auto simp: validate_proxy_model_def split_public_Some)

lemma agent_of_fields_Some:
  "agent_of_fields ws = Some a \<longleftrightarrow> ws = [ag_name a, ag_role a, ag_engine a, ag_model a]"
  by (cases ws rule: agent_of_fields.cases) auto

lemma roster_agent_Inr:
  "roster_agent roles names a = Inr u \<longleftrightarrow> wf_agent roles a \<and> ag_name a \<notin> set names"
proof -
  have "roster_agent roles names a = Inr u \<longleftrightarrow> is_team_entry_name (ag_name a) \<and> is_team_entry_name (ag_role a) \<and>
      ag_name a \<notin> set names \<and> ag_engine a \<in> set SUPPORTED_ENGINES \<and>
      (\<exists>pm. validate_proxy_model (ag_model a) = Inr pm) \<and> ag_role a @ lit ''.md'' \<in> set roles"
    unfolding roster_agent_def rbind_eq_Inr validate_entry_name_def ensure_eq by blast
  then show ?thesis by (auto simp: wf_agent_def validate_proxy_model_Inr split_paired_Ex)
qed

lemma roster_line_Inr:
  "roster_line roles agents raw = Inr agents' \<longleftrightarrow>
     (if strip raw = [] \<or> startswith [35] (strip raw) then agents' = agents
      else \<exists>a. split_ws (strip raw) = [ag_name a, ag_role a, ag_engine a, ag_model a] \<and>
        wf_agent roles a \<and> ag_name a \<notin> ag_name ` set agents \<and> agents' = agents @ [a])"
  by (auto simp: roster_line_def Let_def agent_of_fields_Some roster_agent_Inr)

lemma roster_fold_wf:
  assumes "foldE (roster_line roles) [] ls = Inr agents"
  shows "distinct (map ag_name agents) \<and> (\<forall>a\<in>set agents. wf_agent roles a)"
  by (rule foldE_invariant [OF assms, where P = "\<lambda>as. distinct (map ag_name as) \<and> (\<forall>a\<in>set as. wf_agent roles a)"])
    (auto simp: roster_line_Inr split: if_splits)

lemma load_team_inv:
  assumes "load_team os node_at value = Inr t"
  shows "(\<exists>a\<in>set (te_agents t). ag_role a = lit ''planner'') \<and> distinct (map ag_name (te_agents t)) \<and>
    is_dir os (te_root t) \<and>
    (\<exists>m d mr roles. node_at (te_root t) = Some (QDir m d) \<and> map_of d (lit ''roles'') = Some (QDir mr roles) \<and>
      (\<forall>a\<in>set (te_agents t). wf_agent (map fst roles) a \<and> (\<exists>c. good_file roles (ag_role a @ lit ''.md'') c)))"
proof -
  from assms obtain s where
    r: "resolve_team_directory os value = Inr (te_root t)" and
    s: "read_team_snapshot (te_root t) (node_at (te_root t)) None = Inr s" and
    p: "parse_roster s = Inr (te_agents t)" by (auto simp: load_team_def)
  from snapshot_roles [OF s] obtain m d mr roles where
    so: "node_at (te_root t) = Some (QDir m d)" "map_of d (lit ''roles'') = Some (QDir mr roles)"
    "\<forall>n\<in>set (role_names s). n \<in> set (map fst roles) \<and> (\<exists>c. good_file roles n c)" by blast
  from p obtain ls where f: "foldE (roster_line (role_names s)) [] ls = Inr (te_agents t)" and
    pl: "list_ex (\<lambda>a. ag_role a = lit ''planner'') (te_agents t)" by (auto simp: parse_roster_def)
  note wf = roster_fold_wf [OF f]
  have "wf_agent (map fst roles) a \<and> (\<exists>c. good_file roles (ag_role a @ lit ''.md'') c)"
    if "a \<in> set (te_agents t)" for a
  proof -
    have w: "wf_agent (role_names s) a" using wf that by blast
    then have "ag_role a @ lit ''.md'' \<in> set (role_names s)" by (simp add: wf_agent_def)
    with so(3) show ?thesis using w unfolding wf_agent_def by blast
  qed
  moreover have "is_dir os (te_root t)"
    using r by (auto simp: resolve_team_directory_def Let_def split: if_splits)
  ultimately show ?thesis using wf pl so(1,2) unfolding list_ex_iff by blast
qed

text \<open>A team that loads has at least one agent, a planner among them, distinct agent names, and for
  every agent a supported engine, a model of a valid provider and a role whose file is a regular
  UTF-8 file of at most a megabyte in the real directory \<open>roles\<close> of the team.\<close>

theorem load_team_wf:
  assumes "load_team os node_at value = Inr t"
  shows "(\<exists>a\<in>set (te_agents t). ag_role a = lit ''planner'') \<and> distinct (map ag_name (te_agents t)) \<and>
    is_dir os (te_root t) \<and>
    (\<exists>m d mr roles. node_at (te_root t) = Some (QDir m d) \<and> map_of d (lit ''roles'') = Some (QDir mr roles) \<and>
      (\<forall>a\<in>set (te_agents t). wf_agent (map fst roles) a \<and> (\<exists>c. good_file roles (ag_role a @ lit ''.md'') c)))"
  using assms by (rule load_team_inv)

section \<open>New teams\<close>

lemma proxy_model_word:
  assumes "validate_proxy_model model = Inr pm"
  shows "model \<noteq> [] \<and> (\<forall>c\<in>set model. \<not> isspace c)"
proof -
  obtain p m where pm: "model = p @ 47 # m" "is_provider_prefix (Some p)" "is_local_model_id (Some m)"
    using assms by (cases pm) (auto simp: validate_proxy_model_Inr)
  have "\<not> isspace c" if "c \<in> set p" for c
  proof -
    have "prefix_head c \<or> prefix_tail c"
      using pm(2) that by (auto simp: is_provider_prefix_def dest: re_nameD(4) [where c = c])
    then show ?thesis by (auto simp: prefix_head_def prefix_tail_def ascii_defs isspace_def)
  qed
  then show ?thesis using pm local_model_no_space by (auto simp: isspace_def)
qed

lemma with_model_line:
  assumes "roster_line roles agents raw = Inr agents'" "validate_proxy_model model = Inr pm"
  defines "f \<equiv> \<lambda>a. a\<lparr>ag_model := model\<rparr>"
  shows "roster_line roles (map f agents) (with_model model raw) = Inr (map f agents')"
proof (cases "strip raw = [] \<or> startswith [35] (strip raw)")
  case True
  then show ?thesis using assms(1) by (auto simp: with_model_def Let_def roster_line_Inr)
next
  case False
  with assms(1) obtain a where a: "split_ws (strip raw) = [ag_name a, ag_role a, ag_engine a, ag_model a]"
    "wf_agent roles a" "ag_name a \<notin> ag_name ` set agents" "agents' = agents @ [a]"
    by (auto simp: roster_line_Inr)
  let ?ws = "[ag_name a, ag_role a, ag_engine a, model]"
  have m: "model \<noteq> []" "\<forall>c\<in>set model. \<not> isspace c" using proxy_model_word [OF assms(2)] by auto
  have w: "\<forall>w\<in>set ?ws. w \<noteq> [] \<and> (\<forall>c\<in>set w. \<not> isspace c)"
    using m split_ws_tokens [of _ "strip raw"] unfolding a(1) by auto
  have l: "with_model model raw = join [32] ?ws" using False a(1) by (simp add: with_model_def Let_def)
  have "strip (join [32] ?ws) = join [32] ?ws"
    by (rule strip_id) (use w in auto)
  moreover have "\<not> startswith [35] (join [32] ?ws)"
    using a(2) by (cases "ag_name a") (auto simp: wf_agent_def is_team_entry_name_def re_name_star_def
        startswith_def ascii_defs)
  moreover have "join [32] ?ws \<noteq> []" using w by simp
  moreover have "wf_agent roles (f a)"
    using a(2) assms(2) by (cases pm) (auto simp: wf_agent_def f_def validate_proxy_model_Inr)
  ultimately show ?thesis
    unfolding l roster_line_Inr using a(3,4) split_ws_join [OF w]
    by (auto simp: f_def image_image intro!: exI [of _ "f a"])
qed


lemma with_model_lines:
  assumes "validate_proxy_model model = Inr pm"
  defines "f \<equiv> \<lambda>a. a\<lparr>ag_model := model\<rparr>"
  shows "foldE (roster_line roles) agents ls = Inr agents' \<Longrightarrow>
    foldE (roster_line roles) (map f agents) (map (with_model model) ls) = Inr (map f agents')"
proof (induction ls arbitrary: agents)
  case (Cons l ls)
  from Cons.prems obtain as where l: "roster_line roles agents l = Inr as"
    "foldE (roster_line roles) as ls = Inr agents'" by auto
  have "roster_line roles (map f agents) (with_model model l) = Inr (map f as)"
    using with_model_line [OF l(1) assms(1)] by (simp add: f_def)
  then show ?case using Cons.IH [OF l(2)] by simp
qed simp

text \<open>The roster \<open>init_team\<close> writes from a template that parses has the template's agents, in order,
  each on the chosen model.\<close>

theorem init_roster_agents:
  assumes "foldE (roster_line roles) [] (splitlines template) = Inr agents" "agents \<noteq> []"
    and "validate_proxy_model model = Inr pm"
  shows "foldE (roster_line roles) [] (splitlines (init_roster model template)) =
    Inr (map (\<lambda>a. a\<lparr>ag_model := model\<rparr>) agents)"
proof -
  have ne: "splitlines template \<noteq> []" using assms(1,2) by (metis foldE.simps(1) sum.inject(2))
  have m: "\<forall>c\<in>set model. \<not> is_linebreak c"
    using proxy_model_word [OF assms(3)] linebreak_isspace by blast
  have w: "\<forall>c\<in>set (with_model model l). \<not> is_linebreak c" if "\<forall>c\<in>set l. \<not> is_linebreak c" for l
  proof -
    have 32: "\<not> is_linebreak 32" by (simp add: is_linebreak_def)
    have "\<forall>w\<in>set (split_ws (strip l)). \<forall>c\<in>set w. \<not> is_linebreak c"
      using split_ws_tokens [of _ "strip l"] linebreak_isspace by blast
    then have "\<forall>w\<in>set (take 3 (split_ws (strip l)) @ [model]). \<forall>c\<in>set w. \<not> is_linebreak c"
      using m by (auto dest: in_set_takeD)
    moreover have "set (join [32] ws) \<subseteq> {32} \<union> (\<Union>x\<in>set ws. set x)" for ws
      by (induction "[32::nat]" ws rule: join.induct) auto
    ultimately have j: "\<forall>c\<in>set (join [32] (take 3 (split_ws (strip l)) @ [model])). \<not> is_linebreak c"
      using 32 by blast
    have "with_model model l \<in> {l, l @ [32] @ model, join [32] (take 3 (split_ws (strip l)) @ [model])}"
      by (simp add: with_model_def Let_def)
    moreover have "\<forall>c\<in>set (l @ [32] @ model). \<not> is_linebreak c" using 32 m that by auto
    ultimately show ?thesis using j that by (elim insertE) (simp_all del: join.simps)
  qed
  have "splitlines (init_roster model template) = map (with_model model) (splitlines template)"
    unfolding init_roster_def using ne splitlines_no_break w
    by (intro splitlines_join) (auto dest: splitlines_no_break)
  then show ?thesis using with_model_lines [OF assms(3,1)] by simp
qed

section \<open>Generations\<close>

lemma nul_split: "0 \<notin> set a \<Longrightarrow> 0 \<notin> set b \<Longrightarrow> a @ 0 # u = b @ (0::nat) # v \<longleftrightarrow> a = b \<and> u = v"
proof (induction a arbitrary: b)
  case Nil
  then show ?case by (cases b) auto
next
  case (Cons x a)
  then show ?case by (cases b) auto
qed

lemma utf8_char_nul: "c \<noteq> 0 \<Longrightarrow> 0 \<notin> set (utf8_char c)"
  by (simp add: utf8_char_def)

lemma utf8_encode_nul:
  assumes "utf8_encode s = Inr b" "0 \<notin> set s"
  shows "0 \<notin> set b"
proof -
  have b: "b = concat (map utf8_char s)" using assms(1) by (simp add: utf8_encode_def split: if_splits)
  have "\<forall>c\<in>set s. 0 \<notin> set (utf8_char c)" using assms(2) utf8_char_nul by metis
  then show ?thesis by (simp add: b)
qed

text \<open>The name and the content that enter the digest.\<close>

definition named_content :: "ppath \<Rightarrow> team_file \<Rightarrow> ustr \<times> bytes" where
  "named_content root f = (path_str (the (relative_to (fst f) root)), snd (snd f))"

lemma digest_chunk_form:
  assumes "digest_chunk root f = Inr x" "0 \<notin> set (fst (named_content root f))"
  shows "\<exists>n. utf8_encode (fst (named_content root f)) = Inr n \<and> 0 \<notin> set n \<and>
    x = n @ 0 # snd (named_content root f) @ 0 # []"
proof -
  from assms(1) obtain r n where "relative_to (fst f) root = Some r" "utf8_encode (path_str r) = Inr n"
    "x = n @ [0] @ snd (snd f) @ [0]" by (auto simp: digest_chunk_def)
  then show ?thesis using assms(2) utf8_encode_nul by (simp add: named_content_def)
qed

lemma digest_chunks_inj:
  assumes "list_all2 (\<lambda>f x. digest_chunk root f = Inr x) fs xs" "list_all2 (\<lambda>g y. digest_chunk root' g = Inr y) gs ys"
    and "concat xs = concat ys"
    and "\<forall>f\<in>set fs. 0 \<notin> set (fst (named_content root f)) \<and> 0 \<notin> set (snd (named_content root f))"
    and "\<forall>g\<in>set gs. 0 \<notin> set (fst (named_content root' g)) \<and> 0 \<notin> set (snd (named_content root' g))"
  shows "map (named_content root) fs = map (named_content root') gs"
  using assms
proof (induction fs arbitrary: xs gs ys)
  case Nil
  show ?case
  proof (cases gs)
    case (Cons g gs')
    then obtain y ys' where "ys = y # ys'" "digest_chunk root' g = Inr y"
      using Nil.prems(2) by (auto simp: list_all2_Cons1)
    then show ?thesis using Nil.prems(1,3,5) digest_chunk_form [of root' g y] Cons by auto
  qed simp
next
  case (Cons f fs)
  then obtain x xs' where x: "xs = x # xs'" "digest_chunk root f = Inr x"
    "list_all2 (\<lambda>f x. digest_chunk root f = Inr x) fs xs'" by (auto simp: list_all2_Cons1)
  have pf: "0 \<notin> set (fst (named_content root f))" "0 \<notin> set (snd (named_content root f))"
    using Cons.prems(4) by auto
  obtain n where n: "utf8_encode (fst (named_content root f)) = Inr n" "0 \<notin> set n"
    "x = n @ 0 # snd (named_content root f) @ 0 # []" using digest_chunk_form [OF x(2) pf(1)] by blast
  show ?case
  proof (cases gs)
    case Nil
    then show ?thesis using Cons.prems(2,3) x(1) n(3) by simp
  next
    case g: (Cons g gs')
    then obtain y ys' where y: "ys = y # ys'" "digest_chunk root' g = Inr y"
      "list_all2 (\<lambda>g y. digest_chunk root' g = Inr y) gs' ys'"
      using Cons.prems(2) by (auto simp: list_all2_Cons1)
    have pg: "0 \<notin> set (fst (named_content root' g))" "0 \<notin> set (snd (named_content root' g))"
      using Cons.prems(5) g by auto
    obtain m where m: "utf8_encode (fst (named_content root' g)) = Inr m" "0 \<notin> set m"
      "y = m @ 0 # snd (named_content root' g) @ 0 # []" using digest_chunk_form [OF y(2) pg(1)] by blast
    have "n @ 0 # (snd (named_content root f) @ 0 # concat xs') =
        m @ 0 # (snd (named_content root' g) @ 0 # concat ys')"
      using Cons.prems(3) by (simp add: x(1) y(1) n(3) m(3))
    then have e: "n = m" "snd (named_content root f) = snd (named_content root' g)" "concat xs' = concat ys'"
      using nul_split n(2) m(2) pf(2) pg(2) by auto
    have "fst (named_content root f) = fst (named_content root' g)"
      using utf8_decode_encode n(1) m(1) e(1) by (metis option.inject)
    moreover have "map (named_content root) fs = map (named_content root') gs'"
      using Cons.IH [OF x(3) y(3) e(3)] Cons.prems(4,5) g by auto
    ultimately show ?thesis using e(2) g by (simp add: prod_eq_iff)
  qed
qed

text \<open>For files without NUL bytes the digest input determines the names and the contents, so the
  generations of two such definitions agree only where SHA-256 collides.\<close>

theorem digest_input_inj:
  assumes "digest_input root fs = Inr d" "digest_input root' gs = Inr d"
    and "\<forall>f\<in>set fs. 0 \<notin> set (fst (named_content root f)) \<and> 0 \<notin> set (snd (named_content root f))"
    and "\<forall>g\<in>set gs. 0 \<notin> set (fst (named_content root' g)) \<and> 0 \<notin> set (snd (named_content root' g))"
  shows "map (named_content root) fs = map (named_content root') gs"
proof -
  from assms(1,2) obtain xs ys where
    "list_all2 (\<lambda>f x. digest_chunk root f = Inr x) fs xs" "list_all2 (\<lambda>g y. digest_chunk root' g = Inr y) gs ys"
    "concat xs = concat ys" by (auto simp: digest_input_def mapE_Inr)
  then show ?thesis using assms(3,4) by (rule digest_chunks_inj)
qed

section \<open>A concrete team\<close>

definition nl :: string where "nl = [CHR 0x0A]"

definition ex_team_dir :: "qdir \<Rightarrow> qnode" where
  "ex_team_dir roles = QDir 0
     [(lit ''team'', QFile 0 (lit (''# roster'' @ nl @ ''p planner pi acme/m'' @ nl))),
      (lit ''roles'', QDir 0 roles),
      (lit ''Dockerfile'', QFile 0 (lit (''ARG CYCLO_TEAM_BASE'' @ nl @ ''FROM ${CYCLO_TEAM_BASE}'' @ nl)))]"

definition ex_roles :: qdir where
  "ex_roles = [(lit ''planner.md'', QFile 0 (lit ''p'' @ [0] @ lit ''roles/z.md'' @ [0] @ lit ''q''))]"

definition ex_split_roles :: qdir where
  "ex_split_roles = [(lit ''planner.md'', QFile 0 (lit ''p'')), (lit ''z.md'', QFile 0 (lit ''q''))]"

definition ex_team_os :: os_env where
  "ex_team_os = \<lparr>resolve_strict = Some, resolve_lax = (\<lambda>p. p), expanduser = (\<lambda>p. p),
     cwd = path_of (lit ''/''), is_dir = (\<lambda>p. True), read_nofollow = (\<lambda>p. Missing)\<rparr>"

definition ex_loaded :: team where
  "ex_loaded = \<lparr>te_root = Path (lit ''/'') [lit ''t''], te_roster = Path (lit ''/'') [lit ''t'', lit ''team''],
     te_roles_dir = Path (lit ''/'') [lit ''t'', lit ''roles''], te_protocol = None,
     te_dockerfile = Path (lit ''/'') [lit ''t'', lit ''Dockerfile''],
     te_agents = [\<lparr>ag_name = lit ''p'', ag_role = lit ''planner'', ag_engine = lit ''pi'', ag_model = lit ''acme/m''\<rparr>]\<rparr>"

lemma ex_team_loads:
  "load_team ex_team_os (\<lambda>p. Some (ex_team_dir ex_roles)) (lit ''/t'') = Inr ex_loaded"
  by code_simp

lemma ex_split_loads:
  "load_team ex_team_os (\<lambda>p. Some (ex_team_dir ex_split_roles)) (lit ''/t'') = Inr ex_loaded"
  by code_simp

text \<open>Two different team definitions with the same generation: a role file that contains NUL bytes
  reads as two role files.\<close>

theorem generation_collision:
  "\<exists>node node' t. node \<noteq> node' \<and>
     load_team ex_team_os (\<lambda>p. Some node) (lit ''/t'') = Inr t \<and>
     load_team ex_team_os (\<lambda>p. Some node') (lit ''/t'') = Inr t \<and>
     (\<exists>g. team_generation (Some node) head t = Inr g \<and> team_generation (Some node') head t = Inr g)"
proof -
  have "generation_input (Some (ex_team_dir ex_roles)) ex_loaded =
      generation_input (Some (ex_team_dir ex_split_roles)) ex_loaded" by code_simp
  moreover have "is_ok (generation_input (Some (ex_team_dir ex_roles)) ex_loaded)" by code_simp
  ultimately have "\<exists>g. team_generation (Some (ex_team_dir ex_roles)) head ex_loaded = Inr g \<and>
      team_generation (Some (ex_team_dir ex_split_roles)) head ex_loaded = Inr g"
    by (auto simp: team_generation_def is_ok_iff)
  moreover have "ex_team_dir ex_roles \<noteq> ex_team_dir ex_split_roles"
    by (simp add: ex_team_dir_def ex_roles_def ex_split_roles_def)
  ultimately show ?thesis using ex_team_loads ex_split_loads by blast
qed

lemma load_team_wf_witness: "\<exists>a\<in>set (te_agents ex_loaded). ag_role a = lit ''planner''"
  using load_team_wf [OF ex_team_loads] by blast

lemma init_roster_agents_witness:
  "foldE (roster_line [lit ''planner.md'']) [] (splitlines (init_roster (lit ''b/n'') (lit ''p planner pi acme/m''))) =
    Inr [\<lparr>ag_name = lit ''p'', ag_role = lit ''planner'', ag_engine = lit ''pi'', ag_model = lit ''b/n''\<rparr>]"
proof -
  have "foldE (roster_line [lit ''planner.md'']) [] (splitlines (lit ''p planner pi acme/m'')) = Inr (te_agents ex_loaded)"
    by code_simp
  moreover have "validate_proxy_model (lit ''b/n'') = Inr (lit ''b'', lit ''n'')" by code_simp
  ultimately show ?thesis
    using init_roster_agents [of "[lit ''planner.md'']" "lit ''p planner pi acme/m''" "te_agents ex_loaded" "lit ''b/n''"]
    by (simp add: ex_loaded_def)
qed

lemma digest_input_inj_witness:
  "map (named_content (Path [] [])) [(Path [] [lit ''a''], Roster, lit ''x'')] =
   map (named_content (Path [] [])) [(Path [] [lit ''a''], Roster, lit ''x'')]"
proof -
  have d: "digest_input (Path [] []) [(Path [] [lit ''a''], Roster, lit ''x'')] = Inr (lit ''a'' @ [0] @ lit ''x'' @ [0])"
    by code_simp
  have z: "\<forall>f\<in>set [(Path [] [lit ''a''], Roster, lit ''x'')]. 0 \<notin> set (fst (named_content (Path [] []) f)) \<and>
      0 \<notin> set (snd (named_content (Path [] []) f))" by code_simp
  show ?thesis by (rule digest_input_inj [OF d d z z])
qed

end
