(* ===== verification/Team_Init.thy ===== *)
theory Team_Init imports Team "HOL-Library.AList" begin

text \<open>
  \<open>init_team\<close> of \<open>src/cyclo/team/definition.py\<close> and the bundled templates of \<open>team/templates/__init__.py\<close>.  The new team is
  staged in a sibling of its destination, so the state is the directory that holds both, \<open>None\<close> when it does not exist
  yet.  Any call on the file system may fail: \<open>ie_io\<close> says which does.  What \<open>git init\<close> leaves in the staged directory and
  its exit code are parameters; the packaged trees have no links, and \<open>rmtree\<close> of the staged directory succeeds.
\<close>

definition MINIMAL_TEAM_DOCKERFILE :: ustr where
  "MINIMAL_TEAM_DOCKERFILE = lit ''ARG CYCLO_TEAM_BASE'' @ [10] @ lit ''FROM ${CYCLO_TEAM_BASE}'' @ [10]"

section \<open>Templates\<close>

definition has_file :: "qdir \<Rightarrow> string \<Rightarrow> bool" where
  "has_file d name \<longleftrightarrow> (case map_of d (lit name) of Some (QFile _ _) \<Rightarrow> True | _ \<Rightarrow> False)"

definition has_dir :: "qdir \<Rightarrow> string \<Rightarrow> bool" where
  "has_dir d name \<longleftrightarrow> (case map_of d (lit name) of Some (QDir _ _) \<Rightarrow> True | _ \<Rightarrow> False)"

definition is_template :: "qdir \<Rightarrow> bool" where
  "is_template d \<longleftrightarrow> has_file d ''team'' \<and> has_dir d ''roles'' \<and> has_file d ''Dockerfile''"

definition packaged_team_template :: "qdir \<Rightarrow> ustr \<Rightarrow> qdir res" where
  "packaged_team_template templates name =
     rbind (ensure (name \<notin> {[], lit ''.'', lit ''..''} \<and> 47 \<notin> set name \<and> 92 \<notin> set name)
       (CycloError ''invalid bundled team template name'')) (\<lambda>_.
     case map_of templates name of
       Some (QDir _ d) \<Rightarrow> if is_template d then Inr d else Inl (CycloError ''unknown bundled team template'')
     | _ \<Rightarrow> Inl (CycloError ''unknown bundled team template''))"

definition bundled_team_template_names :: "qdir \<Rightarrow> ustr list" where
  "bundled_team_template_names templates =
     sort (map fst (filter (\<lambda>(n, x). case x of QDir _ d \<Rightarrow> is_template d | _ \<Rightarrow> False) templates))"

section \<open>Copying\<close>

text \<open>\<open>shutil.copytree\<close>: an entry that cannot be copied fails the copy.\<close>

fun copy_node :: "(ustr \<Rightarrow> bool) \<Rightarrow> qnode \<Rightarrow> qnode res" and copy_entries :: "(ustr \<Rightarrow> bool) \<Rightarrow> qdir \<Rightarrow> qdir res" where
  "copy_node ignored (QFile t content) = Inr (QFile t content)"
| "copy_node ignored (QDir t es) = rbind (copy_entries ignored es) (\<lambda>es. Inr (QDir t es))"
| "copy_node ignored _ = Inl (OSErr ''copy'')"
| "copy_entries ignored [] = Inr []"
| "copy_entries ignored ((n, x) # es) =
     (if ignored n then copy_entries ignored es
      else rbind (copy_node ignored x) (\<lambda>y. rbind (copy_entries ignored es) (\<lambda>ys. Inr ((n, y) # ys))))"

definition ignored_in_template :: "ustr \<Rightarrow> bool" where
  "ignored_in_template n \<longleftrightarrow> n \<in> {lit ''.git'', lit ''__pycache__''} \<or> endswith (lit ''.pyc'') n"

definition text_of :: "qdir \<Rightarrow> ustr \<Rightarrow> ustr res" where
  "text_of d name =
     (case map_of d name of
        Some (QFile _ content) \<Rightarrow> of_option UnicodeErr (utf8_decode content)
      | _ \<Rightarrow> Inl (OSErr ''read''))"

section \<open>Staging\<close>

datatype init_stage = InspectTarget | MakeParent | MakeStaged | CopyTemplate | WriteDockerfile | ReadRoster | WriteRoster | InstallStaged

record init_env =
  ie_io :: "init_stage \<Rightarrow> bool"
  ie_now :: int
  ie_tail :: ustr
  ie_runtime :: "qdir res"
  ie_templates :: qdir
  ie_git :: "qdir \<Rightarrow> (qdir \<times> int) res"

definition io :: "init_env \<Rightarrow> init_stage \<Rightarrow> unit res" where
  "io ie stage = (if ie_io ie stage then Inr () else Inl (OSErr ''io''))"

text \<open>What is staged before the roster, and the text the roster comes from.\<close>

definition staged_tree :: "init_env \<Rightarrow> ustr option \<Rightarrow> qdir \<Rightarrow> (qdir \<times> ustr) res" where
  "staged_tree ie template_name template =
     rbind (io ie CopyTemplate) (\<lambda>_.
     case template_name of
       None \<Rightarrow>
         rbind (of_option (OSErr ''roles'') (map_of template (lit ''roles''))) (\<lambda>roles.
         rbind (copy_node (\<lambda>n. False) roles) (\<lambda>roles.
         rbind (case roles of QDir t es \<Rightarrow> Inr (QDir t es) | _ \<Rightarrow> Inl (OSErr ''not a directory'')) (\<lambda>roles.
         rbind (io ie WriteDockerfile) (\<lambda>_.
         rbind (utf8_encode MINIMAL_TEAM_DOCKERFILE) (\<lambda>docker.
         rbind (io ie ReadRoster) (\<lambda>_.
         rbind (text_of template (lit ''default.team'')) (\<lambda>roster.
         Inr ([(lit ''roles'', roles), (lit ''Dockerfile'', QFile (ie_now ie) docker)], roster))))))))
     | Some _ \<Rightarrow>
         rbind (copy_entries ignored_in_template template) (\<lambda>d.
         rbind (io ie ReadRoster) (\<lambda>_.
         rbind (text_of template (lit ''team'')) (\<lambda>roster. Inr (d, roster)))))"

text \<open>The body of the \<open>try\<close> after the staged directory was made: the complete tree of the new team.\<close>

definition staged_team :: "init_env \<Rightarrow> ustr \<Rightarrow> bool \<Rightarrow> ustr option \<Rightarrow> qdir \<Rightarrow> qdir res" where
  "staged_team ie model initialize_git template_name template =
     rbind (staged_tree ie template_name template) (\<lambda>(d, roster).
     rbind (io ie WriteRoster) (\<lambda>_.
     rbind (utf8_encode (init_roster model roster)) (\<lambda>content.
     let d = AList.update (lit ''team'') (QFile (ie_now ie) content) d in
     if \<not> initialize_git then Inr d
     else
       rbind (ie_git ie d) (\<lambda>(d, code).
       rbind (ensure (code = 0) (CycloError ''git init failed'')) (\<lambda>_. Inr d)))))"

definition init_failure :: "error \<Rightarrow> error" where
  "init_failure e =
     (case e of OSErr _ \<Rightarrow> CycloError ''cannot initialize team repository'' | UnicodeErr \<Rightarrow> CycloError ''cannot initialize team repository''
      | _ \<Rightarrow> e)"

definition inspect_target :: "init_env \<Rightarrow> qdir option \<Rightarrow> ustr \<Rightarrow> unit res" where
  "inspect_target ie parent name =
     rbind (ensure (ie_io ie InspectTarget) (CycloError ''cannot inspect team destination'')) (\<lambda>_.
     case Option.bind parent (\<lambda>ps. map_of ps name) of
       None \<Rightarrow> Inr ()
     | Some (QDir _ es) \<Rightarrow> ensure (es = []) (CycloError ''destination is not empty'')
     | Some _ \<Rightarrow> Inl (CycloError ''destination exists and is not a directory''))"

definition staged_name :: "init_env \<Rightarrow> ustr \<Rightarrow> ustr" where
  "staged_name ie name = [46] @ name @ lit ''.new.'' @ ie_tail ie"

text \<open>The directory that holds the destination, made when it is missing.\<close>

definition made_parent :: "init_env \<Rightarrow> qdir option \<Rightarrow> qdir res" where
  "made_parent ie parent = (case parent of Some ps \<Rightarrow> Inr ps | None \<Rightarrow> rbind (io ie MakeParent) (\<lambda>_. Inr []))"

definition stage_and_install :: "init_env \<Rightarrow> ustr \<Rightarrow> ustr \<Rightarrow> bool \<Rightarrow> ustr option \<Rightarrow> qdir \<Rightarrow> qdir \<Rightarrow> qdir res" where
  "stage_and_install ie name model initialize_git template_name template ps =
     rbind (io ie MakeStaged) (\<lambda>_.
     rbind (ensure (map_of ps (staged_name ie name) = None) (OSErr ''file exists'')) (\<lambda>_.
     rbind (staged_team ie model initialize_git template_name template) (\<lambda>d.
     rbind (io ie InstallStaged) (\<lambda>_.
     Inr (AList.update name (QDir (ie_now ie) d) ps)))))"

definition init_team ::
    "init_env \<Rightarrow> ustr \<Rightarrow> ustr \<Rightarrow> bool \<Rightarrow> ustr option \<Rightarrow> qdir option \<Rightarrow> qdir option \<times> unit res" where
  "init_team ie name model initialize_git template_name parent =
     (case rbind (validate_proxy_model model) (\<lambda>_.
        rbind (inspect_target ie parent name) (\<lambda>_.
        case template_name of Some t \<Rightarrow> packaged_team_template (ie_templates ie) t | None \<Rightarrow> ie_runtime ie)) of
        Inl e \<Rightarrow> (parent, Inl e)
      | Inr template \<Rightarrow>
          (case made_parent ie parent of
             Inl e \<Rightarrow> (parent, Inl (init_failure e))
           | Inr ps \<Rightarrow>
               (case stage_and_install ie name model initialize_git template_name template ps of
                  Inl e \<Rightarrow> (Some (AList.delete (staged_name ie name) ps), Inl (init_failure e))
                | Inr ps' \<Rightarrow> (Some ps', Inr ()))))"

section \<open>The commands\<close>

definition cmd_team_templates :: "qdir \<Rightarrow> ustr list" where
  "cmd_team_templates templates = bundled_team_template_names templates"

text \<open>\<open>load\<close> is \<open>load_team\<close> of the destination, over the directory as \<open>init_team\<close> left it.\<close>

definition cmd_team_init ::
    "init_env \<Rightarrow> (qdir option \<Rightarrow> team res) \<Rightarrow> ppath \<Rightarrow> ustr \<Rightarrow> bool \<Rightarrow> ustr option \<Rightarrow> qdir option \<Rightarrow> qdir option \<times> ustr list res" where
  "cmd_team_init ie load destination model no_git template_name parent =
     (case init_team ie (path_name destination) model (\<not> no_git) template_name parent of
        (parent, Inl e) \<Rightarrow> (parent, Inl e)
      | (parent, Inr _) \<Rightarrow>
          (parent, rbind (load parent) (\<lambda>team. Inr
             [lit ''initialized Cyclo team: '' @ path_str destination, lit ''agents: '' @ dec (length (te_agents team)),
              lit ''next: edit '' @ path_str (child destination (lit ''team'')) @ lit '' and '' @
                path_str (child destination (lit ''roles''))])))"

section \<open>All or nothing\<close>

lemma staged_name_other [simp]: "staged_name ie name \<noteq> name"
proof
  assume "staged_name ie name = name"
  then have "length (staged_name ie name) = length name" by simp
  then show False by (simp add: staged_name_def)
qed

lemma map_of_None_delete: "map_of ps n = None \<Longrightarrow> AList.delete n ps = ps"
  by (induction ps) (auto split: if_splits)


section \<open>A new team loads\<close>

text \<open>What a snapshot reads, without the paths.\<close>

definition team_contents :: "qdir \<Rightarrow> ustr \<Rightarrow> (bytes \<times> (ustr \<times> bytes) list \<times> bytes list \<times> bytes) res" where
  "team_contents d roster_name =
     rbind (read_regular_file_at d roster_name) (\<lambda>roster.
     rbind (open_roles_directory d) (\<lambda>roles.
     rbind (mapE (\<lambda>n. rbind (read_regular_file_at roles n) (\<lambda>c. Inr (n, c))) (sort (filter role_md (map fst roles)))) (\<lambda>ncs.
     rbind (if directory_entry_exists d (lit ''AGENTS.md'')
            then rbind (read_regular_file_at d (lit ''AGENTS.md'')) (\<lambda>c. Inr [c]) else Inr []) (\<lambda>protocol.
     rbind (read_regular_file_at d (lit ''Dockerfile'')) (\<lambda>docker. Inr (roster, ncs, protocol, docker))))))"

definition files_of :: "ppath \<Rightarrow> bytes \<times> (ustr \<times> bytes) list \<times> bytes list \<times> bytes \<Rightarrow> team_file list" where
  "files_of root c =
     (case c of (roster, ncs, protocol, docker) \<Rightarrow>
      team_files root (lit ''team'') roster (map (\<lambda>(n, c). (child (child root (lit ''roles'')) n, RoleFile n, c)) ncs)
        (map (\<lambda>c. (child root (lit ''AGENTS.md''), Protocol, c)) protocol) docker)"

lemma mapE_renamed: "mapE (\<lambda>x. rbind (f x) (\<lambda>c. Inr (g x c))) xs =
    rbind (mapE (\<lambda>x. rbind (f x) (\<lambda>c. Inr (x, c))) xs) (\<lambda>ys. Inr (map (\<lambda>(x, c). g x c) ys))"
proof (induction xs)
  case (Cons x xs)
  then show ?case by (cases "f x"; cases "mapE (\<lambda>x. rbind (f x) (\<lambda>c. Inr (x, c))) xs") simp_all
qed simp

lemma snapshot_contents:
  assumes "map_of d (lit ''team'') \<noteq> None"
  shows "read_team_snapshot root (Some (QDir t d)) None = Inr s \<longleftrightarrow>
    (\<exists>c. team_contents d (lit ''team'') = Inr c \<and> (\<forall>(p, l, x)\<in>set (files_of root c). is_ok (decode_team_file x)) \<and>
      s = snapshot_of_files root (lit ''team'') (fst (snd (snd c)) \<noteq> []) (files_of root c))"
proof -
  have r: "find (directory_entry_exists d) ROSTER_NAMES = Some (lit ''team'')"
    using assms by (simp add: ROSTER_NAMES_def directory_entry_exists_def)
  have roles: "read_role_files root roles = Inr fs \<longleftrightarrow>
      (\<exists>ncs. mapE (\<lambda>n. rbind (read_regular_file_at roles n) (\<lambda>c. Inr (n, c))) (sort (filter role_md (map fst roles))) = Inr ncs \<and>
        fs = map (\<lambda>(n, c). (child (child root (lit ''roles'')) n, RoleFile n, c)) ncs)" for roles fs
    unfolding read_role_files_def by (subst mapE_renamed) auto
  have ok: "(\<exists>u. checkE (\<lambda>(_, _, c). rbind (decode_team_file c) (\<lambda>_. Inr ())) fs = Inr u) \<longleftrightarrow>
      (\<forall>(p, l, x)\<in>set fs. is_ok (decode_team_file x))" for fs :: "team_file list"
    by (fastforce simp: is_ok_iff)
  show ?thesis
    unfolding read_team_snapshot_def open_team_root_def team_contents_def read_protocol_def Let_def rbind_eq_Inr roles
    using r ok by (auto simp: files_of_def ROSTER_NAMES_def)
qed

lemma snapshot_roster: "roster_content (snapshot_of_files root r b (files_of root (roster, ncs, protocol, docker))) = roster"
  by (simp add: roster_content_def snapshot_of_files_def files_of_def team_files_def)

lemma snapshot_role_names: "role_names (snapshot_of_files root r b (files_of root (roster, ncs, protocol, docker))) = map fst ncs"
proof -
  have "filter (\<lambda>x. is_role_label (fst (snd x))) (map (\<lambda>(n, c). (child (child root (lit ''roles'')) n, RoleFile n, c)) ncs) =
      map (\<lambda>(n, c). (child (child root (lit ''roles'')) n, RoleFile n, c)) ncs"
    by (induction ncs) (auto simp: is_role_label_def)
  moreover have "filter (\<lambda>x. is_role_label (fst (snd x))) (map (\<lambda>c. (child root (lit ''AGENTS.md''), Protocol, c)) protocol) = []"
    by (induction protocol) (auto simp: is_role_label_def)
  ultimately show ?thesis
    by (simp add: role_names_def snapshot_of_files_def files_of_def team_files_def case_prod_beta is_role_label_def path_name_def child_def
        comp_def)
qed

lemma snapshot_docker:
  "dockerfile_content (snapshot_of_files root r b (files_of root (roster, ncs, protocol, docker))) = Some docker"
proof -
  let ?f = "\<lambda>(p :: ppath, l, c :: bytes). p = child root (lit ''Dockerfile'') \<and> l = Dockerfile"
  have "find ?f (map (\<lambda>(n, c). (child (child root (lit ''roles'')) n, RoleFile n, c)) ncs @ xs) = find ?f xs" for xs
    by (induction ncs) auto
  moreover have "find ?f (map (\<lambda>c. (child root (lit ''AGENTS.md''), Protocol, c)) protocol @ xs) = find ?f xs" for xs
    by (induction protocol) auto
  ultimately show ?thesis
    by (simp add: dockerfile_content_def snapshot_of_files_def files_of_def team_files_def)
qed

lemma dockerfile_valid_same:
  assumes "validate_team_dockerfile s = Inr p" "dockerfile_content s' = dockerfile_content s"
  shows "validate_team_dockerfile s' = Inr (sn_dockerfile s')"
  using assms(1) unfolding validate_team_dockerfile_def assms(2) Let_def rbind_eq_Inr by (elim exE conjE) simp

lemma copy_entries_lookup:
  "copy_entries ignored es = Inr es' \<Longrightarrow> \<not> ignored n \<Longrightarrow>
    (case map_of es n of None \<Rightarrow> map_of es' n = None | Some x \<Rightarrow> \<exists>y. copy_node ignored x = Inr y \<and> map_of es' n = Some y)"
proof (induction es arbitrary: es')
  case (Cons e es)
  obtain m x where e: "e = (m, x)" by fastforce
  then show ?case using Cons by (cases "ignored m") (auto split: option.splits)
qed simp

lemma copy_node_cases: "copy_node ignored x = Inr y \<Longrightarrow>
    (\<exists>t c. x = QFile t c \<and> y = QFile t c) \<or> (\<exists>t es es'. x = QDir t es \<and> y = QDir t es' \<and> copy_entries ignored es = Inr es')"
  by (cases x) auto

lemma copied_file:
  assumes "copy_entries ignored es = Inr es'" "\<not> ignored n"
  shows "read_regular_file_at es' n = read_regular_file_at es n" "directory_entry_exists es' n = directory_entry_exists es n"
proof -
  note l = copy_entries_lookup [OF assms]
  show "read_regular_file_at es' n = read_regular_file_at es n"
    using l by (auto simp: read_regular_file_at_def dest!: copy_node_cases split: option.splits)
  show "directory_entry_exists es' n = directory_entry_exists es n"
    using l by (auto simp: directory_entry_exists_def split: option.splits)
qed

lemma copied_roles:
  assumes "copy_entries ignored es = Inr es'" "\<not> ignored (lit ''roles'')" "open_roles_directory es = Inr rs"
  shows "\<exists>rs'. open_roles_directory es' = Inr rs' \<and> copy_entries ignored rs = Inr rs'"
  using copy_entries_lookup [OF assms(1,2)] assms(3)
  by (auto simp: open_roles_directory_def open_directory_at_def dest!: copy_node_cases split: option.splits qnode.splits sum.splits errno.splits)

lemma copied_names:
  "copy_entries ignored es = Inr es' \<Longrightarrow> (\<And>n. P n \<Longrightarrow> \<not> ignored n) \<Longrightarrow> filter P (map fst es') = filter P (map fst es)"
proof (induction es arbitrary: es')
  case (Cons e es)
  obtain m x where e: "e = (m, x)" by fastforce
  then show ?case using Cons by (cases "ignored m") auto
qed simp

lemma not_ignored: "\<not> ignored_in_template (lit ''roles'')" "\<not> ignored_in_template (lit ''AGENTS.md'')"
    "\<not> ignored_in_template (lit ''Dockerfile'')" "\<not> ignored_in_template (lit ''team'')"
  by code_simp+

lemma role_not_ignored: "role_md n \<Longrightarrow> \<not> ignored_in_template n"
  unfolding role_md_def ignored_in_template_def endswith_iff
  by (auto simp: lit_def)

text \<open>Nothing but the roster changes what a snapshot of the copy reads.\<close>

lemma copied_contents:
  assumes "copy_entries ignored_in_template d = Inr d'" "team_contents d (lit ''team'') = Inr (roster, ncs, protocol, docker)"
    and "\<And>n. n \<in> {lit ''roles'', lit ''AGENTS.md'', lit ''Dockerfile''} \<Longrightarrow> map_of e n = map_of d' n"
    and "read_regular_file_at e (lit ''team'') = Inr roster'"
  shows "team_contents e (lit ''team'') = Inr (roster', ncs, protocol, docker)"
proof -
  have same: "read_regular_file_at e n = read_regular_file_at d' n" "directory_entry_exists e n = directory_entry_exists d' n"
    if "n \<in> {lit ''roles'', lit ''AGENTS.md'', lit ''Dockerfile''}" for n
    using assms(3) [OF that] by (simp_all add: read_regular_file_at_def directory_entry_exists_def)
  have roles': "open_roles_directory e = open_roles_directory d'"
    using assms(3) [of "lit ''roles''"] by (simp add: open_roles_directory_def open_directory_at_def)
  obtain rs where rs: "open_roles_directory d = Inr rs"
    using assms(2) by (auto simp: team_contents_def)
  obtain rs' where rs': "open_roles_directory d' = Inr rs'" "copy_entries ignored_in_template rs = Inr rs'"
    using copied_roles [OF assms(1) not_ignored(1) rs] by blast
  have names: "filter role_md (map fst rs') = filter role_md (map fst rs)"
    using copied_names [OF rs'(2)] role_not_ignored by blast
  have "mapE (\<lambda>n. rbind (read_regular_file_at rs' n) (\<lambda>c. Inr (n, c))) (sort (filter role_md (map fst rs))) =
      mapE (\<lambda>n. rbind (read_regular_file_at rs n) (\<lambda>c. Inr (n, c))) (sort (filter role_md (map fst rs)))"
    by (rule mapE_cong) (auto simp: copied_file [OF rs'(2) role_not_ignored])
  then show ?thesis
    using assms(2,4) same roles' rs rs'(1) names copied_file [OF assms(1) not_ignored(2)] copied_file [OF assms(1) not_ignored(3)]
    by (auto simp: team_contents_def split: if_splits)
qed

lemma files_bytes:
  "(\<forall>(q, l, x)\<in>set (files_of root (roster, ncs, protocol, docker)). P x) \<longleftrightarrow>
    P roster \<and> P docker \<and> (\<forall>(n, c)\<in>set ncs. P c) \<and> (\<forall>c\<in>set protocol. P c)"
  by (simp add: files_of_def team_files_def ball_Un case_prod_beta)

lemma copied_snapshot:
  assumes "copy_entries ignored_in_template d = Inr d'" "read_team_snapshot p (Some (QDir m d)) None = Inr s"
    and "text_of d (lit ''team'') = Inr text" "length content \<le> MAX_TEAM_FILE_BYTES" "is_ok (decode_team_file content)"
    and "\<And>n. n \<noteq> lit ''.git'' \<Longrightarrow> map_of e n = map_of (AList.update (lit ''team'') (QFile now content) d') n"
  obtains old ncs protocol docker where
    "s = snapshot_of_files p (lit ''team'') (protocol \<noteq> []) (files_of p (old, ncs, protocol, docker))" "decode_team_file old = Inr text"
    "\<And>root t. read_team_snapshot root (Some (QDir t e)) None =
       Inr (snapshot_of_files root (lit ''team'') (protocol \<noteq> []) (files_of root (content, ncs, protocol, docker)))"
proof -
  have names: "lit ''team'' \<noteq> lit ''.git''" "lit ''roles'' \<notin> {lit ''.git'', lit ''team''}" "lit ''AGENTS.md'' \<notin> {lit ''.git'', lit ''team''}"
    "lit ''Dockerfile'' \<notin> {lit ''.git'', lit ''team''}" by code_simp+
  have "map_of d (lit ''team'') \<noteq> None" using assms(3) by (auto simp: text_of_def split: option.splits)
  then obtain old ncs protocol docker where c: "team_contents d (lit ''team'') = Inr (old, ncs, protocol, docker)"
    and ok: "\<forall>(q, l, x)\<in>set (files_of p (old, ncs, protocol, docker)). is_ok (decode_team_file x)"
    and s: "s = snapshot_of_files p (lit ''team'') (protocol \<noteq> []) (files_of p (old, ncs, protocol, docker))"
    using assms(2) snapshot_contents [of d p m s] by auto
  have team: "map_of e (lit ''team'') = Some (QFile now content)" using assms(6) [OF names(1)] by (simp add: update_conv')
  have "team_contents e (lit ''team'') = Inr (content, ncs, protocol, docker)"
  proof (rule copied_contents [OF assms(1) c])
    show "map_of e n = map_of d' n" if "n \<in> {lit ''roles'', lit ''AGENTS.md'', lit ''Dockerfile''}" for n
      using that names assms(6) [of n] by (auto simp: update_conv')
    show "read_regular_file_at e (lit ''team'') = Inr content" using team assms(4) by (simp add: read_regular_file_at_def)
  qed
  moreover have "\<forall>(q, l, x)\<in>set (files_of root (content, ncs, protocol, docker)). is_ok (decode_team_file x)" for root
    using ok assms(5) unfolding files_bytes by blast
  ultimately have "read_team_snapshot root (Some (QDir t e)) None =
      Inr (snapshot_of_files root (lit ''team'') (protocol \<noteq> []) (files_of root (content, ncs, protocol, docker)))" for root t
    using snapshot_contents [of e root t] team by fastforce
  moreover have "decode_team_file old = Inr text"
    using c assms(3) by (auto simp: team_contents_def read_regular_file_at_def text_of_def decode_team_file_def
        split: option.splits qnode.splits if_splits)
  ultimately show thesis using s that by blast
qed

text \<open>What \<open>init_team\<close> installs from a template.\<close>

lemma installed_tree:
  assumes "init_team ie name model initialize_git (Some t) parent = (Some ps', Inr ())"
    "packaged_team_template (ie_templates ie) t = Inr template"
  obtains d e roster content pm where "map_of ps' name = Some (QDir (ie_now ie) e)" "copy_entries ignored_in_template template = Inr d"
    "text_of template (lit ''team'') = Inr roster" "utf8_encode (init_roster model roster) = Inr content"
    "initialize_git \<longrightarrow> ie_git ie (AList.update (lit ''team'') (QFile (ie_now ie) content) d) = Inr (e, 0)"
    "\<not> initialize_git \<longrightarrow> e = AList.update (lit ''team'') (QFile (ie_now ie) content) d" "validate_proxy_model model = Inr pm"
proof -
  obtain pm where m: "validate_proxy_model model = Inr pm"
    using assms(1) by (cases "validate_proxy_model model") (auto simp: init_team_def)
  obtain ps e where e: "staged_team ie model initialize_git (Some t) template = Inr e" "ps' = AList.update name (QDir (ie_now ie) e) ps"
    using assms m by (auto simp: init_team_def stage_and_install_def rbind_def split: sum.splits)
  obtain d roster content where d: "copy_entries ignored_in_template template = Inr d" "text_of template (lit ''team'') = Inr roster"
      "utf8_encode (init_roster model roster) = Inr content"
      "initialize_git \<longrightarrow> ie_git ie (AList.update (lit ''team'') (QFile (ie_now ie) content) d) = Inr (e, 0)"
      "\<not> initialize_git \<longrightarrow> e = AList.update (lit ''team'') (QFile (ie_now ie) content) d"
    using e(1) by (auto simp: staged_team_def staged_tree_def Let_def split: if_splits)
  show thesis by (rule that [OF _ d m]) (simp add: e(2) update_conv')
qed

text \<open>C26: \<open>cyclo team init\<close> from a template that is itself a valid team makes a team that loads, with the agents of the template in
  their order, each on the chosen model.\<close>

theorem new_team_loads:
  assumes "init_team ie name model initialize_git (Some t) parent = (Some ps', Inr ())"
    and "packaged_team_template (ie_templates ie) t = Inr template"
    and "read_team_snapshot p (Some (QDir m template)) None = Inr s" "parse_roster s = Inr agents" "is_ok (validate_team_dockerfile s)"
    and "\<forall>roster content. text_of template (lit ''team'') = Inr roster \<longrightarrow> utf8_encode (init_roster model roster) = Inr content \<longrightarrow>
      length content \<le> MAX_TEAM_FILE_BYTES"
    and "\<forall>d d' code n. ie_git ie d = Inr (d', code) \<longrightarrow> n \<noteq> lit ''.git'' \<longrightarrow> map_of d' n = map_of d n"
    and "resolve_team_directory os value = Inr root" "node_at root = map_of ps' name"
  shows "\<exists>team. load_team os node_at value = Inr team \<and> te_root team = root \<and>
    te_agents team = map (\<lambda>a. a\<lparr>ag_model := model\<rparr>) agents"
proof -
  obtain d e roster content pm where tree: "map_of ps' name = Some (QDir (ie_now ie) e)"
    and d: "copy_entries ignored_in_template template = Inr d" "text_of template (lit ''team'') = Inr roster"
      "utf8_encode (init_roster model roster) = Inr content" "validate_proxy_model model = Inr pm"
    and g: "initialize_git \<longrightarrow> ie_git ie (AList.update (lit ''team'') (QFile (ie_now ie) content) d) = Inr (e, 0)"
      "\<not> initialize_git \<longrightarrow> e = AList.update (lit ''team'') (QFile (ie_now ie) content) d"
    by (rule installed_tree [OF assms(1,2)])
  have e: "map_of e n = map_of (AList.update (lit ''team'') (QFile (ie_now ie) content) d) n" if "n \<noteq> lit ''.git''" for n
    using g assms(7) that by (cases initialize_git) auto
  have size: "length content \<le> MAX_TEAM_FILE_BYTES" using assms(6) d(2,3) by blast
  have content: "decode_team_file content = Inr (init_roster model roster)"
    using utf8_decode_encode [OF d(3)] by (simp add: decode_team_file_def)
  have "is_ok (decode_team_file content)" unfolding content by simp
  from copied_snapshot [OF d(1) assms(3) d(2) size this e] obtain old ncs protocol docker where
    s: "s = snapshot_of_files p (lit ''team'') (protocol \<noteq> []) (files_of p (old, ncs, protocol, docker))" "decode_team_file old = Inr roster"
    and s': "\<And>root t. read_team_snapshot root (Some (QDir t e)) None =
       Inr (snapshot_of_files root (lit ''team'') (protocol \<noteq> []) (files_of root (content, ncs, protocol, docker)))" by metis
  let ?s = "snapshot_of_files root (lit ''team'') (protocol \<noteq> []) (files_of root (content, ncs, protocol, docker))"
  have r: "foldE (roster_line (map fst ncs)) [] (splitlines roster) = Inr agents" "agents \<noteq> []"
      "list_ex (\<lambda>a. ag_role a = lit ''planner'') agents"
    using assms(4) s(2) by (auto simp: parse_roster_def s(1) snapshot_roster snapshot_role_names)
  have "parse_roster ?s = Inr (map (\<lambda>a. a\<lparr>ag_model := model\<rparr>) agents)"
    using init_roster_agents [OF r(1,2) d(4)] r content
    by (simp add: parse_roster_def snapshot_roster snapshot_role_names list_ex_iff)
  moreover have "validate_team_dockerfile ?s = Inr (sn_dockerfile ?s)"
    using assms(5) dockerfile_valid_same [of s] by (auto simp: s(1) snapshot_docker is_ok_iff)
  ultimately show ?thesis using s' assms(8,9) tree by (simp add: load_team_def)
qed

section \<open>Witnesses\<close>

definition ex_template :: qdir where
  "ex_template = (case ex_team_dir ex_roles of QDir t d \<Rightarrow> d | _ \<Rightarrow> [])"

definition ex_init :: init_env where
  "ex_init = \<lparr>ie_io = (\<lambda>stage. True), ie_now = 7, ie_tail = lit ''1.ab'', ie_runtime = Inl (CycloError ''none''),
     ie_templates = [(lit ''audit'', QDir 0 ex_template)], ie_git = (\<lambda>d. Inr ((lit ''.git'', QDir 0 []) # d, 0))\<rparr>"

definition ex_parent :: qdir where
  "ex_parent = (case init_team ex_init (lit ''t'') (lit ''b/n'') True (Some (lit ''audit'')) None of (Some ps, _) \<Rightarrow> ps | _ \<Rightarrow> [])"

lemma ex_initialized: "init_team ex_init (lit ''t'') (lit ''b/n'') True (Some (lit ''audit'')) None = (Some ex_parent, Inr ())"
proof -
  have "case init_team ex_init (lit ''t'') (lit ''b/n'') True (Some (lit ''audit'')) None of (Some ps, r) \<Rightarrow> r = Inr () | _ \<Rightarrow> False"
    by code_simp
  then show ?thesis by (auto simp: ex_parent_def split: prod.splits option.splits)
qed


lemma new_team_loads_witness:
  "\<exists>team. load_team ex_team_os (\<lambda>p. map_of ex_parent (path_name p)) (lit ''/t'') = Inr team \<and> map ag_model (te_agents team) = [lit ''b/n'']"
proof -
  have template: "packaged_team_template (ie_templates ex_init) (lit ''audit'') = Inr ex_template" by code_simp
  have "is_ok (read_team_snapshot (path_of (lit ''/x'')) (Some (QDir 0 ex_template)) None)" by code_simp
  then obtain s where s: "read_team_snapshot (path_of (lit ''/x'')) (Some (QDir 0 ex_template)) None = Inr s" by (auto simp: is_ok_iff)
  have "case read_team_snapshot (path_of (lit ''/x'')) (Some (QDir 0 ex_template)) None of
      Inr s \<Rightarrow> parse_roster s = Inr (te_agents ex_loaded) \<and> is_ok (validate_team_dockerfile s) | Inl _ \<Rightarrow> False" by code_simp
  then have p: "parse_roster s = Inr (te_agents ex_loaded)" "is_ok (validate_team_dockerfile s)" by (simp_all add: s)
  have "case text_of ex_template (lit ''team'') of Inl _ \<Rightarrow> False | Inr roster \<Rightarrow>
      (case utf8_encode (init_roster (lit ''b/n'') roster) of Inl _ \<Rightarrow> False | Inr content \<Rightarrow> length content \<le> MAX_TEAM_FILE_BYTES)"
    by code_simp
  then have size: "\<forall>roster content. text_of ex_template (lit ''team'') = Inr roster \<longrightarrow> utf8_encode (init_roster (lit ''b/n'') roster) = Inr content \<longrightarrow>
      length content \<le> MAX_TEAM_FILE_BYTES" by auto
  have git: "\<forall>d d' code n. ie_git ex_init d = Inr (d', code) \<longrightarrow> n \<noteq> lit ''.git'' \<longrightarrow> map_of d' n = map_of d n"
    by (simp add: ex_init_def)
  have root: "resolve_team_directory ex_team_os (lit ''/t'') = Inr (path_of (lit ''/t''))" "path_name (path_of (lit ''/t'')) = lit ''t''"
    by code_simp+
  show ?thesis
    using new_team_loads [OF ex_initialized template s p size git root(1), of "\<lambda>p. map_of ex_parent (path_name p)"] root(2)
    by (auto simp: ex_loaded_def)
qed

end
