(* ===== verification/Mounts.thy ===== *)
theory Mounts imports Host Project Team begin

text \<open>
  The selected Docker endpoint (\<open>src/cyclo/docker_endpoint.py\<close>), the separation of mounted trees
  from the host's authority (\<open>src/cyclo/mounts.py\<close>, \<open>src/cyclo/authority.py\<close>) and the roots of an
  installation (\<open>src/cyclo/installation.py\<close>).  The process table, the home directory and the JSON
  reader are parameters; a label is left out of a root that is only compared.
\<close>

section \<open>Endpoint URIs\<close>

text \<open>\<open>urllib.parse.urlsplit\<close>: scheme, network location, path, query and fragment.  \<open>bad_netloc\<close>
  tells where it raises for the network location.\<close>

record split_uri =
  ur_scheme :: ustr
  ur_netloc :: ustr
  ur_path :: ustr
  ur_query :: ustr
  ur_fragment :: ustr

definition scheme_char :: "uchar \<Rightarrow> bool" where
  "scheme_char c \<longleftrightarrow> is_alnum c \<or> c = 43 \<or> c = 45 \<or> c = 46"

definition split_scheme :: "ustr \<Rightarrow> ustr \<times> ustr" where
  "split_scheme url =
     (case partition_at 58 url of
        (s, found, rest) \<Rightarrow>
          if found \<and> s \<noteq> [] \<and> is_alpha (hd s) \<and> list_all scheme_char s then (lower s, rest) else ([], url))"

definition urlsplit :: "(ustr \<Rightarrow> bool) \<Rightarrow> ustr \<Rightarrow> split_uri res" where
  "urlsplit bad_netloc text_url =
     (let url = filter (\<lambda>c. c \<notin> {9, 10, 13}) (dropWhile (\<lambda>c. c \<le> 32) text_url);
          (scheme, rest) = split_scheme url;
          (netloc, rest) =
            (if startswith [47, 47] rest
             then (takeWhile (\<lambda>c. c \<notin> {47, 63, 35}) (drop 2 rest), dropWhile (\<lambda>c. c \<notin> {47, 63, 35}) (drop 2 rest))
             else ([], rest));
          (rest, _, fragment) = partition_at 35 rest;
          (path, _, query) = partition_at 63 rest
      in if bad_netloc netloc then Inl (ValueErr ''netloc'')
         else Inr \<lparr>ur_scheme = scheme, ur_netloc = netloc, ur_path = path, ur_query = query, ur_fragment = fragment\<rparr>)"

text \<open>\<open>urllib.parse.unquote(..., errors="strict")\<close>: each run of ASCII characters is decoded by itself.\<close>

definition hex_value :: "uchar \<Rightarrow> nat option" where
  "hex_value c =
     (if is_digit c then Some (c - 48) else if 97 \<le> c \<and> c \<le> 102 then Some (c - 87)
      else if 65 \<le> c \<and> c \<le> 70 then Some (c - 55) else None)"

fun unquote_bytes :: "ustr \<Rightarrow> bytes" where
  "unquote_bytes (c # a # b # cs) =
     (if c = 37 then
        (case (hex_value a, hex_value b) of
           (Some h, Some l) \<Rightarrow> (16 * h + l) # unquote_bytes cs
         | _ \<Rightarrow> c # unquote_bytes (a # b # cs))
      else c # unquote_bytes (a # b # cs))"
| "unquote_bytes s = s"

function unquote :: "ustr \<Rightarrow> ustr option" where
  "unquote s =
     (case s of
        [] \<Rightarrow> Some []
      | c # cs \<Rightarrow>
          if c < 128 then
            (case (utf8_decode (unquote_bytes (takeWhile (\<lambda>x. x < 128) s)), unquote (dropWhile (\<lambda>x. x < 128) s)) of
               (Some a, Some b) \<Rightarrow> Some (a @ b)
             | _ \<Rightarrow> None)
          else map_option (Cons c) (unquote cs))"
  by pat_completeness auto
termination by (relation "measure length") (auto simp: dropWhile_shrinks)

definition endpoint_error :: "string \<Rightarrow> error" where
  "endpoint_error detail = CycloError (''cannot resolve selected Docker endpoint: '' @ detail)"

definition has_control :: "ustr \<Rightarrow> bool" where
  "has_control s \<longleftrightarrow> (\<exists>c\<in>set s. c < 32 \<or> c = 127)"

definition unix_socket_from_endpoint :: "(ustr \<Rightarrow> bool) \<Rightarrow> ustr \<Rightarrow> ppath option res" where
  "unix_socket_from_endpoint bad_netloc endpoint =
     (case urlsplit bad_netloc endpoint of
        Inl _ \<Rightarrow> Inl (endpoint_error ''Docker returned an invalid endpoint URI'')
      | Inr u \<Rightarrow>
          if ur_scheme u = [] then Inl (endpoint_error ''Docker returned an endpoint without a URI scheme'')
          else if lower (ur_scheme u) \<noteq> lit ''unix'' then Inr None
          else if ur_netloc u \<noteq> [] \<or> ur_query u \<noteq> [] \<or> ur_fragment u \<noteq> [] \<or> ur_path u = []
          then Inl (endpoint_error ''Docker returned an invalid Unix endpoint URI'')
          else
            (case unquote (ur_path u) of
              None \<Rightarrow> Inl (endpoint_error ''Docker returned an invalid Unix endpoint path'')
            | Some decoded \<Rightarrow>
                if \<not> is_absolute (path_of decoded) \<or> has_control decoded
                then Inl (endpoint_error ''Docker returned an invalid Unix endpoint path'')
                else Inr (Some (path_of decoded))))"

text \<open>The outcome of \<open>docker context inspect\<close>.\<close>

datatype process = ProcMissing | ProcTimeout | ProcError | Exited int ustr

definition selected_docker_endpoint :: "(ustr \<Rightarrow> bool) \<Rightarrow> (ustr \<Rightarrow> json option) \<Rightarrow> process \<Rightarrow> ustr res" where
  "selected_docker_endpoint bad_netloc loads process =
     (case process of
        ProcMissing \<Rightarrow> Inl (endpoint_error ''Docker is not installed or not on PATH'')
      | ProcTimeout \<Rightarrow> Inl (endpoint_error ''Docker context inspection timed out'')
      | ProcError \<Rightarrow> Inl (endpoint_error ''os error'')
      | Exited code stdout \<Rightarrow>
          if code \<noteq> 0 then Inl (endpoint_error ''Docker context inspection failed'')
          else
            (case splitlines stdout of
              [line] \<Rightarrow>
                if line \<noteq> strip line then Inl (endpoint_error ''Docker returned an invalid endpoint response'')
                else
                  (case loads line of
                     Some (JStr endpoint) \<Rightarrow>
                       if endpoint = [] \<or> endpoint \<noteq> strip endpoint \<or> has_control endpoint
                       then Inl (endpoint_error ''Docker returned an invalid endpoint response'')
                       else rbind (unix_socket_from_endpoint bad_netloc endpoint) (\<lambda>_. Inr endpoint)
                   | _ \<Rightarrow> Inl (endpoint_error ''Docker returned an invalid endpoint response''))
            | _ \<Rightarrow> Inl (endpoint_error ''Docker returned an invalid endpoint response'')))"

definition local_docker_endpoint ::
    "os_env \<Rightarrow> (ppath \<Rightarrow> bool) \<Rightarrow> (ustr \<Rightarrow> bool) \<Rightarrow> (ustr \<Rightarrow> json option) \<Rightarrow> process \<Rightarrow> ustr res" where
  "local_docker_endpoint os is_socket bad_netloc loads process =
     rbind (selected_docker_endpoint bad_netloc loads process) (\<lambda>endpoint.
     rbind (unix_socket_from_endpoint bad_netloc endpoint) (\<lambda>socket_path.
     rbind (of_option (endpoint_error ''Cyclo supports only a local Docker Unix socket'') socket_path) (\<lambda>path.
     rbind (of_option (endpoint_error ''Docker socket is not resolvable'') (resolve_strict os path)) (\<lambda>resolved.
     rbind (ensure (is_socket resolved) (endpoint_error ''Docker Unix endpoint is not a socket'')) (\<lambda>_.
     Inr (lit ''unix://'' @ path_str resolved))))))"

section \<open>Overlap\<close>

definition trees_overlap :: "os_env \<Rightarrow> ppath \<Rightarrow> ppath \<Rightarrow> bool" where
  "trees_overlap os left right \<longleftrightarrow>
     resolve_lax os left = resolve_lax os right \<or>
     is_relative_to (resolve_lax os left) (resolve_lax os right) \<or>
     is_relative_to (resolve_lax os right) (resolve_lax os left)"

definition host_name_path :: "os_env \<Rightarrow> ppath \<Rightarrow> ppath" where
  "host_name_path os p = abspath os (expanduser os p)"

definition paths_overlap_lexically :: "os_env \<Rightarrow> ppath \<Rightarrow> ppath \<Rightarrow> bool" where
  "paths_overlap_lexically os left right \<longleftrightarrow>
     host_name_path os left = host_name_path os right \<or>
     is_relative_to (host_name_path os left) (host_name_path os right) \<or>
     is_relative_to (host_name_path os right) (host_name_path os left)"

definition collide :: "os_env \<Rightarrow> ppath \<Rightarrow> ppath \<Rightarrow> bool" where
  "collide os left right \<longleftrightarrow> trees_overlap os left right \<or> paths_overlap_lexically os left right"

section \<open>Authority\<close>

record user_env =
  us_home :: ppath
  us_uid :: nat
  us_runtime :: "ustr option"

definition HOST_PSEUDO_FILESYSTEMS :: "ppath list" where
  "HOST_PSEUDO_FILESYSTEMS =
     map (path_of \<circ> lit) [''/proc'', ''/sys'', ''/dev'', ''/run'']"

definition socket_candidates :: "os_env \<Rightarrow> user_env \<Rightarrow> ppath list" where
  "socket_candidates os us =
     [path_of (lit ''/var/run/docker.sock''),
      path_of (lit ''/run/user/'' @ dec (us_uid us) @ lit ''/docker.sock''),
      joinpath (us_home us) (path_of (lit ''.docker/run/docker.sock''))] @
     (case us_runtime us of
        Some r \<Rightarrow> if r \<noteq> [] then [joinpath (expanduser os (path_of r)) (path_of (lit ''docker.sock''))] else []
      | None \<Rightarrow> [])"

text \<open>The loop keeps the first of each resolved path.\<close>

definition docker_socket_paths :: "os_env \<Rightarrow> user_env \<Rightarrow> (ustr \<Rightarrow> bool) \<Rightarrow> ustr \<Rightarrow> ppath list res" where
  "docker_socket_paths os us bad_netloc endpoint =
     rbind (unix_socket_from_endpoint bad_netloc endpoint) (\<lambda>selected.
     Inr (rev (remdups (rev (map (resolve_lax os)
       (socket_candidates os us @ (case selected of Some p \<Rightarrow> [p] | None \<Rightarrow> [])))))))"

definition protected_roots ::
    "os_env \<Rightarrow> user_env \<Rightarrow> (ustr \<Rightarrow> bool) \<Rightarrow> ppath \<Rightarrow> ustr \<Rightarrow> ppath list \<Rightarrow> ppath list res" where
  "protected_roots os us bad_netloc state_root docker_endpoint trusted =
     rbind (docker_socket_paths os us bad_netloc docker_endpoint) (\<lambda>sockets.
     Inr ([state_root, joinpath (us_home us) (path_of (lit ''.pi/agent''))] @ HOST_PSEUDO_FILESYSTEMS @
          sockets @ trusted))"

definition validate_mount_authority ::
    "os_env \<Rightarrow> user_env \<Rightarrow> (ustr \<Rightarrow> bool) \<Rightarrow> ppath list \<Rightarrow> ppath list \<Rightarrow> ppath \<Rightarrow> ustr \<Rightarrow> ppath list \<Rightarrow> unit res" where
  "validate_mount_authority os us bad_netloc teams mounts state_root docker_endpoint trusted =
     (let selected = teams @ mounts in
      rbind (checkE (\<lambda>(l, r). ensure (\<not> collide os l r) (CycloError ''must be separate filesystem trees''))
        (pairs selected)) (\<lambda>_.
      rbind (protected_roots os us bad_netloc state_root docker_endpoint trusted) (\<lambda>protected.
      checkE (\<lambda>m. checkE (\<lambda>p. ensure (\<not> collide os m p) (CycloError ''overlaps protected'')) protected) selected)))"

definition validate_team_mount_separation :: "os_env \<Rightarrow> ppath list \<Rightarrow> ppath list \<Rightarrow> unit res" where
  "validate_team_mount_separation os teams mounts =
     checkE (\<lambda>t. checkE (\<lambda>m. ensure (\<not> collide os t m) (CycloError ''must be separate filesystem trees'')) mounts) teams"

definition validate_strict_source_root_separation :: "os_env \<Rightarrow> ppath list \<Rightarrow> unit res" where
  "validate_strict_source_root_separation os selected =
     checkE (\<lambda>(l, r). if l = r then Inr ()
        else ensure (\<not> collide os l r) (CycloError ''must not contain one another'')) (pairs selected)"

definition trusted_host_roots :: "ppath \<Rightarrow> host \<Rightarrow> ustr option \<Rightarrow> ppath list" where
  "trusted_host_roots package_root h dcomp_executable =
     [package_root, ho_path h] @ map pv_context (ho_providers h) @
     (case dcomp_executable of Some e \<Rightarrow> [path_of e] | None \<Rightarrow> [])"

definition validate_project_authority ::
    "os_env \<Rightarrow> user_env \<Rightarrow> (ustr \<Rightarrow> bool) \<Rightarrow> ppath \<Rightarrow> ppath \<Rightarrow> host \<Rightarrow> project \<Rightarrow>
      (project_team \<times> team) list \<Rightarrow> ustr \<Rightarrow> ustr option \<Rightarrow> unit res" where
  "validate_project_authority os us bad_netloc package_root state_root h p teams docker_endpoint dcomp_executable =
     validate_mount_authority os us bad_netloc (map (te_root \<circ> snd) teams) (map pm_path (pj_mounts p)) state_root
       docker_endpoint (trusted_host_roots package_root h dcomp_executable)"

section \<open>Installations\<close>

definition SYSTEM_STATE_ROOT :: ppath where "SYSTEM_STATE_ROOT = path_of (lit ''/var/lib/cyclo'')"
definition SYSTEM_HOST_CONFIG :: ppath where "SYSTEM_HOST_CONFIG = path_of (lit ''/etc/cyclo/host.conf'')"

definition local_state_root :: "os_env \<Rightarrow> user_env \<Rightarrow> ustr option \<Rightarrow> ppath" where
  "local_state_root os us xdg_state_home =
     (let base = (case xdg_state_home of
          Some s \<Rightarrow> path_of s | None \<Rightarrow> joinpath (us_home us) (path_of (lit ''.local/state'')))
      in resolve_lax os (joinpath base (path_of (lit ''cyclo''))))"

definition realm_id :: "os_env \<Rightarrow> ppath \<Rightarrow> ustr res" where
  "realm_id os state_root =
     rbind (utf8_encode (path_str (resolve_lax os (expanduser os state_root)))) (\<lambda>b.
     Inr (take 12 (sha256_hex b)))"

section \<open>Separated trees\<close>

interpretation resolved: tree_space "\<lambda>x p. is_relative_to x (resolve_lax os p)" "trees_overlap os" for os
  by unfold_locales (use lexical.overlap_iff in \<open>simp add: trees_overlap_def overlap_lexical_def\<close>)

interpretation named: tree_space "\<lambda>x p. is_relative_to x (host_name_path os p)" "paths_overlap_lexically os" for os
  by unfold_locales (use lexical.overlap_iff in \<open>simp add: paths_overlap_lexically_def overlap_lexical_def\<close>)

text \<open>No node of the file system lies in both trees, by its resolved location or by its name.\<close>

definition apart :: "os_env \<Rightarrow> ppath \<Rightarrow> ppath \<Rightarrow> bool" where
  "apart os p q \<longleftrightarrow>
     (\<forall>x. \<not> (is_relative_to x (resolve_lax os p) \<and> is_relative_to x (resolve_lax os q))) \<and>
     (\<forall>x. \<not> (is_relative_to x (host_name_path os p) \<and> is_relative_to x (host_name_path os q)))"

lemma collide_apart: "collide os p q \<longleftrightarrow> \<not> apart os p q"
  unfolding collide_def apart_def resolved.overlap_iff named.overlap_iff by blast

interpretation separation: checker
  "\<lambda>(p, q). ensure (\<not> collide os p q) e" "\<lambda>(p, q). apart os p q" for os e
  by unfold_locales (auto simp: collide_apart)

lemma apart_sym: "apart os p q \<Longrightarrow> apart os q p"
  unfolding apart_def by blast

lemma mount_authority_ok:
  "validate_mount_authority os us bad_netloc teams mounts state_root endpoint trusted = Inr u \<longleftrightarrow>
     (\<exists>sockets. docker_socket_paths os us bad_netloc endpoint = Inr sockets \<and>
       (\<forall>i<length (teams @ mounts). \<forall>j<length (teams @ mounts).
          i \<noteq> j \<longrightarrow> apart os ((teams @ mounts) ! i) ((teams @ mounts) ! j)) \<and>
       (\<forall>m\<in>set (teams @ mounts).
          \<forall>p\<in>set ([state_root, joinpath (us_home us) (path_of (lit ''.pi/agent''))] @
                HOST_PSEUDO_FILESYSTEMS @ sockets @ trusted). apart os m p))"
proof -
  have pw: "(\<forall>x\<in>set (pairs (teams @ mounts)). case x of (p, q) \<Rightarrow> apart os p q) \<longleftrightarrow>
      (\<forall>i<length (teams @ mounts). \<forall>j<length (teams @ mounts).
          i \<noteq> j \<longrightarrow> apart os ((teams @ mounts) ! i) ((teams @ mounts) ! j))"
    by (rule pairs_pairwise) (rule apart_sym)
  have "checkE (\<lambda>(l, r). ensure (\<not> collide os l r) e) (pairs (teams @ mounts)) = Inr () \<longleftrightarrow>
      (\<forall>x\<in>set (pairs (teams @ mounts)). case x of (p, q) \<Rightarrow> apart os p q)" for e :: error
    by (rule separation.check_all)
  note 1 = this [unfolded pw]
  have 2: "checkE (\<lambda>m. checkE (\<lambda>p. ensure (\<not> collide os m p) e) ps) ms = Inr w \<longleftrightarrow>
      (\<forall>m\<in>set ms. \<forall>p\<in>set ps. apart os m p)" for e :: error and ps ms w
    by (simp add: collide_apart)
  show ?thesis
    unfolding validate_mount_authority_def Let_def rbind_eq_Inr protected_roots_def 2
    using 1 by (auto simp del: set_append)
qed

text \<open>C19: \<open>validate_mount_authority\<close> returns exactly when every two of the mounted trees are apart and
  every mounted tree is apart from the state, the host's Pi configuration, the pseudo file systems,
  every Docker socket and every trusted root.\<close>

theorem mount_authority_iff:
  "validate_mount_authority os us bad_netloc teams mounts state_root endpoint trusted = Inr u \<longleftrightarrow>
     (\<exists>sockets. docker_socket_paths os us bad_netloc endpoint = Inr sockets \<and>
       (\<forall>i<length (teams @ mounts). \<forall>j<length (teams @ mounts).
          i \<noteq> j \<longrightarrow> apart os ((teams @ mounts) ! i) ((teams @ mounts) ! j)) \<and>
       (\<forall>m\<in>set (teams @ mounts).
          \<forall>p\<in>set ([state_root, joinpath (us_home us) (path_of (lit ''.pi/agent''))] @
                HOST_PSEUDO_FILESYSTEMS @ sockets @ trusted). apart os m p))"
  by (rule mount_authority_ok)

lemma source_roots_ok:
  "validate_strict_source_root_separation os roots = Inr u \<longleftrightarrow>
     (\<forall>p\<in>set roots. \<forall>q\<in>set roots. p \<noteq> q \<longrightarrow> apart os p q)"
proof -
  have "validate_strict_source_root_separation os roots = Inr u \<longleftrightarrow>
      (\<forall>(p, q)\<in>set (pairs roots). p \<noteq> q \<longrightarrow> apart os p q)"
    unfolding validate_strict_source_root_separation_def by (fastforce simp: collide_apart split: if_splits)
  also have "\<dots> \<longleftrightarrow> (\<forall>i<length roots. \<forall>j<length roots. i \<noteq> j \<longrightarrow> roots ! i \<noteq> roots ! j \<longrightarrow> apart os (roots ! i) (roots ! j))"
    by (rule pairs_pairwise) (metis apart_sym)
  also have "\<dots> \<longleftrightarrow> (\<forall>p\<in>set roots. \<forall>q\<in>set roots. p \<noteq> q \<longrightarrow> apart os p q)"
    by (fastforce simp: in_set_conv_nth)
  finally show ?thesis .
qed

text \<open>\<open>validate_strict_source_root_separation\<close> returns exactly when any two different source roots
  are apart; the same root may occur more than once.\<close>

theorem source_roots_iff:
  "validate_strict_source_root_separation os roots = Inr u \<longleftrightarrow>
     (\<forall>p\<in>set roots. \<forall>q\<in>set roots. p \<noteq> q \<longrightarrow> apart os p q)"
  by (rule source_roots_ok)

section \<open>The endpoint of a realm\<close>

lemma unquote_bytes_id: "37 \<notin> set s \<Longrightarrow> unquote_bytes s = s"
  by (induction s rule: unquote_bytes.induct) auto

lemma utf8_decode_ascii: "\<forall>c\<in>set s. c < 128 \<Longrightarrow> utf8_decode s = Some s"
  by (rule utf8_decode_encode [OF utf8_encode_ascii])

declare unquote.simps [simp del]

lemma unquote_id: "37 \<notin> set s \<Longrightarrow> unquote s = Some s"
proof (induction s rule: unquote.induct)
  case (1 s)
  show ?case
  proof (cases s)
    case Nil
    then show ?thesis by (subst unquote.simps) simp
  next
    case (Cons c cs)
    show ?thesis
    proof (cases "c < 128")
      case True
      let ?a = "takeWhile (\<lambda>x. x < 128) s" and ?b = "dropWhile (\<lambda>x. x < 128) s"
      have "37 \<notin> set ?b" "37 \<notin> set ?a" using 1(3) by (blast dest: set_takeWhileD set_dropWhileD)+
      then have "unquote ?b = Some ?b" "utf8_decode (unquote_bytes ?a) = Some ?a"
        using 1(1) [OF Cons True] unquote_bytes_id [of ?a] utf8_decode_ascii [of ?a] set_takeWhileD
        by (auto dest: set_takeWhileD)
      then show ?thesis using Cons True by (subst unquote.simps) (simp del: takeWhile.simps dropWhile.simps)
    next
      case False
      then show ?thesis using 1(2) [OF Cons False] 1(3) Cons by (subst unquote.simps) simp
    qed
  qed
qed

text \<open>The endpoint a realm stores for a socket path without percent, number or question signs or
  control characters names that socket again when it is read back.\<close>

theorem stored_endpoint_reads_back:
  assumes "wf_path p" "is_absolute p" "\<forall>c\<in>set (path_str p). c \<notin> {35, 37, 63, 127} \<and> 32 \<le> c"
    and "\<not> bad_netloc []"
  shows "unix_socket_from_endpoint bad_netloc (lit ''unix://'' @ path_str p) = Inr (Some p)"
proof -
  let ?s = "path_str p"
  have "?s = anchor p @ join [47] (parts p)"
    using assms(2) by (simp add: path_str_def is_absolute_def)
  moreover have "anchor p = lit ''/'' \<or> anchor p = lit ''//''"
    using assms(1,2) by (auto simp: wf_path_def is_absolute_def)
  ultimately obtain t where t: "?s = 47 # t" by (auto simp: lit_def)
  have c: "c \<notin> {9, 10, 13}" "c \<noteq> 35" "c \<noteq> 63" "c \<noteq> 37" if "c \<in> set ?s" for c
    using assms(3) [rule_format, OF that] by simp_all
  have f: "filter (\<lambda>c. c \<notin> {9, 10, 13}) (dropWhile (\<lambda>c. c \<le> 32) (lit ''unix://'' @ ?s)) = lit ''unix://'' @ ?s"
    using c(1) by (simp add: lit_def filter_id_conv)
  have sch: "split_scheme (lit ''unix://'' @ ?s) = (lit ''unix'', [47, 47] @ ?s)"
  proof -
    have e: "lit ''unix://'' @ ?s = lit ''unix'' @ 58 # ([47, 47] @ ?s)" by (simp add: lit_def)
    have "partition_at 58 (lit ''unix://'' @ ?s) = (lit ''unix'', True, [47, 47] @ ?s)"
      unfolding e by (rule partition_at_append) (simp add: lit_def)
    moreover have "list_all scheme_char (lit ''unix'')" "is_alpha (hd (lit ''unix''))" "lower (lit ''unix'') = lit ''unix''"
      by code_simp+
    ultimately show ?thesis by (simp add: split_scheme_def)
  qed
  have "urlsplit bad_netloc (lit ''unix://'' @ ?s) =
      Inr \<lparr>ur_scheme = lit ''unix'', ur_netloc = [], ur_path = ?s, ur_query = [], ur_fragment = []\<rparr>"
  proof -
    have "35 \<notin> set ?s" "63 \<notin> set ?s" using c(2,3) by blast+
    then have "partition_at 35 ?s = (?s, False, [])" "partition_at 63 ?s = (?s, False, [])"
      by (simp_all add: partition_at_none)
    then show ?thesis unfolding urlsplit_def Let_def f sch
      using assms(4) t by (simp add: startswith_Cons)
  qed
  moreover have "unquote ?s = Some ?s" using c(4) by (intro unquote_id) blast
  moreover have "path_of ?s = p" by (rule path_of_str) (use assms(1,2) in \<open>auto simp: is_absolute_def\<close>)
  moreover have "\<not> has_control ?s" using assms(3) by (force simp: has_control_def)
  moreover have "lower (lit ''unix'') = lit ''unix''" by code_simp
  ultimately show ?thesis using assms(2) t by (simp add: unix_socket_from_endpoint_def)
qed

definition ex_socket_os :: os_env where
  "ex_socket_os = \<lparr>resolve_strict = Some, resolve_lax = (\<lambda>p. p), expanduser = (\<lambda>p. p),
     cwd = path_of (lit ''/''), is_dir = (\<lambda>p. True), read_nofollow = (\<lambda>p. Missing)\<rparr>"

text \<open>A socket path that contains a percent escape is stored without quoting it again, so the
  endpoint read back names another path, and that other path is the one kept away from mounts.\<close>

theorem stored_endpoint_changes_path:
  "\<exists>process loads stored.
     unix_socket_from_endpoint (\<lambda>n. False) (lit ''unix:///srv/a%2520b/s'') = Inr (Some (path_of (lit ''/srv/a%20b/s''))) \<and>
     local_docker_endpoint ex_socket_os (\<lambda>p. True) (\<lambda>n. False) loads process = Inr stored \<and>
     unix_socket_from_endpoint (\<lambda>n. False) stored = Inr (Some (path_of (lit ''/srv/a b/s'')))"
proof -
  let ?e = "lit ''unix:///srv/a%2520b/s''"
  let ?loads = "\<lambda>l. Some (JStr ?e)"
  have "local_docker_endpoint ex_socket_os (\<lambda>p. True) (\<lambda>n. False) (\<lambda>l. Some (JStr ?e)) (Exited 0 ?e) =
      Inr (lit ''unix:///srv/a%20b/s'')" by code_simp
  moreover have "unix_socket_from_endpoint (\<lambda>n. False) (lit ''unix:///srv/a%20b/s'') =
      Inr (Some (path_of (lit ''/srv/a b/s'')))" by code_simp
  moreover have "unix_socket_from_endpoint (\<lambda>n. False) ?e = Inr (Some (path_of (lit ''/srv/a%20b/s'')))" by code_simp
  ultimately show ?thesis by blast
qed

lemma stored_endpoint_reads_back_witness:
  "unix_socket_from_endpoint (\<lambda>n. False) (lit ''unix://'' @ path_str (path_of (lit ''/run/docker.sock''))) =
    Inr (Some (path_of (lit ''/run/docker.sock'')))"
  by (rule stored_endpoint_reads_back; code_simp)

definition ex_user :: user_env where
  "ex_user = \<lparr>us_home = path_of (lit ''/home/u''), us_uid = 1000, us_runtime = None\<rparr>"

lemma mount_authority_iff_witness:
  "apart ex_socket_os (path_of (lit ''/srv/team'')) (path_of (lit ''/srv/app'')) \<and>
   apart ex_socket_os (path_of (lit ''/srv/app'')) (path_of (lit ''/proc''))"
proof -
  let ?t = "path_of (lit ''/srv/team'')" and ?m = "path_of (lit ''/srv/app'')"
  have "validate_mount_authority ex_socket_os ex_user (\<lambda>n. False) [?t] [?m] (path_of (lit ''/var/lib/cyclo''))
      (lit ''unix:///run/d.sock'') [] = Inr ()" by code_simp
  then obtain sockets where
    p: "\<forall>i<length ([?t] @ [?m]). \<forall>j<length ([?t] @ [?m]). i \<noteq> j \<longrightarrow> apart ex_socket_os (([?t] @ [?m]) ! i) (([?t] @ [?m]) ! j)" and
    q: "\<forall>m\<in>set ([?t] @ [?m]). \<forall>p\<in>set ([path_of (lit ''/var/lib/cyclo''), joinpath (us_home ex_user) (path_of (lit ''.pi/agent''))] @
          HOST_PSEUDO_FILESYSTEMS @ sockets @ []). apart ex_socket_os m p"
    unfolding mount_authority_iff by blast
  have "apart ex_socket_os ?t ?m" using p [rule_format, of 0 1] by simp
  moreover have "apart ex_socket_os ?m (path_of (lit ''/proc''))"
    by (rule q [rule_format]) (simp_all add: HOST_PSEUDO_FILESYSTEMS_def)
  ultimately show ?thesis by blast
qed

lemma source_roots_iff_witness:
  "apart ex_socket_os (path_of (lit ''/srv/team'')) (path_of (lit ''/srv/app''))"
proof -
  have "validate_strict_source_root_separation ex_socket_os
      [path_of (lit ''/srv/team''), path_of (lit ''/srv/app'')] = Inr ()" by code_simp
  moreover have "path_of (lit ''/srv/team'') \<noteq> path_of (lit ''/srv/app'')" by code_simp
  ultimately show ?thesis unfolding source_roots_iff by simp
qed

end
