(* ===== verification/Dcomp_Client.thy ===== *)
theory Dcomp_Client imports Json Paths begin

text \<open>
  \<open>src/cyclo/dcomp.py\<close>: the client of the dcomp executable, the commands it runs and what it makes
  of the answers.  \<open>exec\<close> is \<open>subprocess.run\<close> of a command under an environment; \<open>loads\<close> is
  \<open>json.loads\<close> (\<open>None\<close> where it raises); \<open>which\<close> is \<open>shutil.which\<close> and \<open>realpath\<close> of the result.
\<close>

definition DCOMP_API_VERSION :: int where "DCOMP_API_VERSION = 1"

record run =
  rn_code :: int
  rn_stdout :: ustr
  rn_stderr :: ustr

record dcomp_port =
  dp_protocol :: ustr
  dp_host_ip :: ustr
  dp_host_port :: int
  dp_container_port :: int

record component_status =
  cs_name :: ustr
  cs_container_id :: ustr
  cs_status :: ustr
  cs_health :: ustr
  cs_exit_code :: int
  cs_problem :: ustr
  cs_ports :: "dcomp_port list"

record network_status =
  ns_key :: ustr
  ns_id :: ustr
  ns_internal :: bool
  ns_problem :: ustr

record dcomp_status =
  st_api_version :: int
  st_name :: ustr
  st_desired :: bool
  st_operational :: bool
  st_digest :: ustr
  st_operation :: ustr
  st_phase :: ustr
  st_networks :: "network_status list"
  st_components :: "component_status list"

definition status_component :: "dcomp_status \<Rightarrow> ustr \<Rightarrow> component_status option" where
  "status_component s name = find (\<lambda>c. cs_name c = name) (st_components s)"

section \<open>Documents\<close>

definition field :: "jobj \<Rightarrow> string \<Rightarrow> json" where
  "field kvs k = (case map_of kvs (lit k) of None \<Rightarrow> JNull | Some v \<Rightarrow> v)"

definition json_object :: "(ustr \<Rightarrow> json option) \<Rightarrow> ustr \<Rightarrow> jobj res" where
  "json_object loads raw =
     (case loads raw of
        Some (JObj kvs) \<Rightarrow> Inr kvs
      | _ \<Rightarrow> Inl (CycloError ''expected one JSON object''))"

definition get_string :: "jobj \<Rightarrow> string \<Rightarrow> ustr res" where
  "get_string kvs k = of_option (CycloError (k @ '' must be a string'')) (as_str (field kvs k))"
definition get_integer :: "jobj \<Rightarrow> string \<Rightarrow> int res" where
  "get_integer kvs k = of_option (CycloError (k @ '' must be an integer'')) (as_int (field kvs k))"
definition get_boolean :: "jobj \<Rightarrow> string \<Rightarrow> bool res" where
  "get_boolean kvs k = of_option (CycloError (k @ '' must be a boolean'')) (as_bool (field kvs k))"
definition get_array :: "jobj \<Rightarrow> string \<Rightarrow> json list res" where
  "get_array kvs k = of_option (CycloError (k @ '' must be an array'')) (as_list (field kvs k))"
definition nested_object :: "json \<Rightarrow> jobj res" where
  "nested_object j = of_option (CycloError ''expected an object'') (as_obj j)"

definition get_port :: "jobj \<Rightarrow> string \<Rightarrow> bool \<Rightarrow> int res" where
  "get_port kvs k allow_zero =
     rbind (get_integer kvs k) (\<lambda>port.
     rbind (ensure ((if allow_zero then 0 else 1) \<le> port \<and> port \<le> 65535)
       (CycloError (k @ '' is out of range''))) (\<lambda>_. Inr port))"

definition published_port_from_object :: "json \<Rightarrow> dcomp_port res" where
  "published_port_from_object value =
     rbind (nested_object value) (\<lambda>payload.
     rbind (get_string payload ''protocol'') (\<lambda>protocol.
     rbind (ensure (protocol \<in> {lit ''tcp'', lit ''udp''}) (CycloError ''protocol must be tcp or udp'')) (\<lambda>_.
     rbind (get_port payload ''host_port'' True) (\<lambda>host_port.
     rbind (get_port payload ''container_port'' False) (\<lambda>container_port.
     rbind (get_string payload ''host_ip'') (\<lambda>host_ip.
     Inr \<lparr>dp_protocol = protocol, dp_host_ip = host_ip, dp_host_port = host_port,
          dp_container_port = container_port\<rparr>))))))"

definition network_from_object :: "json \<Rightarrow> network_status res" where
  "network_from_object value =
     rbind (nested_object value) (\<lambda>payload.
     rbind (get_string payload ''key'') (\<lambda>key.
     rbind (get_string payload ''id'') (\<lambda>ident.
     rbind (get_boolean payload ''internal'') (\<lambda>internal.
     rbind (get_string payload ''problem'') (\<lambda>problem.
     Inr \<lparr>ns_key = key, ns_id = ident, ns_internal = internal, ns_problem = problem\<rparr>)))))"

definition component_from_object :: "json \<Rightarrow> component_status res" where
  "component_from_object value =
     rbind (nested_object value) (\<lambda>payload.
     rbind (get_array payload ''published_ports'') (\<lambda>raw_ports.
     rbind (mapE published_port_from_object raw_ports) (\<lambda>ports.
     rbind (get_string payload ''name'') (\<lambda>name.
     rbind (get_string payload ''container_id'') (\<lambda>container_id.
     rbind (get_string payload ''status'') (\<lambda>status.
     rbind (get_string payload ''health'') (\<lambda>health.
     rbind (get_integer payload ''exit_code'') (\<lambda>exit_code.
     rbind (get_string payload ''problem'') (\<lambda>problem.
     Inr \<lparr>cs_name = name, cs_container_id = container_id, cs_status = status, cs_health = health,
          cs_exit_code = exit_code, cs_problem = problem, cs_ports = ports\<rparr>)))))))))"

definition require_unique :: "string \<Rightarrow> ustr list \<Rightarrow> unit res" where
  "require_unique description values = distinctE (CycloError (''duplicate '' @ description)) {} values"

definition status_from_payload :: "jobj \<Rightarrow> dcomp_status res" where
  "status_from_payload payload =
     rbind (get_integer payload ''api_version'') (\<lambda>api_version.
     rbind (ensure (api_version = DCOMP_API_VERSION) (CycloError ''incompatible dcomp status API'')) (\<lambda>_.
     rbind (get_array payload ''networks'') (\<lambda>raw_networks.
     rbind (mapE network_from_object raw_networks) (\<lambda>networks.
     rbind (get_array payload ''components'') (\<lambda>raw_components.
     rbind (mapE component_from_object raw_components) (\<lambda>components.
     rbind (require_unique ''network key'' (map ns_key networks)) (\<lambda>_.
     rbind (require_unique ''component name'' (map cs_name components)) (\<lambda>_.
     rbind (get_string payload ''name'') (\<lambda>name.
     rbind (get_boolean payload ''desired'') (\<lambda>desired.
     rbind (get_boolean payload ''operational'') (\<lambda>operational.
     rbind (get_string payload ''digest'') (\<lambda>digest.
     rbind (get_string payload ''operation'') (\<lambda>operation.
     rbind (get_string payload ''phase'') (\<lambda>phase.
     Inr \<lparr>st_api_version = api_version, st_name = name, st_desired = desired,
          st_operational = operational, st_digest = digest, st_operation = operation, st_phase = phase,
          st_networks = networks, st_components = components\<rparr>))))))))))))))"

definition status_from_json :: "(ustr \<Rightarrow> json option) \<Rightarrow> ustr \<Rightarrow> dcomp_status res" where
  "status_from_json loads raw = rbind (json_object loads raw) status_from_payload"

section \<open>Failures\<close>

text \<open>\<open>removeprefix("error:").lstrip()\<close> of the last line that starts so, and the lines after it.\<close>

definition is_error_line :: "ustr \<Rightarrow> bool" where
  "is_error_line l \<longleftrightarrow> startswith (lit ''error:'') l"

definition from_last_error :: "ustr list \<Rightarrow> ustr list" where
  "from_last_error ls =
     (if list_ex is_error_line ls then
        let after = rev (takeWhile (\<lambda>l. \<not> is_error_line l) (rev ls));
            l = ls ! (length ls - length after - 1)
        in lstrip (drop 6 l) # after
      else ls)"

definition command_detail :: "run \<Rightarrow> ustr" where
  "command_detail p =
     (let raw = (if rn_stderr p \<noteq> [] then rn_stderr p else rn_stdout p);
          ls = filter (\<lambda>l. l \<noteq> []) (map strip (splitlines raw))
      in take 2048 (join [10] (filter (\<lambda>l. l \<noteq> []) (from_last_error ls))))"

definition command_failure :: "ustr \<Rightarrow> int \<Rightarrow> ustr \<Rightarrow> ustr" where
  "command_failure action code detail =
     (let message = lit ''dcomp '' @ action @ lit '' failed with status '' @ dump_int code in
      if detail = [] then message
      else message @ [58, 10] @ join [10] (map (\<lambda>l. [32, 32] @ l) (splitlines detail)))"

datatype outcome = Ran run | NoExecutable | TimedOut | BadValue | OsFailure

section \<open>The client\<close>

type_synonym env = "ustr \<rightharpoonup> ustr"

record dcomp_client =
  cl_environment :: env
  cl_executable :: ustr
  cl_state_root :: ppath
  cl_compatible :: bool

type_synonym exec = "ustr list \<Rightarrow> env \<Rightarrow> outcome"

definition DCOMP_EXECUTABLE_ENV :: ustr where "DCOMP_EXECUTABLE_ENV = lit ''CYCLO_DCOMP''"

definition find_executable :: "(ustr \<Rightarrow> ustr option \<Rightarrow> ustr option) \<Rightarrow> env \<Rightarrow> ustr res" where
  "find_executable which environment =
     (let override = environment DCOMP_EXECUTABLE_ENV in
      rbind (ensure (override \<noteq> Some []) (CycloError ''CYCLO_DCOMP is empty'')) (\<lambda>_.
      of_option (CycloError ''dcomp executable was not found'')
        (which (case override of Some v \<Rightarrow> v | None \<Rightarrow> lit ''dcomp'') (environment (lit ''PATH'')))))"

definition pin_docker :: "env \<Rightarrow> ustr \<Rightarrow> env" where
  "pin_docker environment endpoint =
     environment(lit ''DOCKER_HOST'' \<mapsto> endpoint, lit ''DOCKER_CONTEXT'' := None)"

definition make_client ::
    "(ustr \<Rightarrow> ustr option \<Rightarrow> ustr option) \<Rightarrow> ppath \<Rightarrow> ustr option \<Rightarrow> env \<Rightarrow> dcomp_client res" where
  "make_client which store_root bound_endpoint environment =
     rbind (find_executable which environment) (\<lambda>executable.
     Inr \<lparr>cl_environment = (case bound_endpoint of Some e \<Rightarrow> pin_docker environment e | None \<Rightarrow> environment),
          cl_executable = executable, cl_state_root = joinpath store_root (path_of (lit ''dcomp'')),
          cl_compatible = False\<rparr>)"

definition bind_docker :: "dcomp_client \<Rightarrow> ustr \<Rightarrow> dcomp_client res" where
  "bind_docker cl endpoint =
     rbind (ensure (cl_environment cl (lit ''DOCKER_HOST'') \<in> {None, Some endpoint})
       (CycloError ''already bound to another Docker endpoint'')) (\<lambda>_.
     Inr (cl\<lparr>cl_environment := pin_docker (cl_environment cl) endpoint\<rparr>))"

definition dcomp_command :: "dcomp_client \<Rightarrow> ustr list \<Rightarrow> bool \<Rightarrow> ustr list" where
  "dcomp_command cl arguments stateful =
     cl_executable cl # (if stateful then [lit ''--state-root'', path_str (cl_state_root cl)] else []) @ arguments"

definition run_dcomp :: "exec \<Rightarrow> dcomp_client \<Rightarrow> ustr list \<Rightarrow> bool \<Rightarrow> int list \<Rightarrow> run res" where
  "run_dcomp exec cl arguments stateful accepted =
     (case exec (dcomp_command cl arguments stateful) (cl_environment cl) of
        NoExecutable \<Rightarrow> Inl (CycloError ''executable is unavailable'')
      | TimedOut \<Rightarrow> Inl (CycloError ''dcomp timed out'')
      | BadValue \<Rightarrow> Inl (CycloError ''cannot run dcomp'')
      | OsFailure \<Rightarrow> Inl (CycloError ''cannot run dcomp'')
      | Ran p \<Rightarrow> if rn_code p \<notin> set accepted then Inl (CycloError ''dcomp failed'') else Inr p)"

section \<open>Operations\<close>

record dcomp_version =
  dv_version :: ustr
  dv_api_version :: int

type_synonym loads = "ustr \<Rightarrow> json option"

definition dcomp_version_of :: "exec \<Rightarrow> loads \<Rightarrow> dcomp_client \<Rightarrow> dcomp_version res" where
  "dcomp_version_of exec loads cl =
     rbind (run_dcomp exec cl [lit ''version'', lit ''--json''] False [0]) (\<lambda>p.
     rbind (json_object loads (rn_stdout p)) (\<lambda>payload.
     rbind (get_string payload ''version'') (\<lambda>version.
     rbind (get_integer payload ''api_version'') (\<lambda>api_version.
     rbind (ensure (version \<noteq> []) (CycloError ''version is empty'')) (\<lambda>_.
     Inr \<lparr>dv_version = version, dv_api_version = api_version\<rparr>)))))"

definition require_compatible :: "exec \<Rightarrow> loads \<Rightarrow> dcomp_client \<Rightarrow> dcomp_client res" where
  "require_compatible exec loads cl =
     (if cl_compatible cl then Inr cl
      else rbind (dcomp_version_of exec loads cl) (\<lambda>v.
        rbind (ensure (dv_api_version v = DCOMP_API_VERSION) (CycloError ''incompatible dcomp machine API'')) (\<lambda>_.
        Inr (cl\<lparr>cl_compatible := True\<rparr>))))"

text \<open>An operation keeps what the compatibility check recorded, also when it raises afterwards.\<close>

definition compatibly ::
    "exec \<Rightarrow> loads \<Rightarrow> dcomp_client \<Rightarrow> (dcomp_client \<Rightarrow> 'a res) \<Rightarrow> dcomp_client \<times> 'a res" where
  "compatibly exec loads cl body =
     (case require_compatible exec loads cl of
        Inl e \<Rightarrow> (cl, Inl e)
      | Inr cl' \<Rightarrow> (cl', body cl'))"

definition dcomp_action :: "exec \<Rightarrow> loads \<Rightarrow> dcomp_client \<Rightarrow> ustr list \<Rightarrow> dcomp_client \<times> unit res" where
  "dcomp_action exec loads cl arguments =
     compatibly exec loads cl (\<lambda>cl. rbind (run_dcomp exec cl arguments True [0]) (\<lambda>_. Inr ()))"

definition dcomp_check :: "exec \<Rightarrow> loads \<Rightarrow> dcomp_client \<Rightarrow> ppath \<Rightarrow> dcomp_client \<times> unit res" where
  "dcomp_check exec loads cl system_file = dcomp_action exec loads cl [lit ''check'', path_str system_file]"
definition dcomp_up :: "exec \<Rightarrow> loads \<Rightarrow> dcomp_client \<Rightarrow> ppath \<Rightarrow> dcomp_client \<times> unit res" where
  "dcomp_up exec loads cl system_file = dcomp_action exec loads cl [lit ''up'', path_str system_file]"
definition dcomp_restart :: "exec \<Rightarrow> loads \<Rightarrow> dcomp_client \<Rightarrow> ustr \<Rightarrow> ustr list \<Rightarrow> dcomp_client \<times> unit res" where
  "dcomp_restart exec loads cl name components = dcomp_action exec loads cl ([lit ''restart'', name] @ components)"
definition dcomp_logs ::
    "exec \<Rightarrow> loads \<Rightarrow> dcomp_client \<Rightarrow> ustr \<Rightarrow> ustr list \<Rightarrow> bool \<Rightarrow> dcomp_client \<times> unit res" where
  "dcomp_logs exec loads cl name components follow =
     dcomp_action exec loads cl
       ([lit ''logs''] @ (if follow then [lit ''--follow''] else []) @ [name] @ components)"
definition dcomp_down :: "exec \<Rightarrow> loads \<Rightarrow> dcomp_client \<Rightarrow> ustr \<Rightarrow> dcomp_client \<times> unit res" where
  "dcomp_down exec loads cl name = dcomp_action exec loads cl [lit ''down'', name]"
definition dcomp_resume :: "exec \<Rightarrow> loads \<Rightarrow> dcomp_client \<Rightarrow> ustr \<Rightarrow> dcomp_client \<times> unit res" where
  "dcomp_resume exec loads cl name = dcomp_action exec loads cl [lit ''resume'', name]"
definition dcomp_abort :: "exec \<Rightarrow> loads \<Rightarrow> dcomp_client \<Rightarrow> ustr \<Rightarrow> dcomp_client \<times> unit res" where
  "dcomp_abort exec loads cl name = dcomp_action exec loads cl [lit ''abort'', name]"

definition status_of_run :: "loads \<Rightarrow> ustr \<Rightarrow> run \<Rightarrow> dcomp_status res" where
  "status_of_run loads name p =
     rbind (case status_from_json loads (rn_stdout p) of
              Inl e \<Rightarrow> if rn_stderr p \<noteq> [] then Inl (CycloError ''dcomp status failed'') else Inl e
            | Inr s \<Rightarrow> Inr s) (\<lambda>status.
     rbind (ensure (st_name status = name) (CycloError ''requested another system'')) (\<lambda>_.
     rbind (ensure (rn_code p = (if st_operational status then 0 else 1))
       (CycloError ''operational state and exit status disagree'')) (\<lambda>_.
     Inr status)))"

definition dcomp_status_of :: "exec \<Rightarrow> loads \<Rightarrow> dcomp_client \<Rightarrow> ustr \<Rightarrow> dcomp_client \<times> dcomp_status res" where
  "dcomp_status_of exec loads cl name =
     compatibly exec loads cl (\<lambda>cl.
       rbind (run_dcomp exec cl [lit ''status'', lit ''--json'', name] True [0, 1]) (status_of_run loads name))"

definition volume_fields :: "ustr list" where
  "volume_fields = map lit [''api_version'', ''system'', ''component'', ''logical_name'', ''name'']"

definition volume_of_payload :: "jobj \<Rightarrow> ustr \<Rightarrow> ustr \<Rightarrow> ustr \<Rightarrow> ustr res" where
  "volume_of_payload payload system component logical_name =
     rbind (ensure (fst ` set payload = set volume_fields) (CycloError ''invalid dcomp volume response'')) (\<lambda>_.
     rbind (get_integer payload ''api_version'') (\<lambda>api_version.
     rbind (ensure (api_version = DCOMP_API_VERSION) (CycloError ''incompatible dcomp volume API'')) (\<lambda>_.
     rbind (get_string payload ''system'') (\<lambda>returned_system.
     rbind (get_string payload ''component'') (\<lambda>returned_component.
     rbind (get_string payload ''logical_name'') (\<lambda>returned_logical_name.
     rbind (ensure (returned_system = system \<and> returned_component = component \<and>
         returned_logical_name = logical_name) (CycloError ''requested another volume'')) (\<lambda>_.
     rbind (get_string payload ''name'') (\<lambda>name.
     rbind (ensure (name \<noteq> []) (CycloError ''name is empty'')) (\<lambda>_.
     Inr name)))))))))"

definition dcomp_volume_of ::
    "exec \<Rightarrow> loads \<Rightarrow> dcomp_client \<Rightarrow> ustr \<Rightarrow> ustr \<Rightarrow> ustr \<Rightarrow> dcomp_client \<times> ustr res" where
  "dcomp_volume_of exec loads cl system component logical_name =
     compatibly exec loads cl (\<lambda>cl.
       rbind (run_dcomp exec cl [lit ''volume'', lit ''--json'', system, component, logical_name] True [0]) (\<lambda>p.
       rbind (json_object loads (rn_stdout p)) (\<lambda>payload. volume_of_payload payload system component logical_name)))"

text \<open>Whatever a client does, once it is bound to a Docker endpoint every command it runs goes to
  that endpoint, and an attempt to bind it to another one is refused.\<close>

theorem bound_endpoint_stays:
  assumes "bind_docker cl endpoint = Inr bound"
  shows "(\<forall>exec loads arguments. fst (dcomp_action exec loads bound arguments) \<in>
        {bound, bound\<lparr>cl_compatible := True\<rparr>} \<and>
      cl_environment (fst (dcomp_action exec loads bound arguments)) (lit ''DOCKER_HOST'') = Some endpoint \<and>
      cl_environment (fst (dcomp_action exec loads bound arguments)) (lit ''DOCKER_CONTEXT'') = None) \<and>
    (\<forall>other. is_ok (bind_docker bound other) \<longleftrightarrow> other = endpoint)"
proof -
  have b: "cl_environment bound (lit ''DOCKER_HOST'') = Some endpoint"
    "cl_environment bound (lit ''DOCKER_CONTEXT'') = None"
    using assms by (auto simp: bind_docker_def pin_docker_def)
  have "require_compatible exec loads bound = Inr cl \<Longrightarrow> cl \<in> {bound, bound\<lparr>cl_compatible := True\<rparr>}" for exec loads cl
    by (auto simp: require_compatible_def split: if_splits)
  then have m: "fst (dcomp_action exec loads bound arguments) \<in> {bound, bound\<lparr>cl_compatible := True\<rparr>}"
    for exec loads arguments
    unfolding dcomp_action_def compatibly_def by (cases "require_compatible exec loads bound") auto
  have e: "cl_environment cl = cl_environment bound" if "cl \<in> {bound, bound\<lparr>cl_compatible := True\<rparr>}" for cl
    using that by auto
  have o: "is_ok (bind_docker bound other) \<longleftrightarrow> other = endpoint" for other
    using b(1) by (auto simp: bind_docker_def is_ok_iff)
  show ?thesis using m e [OF m] b o by simp
qed

lemma bound_endpoint_stays_witness:
  "\<exists>cl bound. bind_docker cl (lit ''unix:///d'') = Inr bound \<and> \<not> is_ok (bind_docker bound (lit ''unix:///e''))"
proof -
  let ?cl = "\<lparr>cl_environment = Map.empty, cl_executable = lit ''dcomp'', cl_state_root = path_of (lit ''/s''), cl_compatible = False\<rparr>"
  obtain bound where b: "bind_docker ?cl (lit ''unix:///d'') = Inr bound" by (simp add: bind_docker_def)
  have "\<not> is_ok (bind_docker bound (lit ''unix:///e''))" using bound_endpoint_stays [OF b] by simp
  then show ?thesis using b by blast
qed

section \<open>Reading back a status document\<close>

definition port_object :: "dcomp_port \<Rightarrow> json" where
  "port_object p = JObj [(lit ''protocol'', JStr (dp_protocol p)), (lit ''host_ip'', JStr (dp_host_ip p)),
     (lit ''host_port'', JInt (dp_host_port p)), (lit ''container_port'', JInt (dp_container_port p))]"

definition network_object :: "network_status \<Rightarrow> json" where
  "network_object n = JObj [(lit ''key'', JStr (ns_key n)), (lit ''id'', JStr (ns_id n)),
     (lit ''internal'', JBool (ns_internal n)), (lit ''problem'', JStr (ns_problem n))]"

definition component_object :: "component_status \<Rightarrow> json" where
  "component_object c = JObj [(lit ''name'', JStr (cs_name c)), (lit ''container_id'', JStr (cs_container_id c)),
     (lit ''status'', JStr (cs_status c)), (lit ''health'', JStr (cs_health c)),
     (lit ''exit_code'', JInt (cs_exit_code c)), (lit ''problem'', JStr (cs_problem c)),
     (lit ''published_ports'', JList (map port_object (cs_ports c)))]"

definition status_object :: "dcomp_status \<Rightarrow> jobj" where
  "status_object s = [(lit ''api_version'', JInt (st_api_version s)), (lit ''name'', JStr (st_name s)),
     (lit ''desired'', JBool (st_desired s)), (lit ''operational'', JBool (st_operational s)),
     (lit ''digest'', JStr (st_digest s)), (lit ''operation'', JStr (st_operation s)),
     (lit ''phase'', JStr (st_phase s)), (lit ''networks'', JList (map network_object (st_networks s))),
     (lit ''components'', JList (map component_object (st_components s)))]"

definition wf_port :: "dcomp_port \<Rightarrow> bool" where
  "wf_port p \<longleftrightarrow> dp_protocol p \<in> {lit ''tcp'', lit ''udp''} \<and> 0 \<le> dp_host_port p \<and> dp_host_port p \<le> 65535 \<and>
     1 \<le> dp_container_port p \<and> dp_container_port p \<le> 65535"

definition wf_status :: "dcomp_status \<Rightarrow> bool" where
  "wf_status s \<longleftrightarrow> st_api_version s = DCOMP_API_VERSION \<and> distinct (map ns_key (st_networks s)) \<and>
     distinct (map cs_name (st_components s)) \<and>
     (\<forall>c\<in>set (st_components s). \<forall>p\<in>set (cs_ports c). wf_port p)"

lemmas getters = get_string_def get_integer_def get_boolean_def get_array_def field_def nested_object_def

lemma mapE_back: "(\<And>x. x \<in> set xs \<Longrightarrow> f (g x) = Inr x) \<Longrightarrow> mapE f (map g xs) = Inr xs"
  by (induction xs) auto

lemma port_back: "wf_port p \<Longrightarrow> published_port_from_object (port_object p) = Inr p"
  by (auto simp: published_port_from_object_def port_object_def getters get_port_def wf_port_def)

lemma network_back: "network_from_object (network_object n) = Inr n"
  by (simp add: network_from_object_def network_object_def getters)

lemma component_back:
  "\<forall>p\<in>set (cs_ports c). wf_port p \<Longrightarrow> component_from_object (component_object c) = Inr c"
proof -
  assume "\<forall>p\<in>set (cs_ports c). wf_port p"
  then have "mapE published_port_from_object (map port_object (cs_ports c)) = Inr (cs_ports c)"
    by (intro mapE_back) (simp add: port_back)
  then show ?thesis by (simp add: component_from_object_def component_object_def getters)
qed

text \<open>C39: every well-formed status is read back from its document, and whatever document is accepted
  gives a well-formed status.\<close>

theorem status_reads_back:
  "(\<forall>s. wf_status s \<longrightarrow> status_from_payload (status_object s) = Inr s) \<and>
   (\<forall>payload s. status_from_payload payload = Inr s \<longrightarrow> wf_status s)"
proof (intro conjI allI impI)
  fix s assume s: "wf_status s"
  have "mapE network_from_object (map network_object (st_networks s)) = Inr (st_networks s)"
    by (intro mapE_back) (simp add: network_back)
  moreover have "mapE component_from_object (map component_object (st_components s)) = Inr (st_components s)"
    using s by (intro mapE_back) (simp add: component_back wf_status_def)
  ultimately show "status_from_payload (status_object s) = Inr s"
    using s by (simp add: status_from_payload_def status_object_def getters require_unique_def wf_status_def)
next
  fix payload s assume "status_from_payload payload = Inr s"
  then obtain nets raws where
    c: "mapE component_from_object raws = Inr (st_components s)" and
    u: "distinct (map ns_key (st_networks s))" "distinct (map cs_name (st_components s))"
    "st_api_version s = DCOMP_API_VERSION"
    unfolding status_from_payload_def require_unique_def rbind_eq_Inr distinctE_Inr ensure_eq sum.inject
    by (elim exE conjE, hypsubst) simp
  have "wf_port p" if "published_port_from_object j = Inr p" for j p
    using that unfolding published_port_from_object_def get_port_def rbind_eq_Inr ensure_eq sum.inject
    by (elim exE conjE, hypsubst) (simp add: wf_port_def)
  moreover have "\<exists>ps. mapE published_port_from_object ps = Inr (cs_ports c)" if "component_from_object j = Inr c" for j c
    using that unfolding component_from_object_def rbind_eq_Inr sum.inject
    by (elim exE conjE, hypsubst) auto
  ultimately show "wf_status s"
    using u mapE_in_set [OF c] mapE_in_set unfolding wf_status_def by metis
qed


definition ex_status :: dcomp_status where
  "ex_status = \<lparr>st_api_version = 1, st_name = lit ''cyclo-x'', st_desired = True, st_operational = True,
     st_digest = lit ''d'', st_operation = [], st_phase = [], st_networks = [],
     st_components = [\<lparr>cs_name = lit ''gateway'', cs_container_id = lit ''c'', cs_status = lit ''running'',
       cs_health = lit ''healthy'', cs_exit_code = 0, cs_problem = [],
       cs_ports = [\<lparr>dp_protocol = lit ''tcp'', dp_host_ip = lit ''127.0.0.1'', dp_host_port = 40000,
         dp_container_port = 50051\<rparr>]\<rparr>]\<rparr>"

lemma status_reads_back_witness: "status_from_payload (status_object ex_status) = Inr ex_status"
proof -
  have "wf_status ex_status" by (simp add: wf_status_def ex_status_def wf_port_def DCOMP_API_VERSION_def)
  then show ?thesis using status_reads_back by blast
qed

end
