(* ===== verification/Images.thy ===== *)
theory Images imports Dcomp_Client Instance Team begin

text \<open>
  Docker images: \<open>src/cyclo/images.py\<close> (inspect, build, validation), \<open>src/cyclo/team/image.py\<close> (the team
  images) and \<open>src/cyclo/team/compatibility.py\<close> (the models a team may use).  Docker is a parameter:
  a function from its state, the environment and the arguments of a command to the new state and
  the outcome; \<open>iidfile\<close> tells what a build wrote to the file it was given.  The path of that
  file is fixed by the caller.
\<close>

section \<open>Commands that change Docker's state\<close>

type_synonym ('d, 'a) action = "'d \<Rightarrow> 'd \<times> 'a res"

definition ret :: "'a res \<Rightarrow> ('d, 'a) action" where
  "ret r = (\<lambda>d. (d, r))"

definition dbind :: "('d, 'a) action \<Rightarrow> ('a \<Rightarrow> ('d, 'b) action) \<Rightarrow> ('d, 'b) action" where
  "dbind m k = (\<lambda>d. case m d of (d', Inl e) \<Rightarrow> (d', Inl e) | (d', Inr x) \<Rightarrow> k x d')"

lemma dbind_Inr [simp]: "snd (dbind m k d) = Inr y \<longleftrightarrow> (\<exists>x. snd (m d) = Inr x \<and> snd (k x (fst (m d))) = Inr y)"
  by (auto simp: dbind_def split: prod.splits sum.splits)

lemma ret_simps [simp]: "fst (ret r d) = d" "snd (ret r d) = r"
  by (simp_all add: ret_def)

datatype docker_outcome = DockerRan run | DockerFailed

record 'd docker =
  dk_command :: "env \<Rightarrow> ustr list \<Rightarrow> 'd \<Rightarrow> 'd \<times> docker_outcome"
  dk_loads :: loads
  dk_iidfile :: "'d \<Rightarrow> ustr option"
  dk_environ :: env

section \<open>Images\<close>

definition MAX_DOCKER_DIAGNOSTIC_CHARS :: nat where "MAX_DOCKER_DIAGNOSTIC_CHARS = 16384"
definition TRUNCATED_DIAGNOSTIC_PREFIX :: ustr where
  "TRUNCATED_DIAGNOSTIC_PREFIX = lit ''[earlier Docker output omitted]'' @ [10]"

definition bounded_diagnostic :: "ustr \<Rightarrow> ustr" where
  "bounded_diagnostic output =
     (let detail = strip output in
      if length detail \<le> MAX_DOCKER_DIAGNOSTIC_CHARS then detail
      else
        let tail_size = MAX_DOCKER_DIAGNOSTIC_CHARS - length TRUNCATED_DIAGNOSTIC_PREFIX
        in TRUNCATED_DIAGNOSTIC_PREFIX @ drop (length detail - tail_size) detail)"

record docker_image =
  di_reference :: ustr
  di_id :: ustr
  di_config :: jobj

text \<open>\<open>bool(value)\<close> of a JSON value.\<close>

fun truthy :: "json \<Rightarrow> bool" where
  "truthy JNull = False"
| "truthy (JBool b) = b"
| "truthy (JInt n) = (n \<noteq> 0)"
| "truthy (JFloat s) = (s \<notin> {lit ''0.0'', lit ''-0.0''})"
| "truthy (JStr s) = (s \<noteq> [])"
| "truthy (JList xs) = (xs \<noteq> [])"
| "truthy (JObj kvs) = (kvs \<noteq> [])"

definition has_healthcheck :: "docker_image \<Rightarrow> bool" where
  "has_healthcheck im \<longleftrightarrow>
     (case jget (di_config im) (lit ''Healthcheck'') of JObj kvs \<Rightarrow> truthy (jget kvs (lit ''Test'')) | _ \<Rightarrow> False)"

definition docker_environment :: "env \<Rightarrow> ustr option \<Rightarrow> env" where
  "docker_environment environ endpoint =
     (case endpoint of
        Some e \<Rightarrow> if e \<noteq> [] then environ(lit ''DOCKER_HOST'' \<mapsto> e, lit ''DOCKER_CONTEXT'' := None) else environ
      | None \<Rightarrow> environ)"

definition docker_command :: "'d docker \<Rightarrow> ustr option \<Rightarrow> ustr list \<Rightarrow> bool \<Rightarrow> ('d, run) action" where
  "docker_command dk endpoint arguments check d =
     (case dk_command dk (docker_environment (dk_environ dk) endpoint) arguments d of
        (d', DockerFailed) \<Rightarrow> (d', Inl (CycloError ''cannot execute Docker''))
      | (d', DockerRan r) \<Rightarrow>
          (d', if check \<and> rn_code r \<noteq> 0 then Inl (CycloError ''Docker command failed'') else Inr r))"

definition inspected :: "ustr \<Rightarrow> json option \<Rightarrow> docker_image res" where
  "inspected reference document =
     (case document of
        None \<Rightarrow> Inl (CycloError ''Docker returned invalid image inspection JSON'')
      | Some (JList [JObj document]) \<Rightarrow>
          (case (jget document (lit ''Id''), jget document (lit ''Config'')) of
             (JStr identifier, JObj config) \<Rightarrow>
               if \<not> startswith (lit ''sha256:'') identifier \<or> length identifier \<noteq> 71
               then Inl (CycloError ''Docker returned an invalid image identity'')
               else Inr \<lparr>di_reference = reference, di_id = identifier, di_config = config\<rparr>
           | _ \<Rightarrow> Inl (CycloError ''Docker returned an invalid image identity''))
      | Some _ \<Rightarrow> Inl (CycloError ''Docker returned invalid image inspection data''))"

definition inspect_image :: "'d docker \<Rightarrow> ustr option \<Rightarrow> ustr \<Rightarrow> bool \<Rightarrow> ('d, docker_image option) action" where
  "inspect_image dk endpoint reference missing_ok =
     dbind (docker_command dk endpoint [lit ''image'', lit ''inspect'', lit ''--'', reference] (\<not> missing_ok)) (\<lambda>r.
     if rn_code r \<noteq> 0 then ret (Inr None)
     else ret (rbind (inspected reference (dk_loads dk (rn_stdout r))) (\<lambda>im. Inr (Some im))))"

definition validate_image :: "docker_image \<Rightarrow> bool \<Rightarrow> (ustr \<times> ustr) list \<Rightarrow> docker_image res" where
  "validate_image im require_healthcheck labels =
     rbind (ensure (require_healthcheck \<longrightarrow> has_healthcheck im) (CycloError ''image has no OCI HEALTHCHECK'')) (\<lambda>_.
     let actual = (case jget (di_config im) (lit ''Labels'') of JObj kvs \<Rightarrow> kvs | _ \<Rightarrow> []) in
     rbind (checkE (\<lambda>(key, value). ensure (jget actual key = JStr value) (CycloError ''unexpected label'')) labels) (\<lambda>_.
     Inr im))"

definition build_command ::
    "ustr \<Rightarrow> ustr \<Rightarrow> (ustr \<times> ustr) list \<Rightarrow> (ustr \<times> ustr) list \<Rightarrow> ppath \<Rightarrow> ppath \<Rightarrow> ustr list" where
  "build_command iidfile reference build_args labels dockerfile context =
     [lit ''build'', lit ''--iidfile'', iidfile, lit ''--tag'', reference] @
     concat (map (\<lambda>(key, value). [lit ''--build-arg'', key @ [61] @ value]) build_args) @
     concat (map (\<lambda>(key, value). [lit ''--label'', key @ [61] @ value]) labels) @
     [lit ''--file'', path_str dockerfile, path_str context]"

definition build_sources :: "os_env \<Rightarrow> (ppath \<Rightarrow> bool) \<Rightarrow> ppath \<Rightarrow> ppath \<Rightarrow> (ppath \<times> ppath) res" where
  "build_sources os is_file dockerfile context =
     rbind (of_option (OSErr ''resolve'') (resolve_strict os (expanduser os dockerfile))) (\<lambda>selected_dockerfile.
     rbind (of_option (OSErr ''resolve'') (resolve_strict os (expanduser os context))) (\<lambda>selected_context.
     rbind (ensure (is_file selected_dockerfile \<and> is_dir os selected_context)
       (CycloError ''Docker build requires a Dockerfile and context directory'')) (\<lambda>_.
     rbind (ensure (is_relative_to selected_dockerfile selected_context)
       (CycloError ''Dockerfile must be inside its build context'')) (\<lambda>_.
     Inr (selected_dockerfile, selected_context)))))"

definition build_image ::
    "'d docker \<Rightarrow> os_env \<Rightarrow> (ppath \<Rightarrow> bool) \<Rightarrow> ustr \<Rightarrow> ustr option \<Rightarrow> ustr \<Rightarrow> ppath \<Rightarrow> ppath \<Rightarrow>
      (ustr \<times> ustr) list \<Rightarrow> (ustr \<times> ustr) list \<Rightarrow> bool \<Rightarrow> ('d, docker_image) action" where
  "build_image dk os is_file iidfile endpoint reference dockerfile context build_args labels require_healthcheck =
     dbind (ret (build_sources os is_file dockerfile context)) (\<lambda>(selected_dockerfile, selected_context).
     dbind (docker_command dk endpoint
       (build_command iidfile reference build_args labels selected_dockerfile selected_context) True) (\<lambda>_.
     dbind (inspect_image dk endpoint reference False) (\<lambda>found.
     dbind (ret (of_option AssertionErr found)) (\<lambda>im d.
     ret (rbind (of_option (CycloError ''Docker did not write the built image ID'') (dk_iidfile dk d)) (\<lambda>built_id.
       rbind (ensure (di_id im = strip built_id)
         (CycloError ''Docker tag does not identify the image just built'')) (\<lambda>_.
       validate_image im require_healthcheck labels))) d))))"

section \<open>Team images\<close>

definition cyclo_version :: ustr where "cyclo_version = lit ''0.2.5''"

definition require_non_root_team_host :: "nat \<Rightarrow> unit res" where
  "require_non_root_team_host uid = ensure (uid \<noteq> 0) (CycloError ''refusing to run a Cyclo team as host root'')"

definition image_labels :: "docker_image \<Rightarrow> ustr \<Rightarrow> ustr option" where
  "image_labels im key =
     (case jget (di_config im) (lit ''Labels'') of JObj kvs \<Rightarrow> as_str (jget kvs key) | _ \<Rightarrow> None)"

definition team_image_user_ok :: "docker_image \<Rightarrow> bool res" where
  "team_image_user_ok im =
     (case map_of (di_config im) (lit ''User'') of
        None \<Rightarrow> Inr True
      | Some user \<Rightarrow>
          if unhashable user then Inl (TypeErr ''unhashable type'')
          else Inr (user \<in> {JStr [], JStr (lit ''0''), JStr (lit ''root'')}))"

definition validate_team_image :: "docker_image \<Rightarrow> unit res" where
  "validate_team_image im =
     rbind (ensure (jget (di_config im) (lit ''Entrypoint'') = JList [JStr (lit ''/usr/local/bin/cyclo-container-entrypoint'')])
       (CycloError ''team image must inherit the runtime ENTRYPOINT'')) (\<lambda>_.
     rbind (team_image_user_ok im) (\<lambda>user_ok.
     rbind (ensure user_ok (CycloError ''team image must let the entrypoint drop host identity'')) (\<lambda>_.
     ensure (has_healthcheck im) (CycloError ''team image must inherit the OCI HEALTHCHECK''))))"

record team_builder =
  tb_system :: ustr
  tb_base :: "docker_image option"
  tb_uid :: nat
  tb_gid :: nat
  tb_components :: ppath

definition base_image ::
    "'d docker \<Rightarrow> os_env \<Rightarrow> (ppath \<Rightarrow> bool) \<Rightarrow> ustr \<Rightarrow> ustr option \<Rightarrow> team_builder \<Rightarrow>
      ('d, team_builder \<times> docker_image) action" where
  "base_image dk os is_file iidfile endpoint tb =
     (case tb_base tb of
        Some im \<Rightarrow> ret (Inr (tb, im))
      | None \<Rightarrow>
          dbind (build_image dk os is_file iidfile endpoint
            (lit ''cyclo-'' @ tb_system tb @ lit ''-team:'' @ cyclo_version)
            (joinpath (tb_components tb) (path_of (lit ''team/Dockerfile''))) (tb_components tb)
            [(lit ''CYCLO_HOST_UID'', dec (tb_uid tb)), (lit ''CYCLO_HOST_GID'', dec (tb_gid tb))] [] True) (\<lambda>im.
          dbind (ret (validate_team_image im)) (\<lambda>_. ret (Inr (tb\<lparr>tb_base := Some im\<rparr>, im)))))"

definition team_image_reference :: "ustr \<Rightarrow> ppath \<Rightarrow> ustr res" where
  "team_image_reference system root =
     rbind (utf8_encode (path_str root)) (\<lambda>raw.
     rbind (component_name (lit ''team'') (path_name root)) (\<lambda>name.
     Inr (lit ''cyclo-'' @ system @ lit ''-team-'' @ take 28 (drop 5 name) @ [45] @ take 12 (sha256_hex raw) @
          [58] @ cyclo_version)))"

definition derived_image ::
    "'d docker \<Rightarrow> os_env \<Rightarrow> (ppath \<Rightarrow> bool) \<Rightarrow> ustr \<Rightarrow> ustr option \<Rightarrow> ustr \<Rightarrow> team \<Rightarrow> docker_image \<Rightarrow>
      ('d, docker_image) action" where
  "derived_image dk os is_file iidfile endpoint reference t base =
     dbind (build_image dk os is_file iidfile endpoint reference (te_dockerfile t) (te_root t)
       [(lit ''CYCLO_TEAM_BASE'', di_reference base)] [(lit ''io.cyclo.team-base'', di_id base)] True) (\<lambda>im.
     dbind (ret (validate_team_image im)) (\<lambda>_.
     dbind (ret (ensure (image_labels im (lit ''io.cyclo.team-base'') = Some (di_id base))
       (CycloError ''derived team image was not built from the current team base''))) (\<lambda>_.
     ret (Inr im))))"

text \<open>An empty override means none was given.\<close>

definition build_team_image ::
    "'d docker \<Rightarrow> os_env \<Rightarrow> (ppath \<Rightarrow> bool) \<Rightarrow> ustr \<Rightarrow> ustr option \<Rightarrow> team_builder \<Rightarrow> team \<Rightarrow> ustr \<Rightarrow>
      ('d, team_builder \<times> docker_image) action" where
  "build_team_image dk os is_file iidfile endpoint tb t override =
     dbind (ret (require_non_root_team_host (tb_uid tb))) (\<lambda>_.
     if override \<noteq> [] then
       dbind (inspect_image dk endpoint override True) (\<lambda>found.
       dbind (ret (of_option (CycloError ''team runtime image is not built'') found)) (\<lambda>im.
       dbind (ret (validate_team_image im)) (\<lambda>_. ret (Inr (tb, im)))))
     else
       dbind (base_image dk os is_file iidfile endpoint tb) (\<lambda>(tb, base).
       dbind (ret (team_image_reference (tb_system tb) (te_root t))) (\<lambda>reference.
       dbind (derived_image dk os is_file iidfile endpoint reference t base) (\<lambda>im.
       ret (Inr (tb, im))))))"

section \<open>Models\<close>

definition MAX_SAFE_INTEGER :: nat where "MAX_SAFE_INTEGER = 2 ^ 53 - 1"

definition inference_format :: "json option \<Rightarrow> ustr res" where
  "inference_format document =
     (case document of
        Some (JObj kvs) \<Rightarrow>
          (case jget kvs (lit ''piInferenceFormat'') of
             JStr s \<Rightarrow> if s \<noteq> [] then Inr s else Inl (CycloError ''the bundled provider ABI is invalid'')
           | _ \<Rightarrow> Inl (CycloError ''the bundled provider ABI is invalid''))
      | _ \<Rightarrow> Inl (CycloError ''cannot read the bundled provider ABI''))"

definition positive_token_limit :: "json \<Rightarrow> bool" where
  "positive_token_limit value =
     (case value of
        JStr s \<Rightarrow> s \<noteq> [] \<and> list_all is_digit s \<and> length s \<le> 16 \<and> 0 < ascii_nat s \<and> ascii_nat s \<le> MAX_SAFE_INTEGER
      | _ \<Rightarrow> False)"

text \<open>\<open>value.get(key, [])\<close>.\<close>

definition jget_list :: "jobj \<Rightarrow> string \<Rightarrow> json" where
  "jget_list kvs k = (case map_of kvs (lit k) of None \<Rightarrow> JList [] | Some v \<Rightarrow> v)"

definition text_modality :: json where "text_modality = JStr (lit ''MODALITY_TEXT'')"

definition capability_problem :: "jobj \<Rightarrow> jobj \<Rightarrow> string" where
  "capability_problem capabilities model =
     (let inputs = jget capabilities (lit ''inputModalities'') in
      if \<not> (case as_list inputs of
              None \<Rightarrow> False
            | Some xs \<Rightarrow> text_modality \<in> set xs \<and>
                list_all (\<lambda>x. x = text_modality \<or> x = JStr (lit ''MODALITY_IMAGE'')) xs)
      then ''unsupported input modalities''
      else if jget capabilities (lit ''outputModalities'') \<noteq> JList [text_modality]
      then ''unsupported output modalities''
      else if jget_list capabilities ''extensionTypes'' \<noteq> JList [] \<or> jget_list model ''extensions'' \<noteq> JList []
      then ''unsupported catalogue extensions''
      else '''')"

definition model_incompatibility :: "ustr \<Rightarrow> jobj \<Rightarrow> string" where
  "model_incompatibility format model =
     (if split_public_model_id (as_str (jget model (lit ''id''))) = None then ''invalid provider/model route''
      else if jget model (lit ''inferenceFormat'') \<noteq> JStr format then ''unsupported inference format''
      else
        case as_obj (jget model (lit ''capabilities'')) of
          None \<Rightarrow> ''invalid capabilities''
        | Some capabilities \<Rightarrow>
            if capability_problem capabilities model \<noteq> '''' then capability_problem capabilities model
            else if jget model (lit ''displayName'') \<noteq> JNull \<and> as_str (jget model (lit ''displayName'')) = None
            then ''invalid display name''
            else if \<not> positive_token_limit (jget model (lit ''contextWindowTokens''))
            then ''missing usable context-window limit''
            else if \<not> positive_token_limit (jget model (lit ''maxOutputTokens''))
            then ''missing usable output-token limit''
            else '''')"

text \<open>The dictionary of the models with a string identifier; a later entry replaces an earlier one.\<close>

definition model_table :: "json list \<Rightarrow> ustr \<rightharpoonup> jobj" where
  "model_table raw_models =
     fold (\<lambda>j m. case as_obj j of
               None \<Rightarrow> m
             | Some kvs \<Rightarrow> (case as_str (jget kvs (lit ''id'')) of None \<Rightarrow> m | Some i \<Rightarrow> m(i \<mapsto> kvs)))
       raw_models Map.empty"

definition validate_pi_team_models :: "ustr \<Rightarrow> agent list \<Rightarrow> jobj \<Rightarrow> unit res" where
  "validate_pi_team_models format agents catalogue =
     rbind (of_option (CycloError ''provider system returned an invalid model catalogue'')
       (as_list (jget catalogue (lit ''models'')))) (\<lambda>raw_models.
     let models = model_table raw_models in
     checkE (\<lambda>a.
       case models (ag_model a) of
         None \<Rightarrow> Inl (CycloError ''agent requests unavailable provider model'')
       | Some model \<Rightarrow>
           ensure (model_incompatibility format model = '''') (CycloError ''agent requests an incompatible model''))
       agents)"

section \<open>What a build promises\<close>

definition image_id_ok :: "docker_image \<Rightarrow> bool" where
  "image_id_ok im \<longleftrightarrow> startswith (lit ''sha256:'') (di_id im) \<and> length (di_id im) = 71"

lemma inspected_ok: "inspected reference document = Inr im \<Longrightarrow> image_id_ok im \<and> di_reference im = reference"
  by (auto simp: inspected_def image_id_ok_def split: option.splits json.splits list.splits if_splits)

lemma inspect_image_ok:
  assumes "snd (inspect_image dk endpoint reference missing_ok d) = Inr (Some im)"
  shows "image_id_ok im \<and> di_reference im = reference"
  using assms inspected_ok by (auto simp: inspect_image_def split: if_splits)

lemma validate_image_ok:
  "validate_image im hc labels = Inr im' \<longleftrightarrow> im' = im \<and> (hc \<longrightarrow> has_healthcheck im) \<and>
     (\<forall>(key, value)\<in>set labels. image_labels im key = Some value)"
  by (auto simp: validate_image_def image_labels_def jget_def Let_def split: json.splits)

text \<open>An image that a build returns is the one Docker reports to have built: its identifier is what the
  build's identifier file holds when the build returns, an immutable digest, and it carries the health
  check and the labels the caller asked for.\<close>

theorem built_image_exact:
  assumes "build_image dk os is_file iidfile endpoint reference dockerfile context args labels hc d = (d', Inr im)"
  shows "image_id_ok im \<and> di_reference im = reference \<and> map_option strip (dk_iidfile dk d') = Some (di_id im) \<and>
    (hc \<longrightarrow> has_healthcheck im) \<and> (\<forall>(key, value)\<in>set labels. image_labels im key = Some value)"
proof -
  obtain found d1 built where
    i: "inspect_image dk endpoint reference False d1 = (d', Inr (Some found))" and
    f: "dk_iidfile dk d' = Some built" "di_id found = strip built" and
    v: "validate_image found hc labels = Inr im"
    using assms unfolding build_image_def dbind_def ret_def of_option_def rbind_def ensure_def
    by (auto split: prod.splits sum.splits option.splits if_splits)
  have "snd (inspect_image dk endpoint reference False d1) = Inr (Some found)" using i by simp
  then show ?thesis using inspect_image_ok f v unfolding validate_image_ok by (metis option.map(2))
qed

lemma dbind_ret [simp]: "dbind (ret (Inr x)) k = k x" "dbind (ret (Inl e)) k = ret (Inl e)"
  by (auto simp: dbind_def ret_def)

definition ex_config :: jobj where
  "ex_config = [(lit ''Healthcheck'', JObj [(lit ''Test'', JList [JStr (lit ''CMD'')])]),
     (lit ''Entrypoint'', JList [JStr (lit ''/usr/local/bin/cyclo-container-entrypoint'')]),
     (lit ''Labels'', JObj [(lit ''io.cyclo.team-base'', JStr (lit ''sha256:'' @ replicate 64 49))])]"

definition ex_docker :: "unit docker" where
  "ex_docker = \<lparr>dk_command = (\<lambda>e args d. (d, DockerRan \<lparr>rn_code = 0, rn_stdout = [], rn_stderr = []\<rparr>)),
     dk_loads = (\<lambda>s. Some (JList [JObj [(lit ''Id'', JStr (lit ''sha256:'' @ replicate 64 49)), (lit ''Config'', JObj ex_config)]])),
     dk_iidfile = (\<lambda>d. Some (lit ''sha256:'' @ replicate 64 49 @ [10])), dk_environ = Map.empty\<rparr>"

definition ex_image_os :: os_env where
  "ex_image_os = \<lparr>resolve_strict = Some, resolve_lax = (\<lambda>p. p), expanduser = (\<lambda>p. p),
     cwd = path_of (lit ''/''), is_dir = (\<lambda>p. True), read_nofollow = (\<lambda>p. Missing)\<rparr>"

lemma ex_built:
  "is_ok (snd (build_image ex_docker ex_image_os (\<lambda>p. True) (lit ''/tmp/i'') None (lit ''t'') (path_of (lit ''/t/Dockerfile''))
     (path_of (lit ''/t'')) [] [] True ()))"
  by code_simp

lemma built_image_exact_witness:
  "\<exists>d im. build_image ex_docker ex_image_os (\<lambda>p. True) (lit ''/tmp/i'') None (lit ''t'') (path_of (lit ''/t/Dockerfile''))
     (path_of (lit ''/t'')) [] [] True () = (d, Inr im) \<and> image_id_ok im \<and> has_healthcheck im"
proof -
  obtain d im where b: "build_image ex_docker ex_image_os (\<lambda>p. True) (lit ''/tmp/i'') None (lit ''t'')
      (path_of (lit ''/t/Dockerfile'')) (path_of (lit ''/t'')) [] [] True () = (d, Inr im)"
    using ex_built by (metis is_ok_iff surjective_pairing)
  then show ?thesis using built_image_exact [OF b] by blast
qed

text \<open>A team never runs as host root, and the image of a team keeps the entry point and the health
  check of the team base; without an override it carries the label of the base it was derived from.\<close>

theorem team_image_safe:
  assumes "build_team_image dk os is_file iidfile endpoint tb t override d = (d', Inr (tb', im))"
  shows "tb_uid tb \<noteq> 0 \<and> validate_team_image im = Inr () \<and>
    (override = [] \<longrightarrow> (\<exists>base. tb_base tb' = Some base \<and> image_labels im (lit ''io.cyclo.team-base'') = Some (di_id base)))"
proof -
  have u: "tb_uid tb \<noteq> 0"
    using assms by (auto simp: build_team_image_def require_non_root_team_host_def ensure_def dbind_def ret_def split: if_splits)
  have base: "tb_base tb1 = Some b" if "base_image dk os is_file iidfile endpoint tb e = (e1, Inr (tb1, b))" for e e1 tb1 b
    using that by (auto simp: base_image_def dbind_def ret_def split: option.splits prod.splits sum.splits)
  have derived: "validate_team_image im = Inr () \<and> image_labels im (lit ''io.cyclo.team-base'') = Some (di_id b)"
    if "derived_image dk os is_file iidfile endpoint r t b e = (e1, Inr im)" for e e1 r b
    using that by (auto simp: derived_image_def dbind_def ret_def ensure_def split: prod.splits sum.splits if_splits)
  show ?thesis
  proof (cases "override = []")
    case True
    then obtain e e1 e2 b r where "base_image dk os is_file iidfile endpoint tb e = (e1, Inr (tb', b))"
        "derived_image dk os is_file iidfile endpoint r t b e2 = (d', Inr im)"
      using assms by (auto simp: build_team_image_def dbind_def ret_def split: prod.splits sum.splits)
    then show ?thesis using u base derived by blast
  next
    case False
    then show ?thesis using assms u
      by (auto simp: build_team_image_def dbind_def ret_def split: prod.splits sum.splits)
  qed
qed

definition ex_image_team :: team where
  "ex_image_team = \<lparr>te_root = path_of (lit ''/t''), te_roster = path_of (lit ''/t/roster''), te_roles_dir = path_of (lit ''/t/roles''),
     te_protocol = None, te_dockerfile = path_of (lit ''/t/Dockerfile''), te_agents = []\<rparr>"

definition ex_builder :: team_builder where
  "ex_builder = \<lparr>tb_system = lit ''x'', tb_base = None, tb_uid = 1000, tb_gid = 1000, tb_components = path_of (lit ''/c'')\<rparr>"

lemma team_image_safe_witness:
  "\<exists>d tb im. build_team_image ex_docker ex_image_os (\<lambda>p. True) (lit ''/tmp/i'') None ex_builder ex_image_team (lit ''mine'') ()
     = (d, Inr (tb, im)) \<and> validate_team_image im = Inr ()"
proof -
  have "is_ok (snd (build_team_image ex_docker ex_image_os (\<lambda>p. True) (lit ''/tmp/i'') None ex_builder ex_image_team (lit ''mine'') ()))"
    by code_simp
  then obtain d tb im where b: "build_team_image ex_docker ex_image_os (\<lambda>p. True) (lit ''/tmp/i'') None ex_builder
      ex_image_team (lit ''mine'') () = (d, Inr (tb, im))"
    by (metis is_ok_iff surjective_pairing)
  then show ?thesis using team_image_safe [OF b] by blast
qed

section \<open>What a usable model is\<close>

text \<open>The last entry of the catalogue with an identifier.\<close>

definition catalogue_entry :: "json list \<Rightarrow> ustr \<Rightarrow> jobj option" where
  "catalogue_entry raw_models i =
     map_of (rev (concat (map (\<lambda>j. case as_obj j of
        None \<Rightarrow> [] | Some kvs \<Rightarrow> (case as_str (jget kvs (lit ''id'')) of None \<Rightarrow> [] | Some i \<Rightarrow> [(i, kvs)])) raw_models))) i"

lemma model_table_entry: "model_table raw_models i = catalogue_entry raw_models i"
proof -
  let ?e = "\<lambda>j. case as_obj j of
        None \<Rightarrow> [] | Some kvs \<Rightarrow> (case as_str (jget kvs (lit ''id'')) of None \<Rightarrow> [] | Some i \<Rightarrow> [(i, kvs)])"
  let ?f = "\<lambda>j m. case as_obj j of
               None \<Rightarrow> m
             | Some kvs \<Rightarrow> (case as_str (jget kvs (lit ''id'')) of None \<Rightarrow> m | Some i \<Rightarrow> m(i \<mapsto> kvs))"
  have "fold ?f xs m = m ++ map_of (rev (concat (map ?e xs)))" for xs m
    by (induction xs arbitrary: m) (auto simp: map_add_def fun_eq_iff split: option.splits)
  then show ?thesis by (simp add: model_table_def catalogue_entry_def)
qed

definition usable_model :: "ustr \<Rightarrow> jobj \<Rightarrow> bool" where
  "usable_model format model \<longleftrightarrow>
     (\<exists>route. split_public_model_id (as_str (jget model (lit ''id''))) = Some route) \<and>
     jget model (lit ''inferenceFormat'') = JStr format \<and>
     (\<exists>capabilities inputs. jget model (lit ''capabilities'') = JObj capabilities \<and>
        jget capabilities (lit ''inputModalities'') = JList inputs \<and> text_modality \<in> set inputs \<and>
        set inputs \<subseteq> {text_modality, JStr (lit ''MODALITY_IMAGE'')} \<and>
        jget capabilities (lit ''outputModalities'') = JList [text_modality] \<and>
        jget_list capabilities ''extensionTypes'' = JList []) \<and>
     jget_list model ''extensions'' = JList [] \<and>
     (jget model (lit ''displayName'') = JNull \<or> (\<exists>s. jget model (lit ''displayName'') = JStr s)) \<and>
     positive_token_limit (jget model (lit ''contextWindowTokens'')) \<and>
     positive_token_limit (jget model (lit ''maxOutputTokens''))"

lemma as_str_None: "as_str j = None \<longleftrightarrow> (\<forall>s. j \<noteq> JStr s)"
  by (cases j) auto

lemma usable_model_iff: "model_incompatibility format model = '''' \<longleftrightarrow> usable_model format model"
proof -
  have c: "capability_problem caps model = '''' \<longleftrightarrow>
      (\<exists>inputs. jget caps (lit ''inputModalities'') = JList inputs \<and> text_modality \<in> set inputs \<and>
        set inputs \<subseteq> {text_modality, JStr (lit ''MODALITY_IMAGE'')}) \<and>
      jget caps (lit ''outputModalities'') = JList [text_modality] \<and>
      jget_list caps ''extensionTypes'' = JList [] \<and> jget_list model ''extensions'' = JList []" for caps
    by (auto simp: capability_problem_def Let_def list_all_iff split: option.splits)
  show ?thesis
    unfolding model_incompatibility_def usable_model_def
    by (cases "jget model (lit ''capabilities'')") (auto simp: c as_str_None)
qed

text \<open>\<open>validate_pi_team_models\<close> returns exactly when the catalogue lists its models and, for every agent,
  the last entry with the agent's model is usable: a valid route, the bundled inference format, text
  in and out, no extension, and positive token limits below \<open>2\<^sup>5\<^sup>3\<close>.\<close>

theorem team_models_iff:
  "validate_pi_team_models format agents catalogue = Inr u \<longleftrightarrow>
     (\<exists>raw_models. jget catalogue (lit ''models'') = JList raw_models \<and>
        list_all (\<lambda>a. \<exists>model. catalogue_entry raw_models (ag_model a) = Some model \<and> usable_model format model) agents)"
proof -
  have "(case x of None \<Rightarrow> Inl e | Some m \<Rightarrow> ensure (model_incompatibility format m = '''') e') = Inr () \<longleftrightarrow>
      (\<exists>m. x = Some m \<and> usable_model format m)" for x and e e' :: error
    by (cases x) (simp_all add: usable_model_iff)
  then show ?thesis
    by (auto simp: validate_pi_team_models_def Let_def model_table_entry list_all_iff)
qed

end
