(* ===== verification/Provider_Client.thy ===== *)
theory Provider_Client imports Complex_Main Images Dcomp_System begin

text \<open>
  The ConnectRPC client of \<open>src/cyclo/provider_client.py\<close>.  The HTTP exchange is a parameter: it acts on the outside world
  and gives the status, the reason and the body of the response, of which the client reads at most one byte more than
  it accepts; an \<open>OSErr\<close> stands for every failure of the connection.  \<open>loads\<close> is \<open>json.loads\<close>.
\<close>

definition MAX_RPC_BYTES :: nat where "MAX_RPC_BYTES = 16 * 1024 * 1024"

record http_request =
  hq_host :: ustr
  hq_port :: int
  hq_timeout :: rat
  hq_path :: ustr
  hq_body :: bytes
  hq_headers :: "(ustr \<times> ustr) list"

record http_reply =
  hp_status :: int
  hp_reason :: ustr
  hp_body :: bytes

type_synonym 'd exchange = "http_request \<Rightarrow> ('d, http_reply) action"

text \<open>\<open>json.dumps(request, allow_nan=False)\<close>: the numbers JSON does not have.\<close>

fun finite_numbers :: "json \<Rightarrow> bool" and finite_fields :: "jobj \<Rightarrow> bool" and finite_items :: "json list \<Rightarrow> bool" where
  "finite_numbers (JFloat s) = (s \<notin> set (map lit [''NaN'', ''Infinity'', ''-Infinity'']))"
| "finite_numbers (JList xs) = finite_items xs"
| "finite_numbers (JObj kvs) = finite_fields kvs"
| "finite_numbers _ = True"
| "finite_fields [] = True"
| "finite_fields ((k, v) # kvs) = (finite_numbers v \<and> finite_fields kvs)"
| "finite_items [] = True"
| "finite_items (x # xs) = (finite_numbers x \<and> finite_items xs)"

definition rpc_body :: "jobj option \<Rightarrow> bytes res" where
  "rpc_body request =
     (let j = JObj (case request of None \<Rightarrow> [] | Some kvs \<Rightarrow> kvs) in
      rbind (ensure (finite_numbers j) (CycloError ''provider RPC request is not valid JSON'')) (\<lambda>_.
      rbind (case utf8_encode (dump_compact True j) of
               Inl e \<Rightarrow> Inl (CycloError ''provider RPC request is not valid JSON'') | Inr body \<Rightarrow> Inr body) (\<lambda>body.
      rbind (ensure (length body \<le> MAX_RPC_BYTES) (CycloError ''provider RPC request is too large'')) (\<lambda>_.
      Inr body))))"

text \<open>The timeout is a float; \<open>None\<close> is one that is not finite.\<close>

definition rpc_request :: "ustr \<Rightarrow> int \<Rightarrow> ustr \<Rightarrow> ustr \<Rightarrow> jobj option \<Rightarrow> rat option \<Rightarrow> http_request res" where
  "rpc_request host port service verb request timeout =
     rbind (ensure (host = lit ''127.0.0.1'') (CycloError ''host-side provider RPC is restricted to loopback'')) (\<lambda>_.
     rbind (ensure (1 \<le> port \<and> port \<le> 65535) (CycloError ''provider RPC port must be between 1 and 65535'')) (\<lambda>_.
     rbind (of_option (CycloError ''provider RPC timeout must be a positive finite number'') timeout) (\<lambda>t.
     rbind (ensure (0 < t) (CycloError ''provider RPC timeout must be a positive finite number'')) (\<lambda>_.
     rbind (rpc_body request) (\<lambda>body.
     Inr \<lparr>hq_host = host, hq_port = port, hq_timeout = t, hq_path = [47] @ service @ [47] @ verb, hq_body = body,
          hq_headers = [(lit ''Content-Type'', lit ''application/json''), (lit ''Connect-Protocol-Version'', lit ''1''),
            (lit ''Content-Length'', dec (length body))]\<rparr>)))))"

definition rpc_failure :: "'a res \<Rightarrow> 'a res" where
  "rpc_failure r = (case r of Inl (OSErr _) \<Rightarrow> Inl (CycloError ''provider RPC failed'') | _ \<Rightarrow> r)"

definition rpc_response :: "(ustr \<Rightarrow> json option) \<Rightarrow> http_reply \<Rightarrow> jobj res" where
  "rpc_response loads reply =
     (let raw = take (Suc MAX_RPC_BYTES) (hp_body reply) in
      rbind (ensure (length raw \<le> MAX_RPC_BYTES) (CycloError ''provider RPC response is too large'')) (\<lambda>_.
      rbind (if raw \<noteq> [] then of_option (CycloError ''provider RPC returned invalid JSON'') (Option.bind (utf8_decode raw) loads)
             else Inr (JObj [])) (\<lambda>document.
      rbind (ensure (hp_status reply = 200) (CycloError ''provider RPC failed'')) (\<lambda>_.
      of_option (CycloError ''provider RPC response is not a JSON object'') (as_obj document)))))"

definition unary ::
    "(ustr \<Rightarrow> json option) \<Rightarrow> 'd exchange \<Rightarrow> ustr \<Rightarrow> int \<Rightarrow> ustr \<Rightarrow> ustr \<Rightarrow> jobj option \<Rightarrow> rat option \<Rightarrow> ('d, jobj) action" where
  "unary loads exchange host port service verb request timeout =
     dbind (ret (rpc_request host port service verb request timeout)) (\<lambda>rq.
     dbind (\<lambda>d. case exchange rq d of (d', x) \<Rightarrow> (d', rpc_failure x)) (\<lambda>reply.
     ret (rpc_response loads reply)))"

definition list_models :: "(ustr \<Rightarrow> json option) \<Rightarrow> 'd exchange \<Rightarrow> int \<Rightarrow> ('d, jobj) action" where
  "list_models loads exchange port =
     dbind (unary loads exchange (lit ''127.0.0.1'') port PROVIDER_SERVICE (lit ''ListModels'') None (Some 10)) (\<lambda>document.
     ret (Inr (if map_of document (lit ''models'') = None then document @ [(lit ''models'', JList [])] else document)))"

section \<open>Bounded and local\<close>

text \<open>C40: a call speaks to nobody but 127.0.0.1, at most once, and sends no more than 16 MiB; the document it returns is the whole
  body of a response with status 200 that has at most 16 MiB; every failure of the connection is an error of Cyclo.\<close>

theorem rpc_bounded:
  assumes "unary loads exchange host port service verb request timeout d = (d', r)"
  shows "(d' = d \<and> (\<exists>e. r = Inl e)) \<or>
    (\<exists>rq x. exchange rq d = (d', x) \<and> hq_host rq = lit ''127.0.0.1'' \<and> 1 \<le> hq_port rq \<and> hq_port rq \<le> 65535 \<and> hq_port rq = port \<and>
       0 < hq_timeout rq \<and> length (hq_body rq) \<le> MAX_RPC_BYTES \<and>
       (case x of
          Inl e \<Rightarrow> r = Inl (case e of OSErr _ \<Rightarrow> CycloError ''provider RPC failed'' | _ \<Rightarrow> e)
        | Inr reply \<Rightarrow>
            (\<forall>document. r = Inr document \<longrightarrow> hp_status reply = 200 \<and> length (hp_body reply) \<le> MAX_RPC_BYTES \<and>
               (if hp_body reply = [] then document = []
                else Option.bind (utf8_decode (hp_body reply)) loads = Some (JObj document)))))"
proof (cases "rpc_request host port service verb request timeout")
  case (Inl e)
  then have "d' = d \<and> r = Inl e" using assms by (simp add: unary_def dbind_def ret_def)
  then show ?thesis by blast
next
  case (Inr rq)
  obtain x where x: "exchange rq d = (d', x)" "r = rbind (rpc_failure x) (rpc_response loads)"
    using assms Inr by (auto simp: unary_def dbind_def ret_def rbind_def split: prod.splits sum.splits)
  have rq: "hq_host rq = lit ''127.0.0.1''" "1 \<le> hq_port rq" "hq_port rq \<le> 65535" "hq_port rq = port" "0 < hq_timeout rq"
    "length (hq_body rq) \<le> MAX_RPC_BYTES"
    using Inr by (auto simp: rpc_request_def rpc_body_def Let_def)
  have doc: "hp_status reply = 200 \<and> length (hp_body reply) \<le> MAX_RPC_BYTES \<and>
      (if hp_body reply = [] then document = [] else Option.bind (utf8_decode (hp_body reply)) loads = Some (JObj document))"
    if "rpc_response loads reply = Inr document" for reply document
  proof -
    have "length (hp_body reply) \<le> MAX_RPC_BYTES" using that by (auto simp: rpc_response_def Let_def)
    then show ?thesis using that by (auto simp: rpc_response_def Let_def split: if_splits)
  qed
  have "case x of Inl e \<Rightarrow> r = Inl (case e of OSErr _ \<Rightarrow> CycloError ''provider RPC failed'' | _ \<Rightarrow> e)
      | Inr reply \<Rightarrow> \<forall>document. r = Inr document \<longrightarrow> hp_status reply = 200 \<and> length (hp_body reply) \<le> MAX_RPC_BYTES \<and>
          (if hp_body reply = [] then document = [] else Option.bind (utf8_decode (hp_body reply)) loads = Some (JObj document))"
    using doc x(2) by (auto simp: rpc_failure_def split: sum.splits error.splits)
  then show ?thesis using x(1) rq by blast
qed

lemma rpc_bounded_witness:
  "\<exists>d' r. unary (\<lambda>t. Some (JObj [])) (\<lambda>rq d. (d + 1, Inr \<lparr>hp_status = 200, hp_reason = lit ''OK'', hp_body = lit ''{}''\<rparr>))
     (lit ''127.0.0.1'') 8000 PROVIDER_SERVICE (lit ''ListModels'') None (Some 10) (0 :: nat) = (d', r) \<and>
     (d' = 0 \<and> (\<exists>e. r = Inl e) \<or> d' = 1)"
proof -
  let ?x = "\<lambda>rq (d :: nat). (d + 1, Inr \<lparr>hp_status = 200, hp_reason = lit ''OK'', hp_body = lit ''{}''\<rparr>)"
  obtain d' r where u: "unary (\<lambda>t. Some (JObj [])) ?x (lit ''127.0.0.1'') 8000 PROVIDER_SERVICE (lit ''ListModels'') None (Some 10) 0 = (d', r)"
    by fastforce
  show ?thesis using rpc_bounded [OF u] u by auto
qed

end
