(* ===== verification/Team_Component.thy ===== *)
theory Team_Component imports Project_Roundtrip Instance begin

text \<open>
  \<open>src/cyclo/team/component.py\<close>: the files of one team instance and its DComp component.  The disk
  is a map from paths to what \<open>lstat\<close> finds there; a link says where it leads.  \<open>root\<close> is the root
  of the state store, which \<open>StateStore.ensure\<close> has prepared.
\<close>

definition TEAM_DASHBOARD_PORT :: int where "TEAM_DASHBOARD_PORT = 4137"
definition AGENTWS_ROOT :: string where "AGENTWS_ROOT = ''/agentws''"
definition TEAM_ROOT :: string where "TEAM_ROOT = ''/team''"
definition PI_ROOT :: string where "PI_ROOT = ''/home/cyclo/.pi''"
definition PI_SETTINGS_TEMPLATE :: string where
  "PI_SETTINGS_TEMPLATE = ''/opt/cyclo/pi-settings.json''"

definition provider_endpoint :: endpoint where
  "provider_endpoint = \<lparr>ep_service = PROVIDER_SERVICE, ep_name = lit ''provider''\<rparr>"

definition team_component_name :: "ustr \<Rightarrow> ustr res" where
  "team_component_name identifier = component_name (lit ''team'') identifier"

section \<open>Paths of the store\<close>

definition instance_path :: "ppath \<Rightarrow> ustr \<Rightarrow> string list \<Rightarrow> ppath" where
  "instance_path root identifier rest =
     Path (anchor root) (parts root @ [lit ''instances'', identifier] @ map lit rest)"

definition queue_root :: "ppath \<Rightarrow> ustr \<Rightarrow> ppath" where
  "queue_root root i = instance_path root i [''agentws-state'']"
definition tasks_dir :: "ppath \<Rightarrow> ustr \<Rightarrow> ppath" where
  "tasks_dir root i = instance_path root i [''agentws-state'', ''tasks'']"
definition jobs_dir :: "ppath \<Rightarrow> ustr \<Rightarrow> ppath" where
  "jobs_dir root i = instance_path root i [''agentws-state'', ''jobs'']"
definition agents_dir :: "ppath \<Rightarrow> ustr \<Rightarrow> ppath" where
  "agents_dir root i = instance_path root i [''agentws-state'', ''agents'']"
definition pi_root :: "ppath \<Rightarrow> ustr \<Rightarrow> ppath" where
  "pi_root root i = instance_path root i [''pi'']"

section \<open>The files of an instance\<close>

datatype link_target = ToNothing | ToDirectory | ToFile
datatype fs_node = FsDir | FsFile bytes | FsLink link_target | FsOther

type_synonym fs = "ppath \<rightharpoonup> fs_node"

definition ancestors :: "ppath \<Rightarrow> ppath list" where
  "ancestors p = map (\<lambda>n. Path (anchor p) (take n (parts p))) [0..<length (parts p)]"

text \<open>\<open>prepare_directory\<close>, with \<open>mkdir(parents=True, exist_ok=True)\<close>.\<close>

definition prepare_directory :: "fs \<Rightarrow> ppath \<Rightarrow> fs res" where
  "prepare_directory fs path =
     (case fs path of
        Some (FsLink _) \<Rightarrow> Inl (CycloError ''refusing symlinked directory'')
      | Some FsDir \<Rightarrow> Inr fs
      | Some _ \<Rightarrow> Inl (OSErr ''file exists'')
      | None \<Rightarrow>
          if list_ex (\<lambda>q. case fs q of None \<Rightarrow> False | Some v \<Rightarrow> v \<noteq> FsDir \<and> v \<noteq> FsLink ToDirectory) (ancestors path)
          then Inl (OSErr ''not a directory'')
          else Inr (\<lambda>q. if fs q = None \<and> q \<in> set (path # ancestors path) then Some FsDir else fs q))"

text \<open>\<open>_immutable_file\<close>: a file that exists must have the content; the new one appears at once, also in
  place of a link that leads nowhere, of which \<open>exists()\<close> is false.\<close>

definition immutable_file :: "fs \<Rightarrow> ppath \<Rightarrow> bytes \<Rightarrow> fs res" where
  "immutable_file fs path content =
     (case fs path of
        None \<Rightarrow> Inr (fs(path \<mapsto> FsFile content))
      | Some (FsLink ToNothing) \<Rightarrow> Inr (fs(path \<mapsto> FsFile content))
      | Some (FsFile c) \<Rightarrow>
          if c \<noteq> content then Inl (CycloError ''immutable runtime file has unexpected content'') else Inr fs
      | Some _ \<Rightarrow> Inl (CycloError ''invalid immutable runtime file''))"

definition pi_settings_json :: "instance_rec \<Rightarrow> json" where
  "pi_settings_json i = JObj
     [(lit ''defaultProvider'', JStr (in_pi_default_provider i)),
      (lit ''defaultModel'', JStr (in_pi_default_model i)),
      (lit ''defaultThinkingLevel'', JStr (lit ''xhigh'')),
      (lit ''packages'', JList (map (JStr \<circ> lit)
        [''npm:pi-web-access'', ''npm:pi-lens'', ''npm:pi-simplify'',
         ''/opt/cyclo-agent-tools/lib/node_modules/@earendil-works/pi-coding-agent/node_modules/pi-safe-compact'',
         ''/opt/cyclo/team/pi'']))]"

definition pi_settings_content :: "instance_rec \<Rightarrow> bytes res" where
  "pi_settings_content i = utf8_encode (dump_indent True 0 (sort_keys (pi_settings_json i)) @ [10])"

definition project_config_path :: "ppath \<Rightarrow> instance_rec \<Rightarrow> ppath" where
  "project_config_path root i =
     joinpath (joinpath (instance_path root (in_id i) [''project-config'']) (path_of (in_project_generation i)))
       (path_of (lit ''project.cyclo''))"

definition pi_settings_path :: "ppath \<Rightarrow> instance_rec \<Rightarrow> bytes \<Rightarrow> ppath" where
  "pi_settings_path root i content =
     joinpath (instance_path root (in_id i) [''runtime-config''])
       (Path [] [sha256_hex content, lit ''pi-settings.json''])"

record instance_files =
  if_project_config :: ppath
  if_pi_settings :: ppath

definition as_prepare_error :: "'a res \<Rightarrow> 'a res" where
  "as_prepare_error r = (case r of Inl (OSErr _) \<Rightarrow> Inl (CycloError ''cannot prepare team state'') | _ \<Rightarrow> r)"

definition materialize_pi_settings :: "ppath \<Rightarrow> fs \<Rightarrow> instance_rec \<Rightarrow> (fs \<times> ppath) res" where
  "materialize_pi_settings root fs i =
     rbind (pi_settings_content i) (\<lambda>content.
     let path = pi_settings_path root i content in
     rbind (foldE prepare_directory fs [path_parent (path_parent path), path_parent path]) (\<lambda>fs.
     rbind (immutable_file fs path content) (\<lambda>fs. Inr (fs, path))))"

definition materialize_instance :: "ppath \<Rightarrow> fs \<Rightarrow> instance_rec \<Rightarrow> (fs \<times> instance_files) res" where
  "materialize_instance root fs i =
     (let n = in_id i; config = project_config_path root i in
      rbind (validate_instance_id n) (\<lambda>_.
      rbind (as_prepare_error (foldE prepare_directory fs
        [instance_path root n [], queue_root root n, tasks_dir root n, jobs_dir root n, agents_dir root n,
         pi_root root n])) (\<lambda>fs.
      rbind (foldE prepare_directory fs [path_parent (path_parent config), path_parent config]) (\<lambda>fs.
      rbind (utf8_encode (rstrip (in_project_config i))) (\<lambda>text_bytes.
      rbind (immutable_file fs config (text_bytes @ [10])) (\<lambda>fs.
      rbind (materialize_pi_settings root fs i) (\<lambda>(fs, settings).
      Inr (fs, \<lparr>if_project_config = config, if_pi_settings = settings\<rparr>))))))))"

section \<open>The component\<close>

definition team_binds :: "ppath \<Rightarrow> instance_rec \<Rightarrow> instance_files \<Rightarrow> ppath \<Rightarrow> instance_project \<Rightarrow> dc_bind list" where
  "team_binds root i files mounted_team p =
     [\<lparr>bd_source = tasks_dir root (in_id i), bd_target = lit (AGENTWS_ROOT @ ''/tasks''), bd_read_only = False\<rparr>,
      \<lparr>bd_source = jobs_dir root (in_id i), bd_target = lit (AGENTWS_ROOT @ ''/jobs''), bd_read_only = False\<rparr>,
      \<lparr>bd_source = agents_dir root (in_id i), bd_target = lit (AGENTWS_ROOT @ ''/agents''), bd_read_only = False\<rparr>,
      \<lparr>bd_source = if_project_config files, bd_target = lit (AGENTWS_ROOT @ ''/project.cyclo''), bd_read_only = True\<rparr>,
      \<lparr>bd_source = if_pi_settings files, bd_target = lit PI_SETTINGS_TEMPLATE, bd_read_only = True\<rparr>,
      \<lparr>bd_source = pi_root root (in_id i), bd_target = lit PI_ROOT, bd_read_only = False\<rparr>,
      \<lparr>bd_source = mounted_team, bd_target = lit TEAM_ROOT, bd_read_only = \<not> in_team_write i\<rparr>] @
     map (\<lambda>m. \<lparr>bd_source = pm_path m, bd_target = path_str (container_path_of m), bd_read_only = (pm_mode m = RO)\<rparr>)
       (ip_mounts p)"

definition team_arguments :: "instance_rec \<Rightarrow> ustr list" where
  "team_arguments i =
     [lit ''python3'', lit ''/usr/local/bin/cyclo-team-runtime'', lit ''--roster'',
      lit (TEAM_ROOT @ ''/'') @ in_team_roster i, lit ''--generation'', in_generation i,
      lit ''--project-generation'', in_project_generation i] @
     (if in_team_protocol i then [lit ''--team-protocol'', lit (TEAM_ROOT @ ''/AGENTS.md'')] else []) @
     (if in_verbose i then [lit ''--verbose''] else [])"

definition team_ports :: "instance_rec \<Rightarrow> published_port list" where
  "team_ports i =
     (if in_offline i then []
      else [\<lparr>pp_host_ip = in_agentws_host i, pp_host_port = in_requested_port i,
             pp_container_port = TEAM_DASHBOARD_PORT, pp_protocol = lit ''tcp''\<rparr>])"

definition make_team_component :: "os_env \<Rightarrow> ppath \<Rightarrow> fs \<Rightarrow> instance_rec \<Rightarrow> (fs \<times> dc_component) res" where
  "make_team_component os root fs i =
     rbind (ensure (startswith (lit ''sha256:'') (in_image i))
       (CycloError ''instance is not bound to an immutable team image'')) (\<lambda>_.
     rbind (decode_instance_project i) (\<lambda>p0.
     rbind (require_valid p0) (\<lambda>p.
     rbind (materialize_instance root fs i) (\<lambda>(fs, files).
     rbind (of_option (OSErr ''resolve'') (resolve_strict os (path_of (in_team_path i)))) (\<lambda>mounted_team.
     rbind (ensure (path_name (path_of (in_team_roster i)) = in_team_roster i)
       (CycloError ''invalid team roster'')) (\<lambda>_.
     rbind (team_component_name (in_id i)) (\<lambda>name.
     Inr (fs, \<lparr>co_name = name, co_image = in_image i, co_inputs = [provider_endpoint], co_outputs = [],
       co_binds = team_binds root i files mounted_team p, co_volumes = [], co_arguments = team_arguments i,
       co_ports = team_ports i, co_egress = \<not> in_offline i\<rparr>))))))))"

section \<open>Materializing twice\<close>

text \<open>\<open>keeps fs g\<close>: the directories and files of \<open>fs\<close> are still there in \<open>g\<close>, the files with their
  content.\<close>

definition keeps :: "fs \<Rightarrow> fs \<Rightarrow> bool" where
  "keeps fs g \<longleftrightarrow> (\<forall>p. (fs p = Some FsDir \<or> (\<exists>c. fs p = Some (FsFile c))) \<longrightarrow> g p = fs p)"

lemma keeps_refl [simp]: "keeps fs fs"
  by (simp add: keeps_def)

lemma keeps_trans: "keeps f g \<Longrightarrow> keeps g h \<Longrightarrow> keeps f h"
  by (auto simp: keeps_def)

text \<open>A step that keeps what it finds, and repeats without effect on any disk that keeps what it left.\<close>

definition settles :: "(fs \<Rightarrow> fs res) \<Rightarrow> bool" where
  "settles step \<longleftrightarrow> (\<forall>fs fs'. step fs = Inr fs' \<longrightarrow> keeps fs fs' \<and> (\<forall>g. keeps fs' g \<longrightarrow> step g = Inr g))"

lemma settlesD:
  "settles step \<Longrightarrow> step fs = Inr fs' \<Longrightarrow> keeps fs fs' \<and> (\<forall>g. keeps fs' g \<longrightarrow> step g = Inr g)"
  unfolding settles_def by blast

lemma settles_directory: "settles (\<lambda>fs. prepare_directory fs p)"
  unfolding settles_def
  by (auto simp: prepare_directory_def keeps_def split: option.splits fs_node.splits if_splits)

lemma settles_file: "settles (\<lambda>fs. immutable_file fs p c)"
  unfolding settles_def
  by (auto simp: immutable_file_def keeps_def split: option.splits fs_node.splits link_target.splits if_splits)

lemma settles_seq:
  assumes "settles f" "settles g"
  shows "settles (\<lambda>fs. rbind (f fs) g)"
  unfolding settles_def
proof (intro allI impI)
  fix fs fs' assume "rbind (f fs) g = Inr fs'"
  then obtain m where m: "f fs = Inr m" "g m = Inr fs'" by auto
  have k: "keeps fs m" "keeps m fs'" using settlesD assms m by blast+
  have "rbind (f d) g = Inr d" if d: "keeps fs' d" for d
  proof -
    have "f d = Inr d" using settlesD [OF assms(1) m(1)] keeps_trans [OF k(2) d] by blast
    moreover have "g d = Inr d" using settlesD [OF assms(2) m(2)] d by blast
    ultimately show ?thesis by simp
  qed
  then show "keeps fs fs' \<and> (\<forall>d. keeps fs' d \<longrightarrow> rbind (f d) g = Inr d)" using keeps_trans [OF k] by blast
qed

lemma settles_fold: "settles (\<lambda>fs. foldE prepare_directory fs ps)"
proof (induction ps)
  case Nil
  then show ?case by (simp add: settles_def)
next
  case (Cons p ps)
  show ?case using settles_seq [OF settles_directory Cons.IH, of p] by simp
qed

text \<open>The disk a materialization leaves, and whether it succeeds, without the paths it reports.\<close>

definition instance_disk :: "ppath \<Rightarrow> instance_rec \<Rightarrow> bytes \<Rightarrow> bytes \<Rightarrow> fs \<Rightarrow> fs res" where
  "instance_disk root i config_bytes settings fs =
     (let n = in_id i; config = project_config_path root i; path = pi_settings_path root i settings in
      rbind (foldE prepare_directory fs
        [instance_path root n [], queue_root root n, tasks_dir root n, jobs_dir root n, agents_dir root n,
         pi_root root n]) (\<lambda>fs.
      rbind (foldE prepare_directory fs [path_parent (path_parent config), path_parent config]) (\<lambda>fs.
      rbind (immutable_file fs config config_bytes) (\<lambda>fs.
      rbind (foldE prepare_directory fs [path_parent (path_parent path), path_parent path]) (\<lambda>fs.
      immutable_file fs path settings)))))"

lemma settles_instance_disk: "settles (instance_disk root i config_bytes settings)"
  unfolding instance_disk_def Let_def
  by (intro settles_seq settles_fold settles_file)

lemma as_prepare_error_Inr [simp]: "as_prepare_error r = Inr x \<longleftrightarrow> r = Inr x"
  by (auto simp: as_prepare_error_def split: sum.splits error.splits)

lemma materialize_instance_disk:
  "materialize_instance root fs i = Inr (fs', files) \<longleftrightarrow>
     (\<exists>t c. is_ok (validate_instance_id (in_id i)) \<and> utf8_encode (rstrip (in_project_config i)) = Inr t \<and>
       pi_settings_content i = Inr c \<and> instance_disk root i (t @ [10]) c fs = Inr fs' \<and>
       files = \<lparr>if_project_config = project_config_path root i, if_pi_settings = pi_settings_path root i c\<rparr>)"
  unfolding materialize_instance_def materialize_pi_settings_def instance_disk_def Let_def
  by (auto simp: is_ok_iff simp del: foldE.simps split: prod.splits)

text \<open>Once an instance's files are materialized, materializing them again succeeds, finds the same
  files and changes nothing, also after other files were added; no file or directory is lost.\<close>

theorem materialize_instance_settles:
  assumes "materialize_instance root fs i = Inr (fs', files)"
  shows "keeps fs fs' \<and> (\<forall>g. keeps fs' g \<longrightarrow> materialize_instance root g i = Inr (g, files))"
proof -
  obtain t c where m: "is_ok (validate_instance_id (in_id i))" "utf8_encode (rstrip (in_project_config i)) = Inr t"
      "pi_settings_content i = Inr c" "instance_disk root i (t @ [10]) c fs = Inr fs'"
      "files = \<lparr>if_project_config = project_config_path root i, if_pi_settings = pi_settings_path root i c\<rparr>"
    using assms unfolding materialize_instance_disk by blast
  show ?thesis
    using settlesD [OF settles_instance_disk m(4)] m(1-3,5) by (auto simp: materialize_instance_disk)
qed

definition ex_disk :: fs where
  "ex_disk q = (if length (parts q) \<le> 5 then Some FsDir else None)"

lemma ex_disk_dir: "length (parts q) \<le> 5 \<Longrightarrow> fs q = Some FsDir \<Longrightarrow> prepare_directory fs q = Inr fs"
  by (simp add: prepare_directory_def)

definition ex_store_root :: ppath where "ex_store_root = path_of (lit ''/s'')"

lemma ex_materialized:
  "\<exists>fs files. materialize_instance ex_store_root ex_disk ex_instance = Inr (fs, files)"
proof -
  obtain t c where tc: "utf8_encode (rstrip (in_project_config ex_instance)) = Inr t"
      "pi_settings_content ex_instance = Inr c"
  proof -
    have "is_ok (utf8_encode (rstrip (in_project_config ex_instance)))" "is_ok (pi_settings_content ex_instance)"
      by code_simp+
    then show ?thesis using that by (auto simp: is_ok_iff)
  qed
  have n: "is_ok (validate_instance_id (in_id ex_instance))" by code_simp
  have r: "anchor ex_store_root = [47]" "parts ex_store_root = [lit ''s'']" by code_simp+
  have g: "path_of (in_project_generation ex_instance) = Path [] [lit ''h'']" by code_simp
  have f: "path_of (lit ''project.cyclo'') = Path [] [lit ''project.cyclo'']" by code_simp
  define config where "config = project_config_path ex_store_root ex_instance"
  define settings where "settings = pi_settings_path ex_store_root ex_instance c"
  have l: "length (parts config) = 6" "length (parts settings) = 6" "config \<noteq> settings"
    by (simp_all add: config_def settings_def project_config_path_def pi_settings_path_def instance_path_def
        joinpath_def is_absolute_def r g f)
  have d: "prepare_directory ex_disk q = Inr ex_disk" "prepare_directory (ex_disk(config \<mapsto> v)) q = Inr (ex_disk(config \<mapsto> v))"
    if "length (parts q) \<le> 5" for q v
    using that l(1) by (auto simp: prepare_directory_def ex_disk_def)
  have "immutable_file ex_disk config (t @ [10]) = Inr (ex_disk(config \<mapsto> FsFile (t @ [10])))"
    "immutable_file (ex_disk(config \<mapsto> v)) settings c = Inr (ex_disk(config \<mapsto> v, settings \<mapsto> FsFile c))" for v
    using l by (auto simp: immutable_file_def ex_disk_def)
  then have "instance_disk ex_store_root ex_instance (t @ [10]) c ex_disk =
      Inr (ex_disk(config \<mapsto> FsFile (t @ [10]), settings \<mapsto> FsFile c))"
    using l unfolding instance_disk_def Let_def config_def [symmetric] settings_def [symmetric]
    by (simp add: d instance_path_def queue_root_def tasks_dir_def jobs_dir_def agents_dir_def pi_root_def r
        path_parent_def)
  then show ?thesis using tc n unfolding materialize_instance_disk by blast
qed

lemma materialize_instance_settles_witness:
  "\<exists>fs files. materialize_instance ex_store_root fs ex_instance = Inr (fs, files)"
proof -
  obtain fs files where m: "materialize_instance ex_store_root ex_disk ex_instance = Inr (fs, files)"
    using ex_materialized by blast
  show ?thesis using materialize_instance_settles [OF m] keeps_refl by blast
qed

section \<open>A component DComp accepts\<close>

lemma decoded_mount_name:
  assumes "decode_instance_project i = Inr p" "m \<in> set (ip_mounts p)"
  shows "is_mount_name (pm_name m)"
proof -
  have "m \<in> set ms \<Longrightarrow> is_mount_name (pm_name m)" if "decode_mounts raw = Inr (ms, es)" for raw ms es
    using that
  proof (induction raw arbitrary: ms es)
    case (Cons j raw)
    then show ?case
      by (auto simp: decode_mount_def Let_def split: option.splits if_splits sum.splits)
  qed simp
  then show ?thesis using assms
    by (auto simp: decode_instance_project_def decode_project_fields_def Let_def split: prod.splits)
qed

lemma mount_target_wf:
  assumes "is_mount_name n"
  shows "target_wf (path_str (mount_container_path n m))"
proof -
  have root: "c \<in> set (root_text m) \<Longrightarrow> \<not> isspace c \<and> \<not> is_control c \<and> c \<noteq> 35" for c
    by (cases m) (auto simp: root_text_def lit_def isspace_def is_control_def)
  have "is_token (path_str (mount_container_path n m))"
    using root mount_name_chars [OF assms] slug_char
    by (auto simp: container_path_text(1) [OF assms] is_token_def isspace_def is_control_def)
  moreover have "root_text m \<noteq> [46, 46]" "root_text m \<noteq> []" by (simp_all add: root_text_def lit_def)
  moreover have "path_of (path_str (mount_container_path n m)) = Path [47] [root_text m, n]"
    unfolding container_path_text(2) [OF assms] by (rule container_path_parts [OF assms])
  moreover have "path_str (mount_container_path n m) \<noteq> [47]" by (simp add: container_path_text(1) [OF assms])
  ultimately show ?thesis
    using mount_name_chars [OF assms] by (auto simp: target_wf_def is_absolute_def slash_lits)
qed

definition fixed_targets :: "ustr list" where
  "fixed_targets = map lit [''/agentws/tasks'', ''/agentws/jobs'', ''/agentws/agents'', ''/agentws/project.cyclo'',
     ''/opt/cyclo/pi-settings.json'', ''/home/cyclo/.pi'', ''/team'']"

lemma fixed_targets_wf: "\<forall>t\<in>set fixed_targets. target_wf t"
  "\<forall>(a, b)\<in>set (pairs (map path_of fixed_targets)). \<not> overlap_lexical a b"
  "\<forall>t\<in>set fixed_targets. \<not> overlap_lexical (path_of t) (Path [47] [root_text RW]) \<and>
     \<not> overlap_lexical (path_of t) (Path [47] [root_text RO])"
  by code_simp+

lemma mount_targets_apart:
  assumes "is_mount_name a" "is_mount_name b"
  shows "a \<noteq> b \<Longrightarrow> \<not> overlap_lexical (mount_container_path a m) (mount_container_path b k)"
    "t \<in> set fixed_targets \<Longrightarrow> \<not> overlap_lexical (path_of t) (mount_container_path a m)"
proof -
  show "a \<noteq> b \<Longrightarrow> \<not> overlap_lexical (mount_container_path a m) (mount_container_path b k)"
    using assms by (auto simp: overlap_lexical_def container_path_parts is_relative_to_def)
  assume t: "t \<in> set fixed_targets"
  have "\<not> overlap_lexical (path_of t) (Path [47] [root_text m])" using fixed_targets_wf(3) t by (cases m) auto
  moreover have "is_relative_to (Path [47] [root_text m, a]) (Path [47] [root_text m])"
    by (simp add: is_relative_to_def)
  ultimately show "\<not> overlap_lexical (path_of t) (mount_container_path a m)"
    unfolding container_path_parts [OF assms(1)] lexical.overlap_iff by (blast intro: is_relative_to_trans)
qed

lemma team_targets:
  "map bd_target (team_binds root i files r p) =
     fixed_targets @ map (\<lambda>m. path_str (container_path_of m)) (ip_mounts p)"
  by (simp add: team_binds_def fixed_targets_def AGENTWS_ROOT_def PI_SETTINGS_TEMPLATE_def PI_ROOT_def TEAM_ROOT_def)

lemma team_targets_disjoint:
  assumes "\<forall>m\<in>set (ip_mounts p). is_mount_name (pm_name m)" "distinct (map pm_name (ip_mounts p))"
  shows "\<forall>(a, b)\<in>set (pairs (map path_of (map bd_target (team_binds root i files r p)))). \<not> overlap_lexical a b"
proof -
  let ?ms = "ip_mounts p"
  have c: "map path_of (map bd_target (team_binds root i files r p)) =
      map path_of fixed_targets @ map container_path_of ?ms"
    using assms(1) by (simp add: team_targets container_path_of_def container_path_text(2))
  have apart: "\<not> overlap_lexical a b" if "(a, b) \<in> set (pairs (map container_path_of ?ms))" for a b
  proof -
    obtain m k where mk: "(m, k) \<in> set (pairs ?ms)" "a = container_path_of m" "b = container_path_of k"
    proof -
      have "set (pairs (map f xs)) = (\<lambda>(x, y). (f x, f y)) ` set (pairs xs)" for f :: "project_mount \<Rightarrow> ppath" and xs
        by (induction xs) (auto simp: image_Un image_image)
      then show ?thesis using that \<open>(a, b) \<in> _\<close> by auto
    qed
    have in_ms: "m \<in> set ?ms" "k \<in> set ?ms" using pairs_fst_snd [OF mk(1)] by auto
    have "(pm_name m, pm_name k) \<in> set (pairs (map pm_name ?ms))"
    proof -
      have "(x, y) \<in> set (pairs xs) \<Longrightarrow> (f x, f y) \<in> set (pairs (map f xs))" for f :: "project_mount \<Rightarrow> ustr" and x y xs
        by (induction xs) auto
      then show ?thesis using mk(1) .
    qed
    then have "pm_name m \<noteq> pm_name k" by (rule pairs_distinct [OF assms(2)])
    then show ?thesis using mk(2,3) assms(1) in_ms mount_targets_apart(1) by (simp add: container_path_of_def)
  qed
  show ?thesis unfolding c pairs_append
    using fixed_targets_wf(2) apart assms(1) mount_targets_apart(2) by (auto simp: container_path_of_def)
qed

text \<open>A path that names the node it leads to.\<close>

definition canonical :: "os_env \<Rightarrow> ppath \<Rightarrow> bool" where
  "canonical os p \<longleftrightarrow> expanduser os p = p \<and> resolve_strict os p = Some p"

definition sources_canonical :: "os_env \<Rightarrow> fs \<Rightarrow> instance_project \<Rightarrow> bool" where
  "sources_canonical os fs p \<longleftrightarrow>
     (\<forall>q. fs q = Some FsDir \<or> (\<exists>c. fs q = Some (FsFile c)) \<longrightarrow> canonical os q) \<and>
     (\<forall>q r. resolve_strict os q = Some r \<longrightarrow> canonical os r) \<and>
     (\<forall>m\<in>set (ip_mounts p). canonical os (pm_path m))"

lemma prepared: "foldE prepare_directory fs ps = Inr fs' \<Longrightarrow> p \<in> set ps \<Longrightarrow> fs' p = Some FsDir"
proof (induction ps arbitrary: fs)
  case (Cons q ps)
  then obtain m where m: "prepare_directory fs q = Inr m" "foldE prepare_directory m ps = Inr fs'" by auto
  have "m q = Some FsDir"
    using m(1) by (auto simp: prepare_directory_def split: option.splits fs_node.splits if_splits)
  then have "fs' q = Some FsDir" using settlesD [OF settles_fold m(2)] by (simp add: keeps_def)
  then show ?case using Cons.IH [OF m(2)] Cons.prems(2) by auto
qed simp

lemma written: "immutable_file fs q c = Inr fs' \<Longrightarrow> fs' q = Some (FsFile c)"
  by (auto simp: immutable_file_def split: option.splits fs_node.splits link_target.splits if_splits)

lemma materialized_sources:
  assumes "materialize_instance root fs i = Inr (fs', files)"
  shows "\<forall>q\<in>{tasks_dir root (in_id i), jobs_dir root (in_id i), agents_dir root (in_id i), pi_root root (in_id i)}.
      fs' q = Some FsDir"
    "\<forall>q\<in>{if_project_config files, if_pi_settings files}. \<exists>c. fs' q = Some (FsFile c)"
proof -
  obtain t c where d: "instance_disk root i t c fs = Inr fs'"
      and f: "if_project_config files = project_config_path root i" "if_pi_settings files = pi_settings_path root i c"
    using assms unfolding materialize_instance_disk by auto
  let ?n = "in_id i"
  let ?dirs = "[instance_path root ?n [], queue_root root ?n, tasks_dir root ?n, jobs_dir root ?n, agents_dir root ?n,
         pi_root root ?n]"
  obtain f1 f2 f3 f4 ds es where
    1: "foldE prepare_directory fs ?dirs = Inr f1" and 2: "foldE prepare_directory f1 ds = Inr f2" and
    3: "immutable_file f2 (project_config_path root i) t = Inr f3" and
    4: "foldE prepare_directory f3 es = Inr f4" and
    5: "immutable_file f4 (pi_settings_path root i c) c = Inr fs'"
    using d unfolding instance_disk_def Let_def rbind_eq_Inr by blast
  have k: "keeps f1 f2" "keeps f2 f3" "keeps f3 f4" "keeps f4 fs'"
    using settlesD [OF settles_fold 2] settlesD [OF settles_file 3] settlesD [OF settles_fold 4]
      settlesD [OF settles_file 5] by blast+
  have "keeps f1 fs'" "keeps f3 fs'" using k keeps_trans by blast+
  then show "\<forall>q\<in>{tasks_dir root ?n, jobs_dir root ?n, agents_dir root ?n, pi_root root ?n}. fs' q = Some FsDir"
    "\<forall>q\<in>{if_project_config files, if_pi_settings files}. \<exists>c. fs' q = Some (FsFile c)"
    using prepared [OF 1] written [OF 3] written [OF 5] by (auto simp: keeps_def f)
qed

text \<open>The fields of a record that no reader checks to be tokens.\<close>

definition instance_tokens :: "instance_rec \<Rightarrow> bool" where
  "instance_tokens i \<longleftrightarrow> is_token (in_generation i) \<and> is_token (in_project_generation i) \<and>
     is_token (in_team_roster i) \<and> (in_offline i \<or> is_token (in_agentws_host i))"

lemma is_token_append: "is_token s \<Longrightarrow> is_token t \<Longrightarrow> is_token (s @ t)"
  by (auto simp: is_token_def)

lemma team_literals:
  "endpoint_wf provider_endpoint"
  "\<forall>a\<in>{lit ''python3'', lit ''/usr/local/bin/cyclo-team-runtime'', lit ''--roster'', lit (TEAM_ROOT @ ''/''),
     lit ''--generation'', lit ''--project-generation'', lit ''--team-protocol'', lit (TEAM_ROOT @ ''/AGENTS.md''),
     lit ''--verbose''}. is_token a"
  by code_simp+

lemma team_arguments_tokens:
  assumes "instance_tokens i" "a \<in> set (team_arguments i)"
  shows "is_token a"
  using assms team_literals(2) is_token_append
  by (auto simp: team_arguments_def instance_tokens_def split: if_splits)

lemma image_id_token: "is_image_id s \<Longrightarrow> is_token s"
proof -
  assume s: "is_image_id s"
  then obtain t where t: "s = lit ''sha256:'' @ t" by (auto simp: is_image_id_def startswith_iff)
  have "\<not> isspace c \<and> \<not> is_control c \<and> c \<noteq> 35" if "is_lower_hex c" for c
    using that by (auto simp: is_lower_hex_def isspace_def is_control_def ascii_defs)
  moreover have "is_lower_hex c" if "c \<in> set t" for c using s t that by (auto simp: is_image_id_def)
  moreover have "is_token (lit ''sha256:'')" by code_simp
  ultimately show "is_token s" unfolding t by (auto simp: is_token_def)
qed

lemma team_component_valid:
  assumes made: "make_team_component os root fs i = Inr (fs', c)" and valid: "instance_valid i"
    and p: "decode_instance_project i = Inr p" and names: "distinct (map pm_name (ip_mounts p))"
    and tokens: "instance_tokens i" and src: "sources_canonical os fs' p"
  shows "component_wf os c"
proof -
  obtain files r name where
    m: "materialize_instance root fs i = Inr (fs', files)" and r: "resolve_strict os (path_of (in_team_path i)) = Some r" and
    name: "team_component_name (in_id i) = Inr name" and
    c: "c = \<lparr>co_name = name, co_image = in_image i, co_inputs = [provider_endpoint], co_outputs = [],
       co_binds = team_binds root i files r p, co_volumes = [], co_arguments = team_arguments i,
       co_ports = team_ports i, co_egress = \<not> in_offline i\<rparr>"
    using made p unfolding make_team_component_def rbind_eq_Inr ensure_eq of_option_eq require_valid_def
    by (elim exE conjE) (auto split: prod.splits if_splits)
  have nm: "is_mount_name (pm_name x)" if "x \<in> set (ip_mounts p)" for x by (rule decoded_mount_name [OF p that])
  have "is_name name" using name by (auto simp: team_component_name_def component_name_def Let_def)
  moreover have "is_token (in_image i)"
    using valid by (intro image_id_token) (auto simp: instance_valid_def check_instance_def)
  moreover have "\<forall>b\<in>set (team_binds root i files r p). bind_wf os b"
  proof
    fix b assume b: "b \<in> set (team_binds root i files r p)"
    have "target_wf t" if "t \<in> set (map bd_target (team_binds root i files r p))" for t
      using that fixed_targets_wf(1) nm mount_target_wf unfolding team_targets by (auto simp: container_path_of_def)
    moreover have "canonical os (bd_source b)"
      using b materialized_sources [OF m] src r unfolding team_binds_def sources_canonical_def by auto
    ultimately show "bind_wf os b" using b by (simp add: bind_wf_def canonical_def)
  qed
  moreover have "\<forall>i'<length (mount_targets c). \<forall>j<length (mount_targets c).
      i' \<noteq> j \<longrightarrow> \<not> overlap_lexical (mount_targets c ! i') (mount_targets c ! j)"
  proof -
    have "mount_targets c = map path_of (map bd_target (team_binds root i files r p))"
      by (simp add: mount_targets_def c)
    moreover have "(\<forall>(a, b)\<in>set (pairs ts). \<not> overlap_lexical a b) \<longleftrightarrow>
        (\<forall>i<length ts. \<forall>j<length ts. i \<noteq> j \<longrightarrow> \<not> overlap_lexical (ts ! i) (ts ! j))" for ts
      by (rule pairs_pairwise) (simp add: lexical.overlap_sym)
    ultimately show ?thesis using team_targets_disjoint [OF _ names] nm by metis
  qed
  moreover have "\<forall>q\<in>set (team_ports i). port_wf q"
    using tokens valid
    by (auto simp: team_ports_def port_wf_def instance_tokens_def instance_valid_def TEAM_DASHBOARD_PORT_def)
  ultimately show ?thesis
    using team_literals(1) team_arguments_tokens [OF tokens] unfolding component_wf_def c
    by (simp add: team_ports_def)
qed

text \<open>The component compiled for a stored instance is one \<open>System.validate\<close> accepts, if its sources
  are canonical, the names of its mounts are distinct and the fields without a check of their own are tokens.\<close>

theorem team_component_wf:
  assumes made: "make_team_component os root fs i = Inr (fs', c)" and valid: "instance_valid i"
    and p: "decode_instance_project i = Inr p" and names: "distinct (map pm_name (ip_mounts p))"
    and tokens: "instance_tokens i" and src: "sources_canonical os fs' p"
  shows "component_wf os c"
  using assms by (rule team_component_valid)

definition ex_canonical_os :: os_env where
  "ex_canonical_os = \<lparr>resolve_strict = Some, resolve_lax = (\<lambda>p. p), expanduser = (\<lambda>p. p),
     cwd = path_of (lit ''/''), is_dir = (\<lambda>p. True), read_nofollow = (\<lambda>p. Missing)\<rparr>"

lemma ex_team_project:
  "\<exists>p. decode_instance_project ex_instance = Inr p \<and> require_valid p = Inr p \<and> distinct (map pm_name (ip_mounts p))"
proof -
  have "is_ok (rbind (decode_instance_project ex_instance) require_valid)"
    "is_ok (rbind (decode_instance_project ex_instance) (\<lambda>p. ensure (distinct (map pm_name (ip_mounts p))) AssertionErr))"
    by code_simp+
  then show ?thesis by (auto simp: is_ok_iff require_valid_def split: if_splits)
qed

lemma ex_team_component: "\<exists>fs c. make_team_component ex_canonical_os ex_store_root ex_disk ex_instance = Inr (fs, c)"
proof -
  obtain fs files where m: "materialize_instance ex_store_root ex_disk ex_instance = Inr (fs, files)"
    using ex_materialized by blast
  have n: "is_name (lit ''team'')" "is_ok (utf8_encode (in_id ex_instance))" by code_simp+
  then obtain name where n: "team_component_name (in_id ex_instance) = Inr name"
    using component_name_ok [of "lit ''team''"] by (auto simp: team_component_name_def is_ok_iff)
  have s: "startswith (lit ''sha256:'') (in_image ex_instance)"
    "path_name (path_of (in_team_roster ex_instance)) = in_team_roster ex_instance" by code_simp+
  show ?thesis using s ex_team_project by (auto simp: make_team_component_def m n ex_canonical_os_def)
qed

lemma ex_team_inputs: "instance_tokens ex_instance" "sources_canonical ex_canonical_os fs p"
  by code_simp (simp add: sources_canonical_def canonical_def ex_canonical_os_def)

lemma team_component_wf_witness:
  "\<exists>fs c. make_team_component ex_canonical_os ex_store_root ex_disk ex_instance = Inr (fs, c) \<and> component_wf ex_canonical_os c"
proof -
  obtain fs c where c: "make_team_component ex_canonical_os ex_store_root ex_disk ex_instance = Inr (fs, c)"
    using ex_team_component by blast
  then show ?thesis using team_component_wf [OF c ex_instance_valid] ex_team_project ex_team_inputs by blast
qed

end
