(* ===== verification/Runtime_System.thy ===== *)
theory Runtime_System imports Mounts Team_Component Images begin

text \<open>
  The compiler of \<open>src/cyclo/runtime.py\<close>: \<open>CycloRuntime.system\<close>, which turns the host, the built images
  and the running instances into one DComp system, and \<open>validate_instances\<close>, which checks the mounts
  of the instances before.  \<open>host\<close> is the result of the lazy \<open>load_host\<close>, \<open>docker\<close> that of the store's
  \<open>docker_endpoint\<close>; the other parameters are those of mount authority and team components.
\<close>

definition GATEWAY_STORE :: ustr where "GATEWAY_STORE = lit ''/var/lib/cyclo-gateway''"
definition OPENAI_HTTP_PORT :: int where "OPENAI_HTTP_PORT = 8080"

record host_images =
  hi_gateway :: docker_image
  hi_providers :: "ustr \<rightharpoonup> docker_image"
  hi_components :: "ustr \<rightharpoonup> docker_image"

record runtime_env =
  re_os :: os_env
  re_user :: user_env
  re_bad_netloc :: "ustr \<Rightarrow> bool"
  re_package_root :: ppath
  re_root :: ppath
  re_executable :: ustr

section \<open>Mounts of the running instances\<close>

definition add_new :: "'a \<Rightarrow> 'a list \<Rightarrow> 'a list" where
  "add_new x xs = (if x \<in> set xs then xs else xs @ [x])"

type_synonym group_key = "ustr \<times> ustr"

record mount_groups =
  mg_groups :: "(group_key \<times> ppath list \<times> ppath list) list"
  mg_teams :: "ppath list"
  mg_mounts :: "ppath list"

text \<open>The dictionary keeps the order in which the keys first occur.\<close>

definition add_to_group :: "group_key \<Rightarrow> ppath \<Rightarrow> ppath list \<Rightarrow>
    (group_key \<times> ppath list \<times> ppath list) list \<Rightarrow> (group_key \<times> ppath list \<times> ppath list) list" where
  "add_to_group key team_path mounts groups =
     (let groups = (if key \<in> fst ` set groups then groups else groups @ [(key, [], [])])
      in map (\<lambda>(k, ts, ms). if k = key then (k, add_new team_path ts, fold add_new mounts ms) else (k, ts, ms)) groups)"

definition group_instance :: "os_env \<Rightarrow> mount_groups \<Rightarrow> instance_rec \<Rightarrow> mount_groups res" where
  "group_instance os g i =
     rbind (rbind (decode_instance_project i) require_valid) (\<lambda>p.
     rbind (of_option (CycloError ''cannot resolve team path'') (resolve_strict os (path_of (in_team_path i)))) (\<lambda>team_path.
     let mounts = map pm_path (ip_mounts p) in
     Inr \<lparr>mg_groups = add_to_group (in_project_file i, in_project_generation i) team_path mounts (mg_groups g),
          mg_teams = add_new team_path (mg_teams g), mg_mounts = fold add_new mounts (mg_mounts g)\<rparr>))"

definition validate_groups :: "runtime_env \<Rightarrow> ppath list \<Rightarrow> ustr \<Rightarrow> mount_groups \<Rightarrow> unit res" where
  "validate_groups re trusted endpoint g =
     rbind (checkE (\<lambda>(key, teams, mounts).
              validate_mount_authority (re_os re) (re_user re) (re_bad_netloc re) teams mounts (re_root re) endpoint trusted)
              (mg_groups g)) (\<lambda>_.
     rbind (validate_strict_source_root_separation (re_os re) (mg_teams g @ mg_mounts g)) (\<lambda>_.
     validate_team_mount_separation (re_os re) (mg_teams g) (mg_mounts g)))"

definition validate_instances ::
    "runtime_env \<Rightarrow> host res \<Rightarrow> ustr res \<Rightarrow> instance_rec list \<Rightarrow> unit res" where
  "validate_instances re host docker selected =
     rbind (if selected \<noteq> [] then require_non_root_team_host (us_uid (re_user re)) else Inr ()) (\<lambda>_.
     rbind (foldE (group_instance (re_os re)) \<lparr>mg_groups = [], mg_teams = [], mg_mounts = []\<rparr> selected) (\<lambda>g.
     if mg_groups g = [] then Inr ()
     else rbind docker (\<lambda>endpoint. rbind host (\<lambda>h.
       validate_groups re (trusted_host_roots (re_package_root re) h (Some (re_executable re))) endpoint g))))"

section \<open>Components and links\<close>

definition tcp_port :: "ustr \<Rightarrow> int \<Rightarrow> int \<Rightarrow> published_port" where
  "tcp_port ip host_port container_port =
     \<lparr>pp_host_ip = ip, pp_host_port = host_port, pp_container_port = container_port, pp_protocol = lit ''tcp''\<rparr>"

definition gateway_component :: "docker_image \<Rightarrow> bool \<Rightarrow> dc_component" where
  "gateway_component im publish_provider =
     \<lparr>co_name = lit ''gateway'', co_image = di_id im, co_inputs = [], co_outputs = [provider_endpoint], co_binds = [],
      co_volumes = [\<lparr>vol_name = lit ''credentials'', vol_target = GATEWAY_STORE, vol_read_only = False\<rparr>], co_arguments = [],
      co_ports = (if publish_provider then [tcp_port (lit ''127.0.0.1'') 0 DCOMP_COMPONENT_PORT] else []), co_egress = True\<rparr>"

text \<open>A part of the system: a component and the links it appends.\<close>

type_synonym part = "dc_component \<times> dc_link list"

definition provider_part :: "host \<Rightarrow> host_images \<Rightarrow> provider \<Rightarrow> part res" where
  "provider_part h images p =
     rbind (of_option (CycloError ''missing built image for provider'') (hi_providers images (pv_name p))) (\<lambda>im.
     let outer = (pv_name p = outer_component h) in
     Inr (\<lparr>co_name = pv_name p, co_image = di_id im, co_inputs = ct_inputs (pv_contract p),
           co_outputs = ct_outputs (pv_contract p), co_binds = [], co_volumes = [], co_arguments = pv_arguments p,
           co_ports = (if outer then [tcp_port (lit ''127.0.0.1'') 0 50051] else []), co_egress = outer\<rparr>,
          map (\<lambda>b. \<lparr>lk_consumer = pv_name p, lk_input = bn_input b, lk_provider = bn_component b, lk_output = bn_output b\<rparr>)
            (pv_bindings p)))"

definition outer_link :: "host \<Rightarrow> ustr \<Rightarrow> dc_link res" where
  "outer_link h consumer =
     rbind (outer_output h) (\<lambda>out.
     Inr \<lparr>lk_consumer = consumer, lk_input = lit ''provider'', lk_provider = outer_component h, lk_output = out\<rparr>)"

definition enabled_part :: "host \<Rightarrow> host_images \<Rightarrow> host_component \<Rightarrow> part res" where
  "enabled_part h images c =
     rbind (of_option (CycloError ''missing built image for component'') (hi_components images (hc_name c))) (\<lambda>im.
     rbind (outer_link h (hc_name c)) (\<lambda>l.
     Inr (\<lparr>co_name = hc_name c, co_image = di_id im, co_inputs = [provider_endpoint], co_outputs = [], co_binds = [],
           co_volumes = [], co_arguments = [], co_ports = [tcp_port (hc_bind c) (hc_port c) OPENAI_HTTP_PORT],
           co_egress = True\<rparr>, [l])))"

definition team_part :: "runtime_env \<Rightarrow> host \<Rightarrow> fs \<times> part list \<Rightarrow> instance_rec \<Rightarrow> (fs \<times> part list) res" where
  "team_part re h st i =
     rbind (make_team_component (re_os re) (re_root re) (fst st) i) (\<lambda>(fs, c).
     rbind (outer_link h (co_name c)) (\<lambda>l.
     Inr (fs, snd st @ [(c, [l])])))"

definition active_instances :: "instance_rec list \<Rightarrow> instance_rec list" where
  "active_instances is = sort_key in_id (filter (\<lambda>i. in_intent i = lit ''running'') is)"

definition system_parts ::
    "runtime_env \<Rightarrow> host \<Rightarrow> host_images \<Rightarrow> fs \<Rightarrow> instance_rec list \<Rightarrow> (fs \<times> part list) res" where
  "system_parts re h images fs active =
     rbind (mapE (provider_part h images) (ho_providers h)) (\<lambda>ps.
     rbind (mapE (enabled_part h images) (ho_components h)) (\<lambda>cs.
     rbind (foldE (team_part re h) (fs, []) active) (\<lambda>(fs, ts).
     Inr (fs, [(gateway_component (hi_gateway images) (ho_providers h = []), [])] @ ps @ cs @ ts))))"

definition runtime_system ::
    "runtime_env \<Rightarrow> ustr \<Rightarrow> host res \<Rightarrow> ustr res \<Rightarrow> host_images \<Rightarrow> fs \<Rightarrow> instance_rec list \<Rightarrow> (fs \<times> dc_system) res" where
  "runtime_system re name host docker images fs instances =
     (let active = active_instances instances in
      rbind (validate_instances re host docker active) (\<lambda>_.
      rbind host (\<lambda>h.
      rbind (system_parts re h images fs active) (\<lambda>(fs, parts).
      Inr (fs, \<lparr>sy_name = name, sy_components = map fst parts, sy_links = concat (map snd parts)\<rparr>)))))"

section \<open>Wiring\<close>

text \<open>A part whose links are its own and serve each declared input exactly once.\<close>

definition part_wired :: "part \<Rightarrow> bool" where
  "part_wired p \<longleftrightarrow> (\<forall>l\<in>set (snd p). lk_consumer l = co_name (fst p)) \<and> distinct (map lk_input (snd p)) \<and>
     lk_input ` set (snd p) = ep_name ` set (co_inputs (fst p))"

lemma wired_parts:
  assumes "\<forall>p\<in>set qs. part_wired p" "distinct (map (co_name \<circ> fst) qs)"
  shows "distinct (map link_key (concat (map snd qs)))"
    "expected_inputs (map fst qs) \<subseteq> link_key ` set (concat (map snd qs))"
proof -
  show "distinct (map link_key (concat (map snd qs)))"
    using assms
  proof (induction qs)
    case (Cons p qs)
    have w: "part_wired p" using Cons.prems by simp
    have "map link_key (snd p) = map (Pair (co_name (fst p))) (map lk_input (snd p))"
      using w by (auto simp: part_wired_def link_key_def)
    then have "distinct (map link_key (snd p))"
      using w by (simp add: part_wired_def distinct_map inj_on_def)
    moreover have new: "link_key k \<noteq> link_key l" if kl: "k \<in> set (snd p)" "l \<in> set (concat (map snd qs))" for k l
    proof -
      obtain q where q: "q \<in> set qs" "l \<in> set (snd q)" using kl(2) by auto
      then have "lk_consumer l = co_name (fst q)" "lk_consumer k = co_name (fst p)"
        using Cons.prems(1) kl(1) by (auto simp: part_wired_def)
      moreover have "co_name (fst q) \<noteq> co_name (fst p)" using Cons.prems(2) q(1) by (force simp: image_iff)
      ultimately show ?thesis by (auto simp: link_key_def)
    qed
    moreover have "distinct (map link_key (concat (map snd qs)))" using Cons by simp
    ultimately show ?case
      unfolding list.map concat.simps map_append distinct_append set_map using new by blast
  qed simp
  show "expected_inputs (map fst qs) \<subseteq> link_key ` set (concat (map snd qs))"
  proof
    fix x assume "x \<in> expected_inputs (map fst qs)"
    then obtain p e where p: "p \<in> set qs" "e \<in> set (co_inputs (fst p))" "x = (co_name (fst p), ep_name e)"
      by (auto simp: expected_inputs_def)
    then have "ep_name e \<in> lk_input ` set (snd p)" "\<forall>l\<in>set (snd p). lk_consumer l = co_name (fst p)"
      using assms(1) by (auto simp: part_wired_def)
    then show "x \<in> link_key ` set (concat (map snd qs))" using p by (force simp: link_key_def)
  qed
qed

definition lead :: "dc_component list \<Rightarrow> ustr \<Rightarrow> ustr \<Rightarrow> ustr \<Rightarrow> bool" where
  "lead cs component output service \<longleftrightarrow>
     (\<exists>c\<in>set cs. \<exists>e\<in>set (co_outputs c). co_name c = component \<and> ep_name e = output \<and> ep_service e = service)"

lemma link_resolvesI:
  assumes "c \<in> set cs" "i \<in> set (co_inputs c)" "co_name c = lk_consumer l" "ep_name i = lk_input l"
    "lead cs (lk_provider l) (lk_output l) (ep_service i)"
  shows "link_resolves cs l"
  using assms unfolding link_resolves_def lead_def by metis

section \<open>The parts the compiler makes\<close>

lemma provider_part_wired:
  assumes "provider_linked ps p" "provider_part h images p = Inr q"
  shows "part_wired q \<and> co_name (fst q) = pv_name p \<and> co_inputs (fst q) = ct_inputs (pv_contract p) \<and>
    co_outputs (fst q) = ct_outputs (pv_contract p) \<and>
    snd q = map (\<lambda>b. \<lparr>lk_consumer = pv_name p, lk_input = bn_input b, lk_provider = bn_component b, lk_output = bn_output b\<rparr>)
            (pv_bindings p)"
proof -
  let ?links = "map (\<lambda>b. \<lparr>lk_consumer = pv_name p, lk_input = bn_input b, lk_provider = bn_component b, lk_output = bn_output b\<rparr>)
            (pv_bindings p)"
  have "map lk_input ?links = map bn_input (pv_bindings p)" "lk_input ` set ?links = bn_input ` set (pv_bindings p)"
    by (simp_all add: comp_def image_image)
  moreover have "co_name (fst q) = pv_name p \<and> co_inputs (fst q) = ct_inputs (pv_contract p) \<and>
    co_outputs (fst q) = ct_outputs (pv_contract p) \<and> snd q = ?links"
    using assms(2) by (auto simp: provider_part_def Let_def)
  ultimately show ?thesis using assms(1) unfolding part_wired_def provider_linked_def by (auto simp del: map_map)
qed

lemma enabled_part_wired:
  assumes "enabled_part h images c = Inr q"
  shows "part_wired q \<and> co_name (fst q) = hc_name c \<and> co_inputs (fst q) = [provider_endpoint] \<and>
    (\<exists>out. outer_output h = Inr out \<and> snd q = [\<lparr>lk_consumer = hc_name c, lk_input = lit ''provider'',
       lk_provider = outer_component h, lk_output = out\<rparr>])"
  using assms by (auto simp: enabled_part_def outer_link_def part_wired_def provider_endpoint_def)

lemma team_parts_wired:
  assumes "foldE (team_part re h) (fs, []) active = Inr (fs', ts)"
  shows "\<forall>q\<in>set ts. part_wired q \<and> co_inputs (fst q) = [provider_endpoint] \<and>
    (\<exists>out. outer_output h = Inr out \<and> snd q = [\<lparr>lk_consumer = co_name (fst q), lk_input = lit ''provider'',
       lk_provider = outer_component h, lk_output = out\<rparr>])"
proof -
  have inp: "co_inputs c = [provider_endpoint]" if "make_team_component os root f i = Inr (g, c)" for os root f i g c
    using that unfolding make_team_component_def rbind_eq_Inr by (elim exE conjE) (auto split: prod.splits)
  let ?P = "\<lambda>st :: fs \<times> part list. \<forall>q\<in>set (snd st). part_wired q \<and> co_inputs (fst q) = [provider_endpoint] \<and>
    (\<exists>out. outer_output h = Inr out \<and> snd q = [\<lparr>lk_consumer = co_name (fst q), lk_input = lit ''provider'',
       lk_provider = outer_component h, lk_output = out\<rparr>])"
  have "?P (fs', ts)"
  proof (rule foldE_invariant [OF assms])
    fix st i st' assume P: "?P st" and s: "team_part re h st i = Inr st'"
    from s obtain f c out where c: "make_team_component (re_os re) (re_root re) (fst st) i = Inr (f, c)"
        "outer_output h = Inr out" "st' = (f, snd st @ [(c, [\<lparr>lk_consumer = co_name c, lk_input = lit ''provider'',
          lk_provider = outer_component h, lk_output = out\<rparr>])])"
      unfolding team_part_def outer_link_def by (auto split: prod.splits)
    have "part_wired (c, [\<lparr>lk_consumer = co_name c, lk_input = lit ''provider'',
          lk_provider = outer_component h, lk_output = out\<rparr>])"
      by (simp add: part_wired_def inp [OF c(1)] provider_endpoint_def)
    then show "?P st'" using P c(2,3) inp [OF c(1)] by auto
  qed simp
  then show ?thesis by simp
qed

lemma outer_leads:
  assumes "host_wf h" "system_parts re h images fs active = Inr (fs', qs)" "outer_output h = Inr out"
  shows "lead (map fst qs) (outer_component h) out PROVIDER_SERVICE"
proof (cases "ho_providers h = []")
  case True
  then have g: "gateway_component (hi_gateway images) True \<in> set (map fst qs)"
    using assms(2) by (auto simp: system_parts_def)
  have "out = lit ''provider''" "outer_component h = lit ''gateway''"
    using assms(3) True by (simp_all add: outer_output_def outer_component_def)
  then show ?thesis
    unfolding lead_def
    by (intro bexI [OF _ g] bexI [of _ provider_endpoint]) (simp_all add: gateway_component_def provider_endpoint_def)
next
  case False
  let ?p = "last (ho_providers h)"
  have p: "?p \<in> set (ho_providers h)" using False by simp
  then have l: "provider_linked (ho_providers h) ?p" using assms(1) by (simp add: host_wf_def)
  obtain q where q: "q \<in> set qs" "provider_part h images ?p = Inr q"
  proof -
    obtain ps where "mapE (provider_part h images) (ho_providers h) = Inr ps" "set ps \<subseteq> set qs"
      using assms(2) unfolding system_parts_def rbind_eq_Inr
      by (elim exE conjE) (auto split: prod.splits intro!: that)
    then show ?thesis using list_all2_in1 [OF _ p] that unfolding mapE_Inr by blast
  qed
  obtain e where "e \<in> set (ct_outputs (pv_contract ?p))" "provider_output ?p = Inr (ep_name e)" "ep_service e = PROVIDER_SERVICE"
    using provider_output_wf [of ?p] l by (auto simp: provider_linked_def)
  then have "fst q \<in> set (map fst qs)" "e \<in> set (co_outputs (fst q))" "co_name (fst q) = outer_component h"
    "ep_name e = out" "ep_service e = PROVIDER_SERVICE"
    using provider_part_wired [OF l q(2)] q(1) assms(3) False by (auto simp: outer_output_def outer_component_def)
  then show ?thesis unfolding lead_def by blast
qed

lemma parts_wired:
  assumes "host_wf h" "system_parts re h images fs active = Inr (fs', qs)" "q \<in> set qs"
  shows "part_wired q \<and> (\<forall>l\<in>set (snd q). link_resolves (map fst qs) l)"
proof -
  let ?cs = "map fst qs"
  obtain ps cs ts where
    ps: "mapE (provider_part h images) (ho_providers h) = Inr ps" and
    cs: "mapE (enabled_part h images) (ho_components h) = Inr cs" and
    ts: "foldE (team_part re h) (fs, []) active = Inr (fs', ts)" and
    qs: "qs = [(gateway_component (hi_gateway images) (ho_providers h = []), [])] @ ps @ cs @ ts"
    using assms(2) by (auto simp: system_parts_def split: prod.splits)
  have outer: "link_resolves ?cs l" if "x \<in> set qs" "co_inputs (fst x) = [provider_endpoint]" "outer_output h = Inr out"
      "l = \<lparr>lk_consumer = co_name (fst x), lk_input = lit ''provider'', lk_provider = outer_component h, lk_output = out\<rparr>" for x l out
    using that outer_leads [OF assms(1,2) that(3)]
    by (intro link_resolvesI [of "fst x" _ provider_endpoint]) (auto simp: provider_endpoint_def)
  consider "q = (gateway_component (hi_gateway images) (ho_providers h = []), [])" | "q \<in> set ps" | "q \<in> set cs" | "q \<in> set ts"
    using assms(3) qs by auto
  then show ?thesis
  proof cases
    case 1
    then show ?thesis by (simp add: part_wired_def gateway_component_def)
  next
    case 2
    then obtain p where p: "p \<in> set (ho_providers h)" "provider_part h images p = Inr q"
      using mapE_in_set [OF ps] by blast
    then have linked: "provider_linked (ho_providers h) p" using assms(1) by (simp add: host_wf_def)
    note w = provider_part_wired [OF linked p(2)]
    have "link_resolves ?cs l" if l: "l \<in> set (snd q)" for l
    proof -
      obtain b where b: "b \<in> set (pv_bindings p)" "l = \<lparr>lk_consumer = pv_name p, lk_input = bn_input b,
          lk_provider = bn_component b, lk_output = bn_output b\<rparr>"
        using w l by auto
      obtain e where e: "e \<in> set (ct_inputs (pv_contract p))" "ep_name e = bn_input b" and
        target: "bn_component b = gateway_name \<and> bn_output b = lit ''provider'' \<and> ep_service e = PROVIDER_SERVICE \<or>
          (\<exists>r\<in>set (ho_providers h). \<exists>out\<in>set (ct_outputs (pv_contract r)).
            pv_name r = bn_component b \<and> ep_name out = bn_output b \<and> ep_service out = ep_service e)"
        using linked b(1) unfolding provider_linked_def by blast
      have "lead ?cs (bn_component b) (bn_output b) (ep_service e)"
        using target
      proof
        assume "bn_component b = gateway_name \<and> bn_output b = lit ''provider'' \<and> ep_service e = PROVIDER_SERVICE"
        then show ?thesis unfolding qs
          by (auto simp: lead_def gateway_component_def provider_endpoint_def gateway_name_def)
      next
        assume "\<exists>r\<in>set (ho_providers h). \<exists>out\<in>set (ct_outputs (pv_contract r)).
            pv_name r = bn_component b \<and> ep_name out = bn_output b \<and> ep_service out = ep_service e"
        then obtain r out where r: "r \<in> set (ho_providers h)" "out \<in> set (ct_outputs (pv_contract r))"
            "pv_name r = bn_component b" "ep_name out = bn_output b" "ep_service out = ep_service e" by blast
        obtain x where x: "x \<in> set ps" "provider_part h images r = Inr x"
          using list_all2_in1 [OF ps [unfolded mapE_Inr] r(1)] by blast
        have "provider_linked (ho_providers h) r" using r(1) assms(1) by (simp add: host_wf_def)
        then have "co_name (fst x) = bn_component b \<and> out \<in> set (co_outputs (fst x))"
          using provider_part_wired x(2) r(2,3) by metis
        then show ?thesis using x(1) r(4,5) unfolding qs lead_def by force
      qed
      then show ?thesis
        using w e b assms(3) by (intro link_resolvesI [of "fst q" _ e]) auto
    qed
    then show ?thesis using w by blast
  next
    case 3
    then show ?thesis using mapE_in_set [OF cs] enabled_part_wired outer [OF assms(3)] by fastforce
  next
    case 4
    then show ?thesis using team_parts_wired [OF ts] outer [OF assms(3)] by fastforce
  qed
qed

text \<open>The links of a compiled system are right by construction: \<open>System.validate\<close> can only fail for a
  component of its own or for two components of the same name.\<close>

lemma runtime_links_resolve:
  assumes "runtime_system re name (Inr h) docker images fs instances = Inr (fs', s)" "host_wf h" "is_name name"
  shows "system_validate vos s = Inr () \<longleftrightarrow>
    (\<forall>c\<in>set (sy_components s). component_wf vos c) \<and> distinct (map co_name (sy_components s))"
proof -
  from assms(1) obtain qs where
    qs: "system_parts re h images fs (active_instances instances) = Inr (fs', qs)" and
    s: "s = \<lparr>sy_name = name, sy_components = map fst qs, sy_links = concat (map snd qs)\<rparr>"
    unfolding runtime_system_def Let_def by (auto split: prod.splits)
  have w: "\<forall>q\<in>set qs. part_wired q" "\<forall>l\<in>set (concat (map snd qs)). link_resolves (map fst qs) l"
    using parts_wired [OF assms(2) qs] by auto
  have "qs \<noteq> []" using qs by (auto simp: system_parts_def split: prod.splits)
  moreover have "distinct (map link_key (concat (map snd qs))) \<and>
      expected_inputs (map fst qs) \<subseteq> link_key ` set (concat (map snd qs))"
    if "distinct (map (co_name \<circ> fst) qs)"
    using wired_parts [OF w(1) that] by blast
  ultimately show ?thesis
    unfolding system_validate_iff system_wf_def s using w(2) assms(3) by auto
qed

section \<open>Valid components\<close>

definition image_tokens :: "host_images \<Rightarrow> bool" where
  "image_tokens images \<longleftrightarrow> is_token (di_id (hi_gateway images)) \<and>
     (\<forall>n im. hi_providers images n = Some im \<or> hi_components images n = Some im \<longrightarrow> is_token (di_id im))"

lemma fixed_parts:
  "is_name (lit ''gateway'')" "endpoint_wf provider_endpoint"
  "volume_wf \<lparr>vol_name = lit ''credentials'', vol_target = GATEWAY_STORE, vol_read_only = False\<rparr>"
  "port_wf (tcp_port (lit ''127.0.0.1'') 0 DCOMP_COMPONENT_PORT)" "is_name OPENAI_COMPONENT_NAME"
  by code_simp+

lemma gateway_component_wf: "is_token (di_id im) \<Longrightarrow> component_wf os (gateway_component im publish)"
  using fixed_parts by (simp add: component_wf_def gateway_component_def mount_targets_def)

lemma provider_part_wf:
  assumes "provider_linked ps p" "provider_part h images p = Inr q" "image_tokens images" "\<forall>a\<in>set (pv_arguments p). is_token a"
  shows "component_wf os (fst q)"
proof -
  obtain im where "hi_providers images (pv_name p) = Some im" "fst q = \<lparr>co_name = pv_name p, co_image = di_id im,
      co_inputs = ct_inputs (pv_contract p), co_outputs = ct_outputs (pv_contract p), co_binds = [], co_volumes = [],
      co_arguments = pv_arguments p, co_ports = (if pv_name p = outer_component h then [tcp_port (lit ''127.0.0.1'') 0 50051] else []),
      co_egress = (pv_name p = outer_component h)\<rparr>"
    using assms(2) by (auto simp: provider_part_def Let_def)
  then show ?thesis using assms(1,3,4) fixed_parts(4)
    by (auto simp: component_wf_def provider_linked_def contract_wf_def image_tokens_def mount_targets_def DCOMP_COMPONENT_PORT_def)
qed

lemma ipv4_token: "is_ipv4 a \<Longrightarrow> is_token a"
  using is_ipv4_chars [of a] is_ipv4_not_Nil [of a]
  by (fastforce simp: is_token_def isspace_def is_control_def is_digit_def)

lemma enabled_part_wf:
  assumes "enabled_wf c" "enabled_part h images c = Inr q" "image_tokens images"
  shows "component_wf os (fst q)"
proof -
  obtain im where "hi_components images (hc_name c) = Some im" "fst q = \<lparr>co_name = hc_name c, co_image = di_id im,
      co_inputs = [provider_endpoint], co_outputs = [], co_binds = [], co_volumes = [], co_arguments = [],
      co_ports = [tcp_port (hc_bind c) (hc_port c) OPENAI_HTTP_PORT], co_egress = True\<rparr>"
    using assms(2) by (auto simp: enabled_part_def)
  then show ?thesis using assms(1,3) fixed_parts ipv4_token
    by (auto simp: component_wf_def enabled_wf_def image_tokens_def mount_targets_def port_wf_def tcp_port_def OPENAI_HTTP_PORT_def)
qed

definition team_ready :: "os_env \<Rightarrow> fs \<Rightarrow> instance_rec \<Rightarrow> bool" where
  "team_ready os fs i \<longleftrightarrow> instance_valid i \<and> instance_tokens i \<and>
     (\<exists>p. decode_instance_project i = Inr p \<and> distinct (map pm_name (ip_mounts p)) \<and> sources_canonical os fs p)"

lemma make_team_component_keeps: "make_team_component os root fs i = Inr (fs', c) \<Longrightarrow> keeps fs fs'"
proof -
  assume "make_team_component os root fs i = Inr (fs', c)"
  then obtain files where "materialize_instance root fs i = Inr (fs', files)"
    unfolding make_team_component_def rbind_eq_Inr by (elim exE conjE) (auto split: prod.splits)
  then show "keeps fs fs'"
    using settlesD [OF settles_instance_disk] unfolding materialize_instance_disk by blast
qed

lemma team_parts_keep: "foldE (team_part re h) st active = Inr st' \<Longrightarrow> keeps (fst st) (fst st')"
proof (induction active arbitrary: st)
  case (Cons i active)
  then obtain m where m: "team_part re h st i = Inr m" "foldE (team_part re h) m active = Inr st'" by auto
  have "keeps (fst st) (fst m)" using m(1) make_team_component_keeps by (auto simp: team_part_def split: prod.splits)
  then show ?case using Cons.IH [OF m(2)] keeps_trans by blast
qed simp

lemma sources_canonical_before: "keeps fs fs' \<Longrightarrow> sources_canonical os fs' p \<Longrightarrow> sources_canonical os fs p"
  unfolding sources_canonical_def keeps_def by metis

lemma team_parts_wf:
  assumes "foldE (team_part re h) st active = Inr st'" "\<forall>i\<in>set active. team_ready (re_os re) (fst st') i"
    and "\<forall>q\<in>set (snd st). component_wf (re_os re) (fst q)"
  shows "\<forall>q\<in>set (snd st'). component_wf (re_os re) (fst q)"
  using assms
proof (induction active arbitrary: st)
  case (Cons i active)
  then obtain m where m: "team_part re h st i = Inr m" "foldE (team_part re h) m active = Inr st'" by auto
  from m(1) obtain c l where c: "make_team_component (re_os re) (re_root re) (fst st) i = Inr (fst m, c)"
      "snd m = snd st @ [(c, [l])]"
    unfolding team_part_def rbind_eq_Inr by (elim exE conjE) (auto split: prod.splits)
  obtain p where p: "decode_instance_project i = Inr p" "distinct (map pm_name (ip_mounts p))"
      "sources_canonical (re_os re) (fst st') p" "instance_valid i" "instance_tokens i"
    using Cons.prems(2) by (auto simp: team_ready_def)
  have "component_wf (re_os re) c"
    using team_component_valid [OF c(1) p(4,1,2,5)] sources_canonical_before [OF team_parts_keep [OF m(2)] p(3)] by blast
  then show ?case using Cons.IH [OF m(2)] Cons.prems(2,3) c(2) by auto
qed simp

text \<open>C5: a compiled system validates: from a host that loads, immutable images, provider arguments that
  are tokens, running instances whose stored records are valid and whose sources are canonical, and
  distinct component names, \<open>CycloRuntime.system\<close> makes a system that \<open>System.validate\<close> accepts.\<close>

theorem runtime_system_valid:
  assumes "runtime_system re name (Inr h) docker images fs instances = Inr (fs', s)"
    and "load_host os croot path = Inr h" "is_name name" "image_tokens images"
    and "\<forall>p\<in>set (ho_providers h). \<forall>a\<in>set (pv_arguments p). is_token a"
    and "\<forall>i\<in>set instances. in_intent i = lit ''running'' \<longrightarrow> team_ready (re_os re) fs' i"
    and "distinct (map co_name (sy_components s))"
  shows "system_validate (re_os re) s = Inr ()"
proof -
  from assms(1) obtain qs where
    qs: "system_parts re h images fs (active_instances instances) = Inr (fs', qs)" and
    s: "s = \<lparr>sy_name = name, sy_components = map fst qs, sy_links = concat (map snd qs)\<rparr>"
    unfolding runtime_system_def Let_def by (auto split: prod.splits)
  have hw: "host_wf h" using load_host_inv [OF assms(2)] by blast
  from qs obtain ps cs ts where
    ps: "mapE (provider_part h images) (ho_providers h) = Inr ps" and
    cs: "mapE (enabled_part h images) (ho_components h) = Inr cs" and
    ts: "foldE (team_part re h) (fs, []) (active_instances instances) = Inr (fs', ts)" and
    q: "qs = [(gateway_component (hi_gateway images) (ho_providers h = []), [])] @ ps @ cs @ ts"
    unfolding system_parts_def by (auto split: prod.splits)
  have "\<forall>q\<in>set ps. component_wf (re_os re) (fst q)"
    using mapE_in_set [OF ps] provider_part_wf assms(4,5) hw unfolding host_wf_def by metis
  moreover have "\<forall>q\<in>set cs. component_wf (re_os re) (fst q)"
    using mapE_in_set [OF cs] enabled_part_wf assms(4) hw unfolding host_wf_def by metis
  moreover have "\<forall>q\<in>set ts. component_wf (re_os re) (fst q)"
    using team_parts_wf [OF ts] assms(6) by (simp add: active_instances_def)
  moreover have "is_token (di_id (hi_gateway images))" using assms(4) by (simp add: image_tokens_def)
  ultimately have "\<forall>c\<in>set (map fst qs). component_wf (re_os re) c"
    unfolding q by (auto simp: gateway_component_wf)
  then show ?thesis
    using runtime_links_resolve [OF assms(1) hw assms(3)] assms(7) s by simp
qed

definition ex_runtime :: runtime_env where
  "ex_runtime = \<lparr>re_os = ex_canonical_os, re_user = ex_user, re_bad_netloc = (\<lambda>n. False), re_package_root = path_of (lit ''/c''),
     re_root = ex_store_root, re_executable = lit ''/bin/dcomp''\<rparr>"

definition ex_image :: docker_image where
  "ex_image = \<lparr>di_reference = lit ''r'', di_id = lit ''sha256:1'', di_config = []\<rparr>"

definition ex_images :: host_images where
  "ex_images = \<lparr>hi_gateway = ex_image, hi_providers = (\<lambda>n. Some ex_image), hi_components = (\<lambda>n. Some ex_image)\<rparr>"

definition ex_groups :: mount_groups where
  "ex_groups = \<lparr>mg_groups = [((lit ''/srv/demo.project'', lit ''h''), [path_of (lit ''/srv/team'')], [path_of (lit ''/srv/app'')])],
     mg_teams = [path_of (lit ''/srv/team'')], mg_mounts = [path_of (lit ''/srv/app'')]\<rparr>"

lemma ex_grouped:
  "group_instance ex_canonical_os \<lparr>mg_groups = [], mg_teams = [], mg_mounts = []\<rparr> ex_instance = Inr ex_groups"
  by code_simp

lemma ex_groups_apart:
  "validate_groups ex_runtime [path_of (lit ''/c''), path_of (lit ''/host''), path_of (lit ''/p''), path_of (lit ''/bin/dcomp'')]
     (lit ''unix:///run/d.sock'') ex_groups = Inr ()"
  by code_simp

lemma ex_mounts_apart:
  "validate_instances ex_runtime (Inr ex_host) (Inr (lit ''unix:///run/d.sock'')) [ex_instance] = Inr ()"
proof -
  have "trusted_host_roots (re_package_root ex_runtime) ex_host (Some (re_executable ex_runtime)) =
      [path_of (lit ''/c''), path_of (lit ''/host''), path_of (lit ''/p''), path_of (lit ''/bin/dcomp'')]"
    by (simp add: trusted_host_roots_def ex_runtime_def ex_host_def ex_pool_def)
  moreover have "us_uid (re_user ex_runtime) \<noteq> 0" by (simp add: ex_runtime_def ex_user_def)
  moreover have "re_os ex_runtime = ex_canonical_os" by (simp add: ex_runtime_def)
  moreover have "mg_groups ex_groups \<noteq> []" by (simp add: ex_groups_def)
  ultimately show ?thesis
    by (simp add: validate_instances_def require_non_root_team_host_def ex_grouped ex_groups_apart del: rbind_eq_Inr)
qed

lemma team_name_prefix: "team_component_name i = Inr n \<Longrightarrow> startswith (lit ''team-'') n"
  by (auto simp: team_component_name_def component_name_stem startswith_iff lit_def)

lemma make_team_component_name:
  "make_team_component os root fs i = Inr (fs', c) \<Longrightarrow> team_component_name (in_id i) = Inr (co_name c)"
  unfolding make_team_component_def rbind_eq_Inr by (elim exE conjE) (auto split: prod.splits)

lemma runtime_system_valid_witness:
  "\<exists>fs s. runtime_system ex_runtime (lit ''cyclo-x'') (Inr ex_host) (Inr (lit ''unix:///run/d.sock'')) ex_images ex_disk [ex_instance]
      = Inr (fs, s) \<and> system_validate ex_canonical_os s = Inr ()"
proof -
  let ?docker = "Inr (lit ''unix:///run/d.sock'') :: ustr res"
  obtain fs c where c: "make_team_component ex_canonical_os ex_store_root ex_disk ex_instance = Inr (fs, c)"
    using ex_team_component by blast
  note v = ex_mounts_apart
  have act: "active_instances [ex_instance] = [ex_instance]" by (simp add: active_instances_def ex_instance_def)
  have h: "ho_providers ex_host = [ex_pool]" "ho_components ex_host = [ex_openai]" by (simp_all add: ex_host_def)
  have o: "outer_component ex_host = lit ''pool''" "outer_output ex_host = Inr (lit ''provider'')"
    by (simp_all add: outer_component_def outer_output_def h ex_pool_def provider_output_def is_provider_output_def)
  have re: "re_os ex_runtime = ex_canonical_os" "re_root ex_runtime = ex_store_root" by (simp_all add: ex_runtime_def)
  obtain s where s: "runtime_system ex_runtime (lit ''cyclo-x'') (Inr ex_host) ?docker ex_images ex_disk [ex_instance] = Inr (fs, s)"
      and n: "map co_name (sy_components s) = [lit ''gateway'', lit ''pool'', lit ''openai'', co_name c]"
    by (simp add: runtime_system_def v act system_parts_def h provider_part_def enabled_part_def team_part_def ex_images_def
        outer_link_def o re c gateway_component_def ex_pool_def ex_openai_def)
  have "startswith (lit ''team-'') (co_name c)" using team_name_prefix make_team_component_name c by blast
  then have "distinct (map co_name (sy_components s))" unfolding n by (auto simp: startswith_iff lit_def)
  moreover have "is_name (lit ''cyclo-x'')" "image_tokens ex_images" "\<forall>p\<in>set (ho_providers ex_host). \<forall>a\<in>set (pv_arguments p). is_token a"
  proof -
    have "is_token (lit ''sha256:1'')" "is_token (lit ''fast'')" by code_simp+
    then show "image_tokens ex_images" "\<forall>p\<in>set (ho_providers ex_host). \<forall>a\<in>set (pv_arguments p). is_token a"
      by (simp_all add: image_tokens_def ex_images_def ex_image_def h ex_pool_def)
    show "is_name (lit ''cyclo-x'')" by code_simp
  qed
  moreover have "team_ready ex_canonical_os fs ex_instance"
    using ex_team_project ex_team_inputs ex_instance_valid by (auto simp: team_ready_def)
  ultimately have "system_validate (re_os ex_runtime) s = Inr ()"
    by (intro runtime_system_valid [OF s ex_host_loads]) (simp_all add: ex_runtime_def)
  then show ?thesis using s by (auto simp: ex_runtime_def)
qed

end
