(* ===== verification/Runtime_Ops.thy ===== *)
theory Runtime_Ops imports Runtime_System begin

text \<open>
  The operations of \<open>CycloRuntime\<close> (\<open>src/cyclo/runtime.py\<close>): building the images of a host with their
  caches, applying a system, waiting for it to settle, the ports and the readiness of components, and
  the shutdown.  The world is Docker and dcomp (\<open>'d\<close>), the image caches, the instance files and the
  generated descriptors; what dcomp and the store do to \<open>'d\<close> are parameters.  The clock counts
  milliseconds.
\<close>

record image_cache =
  ic_gateway :: "docker_image option"
  ic_providers :: "ustr \<rightharpoonup> docker_image"
  ic_components :: "ustr \<rightharpoonup> docker_image"

record 'd world =
  wd_outside :: 'd
  wd_cache :: image_cache
  wd_fs :: fs
  wd_store :: dstore

record 'd services =
  sv_env :: runtime_env
  sv_system :: ustr
  sv_host :: "host res"
  sv_endpoint :: "ustr res"
  sv_docker :: "'d docker"
  sv_exists :: "ppath \<Rightarrow> bool"
  sv_is_file :: "ppath \<Rightarrow> bool"
  sv_iidfile :: ustr
  sv_components_root :: ppath
  sv_generated_root :: ppath
  sv_tmp :: tmp_name
  sv_bind :: "('d, unit) action"
  sv_ensure :: "('d, unit) action"
  sv_check :: "('d, unit) action"
  sv_up :: "('d, unit) action"
  sv_down :: "('d, unit) action"
  sv_restart :: "ustr \<Rightarrow> ('d, unit) action"
  sv_status :: "('d, dcomp_status) action"
  sv_clock :: "'d \<Rightarrow> int"
  sv_sleep :: "'d \<Rightarrow> 'd"

definition system_name :: "'d services \<Rightarrow> ustr" where
  "system_name sv = lit ''cyclo-'' @ sv_system sv"

definition outside :: "('d, 'a) action \<Rightarrow> ('d world, 'a) action" where
  "outside m w = (case m (wd_outside w) of (d, r) \<Rightarrow> (w\<lparr>wd_outside := d\<rparr>, r))"

section \<open>Images of the host\<close>

definition bound_endpoint :: "'d services \<Rightarrow> ustr option" where
  "bound_endpoint sv = (case sv_endpoint sv of Inr e \<Rightarrow> Some e | Inl _ \<Rightarrow> None)"

definition gateway_image :: "'d services \<Rightarrow> ('d, docker_image) action" where
  "gateway_image sv =
     build_image (sv_docker sv) (re_os (sv_env sv)) (sv_is_file sv) (sv_iidfile sv) (bound_endpoint sv)
       (lit ''cyclo-'' @ sv_system sv @ lit ''-gateway:'' @ cyclo_version)
       (joinpath (sv_components_root sv) (path_of (lit ''gateway/Dockerfile''))) (sv_components_root sv) [] [] True"

definition provider_image :: "'d services \<Rightarrow> provider \<Rightarrow> ('d, docker_image) action" where
  "provider_image sv p =
     (let dockerfile = joinpath (pv_source p) (path_of (lit ''Dockerfile'')) in
      if \<not> sv_exists sv dockerfile then
        dbind (inspect_image (sv_docker sv) (bound_endpoint sv) (ct_image (pv_contract p)) False) (\<lambda>found.
        ret (rbind (of_option (CycloError ''provider image is not built'') found) (\<lambda>im.
          rbind (ensure (has_healthcheck im) (CycloError ''provider image has no OCI HEALTHCHECK'')) (\<lambda>_. Inr im))))
      else
        build_image (sv_docker sv) (re_os (sv_env sv)) (sv_is_file sv) (sv_iidfile sv) (bound_endpoint sv)
          (lit ''cyclo-'' @ sv_system sv @ lit ''-provider-'' @ pv_name p @ [58] @ cyclo_version)
          dockerfile (pv_context p) [] [] True)"

definition host_component_image :: "'d services \<Rightarrow> host_component \<Rightarrow> ('d, docker_image) action" where
  "host_component_image sv c =
     build_image (sv_docker sv) (re_os (sv_env sv)) (sv_is_file sv) (sv_iidfile sv) (bound_endpoint sv)
       (lit ''cyclo-'' @ sv_system sv @ lit ''-component-'' @ hc_name c @ [58] @ cyclo_version)
       (joinpath (sv_components_root sv) (joinpath (path_of (hc_name c)) (path_of (lit ''Dockerfile''))))
       (sv_components_root sv) [] [] True"

text \<open>A build whose result a later call takes from the cache, unless it rebuilds.\<close>

definition build_gateway :: "'d services \<Rightarrow> bool \<Rightarrow> ('d world, docker_image) action" where
  "build_gateway sv rebuild =
     dbind (outside (sv_bind sv)) (\<lambda>_. dbind (outside (sv_ensure sv)) (\<lambda>_ w.
       case ic_gateway (wd_cache w) of
         Some im \<Rightarrow>
           if rebuild then
             dbind (outside (gateway_image sv)) (\<lambda>im w.
               (w\<lparr>wd_cache := (wd_cache w)\<lparr>ic_gateway := Some im\<rparr>\<rparr>, Inr im)) w
           else (w, Inr im)
       | None \<Rightarrow>
           dbind (outside (gateway_image sv)) (\<lambda>im w.
             (w\<lparr>wd_cache := (wd_cache w)\<lparr>ic_gateway := Some im\<rparr>\<rparr>, Inr im)) w))"

definition build_cached ::
    "(image_cache \<Rightarrow> ustr \<rightharpoonup> docker_image) \<Rightarrow> ((ustr \<rightharpoonup> docker_image) \<Rightarrow> image_cache \<Rightarrow> image_cache) \<Rightarrow>
      ('c \<Rightarrow> ustr) \<Rightarrow> ('c \<Rightarrow> ('d, docker_image) action) \<Rightarrow> bool \<Rightarrow> 'c \<Rightarrow> ('d world, docker_image) action" where
  "build_cached get put name build rebuild c w =
     (case get (wd_cache w) (name c) of
        Some im \<Rightarrow>
          if rebuild then
            dbind (outside (build c)) (\<lambda>im w. (w\<lparr>wd_cache := put ((get (wd_cache w))(name c \<mapsto> im)) (wd_cache w)\<rparr>, Inr im)) w
          else (w, Inr im)
      | None \<Rightarrow>
          dbind (outside (build c)) (\<lambda>im w. (w\<lparr>wd_cache := put ((get (wd_cache w))(name c \<mapsto> im)) (wd_cache w)\<rparr>, Inr im)) w)"

fun build_all ::
    "('c \<Rightarrow> ustr) \<Rightarrow> ('c \<Rightarrow> ('d world, docker_image) action) \<Rightarrow> (ustr \<rightharpoonup> docker_image) \<Rightarrow> 'c list \<Rightarrow>
      ('d world, ustr \<rightharpoonup> docker_image) action" where
  "build_all name build images [] = ret (Inr images)"
| "build_all name build images (c # cs) =
     dbind (build c) (\<lambda>im. build_all name build (images(name c \<mapsto> im)) cs)"

definition build_host :: "'d services \<Rightarrow> bool \<Rightarrow> ('d world, host_images) action" where
  "build_host sv rebuild =
     dbind (outside (sv_bind sv)) (\<lambda>_. dbind (outside (sv_ensure sv)) (\<lambda>_.
     dbind (build_gateway sv rebuild) (\<lambda>gateway.
     dbind (ret (sv_host sv)) (\<lambda>h.
     dbind (build_all pv_name
       (build_cached ic_providers (\<lambda>m c. c\<lparr>ic_providers := m\<rparr>) pv_name (provider_image sv) rebuild)
       Map.empty (ho_providers h)) (\<lambda>providers.
     dbind (build_all hc_name
       (build_cached ic_components (\<lambda>m c. c\<lparr>ic_components := m\<rparr>) hc_name (host_component_image sv) rebuild)
       Map.empty (ho_components h)) (\<lambda>components.
     ret (Inr \<lparr>hi_gateway = gateway, hi_providers = providers, hi_components = components\<rparr>)))))))"

section \<open>Waiting\<close>

definition settling :: "dcomp_status \<Rightarrow> bool" where
  "settling st \<longleftrightarrow> st_operation st \<noteq> [] \<or>
     (\<exists>c\<in>set (st_components st). cs_status c \<in> {lit ''created'', lit ''restarting''} \<or> cs_health c = lit ''starting'')"

partial_function (option) wait_loop ::
    "'d services \<Rightarrow> int \<Rightarrow> 'd \<Rightarrow> ('d \<times> dcomp_status res) option" where
  "wait_loop sv deadline d =
     (case sv_status sv d of
        (d', Inl e) \<Rightarrow> Some (d', Inl e)
      | (d', Inr st) \<Rightarrow>
          if \<not> settling st \<or> deadline \<le> sv_clock sv d' then Some (d', Inr st)
          else wait_loop sv deadline (sv_sleep sv d'))"

definition wait_status :: "'d services \<Rightarrow> int \<Rightarrow> 'd \<Rightarrow> ('d \<times> dcomp_status res) option" where
  "wait_status sv timeout d = wait_loop sv (sv_clock sv d + timeout) d"

section \<open>Applying a system\<close>

definition materialize_system :: "'d services \<Rightarrow> dc_system \<Rightarrow> ('d world, ustr \<times> ustr list) action" where
  "materialize_system sv s w =
     (case materialize (re_os (sv_env sv)) (sv_generated_root sv) (sv_tmp sv) (wd_store w) s of
        (ops, r) \<Rightarrow> (w\<lparr>wd_store := apply_ops ops (wd_store w)\<rparr>, r))"

definition compile_system :: "'d services \<Rightarrow> host_images \<Rightarrow> instance_rec list \<Rightarrow> ('d world, dc_system) action" where
  "compile_system sv images instances w =
     (case runtime_system (sv_env sv) (system_name sv) (sv_host sv) (sv_endpoint sv) images (wd_fs w) instances of
        Inl e \<Rightarrow> (w, Inl e)
      | Inr (fs, s) \<Rightarrow> (w\<lparr>wd_fs := fs\<rparr>, Inr s))"

definition start_definition :: "'d services \<Rightarrow> ('d world, unit) action" where
  "start_definition sv = dbind (outside (sv_check sv)) (\<lambda>_. outside (sv_up sv))"

text \<open>The part of \<open>apply\<close> before the wait.\<close>

definition start_system :: "'d services \<Rightarrow> bool \<Rightarrow> instance_rec list \<Rightarrow> ('d world, ustr \<times> ustr list) action" where
  "start_system sv rebuild instances =
     dbind (ret (validate_instances (sv_env sv) (sv_host sv) (sv_endpoint sv)
       (filter (\<lambda>i. in_intent i = lit ''running'') instances))) (\<lambda>_.
     dbind (build_host sv rebuild) (\<lambda>images.
     dbind (compile_system sv images instances) (\<lambda>s.
     dbind (materialize_system sv s) (\<lambda>definition.
     dbind (start_definition sv) (\<lambda>_. ret (Inr definition))))))"

definition then_wait ::
    "'d services \<Rightarrow> 'd world \<times> 'a res \<Rightarrow> ('d world \<times> ('a \<times> dcomp_status) res) option" where
  "then_wait sv started =
     (case started of
        (w, Inl e) \<Rightarrow> Some (w, Inl e)
      | (w, Inr definition) \<Rightarrow>
          map_option (\<lambda>(d, r). (w\<lparr>wd_outside := d\<rparr>, rbind r (\<lambda>st. Inr (definition, st))))
            (wait_status sv 30000 (wd_outside w)))"

definition apply_system ::
    "'d services \<Rightarrow> bool \<Rightarrow> instance_rec list \<Rightarrow> 'd world \<Rightarrow>
      ('d world \<times> ((ustr \<times> ustr list) \<times> dcomp_status) res) option" where
  "apply_system sv rebuild instances w = then_wait sv (start_system sv rebuild instances w)"

definition apply_gateway :: "'d services \<Rightarrow> ('d world, (ustr \<times> ustr list) \<times> dcomp_status) action" where
  "apply_gateway sv =
     dbind (build_gateway sv False) (\<lambda>gateway.
     dbind (materialize_system sv
       \<lparr>sy_name = system_name sv, sy_components = [gateway_component gateway True], sy_links = []\<rparr>) (\<lambda>definition.
     dbind (start_definition sv) (\<lambda>_.
     dbind (outside (sv_status sv)) (\<lambda>st. ret (Inr (definition, st))))))"

definition rebuild_gateway ::
    "'d services \<Rightarrow> instance_rec list \<Rightarrow> 'd world \<Rightarrow>
      ('d world \<times> ((ustr \<times> ustr list) \<times> dcomp_status) res) option" where
  "rebuild_gateway sv instances w =
     (case build_gateway sv True w of
        (w, Inl e) \<Rightarrow> Some (w, Inl e)
      | (w, Inr _) \<Rightarrow>
          (case apply_system sv False instances w of
             None \<Rightarrow> None
           | Some (w, Inl e) \<Rightarrow> Some (w, Inl e)
           | Some (w, Inr (definition, _)) \<Rightarrow>
               then_wait sv (dbind (outside (sv_restart sv (lit ''gateway''))) (\<lambda>_. ret (Inr definition)) w)))"

definition shutdown :: "'d services \<Rightarrow> ('d, dcomp_status) action" where
  "shutdown sv =
     dbind (sv_down sv) (\<lambda>_.
     dbind (sv_status sv) (\<lambda>observed.
     dbind (ret (ensure (\<not> (st_desired observed \<or> st_operation observed \<noteq> [] \<or> st_components observed \<noteq> [] \<or>
         st_networks observed \<noteq> []))
       (CycloError ''DComp shutdown completed but runtime resources remain''))) (\<lambda>_. ret (Inr observed))))"

section \<open>Ports and readiness\<close>

definition component_port :: "component_status \<Rightarrow> int \<Rightarrow> ustr \<Rightarrow> int option" where
  "component_port c container_port host_ip =
     (case map dp_host_port (filter (\<lambda>p. dp_protocol p = lit ''tcp'' \<and> dp_container_port p = container_port \<and>
             dp_host_ip p = host_ip) (cs_ports c)) of
        [port] \<Rightarrow> if port \<le> 0 then None else Some port
      | _ \<Rightarrow> None)"

definition outer_port :: "host res \<Rightarrow> dcomp_status \<Rightarrow> int res" where
  "outer_port host observed =
     rbind host (\<lambda>h.
     rbind (of_option (CycloError ''outer provider component is absent'') (status_component observed (outer_component h))) (\<lambda>c.
     of_option (CycloError ''outer provider has no usable loopback endpoint'')
       (component_port c DCOMP_COMPONENT_PORT (lit ''127.0.0.1''))))"

definition team_port :: "instance_rec \<Rightarrow> dcomp_status \<Rightarrow> int option res" where
  "team_port i observed =
     (if in_offline i then Inr None
      else
        rbind (team_component_name (in_id i)) (\<lambda>name.
        rbind (of_option (CycloError ''team component is absent'') (status_component observed name)) (\<lambda>c.
        rbind (of_option (CycloError ''team component has no usable AgentWS endpoint'')
          (component_port c TEAM_DASHBOARD_PORT (in_agentws_host i))) (\<lambda>port. Inr (Some port)))))"

definition require_component_ready :: "dcomp_status \<Rightarrow> ustr \<Rightarrow> unit res" where
  "require_component_ready st name =
     rbind (of_option (CycloError ''component is absent'') (status_component st name)) (\<lambda>c.
     ensure (cs_status c = lit ''running'' \<and> cs_health c = lit ''healthy'') (CycloError ''component is not ready''))"

definition require_instances_ready :: "host res \<Rightarrow> instance_rec list \<Rightarrow> dcomp_status \<Rightarrow> unit res" where
  "require_instances_ready host selected st =
     (if selected = [] then Inr ()
      else
        rbind (ensure (st_operation st = []) (CycloError ''DComp operation is still pending'')) (\<lambda>_.
        rbind host (\<lambda>h.
        rbind (require_component_ready st (outer_component h)) (\<lambda>_.
        checkE (\<lambda>i. rbind (team_component_name (in_id i)) (require_component_ready st)) selected))))"

section \<open>Waiting ends\<close>

text \<open>\<open>time.sleep\<close> lets the monotonic clock pass by at least the 250 milliseconds asked for, and asking
  for the status never turns it back.\<close>

definition clock_runs :: "'d services \<Rightarrow> bool" where
  "clock_runs sv \<longleftrightarrow> (\<forall>d. sv_clock sv d + 250 \<le> sv_clock sv (sv_sleep sv d)) \<and> (\<forall>d. sv_clock sv d \<le> sv_clock sv (fst (sv_status sv d)))"

lemma wait_loop_returns:
  assumes "clock_runs sv"
  shows "\<exists>d' r. wait_loop sv deadline d = Some (d', r) \<and> (\<forall>st. r = Inr st \<longrightarrow> \<not> settling st \<or> deadline \<le> sv_clock sv d')"
proof (induction "nat (deadline - sv_clock sv d)" arbitrary: d rule: less_induct)
  case less
  obtain d' r where s: "sv_status sv d = (d', r)" by (cases "sv_status sv d")
  show ?case
  proof (cases r)
    case (Inl e)
    then show ?thesis using s by (subst wait_loop.simps) simp
  next
    case (Inr st)
    show ?thesis
    proof (cases "\<not> settling st \<or> deadline \<le> sv_clock sv d'")
      case True
      then show ?thesis using s Inr by (subst wait_loop.simps) auto
    next
      case False
      have "sv_clock sv d \<le> sv_clock sv d'" "sv_clock sv d' + 250 \<le> sv_clock sv (sv_sleep sv d')"
        using assms s unfolding clock_runs_def by (metis fst_conv)+
      then have "nat (deadline - sv_clock sv (sv_sleep sv d')) < nat (deadline - sv_clock sv d)" using False by linarith
      then have "\<exists>d'' r. wait_loop sv deadline (sv_sleep sv d') = Some (d'', r) \<and>
          (\<forall>st. r = Inr st \<longrightarrow> \<not> settling st \<or> deadline \<le> sv_clock sv d'')"
        by (rule less)
      moreover have "wait_loop sv deadline d = wait_loop sv deadline (sv_sleep sv d')"
        using s Inr False by (subst wait_loop.simps) auto
      ultimately show ?thesis by simp
    qed
  qed
qed

lemma wait_loop_last:
  assumes "wait_loop sv deadline d = Some x"
  shows "\<exists>d0. sv_status sv d0 = x"
proof (rule wait_loop.raw_induct [OF _ assms])
  fix rec :: "'a services \<Rightarrow> int \<Rightarrow> 'a \<Rightarrow> ('a \<times> dcomp_status res) option" and sv deadline d x
  assume IH: "\<And>sv deadline d x. rec sv deadline d = Some x \<Longrightarrow> \<exists>d0. sv_status sv d0 = x"
    and body: "(case sv_status sv d of (d', Inl e) \<Rightarrow> Some (d', Inl e)
      | (d', Inr st) \<Rightarrow> if \<not> settling st \<or> deadline \<le> sv_clock sv d' then Some (d', Inr st) else rec sv deadline (sv_sleep sv d')) = Some x"
  obtain d' r where s: "sv_status sv d = (d', r)" by (cases "sv_status sv d")
  show "\<exists>d0. sv_status sv d0 = x"
    using body IH [of sv deadline "sv_sleep sv d'" x] s by (cases r) (auto split: if_splits)
qed

text \<open>\<open>wait_status\<close> always returns: however long the components take to settle, the loop ends at the
  first failing status call, at the first settled status, or once the timeout has passed.\<close>

theorem wait_status_returns:
  assumes "clock_runs sv"
  shows "\<exists>d' r. wait_status sv timeout d = Some (d', r) \<and>
    (\<forall>st. r = Inr st \<longrightarrow> \<not> settling st \<or> sv_clock sv d + timeout \<le> sv_clock sv d')"
  unfolding wait_status_def by (rule wait_loop_returns [OF assms])

section \<open>A host is built once\<close>

lemma outside_ok: "outside m w = (w', Inr x) \<Longrightarrow> wd_cache w' = wd_cache w"
  by (auto simp: outside_def split: prod.splits)

definition caches :: "image_cache \<Rightarrow> host \<Rightarrow> host_images \<Rightarrow> bool" where
  "caches c h images \<longleftrightarrow> ic_gateway c = Some (hi_gateway images) \<and>
     (\<forall>p\<in>set (ho_providers h). ic_providers c (pv_name p) = hi_providers images (pv_name p) \<and> hi_providers images (pv_name p) \<noteq> None) \<and>
     (\<forall>p\<in>set (ho_components h). ic_components c (hc_name p) = hi_components images (hc_name p) \<and> hi_components images (hc_name p) \<noteq> None)"

lemma dbind_ok: "dbind m k w = (w', Inr y) \<longleftrightarrow> (\<exists>v x. m w = (v, Inr x) \<and> k x v = (w', Inr y))"
  by (auto simp: dbind_def split: prod.splits sum.splits)

lemma build_cached_cases:
  assumes "build_cached get put name build rebuild c w = (w', Inr im)"
  shows "get (wd_cache w) (name c) = Some im \<and> wd_cache w' = wd_cache w \<or>
    wd_cache w' = put ((get (wd_cache w))(name c \<mapsto> im)) (wd_cache w)"
proof -
  let ?store = "dbind (outside (build c)) (\<lambda>im w. (w\<lparr>wd_cache := put ((get (wd_cache w))(name c \<mapsto> im)) (wd_cache w)\<rparr>, Inr im)) w"
  have "wd_cache w' = put ((get (wd_cache w))(name c \<mapsto> im)) (wd_cache w)" if s: "?store = (w', Inr im)"
  proof -
    obtain v where "outside (build c) w = (v, Inr im)"
        "w' = v\<lparr>wd_cache := put ((get (wd_cache v))(name c \<mapsto> im)) (wd_cache v)\<rparr>"
      using s unfolding dbind_ok by blast
    then show ?thesis using outside_ok by fastforce
  qed
  then show ?thesis using assms unfolding build_cached_def
    by (cases "get (wd_cache w) (name c)"; cases rebuild) simp_all
qed

lemma build_cached_ok:
  assumes "build_cached get put name build rebuild c w = (w', Inr im)" "\<And>m c. get (put m c) = m"
  shows "get (wd_cache w') = (get (wd_cache w))(name c \<mapsto> im)"
  using build_cached_cases [OF assms(1)]
proof
  assume "get (wd_cache w) (name c) = Some im \<and> wd_cache w' = wd_cache w"
  then show ?thesis by (metis fun_upd_triv)
next
  assume "wd_cache w' = put ((get (wd_cache w))(name c \<mapsto> im)) (wd_cache w)"
  then show ?thesis by (metis assms(2))
qed

lemma build_all_ok:
  assumes "build_all name (build_cached get put name build rebuild) m cs w = (w', Inr images)" "\<And>m c. get (put m c) = m"
    and "\<forall>n im. m n = Some im \<longrightarrow> get (wd_cache w) n = Some im"
  shows "(\<forall>n im. images n = Some im \<longrightarrow> get (wd_cache w') n = Some im) \<and> dom images = dom m \<union> name ` set cs"
  using assms(1,3)
proof (induction cs arbitrary: m w)
  case Nil
  then show ?case by (auto simp: ret_def)
next
  case (Cons c cs)
  then obtain v im where v: "build_cached get put name build rebuild c w = (v, Inr im)"
      "build_all name (build_cached get put name build rebuild) (m(name c \<mapsto> im)) cs v = (w', Inr images)"
    by (auto simp: dbind_ok)
  have "\<forall>n i. (m(name c \<mapsto> im)) n = Some i \<longrightarrow> get (wd_cache v) n = Some i"
    using build_cached_ok [OF v(1) assms(2)] Cons.prems(2) by simp
  then show ?case using Cons.IH [OF v(2)] by auto
qed

lemma build_cached_frame:
  assumes "build_cached get put name build rebuild c w = (w', Inr im)" "\<And>m c. other (put m c) = other c"
  shows "other (wd_cache w') = other (wd_cache w)"
  using build_cached_cases [OF assms(1)] assms(2) by metis

lemma build_all_frame:
  assumes "build_all name (build_cached get put name build rebuild) m cs w = (w', Inr images)"
    "\<And>m c. other (put m c) = other c"
  shows "other (wd_cache w') = other (wd_cache w)"
  using assms(1)
proof (induction cs arbitrary: m w)
  case Nil
  then show ?case by (auto simp: ret_def)
next
  case (Cons c cs)
  then obtain v im where v: "build_cached get put name build rebuild c w = (v, Inr im)"
      "build_all name (build_cached get put name build rebuild) (m(name c \<mapsto> im)) cs v = (w', Inr images)"
    by (auto simp: dbind_ok)
  show ?case using Cons.IH [OF v(2)] build_cached_frame [OF v(1), of other] assms(2) by simp
qed

lemma build_all_hit:
  assumes "\<forall>c\<in>set cs. get (wd_cache w) (name c) \<noteq> None"
  shows "build_all name (build_cached get put name build False) m cs w =
    (w, Inr (\<lambda>n. if n \<in> name ` set cs then get (wd_cache w) n else m n))"
  using assms
proof (induction cs arbitrary: m)
  case Nil
  then show ?case by (simp add: ret_def)
next
  case (Cons c cs)
  obtain im where im: "get (wd_cache w) (name c) = Some im" using Cons.prems by auto
  then have "build_cached get put name build False c w = (w, Inr im)" by (simp add: build_cached_def)
  moreover have "build_all name (build_cached get put name build False) (m(name c \<mapsto> im)) cs w =
      (w, Inr (\<lambda>n. if n \<in> name ` set cs then get (wd_cache w) n else (m(name c \<mapsto> im)) n))"
    by (rule Cons.IH) (use Cons.prems in simp)
  ultimately show ?case using im by (auto simp: dbind_def fun_eq_iff)
qed

lemma build_gateway_ok:
  assumes "build_gateway sv rebuild w = (w', Inr g)"
  shows "ic_gateway (wd_cache w') = Some g"
  using assms unfolding build_gateway_def dbind_ok
  by (elim exE conjE) (auto simp: dbind_ok split: option.splits if_splits)

lemma build_host_parts:
  assumes "build_host sv rebuild w = (w', Inr images)"
  obtains w1 w2 h where "build_gateway sv rebuild w1 = (w2, Inr (hi_gateway images))" "sv_host sv = Inr h"
    "caches (wd_cache w') h images" "dom (hi_providers images) = pv_name ` set (ho_providers h)"
    "dom (hi_components images) = hc_name ` set (ho_components h)"
proof -
  from assms obtain w1 w2 w3 g h ps cs where
    g: "build_gateway sv rebuild w1 = (w2, Inr g)" and h: "sv_host sv = Inr h" and
    p: "build_all pv_name (build_cached ic_providers (\<lambda>m c. c\<lparr>ic_providers := m\<rparr>) pv_name (provider_image sv) rebuild)
       Map.empty (ho_providers h) w2 = (w3, Inr ps)" and
    c: "build_all hc_name (build_cached ic_components (\<lambda>m c. c\<lparr>ic_components := m\<rparr>) hc_name (host_component_image sv) rebuild)
       Map.empty (ho_components h) w3 = (w', Inr cs)" and
    i: "images = \<lparr>hi_gateway = g, hi_providers = ps, hi_components = cs\<rparr>"
    unfolding build_host_def dbind_ok by (auto simp: ret_def)
  have "(\<forall>n im. ps n = Some im \<longrightarrow> ic_providers (wd_cache w3) n = Some im) \<and> dom ps = dom Map.empty \<union> pv_name ` set (ho_providers h)"
    using build_all_ok [OF p] by simp
  moreover have "(\<forall>n im. cs n = Some im \<longrightarrow> ic_components (wd_cache w') n = Some im) \<and> dom cs = dom Map.empty \<union> hc_name ` set (ho_components h)"
    using build_all_ok [OF c] by simp
  moreover have "ic_gateway (wd_cache w3) = ic_gateway (wd_cache w2)" by (rule build_all_frame [OF p]) simp
  moreover have "ic_gateway (wd_cache w') = ic_gateway (wd_cache w3)" by (rule build_all_frame [OF c]) simp
  moreover have "ic_providers (wd_cache w') = ic_providers (wd_cache w3)" by (rule build_all_frame [OF c]) simp
  ultimately have k: "\<forall>n im. ps n = Some im \<longrightarrow> ic_providers (wd_cache w') n = Some im"
    "\<forall>n im. cs n = Some im \<longrightarrow> ic_components (wd_cache w') n = Some im"
    "ic_gateway (wd_cache w') = Some g" "dom ps = pv_name ` set (ho_providers h)" "dom cs = hc_name ` set (ho_components h)"
    using build_gateway_ok [OF g] by auto
  have "\<exists>im. ps (pv_name p) = Some im" if "p \<in> set (ho_providers h)" for p
    using k(4) that by blast
  moreover have "\<exists>im. cs (hc_name c) = Some im" if "c \<in> set (ho_components h)" for c
    using k(5) that by blast
  ultimately have "caches (wd_cache w') h images"
    unfolding caches_def i using k(1-3) by fastforce
  then show thesis using that g h k(4,5) i by simp
qed

definition prepared_outside :: "'d services \<Rightarrow> 'd \<Rightarrow> 'd" where
  "prepared_outside sv d = fst (sv_ensure sv (fst (sv_bind sv d)))"

text \<open>A host that was built has an image for each of its providers and components, and building it again
  without a rebuild returns the same images without a Docker command: it only binds the endpoint and
  prepares the store.\<close>

theorem build_host_cached:
  assumes "build_host sv rebuild w = (w', Inr images)" "sv_host sv = Inr h"
    and "\<forall>d. snd (sv_bind sv d) = Inr ()" "\<forall>d. snd (sv_ensure sv d) = Inr ()" "wd_cache u = wd_cache w'"
  shows "build_host sv False u =
      (u\<lparr>wd_outside := prepared_outside sv (prepared_outside sv (wd_outside u))\<rparr>, Inr images) \<and>
    dom (hi_providers images) = pv_name ` set (ho_providers h) \<and> dom (hi_components images) = hc_name ` set (ho_components h)"
proof -
  obtain h' where "sv_host sv = Inr h'" and k: "caches (wd_cache w') h' images"
    and d: "dom (hi_providers images) = pv_name ` set (ho_providers h')" "dom (hi_components images) = hc_name ` set (ho_components h')"
    using build_host_parts [OF assms(1)] by metis
  then have [simp]: "h' = h" using assms(2) by simp
  have prep: "dbind (outside (sv_bind sv)) (\<lambda>_. dbind (outside (sv_ensure sv)) (\<lambda>_. m)) v =
      m (v\<lparr>wd_outside := prepared_outside sv (wd_outside v)\<rparr>)" for m :: "('a world, 'b) action" and v
  proof -
    obtain d1 d2 where "sv_bind sv (wd_outside v) = (d1, Inr ())" "sv_ensure sv d1 = (d2, Inr ())"
      using assms(3,4) by (metis prod.collapse)
    then show ?thesis by (simp add: dbind_def outside_def prepared_outside_def)
  qed
  have "build_gateway sv False v = (v\<lparr>wd_outside := prepared_outside sv (wd_outside v)\<rparr>, Inr (hi_gateway images))"
    if "wd_cache v = wd_cache w'" for v
    using that k unfolding build_gateway_def prep by (simp add: caches_def)
  note g = this
  have p: "(\<lambda>n. if n \<in> pv_name ` set (ho_providers h) then ic_providers (wd_cache w') n else None) = hi_providers images"
    using k d(1) [unfolded set_eq_iff domIff] unfolding caches_def fun_eq_iff by auto
  have c: "(\<lambda>n. if n \<in> hc_name ` set (ho_components h) then ic_components (wd_cache w') n else None) = hi_components images"
    using k d(2) [unfolded set_eq_iff domIff] unfolding caches_def fun_eq_iff by auto
  have hits: "\<forall>c\<in>set (ho_providers h). ic_providers (wd_cache w') (pv_name c) \<noteq> None"
    "\<forall>c\<in>set (ho_components h). ic_components (wd_cache w') (hc_name c) \<noteq> None"
    using k unfolding caches_def by auto
  show ?thesis
    using d hits assms(5) unfolding build_host_def prep
    by (simp add: dbind_def [of "build_gateway sv False"] g assms(2) dbind_def [of "build_all _ _ _ _"] build_all_hit)
      (simp add: ret_def p c cong: if_cong)
qed

section \<open>What was applied\<close>

lemma materialize_Inr:
  assumes "materialize os root tmp st s = (ops, Inr (digest, names))"
  shows "system_validate os s = Inr () \<and> system_digest os s = Inr digest \<and> names = sort (map co_name (sy_components s))"
  using assms
  by (auto simp: materialize_def Let_def rbind_def split: sum.splits prod.splits)

lemma start_system_ok:
  assumes "start_system sv rebuild instances w = (w', Inr (digest, names))"
  shows "validate_instances (sv_env sv) (sv_host sv) (sv_endpoint sv) (filter (\<lambda>i. in_intent i = lit ''running'') instances) = Inr () \<and>
    (\<exists>images fs s. runtime_system (sv_env sv) (system_name sv) (sv_host sv) (sv_endpoint sv) images fs instances = Inr (wd_fs w', s) \<and>
       system_validate (re_os (sv_env sv)) s = Inr () \<and> system_digest (re_os (sv_env sv)) s = Inr digest \<and>
       names = sort (map co_name (sy_components s)))"
proof -
  have out: "outside m v = (v', Inr x) \<Longrightarrow> wd_fs v' = wd_fs v" for m :: "('a, 'b) action" and v v' x
    by (auto simp: outside_def split: prod.splits)
  from assms obtain w1 images w2 s w3 where
    v: "validate_instances (sv_env sv) (sv_host sv) (sv_endpoint sv) (filter (\<lambda>i. in_intent i = lit ''running'') instances) = Inr ()" and
    c: "compile_system sv images instances w1 = (w2, Inr s)" and
    m: "materialize_system sv s w2 = (w3, Inr (digest, names))" and
    u: "start_definition sv w3 = (w', Inr ())"
    unfolding start_system_def dbind_ok by (auto simp: ret_def)
  have "runtime_system (sv_env sv) (system_name sv) (sv_host sv) (sv_endpoint sv) images (wd_fs w1) instances = Inr (wd_fs w2, s)"
    using c by (auto simp: compile_system_def split: sum.splits)
  moreover have "wd_fs w3 = wd_fs w2" "\<exists>ops. materialize (re_os (sv_env sv)) (sv_generated_root sv) (sv_tmp sv) (wd_store w2) s =
      (ops, Inr (digest, names))"
    using m by (auto simp: materialize_system_def split: prod.splits)
  moreover have "wd_fs w' = wd_fs w3" using u out unfolding start_definition_def dbind_ok by metis
  ultimately show ?thesis using v materialize_Inr by metis
qed


section \<open>Readiness\<close>

definition component_ready :: "dcomp_status \<Rightarrow> ustr \<Rightarrow> bool" where
  "component_ready st name \<longleftrightarrow> (\<exists>c\<in>set (st_components st). cs_name c = name \<and> cs_status c = lit ''running'' \<and>
     cs_health c = lit ''healthy'')"

lemma require_component_ready_iff:
  assumes "distinct (map cs_name (st_components st))"
  shows "require_component_ready st name = Inr u \<longleftrightarrow> component_ready st name"
proof -
  have "status_component st name = Some c \<longleftrightarrow> c \<in> set (st_components st) \<and> cs_name c = name" for c
    using find_Some_unique [OF assms, of c] by (auto simp: status_component_def dest: find_SomeD)
  then show ?thesis by (auto simp: require_component_ready_def component_ready_def)
qed

text \<open>\<open>require_instances_ready\<close> returns exactly when nothing was asked for, or no operation is pending and
  the outer provider component and the component of every selected team are running and healthy; other
  components do not matter.\<close>

theorem instances_ready_iff:
  assumes "distinct (map cs_name (st_components st))"
  shows "require_instances_ready (Inr h) selected st = Inr () \<longleftrightarrow> selected = [] \<or>
    (st_operation st = [] \<and> component_ready st (outer_component h) \<and>
     (\<forall>i\<in>set selected. \<exists>name. team_component_name (in_id i) = Inr name \<and> component_ready st name))"
  by (simp add: require_instances_ready_def require_component_ready_iff [OF assms])

definition ex_pending :: dcomp_status where
  "ex_pending = ex_status\<lparr>st_operation := lit ''up''\<rparr>"

definition ex_clock_docker :: "nat docker" where
  "ex_clock_docker = \<lparr>dk_command = (\<lambda>e args d. (d, DockerRan \<lparr>rn_code = 0, rn_stdout = [], rn_stderr = []\<rparr>)),
     dk_loads = dk_loads ex_docker, dk_iidfile = (\<lambda>d. dk_iidfile ex_docker ()), dk_environ = Map.empty\<rparr>"

definition ex_bare_host :: host where
  "ex_bare_host = \<lparr>ho_path = path_of (lit ''/host''), ho_providers = [], ho_generation = [], ho_components = []\<rparr>"

definition ex_services :: "nat services" where
  "ex_services = \<lparr>sv_env = ex_runtime, sv_system = lit ''x'', sv_host = Inr ex_bare_host, sv_endpoint = Inr (lit ''unix:///d''),
     sv_docker = ex_clock_docker, sv_exists = (\<lambda>p. True), sv_is_file = (\<lambda>p. True), sv_iidfile = lit ''/tmp/i'',
     sv_components_root = path_of (lit ''/c''), sv_generated_root = path_of (lit ''/s/system''), sv_tmp = (\<lambda>ns n. n),
     sv_bind = (\<lambda>d. (d, Inr ())), sv_ensure = (\<lambda>d. (d, Inr ())), sv_check = (\<lambda>d. (d, Inr ())), sv_up = (\<lambda>d. (d, Inr ())),
     sv_down = (\<lambda>d. (d, Inr ())), sv_restart = (\<lambda>n d. (d, Inr ())), sv_status = (\<lambda>d. (d, Inr ex_pending)),
     sv_clock = int, sv_sleep = (\<lambda>d. d + 250)\<rparr>"

definition ex_world :: "nat world" where
  "ex_world = \<lparr>wd_outside = 0, wd_cache = \<lparr>ic_gateway = None, ic_providers = Map.empty, ic_components = Map.empty\<rparr>,
     wd_fs = ex_disk, wd_store = \<lparr>st_descriptors = [], st_system = None\<rparr>\<rparr>"

lemma ex_clock_runs: "clock_runs ex_services"
  by (simp add: clock_runs_def ex_services_def)

lemma wait_status_returns_witness:
  "\<exists>d r. wait_status ex_services 1000 0 = Some (d, r)"
  using wait_status_returns [OF ex_clock_runs] by blast


lemma ex_host_built: "is_ok (snd (build_host ex_services False ex_world))"
  by code_simp

lemma build_host_cached_witness:
  "\<exists>w images. build_host ex_services False ex_world = (w, Inr images) \<and> snd (build_host ex_services False w) = Inr images"
proof -
  obtain w images where b: "build_host ex_services False ex_world = (w, Inr images)"
    using ex_host_built by (metis is_ok_iff surjective_pairing)
  have "sv_host ex_services = Inr ex_bare_host" "\<forall>d. snd (sv_bind ex_services d) = Inr ()" "\<forall>d. snd (sv_ensure ex_services d) = Inr ()"
    by (simp_all add: ex_services_def)
  then have "snd (build_host ex_services False w) = Inr images"
    using build_host_cached [OF b _ _ _ refl] by simp
  then show ?thesis using b by blast
qed

lemma instances_ready_iff_witness:
  "require_instances_ready (Inr ex_bare_host) [ex_instance] ex_pending \<noteq> Inr ()"
proof -
  have "distinct (map cs_name (st_components ex_pending))" by (simp add: ex_pending_def ex_status_def)
  then show ?thesis using instances_ready_iff [of ex_pending ex_bare_host "[ex_instance]"]
    by (simp add: ex_pending_def lit_def)
qed

end
