(* ===== verification/Project_Run.thy ===== *)
theory Project_Run imports Project_Roundtrip State_Store Team Images begin

text \<open>
  \<open>src/cyclo/project_run.py\<close>: what \<open>cyclo project run\<close> makes of a project and its teams: the identifier of
  each instance, its record, the binding of a team to its mount sources, and the checks of the options.
  \<open>stat\<close> is \<open>os.stat\<close> without following a final link: whether it is a directory, its device and inode.
\<close>

section \<open>Identifiers\<close>

definition strip_id_end :: "ustr \<Rightarrow> ustr" where
  "strip_id_end s = rstrip_by (\<lambda>c. c = 45 \<or> c = 46 \<or> c = 95) s"

definition project_instance_id :: "project \<Rightarrow> project_team \<Rightarrow> ustr res" where
  "project_instance_id p t =
     (let readable = pj_name p @ [45] @ lower (team_name t) in
      if length readable \<le> 64 then validate_instance_id readable
      else
        rbind (utf8_encode (path_str (pj_path p) @ [0] @ path_str (pt_path t))) (\<lambda>raw.
        validate_instance_id (strip_id_end (take 55 readable) @ [45] @ take 8 (sha256_hex raw))))"

section \<open>Instances\<close>

record run_args =
  ra_offline :: bool
  ra_verbose :: bool
  ra_host :: ustr
  ra_port :: int
  ra_image :: "ustr option"
  ra_foreground :: bool

definition new_instance ::
    "os_env \<Rightarrow> run_args \<Rightarrow> team \<Rightarrow> ustr res \<Rightarrow> ustr \<Rightarrow> ustr \<Rightarrow> ustr \<Rightarrow> bool \<Rightarrow> project \<Rightarrow> ustr \<Rightarrow> instance_rec res" where
  "new_instance os args t generation identifier img image_override team_write p project_config =
     rbind generation (\<lambda>generation.
     rbind (of_option (ValueErr ''agents'') (case te_agents t of a # _ \<Rightarrow> Some a | [] \<Rightarrow> None)) (\<lambda>first.
     rbind (of_option (ValueErr ''model'') (agent_model_id first)) (\<lambda>model_id.
     Inr \<lparr>in_id = identifier, in_team_name = path_name (te_root t), in_team_path = path_str (te_root t),
          in_generation = generation, in_models = sort (remdups (map ag_model (te_agents t))), in_image = img,
          in_image_override = image_override, in_team_write = team_write, in_offline = ra_offline args,
          in_verbose = ra_verbose args, in_agentws_host = ra_host args, in_intent = lit ''running'',
          in_requested_port = ra_port args, in_team_roster = path_name (te_roster t),
          in_team_protocol = (te_protocol t \<noteq> None), in_pi_default_provider = agent_provider first,
          in_pi_default_model = model_id, in_project_name = pj_name p,
          in_project_file = path_str (resolve_lax os (pj_path p)), in_project_description = pj_description p,
          in_project_generation = pj_sha256 p, in_project_config = project_config,
          in_project_mounts = encode_project_mounts (pj_mounts p), in_runtime_version = cyclo_version,
          in_created_at = [], in_updated_at = [], in_schema = JInt STATE_SCHEMA\<rparr>)))"

section \<open>Mount sources\<close>

record source_identity =
  si_path :: ppath
  si_device :: nat
  si_inode :: nat

record file_status =
  fst_is_dir :: bool
  fst_device :: nat
  fst_inode :: nat

type_synonym stat = "ppath \<Rightarrow> file_status option"

definition source_identity_of :: "os_env \<Rightarrow> stat \<Rightarrow> ppath \<Rightarrow> source_identity res" where
  "source_identity_of os stat path =
     rbind (of_option (CycloError ''cannot inspect mount source'') (stat path)) (\<lambda>st.
     rbind (of_option (CycloError ''cannot inspect mount source'') (resolve_strict os path)) (\<lambda>resolved.
     rbind (ensure (fst_is_dir st \<and> resolved = path) (CycloError ''mount source is no longer a canonical directory'')) (\<lambda>_.
     Inr \<lparr>si_path = path, si_device = fst_device st, si_inode = fst_inode st\<rparr>)))"

definition capture_source_identities :: "os_env \<Rightarrow> stat \<Rightarrow> ppath list \<Rightarrow> source_identity list res" where
  "capture_source_identities os stat paths = mapE (source_identity_of os stat) paths"

record run_binding =
  rb_team :: team
  rb_instance :: instance_rec
  rb_sources :: "source_identity list"

definition verify_source_identities :: "os_env \<Rightarrow> stat \<Rightarrow> run_binding \<Rightarrow> unit res" where
  "verify_source_identities os stat b =
     checkE (\<lambda>expected.
       case source_identity_of os stat (si_path expected) of
         Inl _ \<Rightarrow> Inl (CycloError ''mount source changed after validation'')
       | Inr actual \<Rightarrow> ensure (actual = expected) (CycloError ''mount source changed after validation''))
       (rb_sources b)"

definition stored_path :: "os_env \<Rightarrow> ustr \<Rightarrow> ppath res" where
  "stored_path os value =
     rbind (ensure (value \<noteq> []) (CycloError ''invalid path in instance state'')) (\<lambda>_.
     let selected = expanduser os (path_of value) in
     rbind (ensure (is_absolute selected) (CycloError ''non-absolute path in instance state'')) (\<lambda>_.
     let canonical = abspath os selected in
     rbind (of_option (CycloError ''cannot resolve path in instance state'') (resolve_strict os canonical)) (\<lambda>resolved.
     rbind (ensure (resolved = canonical \<and> is_dir os resolved)
       (CycloError ''path in instance state is not a canonical directory'')) (\<lambda>_.
     Inr resolved))))"

datatype source_kind = TeamSource | ProjectSource

definition instance_mount_sources :: "os_env \<Rightarrow> instance_rec \<Rightarrow> (ppath \<times> source_kind) list res" where
  "instance_mount_sources os i =
     rbind (stored_path os (in_team_path i)) (\<lambda>team_path.
     rbind (rbind (decode_instance_project i) require_valid) (\<lambda>p.
     rbind (mapE (\<lambda>m. stored_path os (path_str (pm_path m))) (ip_mounts p)) (\<lambda>mounts.
     Inr ((team_path, TeamSource) # map (\<lambda>m. (m, ProjectSource)) mounts))))"

section \<open>Teams and bindings\<close>

text \<open>\<open>git\<close> gives the output of \<open>git rev-parse --show-toplevel\<close> in a directory, \<open>node_at\<close> the tree there.\<close>

definition load_selected_team ::
    "os_env \<Rightarrow> (ppath \<Rightarrow> qnode option) \<Rightarrow> (ppath \<Rightarrow> ustr option) \<Rightarrow> project_team \<Rightarrow> (project_team \<times> team) res" where
  "load_selected_team os node_at git selected =
     rbind (load_team os node_at (path_str (pt_path selected))) (\<lambda>t.
     rbind (require_team_repository os (git (te_root t)) t) (\<lambda>_. Inr (selected, t)))"

fun load_teams_loop ::
    "(project_team \<Rightarrow> (project_team \<times> team) res) \<Rightarrow> (project_team \<Rightarrow> ustr res) \<Rightarrow> ustr set option \<Rightarrow> project_team list \<Rightarrow>
      (project_team \<times> team) list res" where
  "load_teams_loop load_one identify ids [] = Inr []"
| "load_teams_loop load_one identify ids (t # ts) =
     rbind (case ids of None \<Rightarrow> Inr True | Some wanted \<Rightarrow> rbind (identify t) (\<lambda>i. Inr (i \<in> wanted))) (\<lambda>selected.
     if selected
     then rbind (load_one t) (\<lambda>x. rbind (load_teams_loop load_one identify ids ts) (\<lambda>rest. Inr (x # rest)))
     else load_teams_loop load_one identify ids ts)"

definition load_project_teams ::
    "os_env \<Rightarrow> (ppath \<Rightarrow> qnode option) \<Rightarrow> (ppath \<Rightarrow> ustr option) \<Rightarrow> project \<Rightarrow> ustr set option \<Rightarrow>
      (project_team \<times> team) list res" where
  "load_project_teams os node_at git p ids =
     rbind (load_teams_loop (load_selected_team os node_at git) (project_instance_id p) ids (pj_teams p)) (\<lambda>result.
     case ids of
       None \<Rightarrow> Inr result
     | Some wanted \<Rightarrow>
         rbind (mapE (\<lambda>(s, _). project_instance_id p s) result) (\<lambda>loaded.
         rbind (ensure (wanted \<subseteq> set loaded)
           (CycloError ''project definition no longer provides recorded instance(s)'')) (\<lambda>_. Inr result)))"

definition validate_run_options :: "run_args \<Rightarrow> nat \<Rightarrow> unit res" where
  "validate_run_options args team_count =
     rbind (ensure (0 \<le> ra_port args \<and> ra_port args \<le> 65535) (CycloError ''port must be 0 or an integer from 1 to 65535'')) (\<lambda>_.
     rbind (ensure (\<not> (ra_offline args \<and> ra_port args \<noteq> 0)) (CycloError ''--port cannot be used with --offline'')) (\<lambda>_.
     rbind (ensure (is_ipv4 (ra_host args)) (CycloError ''--host must be a literal IPv4 address'')) (\<lambda>_.
     rbind (ensure (\<not> (1 < team_count \<and> ra_port args \<noteq> 0)) (CycloError ''--port is ambiguous'')) (\<lambda>_.
     ensure (\<not> (1 < team_count \<and> ra_foreground args)) (CycloError ''--foreground is ambiguous'')))))"

definition bind_team ::
    "os_env \<Rightarrow> stat \<Rightarrow> run_args \<Rightarrow> project \<Rightarrow> ustr \<Rightarrow> (team \<Rightarrow> ustr res) \<Rightarrow> run_binding list \<times> ustr set \<Rightarrow>
      project_team \<times> team \<Rightarrow> (run_binding list \<times> ustr set) res" where
  "bind_team os stat args p base generation st configured =
     (case (st, configured) of ((result, identifiers), (selected, t)) \<Rightarrow>
      rbind (project_instance_id p selected) (\<lambda>identifier.
      rbind (ensure (identifier \<notin> identifiers) (CycloError ''project teams produce duplicate instance ID'')) (\<lambda>_.
      rbind (render_container_project p selected) (\<lambda>project_config.
      let image_override = (case ra_image args of Some s \<Rightarrow> s | None \<Rightarrow> []);
          img = (if image_override \<noteq> [] then image_override else base)
      in
      rbind (new_instance os args t (generation t) identifier img image_override (pt_mode selected = RW) p project_config) (\<lambda>i.
      rbind (capture_source_identities os stat (te_root t # map pm_path (pj_mounts p))) (\<lambda>sources.
      Inr (result @ [\<lparr>rb_team = t, rb_instance = i, rb_sources = sources\<rparr>], insert identifier identifiers)))))))"

definition project_run_bindings ::
    "os_env \<Rightarrow> stat \<Rightarrow> run_args \<Rightarrow> project \<Rightarrow> ustr \<Rightarrow> (team \<Rightarrow> ustr res) \<Rightarrow> (project_team \<times> team) list \<Rightarrow> run_binding list res" where
  "project_run_bindings os stat args p base generation configured =
     rbind (foldE (bind_team os stat args p base generation) ([], {}) configured) (\<lambda>(result, _). Inr result)"

section \<open>Identifiers of a loaded project\<close>

lemma lower_char_team: "team_tail c \<Longrightarrow> instance_tail (lower_char c)"
  by (auto simp: team_tail_def instance_tail_def lower_char_def ascii_defs)

lemma project_name_chars:
  assumes "is_project_name n"
  shows "n \<noteq> [] \<and> is_alnum (hd n) \<and> (\<forall>c\<in>set n. instance_tail c)"
  using assms by (auto simp: is_project_name_def re_name_def slug_head_def slug_tail_def instance_tail_def ascii_defs
      list_all_iff split: list.splits)

lemma team_name_chars: "is_team_name n \<Longrightarrow> c \<in> set n \<Longrightarrow> team_tail c"
  by (cases n) (auto simp: is_team_name_def re_name_def list_all_iff team_tail_def)

lemma instance_idI:
  assumes "is_alnum (hd s)" "s \<noteq> []" "\<forall>c\<in>set s. instance_tail c" "length s \<le> 64" "45 \<in> set s"
  shows "validate_instance_id s = Inr s"
proof -
  obtain c t where s: "s = c # t" using assms(2) by (cases s) auto
  have "s \<notin> {lit ''.'', lit ''..''}" using assms(5) by (auto simp: lit_def)
  moreover have "is_instance_id s" using assms unfolding s by (auto simp: is_instance_id_def re_name_def list_all_iff)
  ultimately show ?thesis by (simp add: validate_instance_id_def)
qed

lemma project_id_ok:
  assumes "is_project_name (pj_name p)" "is_team_name (team_name t)"
    and "is_ok (utf8_encode (path_str (pj_path p) @ [0] @ path_str (pt_path t)))"
  shows "\<exists>i. project_instance_id p t = Inr i \<and> is_instance_id i \<and> length i \<le> 64"
proof -
  let ?r = "pj_name p @ [45] @ lower (team_name t)"
  note n = project_name_chars [OF assms(1)]
  have tail: "\<forall>c\<in>set ?r. instance_tail c"
    using n team_name_chars [OF assms(2)] lower_char_team by (auto simp: lower_def instance_tail_def)
  have hd: "is_alnum (hd ?r)" using n by simp
  have len: "0 < length (pj_name p)" using n by simp
  show ?thesis
  proof (cases "length ?r \<le> 64")
    case True
    have "validate_instance_id ?r = Inr ?r"
      by (rule instance_idI) (use n tail hd len True in auto)
    then show ?thesis using True by (auto simp: project_instance_id_def Let_def validate_instance_id_def split: if_splits)
  next
    case False
    obtain raw where raw: "utf8_encode (path_str (pj_path p) @ [0] @ path_str (pt_path t)) = Inr raw"
      using assms(3) by (auto simp: is_ok_iff)
    let ?s = "strip_id_end (take 55 ?r)" and ?i = "strip_id_end (take 55 ?r) @ [45] @ take 8 (sha256_hex raw)"
    have take: "take 55 ?r \<noteq> []" "hd (take 55 ?r) = hd ?r" using len by (cases "pj_name p"; simp)+
    have "\<not> (hd ?r = 45 \<or> hd ?r = 46 \<or> hd ?r = 95)" using hd by (auto simp: ascii_defs)
    then have "\<not> (hd (take 55 ?r) = 45 \<or> hd (take 55 ?r) = 46 \<or> hd (take 55 ?r) = 95)" unfolding take(2) .
    then have s: "?s \<noteq> []" unfolding strip_id_end_def by (rule rstrip_by_not_Nil [OF take(1)])
    obtain rest where rest: "take 55 ?r = ?s @ rest"
      using rstrip_by_prefix [of "take 55 ?r" "\<lambda>c. c = 45 \<or> c = 46 \<or> c = 95"] unfolding strip_id_end_def by blast
    have "hd (take 55 ?r) = hd (?s @ rest)" by (rule arg_cong [OF rest])
    also have "\<dots> = hd ?s" by (rule hd_append2 [OF s])
    finally have hds: "hd ?s = hd ?r" using take(2) by simp
    have "set ?s \<subseteq> set (take 55 ?r)" unfolding strip_id_end_def by (rule set_rstrip_by)
    also have "\<dots> \<subseteq> set ?r" by (rule set_take_subset)
    finally have "set ?s \<subseteq> set ?r" .
    moreover have "\<forall>c\<in>set (take 8 (sha256_hex raw)). instance_tail c"
    proof
      fix c assume "c \<in> set (take 8 (sha256_hex raw))"
      then have "is_hex c" using sha256_hex_is_hex in_set_takeD by metis
      then show "instance_tail c" by (auto simp: is_hex_def instance_tail_def ascii_defs)
    qed
    ultimately have tail: "\<forall>c\<in>set ?i. instance_tail c" using tail by (auto simp: instance_tail_def)
    have "length ?s \<le> length (take 55 ?r)" unfolding strip_id_end_def by (rule rstrip_by_length)
    also have "\<dots> \<le> 55" by simp
    finally have l: "length ?i \<le> 64" by simp
    have "validate_instance_id ?i = Inr ?i"
    proof (rule instance_idI)
      show "is_alnum (hd ?i)" using hds hd s by (simp only: hd_append2 [OF s])
      show "?i \<noteq> []" "45 \<in> set ?i" by simp_all
    qed (rule tail l)+
    moreover from this have "is_instance_id ?i" by (simp add: validate_instance_id_def split: if_splits)
    moreover have "project_instance_id p t = validate_instance_id ?i"
      using False raw by (simp add: project_instance_id_def Let_def)
    ultimately show ?thesis using l by simp
  qed
qed

text \<open>Every team of a project that loads gets a valid instance identifier of at most 64 characters, however
  long the names of the project and the team are.\<close>

theorem project_instance_id_total:
  assumes "load_project os value = Inr p" "t \<in> set (pj_teams p)"
    and "is_ok (utf8_encode (path_str (pj_path p) @ [0] @ path_str (pt_path t)))"
  shows "\<exists>i. project_instance_id p t = Inr i \<and> is_instance_id i \<and> length i \<le> 64"
  using project_id_ok [OF _ _ assms(3)] load_project_inv [OF assms(1)] assms(2)
  unfolding project_wf_def teams_wf_def by blast

section \<open>Bindings\<close>

lemma bind_team_Inr:
  assumes "bind_team os stat args p base generation (bs, ids) (sel, t) = Inr (bs', ids')"
  shows "\<exists>i g c inst srcs. project_instance_id p sel = Inr i \<and> i \<notin> ids \<and> ids' = insert i ids \<and> generation t = Inr g \<and>
    render_container_project p sel = Inr c \<and>
    new_instance os args t (Inr g) i (case ra_image args of Some s \<Rightarrow> if s \<noteq> [] then s else base | None \<Rightarrow> base)
      (case ra_image args of Some s \<Rightarrow> s | None \<Rightarrow> []) (pt_mode sel = RW) p c = Inr inst \<and>
    capture_source_identities os stat (te_root t # map pm_path (pj_mounts p)) = Inr srcs \<and>
    bs' = bs @ [\<lparr>rb_team = t, rb_instance = inst, rb_sources = srcs\<rparr>]"
  using assms unfolding bind_team_def prod.case Let_def rbind_eq_Inr ensure_eq sum.inject prod.inject
  by (elim exE conjE, hypsubst) (auto simp: new_instance_def split: option.splits)

definition binding_of ::
    "os_env \<Rightarrow> stat \<Rightarrow> run_args \<Rightarrow> project \<Rightarrow> ustr \<Rightarrow> (team \<Rightarrow> ustr res) \<Rightarrow> (project_team \<times> team) list \<Rightarrow> run_binding \<Rightarrow> bool" where
  "binding_of os stat args p base generation configured b \<longleftrightarrow>
     (\<exists>sel g c. (sel, rb_team b) \<in> set configured \<and> project_instance_id p sel = Inr (in_id (rb_instance b)) \<and>
        generation (rb_team b) = Inr g \<and> render_container_project p sel = Inr c \<and>
        new_instance os args (rb_team b) (Inr g) (in_id (rb_instance b))
          (case ra_image args of Some s \<Rightarrow> if s \<noteq> [] then s else base | None \<Rightarrow> base)
          (case ra_image args of Some s \<Rightarrow> s | None \<Rightarrow> []) (pt_mode sel = RW) p c = Inr (rb_instance b) \<and>
        capture_source_identities os stat (te_root (rb_team b) # map pm_path (pj_mounts p)) = Inr (rb_sources b))"

lemma new_instance_id: "new_instance os args t g i img ov w p c = Inr inst \<Longrightarrow> in_id inst = i"
  unfolding new_instance_def rbind_eq_Inr by (elim exE conjE) auto

lemma bindings_inv:
  assumes "project_run_bindings os stat args p base generation configured = Inr bs"
  shows "distinct (map (in_id \<circ> rb_instance) bs) \<and> (\<forall>b\<in>set bs. binding_of os stat args p base generation configured b)"
proof -
  let ?P = "\<lambda>st :: run_binding list \<times> ustr set. distinct (map (in_id \<circ> rb_instance) (fst st)) \<and>
    in_id ` rb_instance ` set (fst st) = snd st \<and> (\<forall>b\<in>set (fst st). binding_of os stat args p base generation configured b)"
  obtain ids where f: "foldE (bind_team os stat args p base generation) ([], {}) configured = Inr (bs, ids)"
    using assms by (auto simp: project_run_bindings_def)
  have "?P (bs, ids)"
  proof (rule foldE_invariant [OF f])
    fix st x st' assume x: "x \<in> set configured" and P: "?P st"
      and s: "bind_team os stat args p base generation st x = Inr st'"
    obtain bs ids sel t bs' ids' where e: "st = (bs, ids)" "x = (sel, t)" "st' = (bs', ids')" by (metis prod.exhaust)
    obtain i g c inst srcs where 1: "project_instance_id p sel = Inr i" "i \<notin> ids" "ids' = insert i ids" "generation t = Inr g"
        "render_container_project p sel = Inr c"
        "new_instance os args t (Inr g) i (case ra_image args of Some s \<Rightarrow> if s \<noteq> [] then s else base | None \<Rightarrow> base)
          (case ra_image args of Some s \<Rightarrow> s | None \<Rightarrow> []) (pt_mode sel = RW) p c = Inr inst"
        "capture_source_identities os stat (te_root t # map pm_path (pj_mounts p)) = Inr srcs"
        "bs' = bs @ [\<lparr>rb_team = t, rb_instance = inst, rb_sources = srcs\<rparr>]"
      using bind_team_Inr [OF s [unfolded e]] by blast
    have i: "in_id inst = i" by (rule new_instance_id [OF 1(6)])
    have "binding_of os stat args p base generation configured \<lparr>rb_team = t, rb_instance = inst, rb_sources = srcs\<rparr>"
      unfolding binding_of_def using 1 x e(2) i by auto
    then show "?P st'" using P 1(2,3,8) i unfolding e by auto
  qed simp
  then show ?thesis by simp
qed

lemma loaded_team_parts:
  assumes "load_team os node_at value = Inr t"
  obtains n where "te_roster t = child (te_root t) n" "n \<in> set ROSTER_NAMES"
proof -
  obtain root s where "read_team_snapshot root (node_at root) None = Inr s" "te_roster t = sn_roster s" "te_root t = root"
    using assms by (auto simp: load_team_def)
  then show ?thesis using that
    by (auto simp: read_team_snapshot_def snapshot_of_files_def Let_def)
qed

lemma first_agent_ok:
  assumes "wf_agent roles a"
  shows "ag_model a \<noteq> [] \<and> strip (agent_provider a) \<noteq> [] \<and> (\<exists>m. agent_model_id a = Some m \<and> strip m \<noteq> [])"
proof -
  obtain q m where m: "ag_model a = q @ 47 # m" "is_provider_prefix (Some q)" "is_local_model_id (Some m)"
    using assms by (auto simp: wf_agent_def)
  have q: "q \<noteq> []" "\<forall>c\<in>set q. prefix_tail c"
    using m(2) by (cases q; auto simp: is_provider_prefix_def re_name_def prefix_head_def prefix_tail_def list_all_iff)+
  then have "47 \<notin> set q" by (auto simp: prefix_tail_def ascii_defs)
  then have "partition_at 47 (ag_model a) = (q, True, m)" unfolding m(1) by (rule partition_at_append)
  moreover have "strip q \<noteq> []"
    using q by (cases q) (auto simp: strip_eq_Nil prefix_tail_def isspace_def ascii_defs)
  moreover have "strip m \<noteq> []"
    using m(3) by (cases m) (auto simp: strip_eq_Nil is_local_model_id_def forbidden_model_char_def)
  ultimately show ?thesis by (auto simp: agent_provider_def agent_model_id_def m(1))
qed

lemma strip_absolute: "wf_path q \<Longrightarrow> is_absolute q \<Longrightarrow> strip (path_str q) \<noteq> []"
proof -
  assume "wf_path q" "is_absolute q"
  then have "47 \<in> set (path_str q)" by (auto simp: path_str_def is_absolute_def wf_path_def lit_def)
  moreover have "\<not> isspace 47" by (simp add: isspace_def)
  ultimately show ?thesis by (auto simp: strip_eq_Nil)
qed

lemma strip_rendered: "render_container_project p sel = Inr c \<Longrightarrow> strip c \<noteq> []"
proof -
  assume r: "render_container_project p sel = Inr c"
  have "join [10] (x # xs) = x @ (case xs of [] \<Rightarrow> [] | _ \<Rightarrow> [10] @ join [10] xs)" for x xs by (cases xs) auto
  moreover have "35 \<in> set (lit ''# Generated by Cyclo for this team container.'')" by (simp add: lit_def)
  ultimately have "35 \<in> set c" using r by (auto simp: render_container_project_def Let_def split: if_splits)
  moreover have "\<not> isspace 35" by (simp add: isspace_def)
  ultimately show ?thesis by (auto simp: strip_eq_Nil)
qed

text \<open>What \<open>Path.resolve\<close> documents: its results are absolute, and resolve and expand to themselves.\<close>

definition resolves :: "os_env \<Rightarrow> bool" where
  "resolves os \<longleftrightarrow> (\<forall>q. wf_path (resolve_lax os q) \<and> is_absolute (resolve_lax os q)) \<and>
     (\<forall>q r. resolve_strict os q = Some r \<longrightarrow> wf_path r \<and> is_absolute r \<and> resolve_lax os (expanduser os r) = r)"

lemma loaded_teams:
  assumes "load_teams_loop (load_selected_team os node_at git) identify ids ts = Inr configured" "(sel, t) \<in> set configured"
  shows "sel \<in> set ts \<and> load_team os node_at (path_str (pt_path sel)) = Inr t"
  using assms
proof (induction ts arbitrary: configured)
  case (Cons x ts)
  then show ?case by (auto simp: load_selected_team_def split: if_splits)
qed simp

lemma sha_not_blank: "definition_sha256 n d c ts ms = Inr s \<Longrightarrow> strip s \<noteq> []"
proof -
  assume "definition_sha256 n d c ts ms = Inr s"
  then obtain e where s: "s = sha256_hex e" by (auto simp: definition_sha256_def Let_def)
  have "s \<noteq> []" using length_sha256_hex [of e] unfolding s [symmetric] by (cases s) simp_all
  then obtain x xs where x: "s = x # xs" unfolding neq_Nil_conv by blast
  have "is_hex x" by (rule sha256_hex_is_hex [of _ e]) (simp add: s [symmetric] x)
  then show ?thesis by (auto simp: strip_eq_Nil x is_hex_def isspace_def ascii_defs)
qed

lemma project_texts:
  assumes "load_project os value = Inr p"
  shows "strip (pj_name p) \<noteq> []" "strip (pj_description p) \<noteq> []" "strip (pj_sha256 p) \<noteq> []"
proof -
  have wf: "project_wf os p" using assms by (rule load_project_inv)
  have n: "pj_name p \<noteq> [] \<and> is_alnum (hd (pj_name p))" using project_name_chars wf by (auto simp: project_wf_def)
  then show "strip (pj_name p) \<noteq> []" using alnum_not_space by (cases "pj_name p") (auto simp: strip_eq_Nil)
  show "strip (pj_description p) \<noteq> []" using wf by (auto simp: project_wf_def description_wf_def)
  obtain st where "finish_project (selected_path os value) st = Inr p" using load_project_parts [OF assms] by blast
  then show "strip (pj_sha256 p) \<noteq> []" using sha_not_blank by (auto simp: finish_project_def Let_def)
qed

lemma generation_not_blank: "team_generation node head t = Inr g \<Longrightarrow> strip g \<noteq> []"
  by (auto simp: team_generation_def Let_def strip_eq_Nil lit_def isspace_def)

lemma run_instance_fields:
  assumes "new_instance os args t generation i img ov w p c = Inr inst"
  shows "\<exists>g a as m. generation = Inr g \<and> te_agents t = a # as \<and> agent_model_id a = Some m \<and> in_id inst = i \<and>
    in_team_name inst = path_name (te_root t) \<and> in_team_path inst = path_str (te_root t) \<and> in_generation inst = g \<and>
    in_models inst = sort (remdups (map ag_model (te_agents t))) \<and> in_image inst = img \<and> in_agentws_host inst = ra_host args \<and>
    in_intent inst = lit ''running'' \<and> in_requested_port inst = ra_port args \<and> in_team_roster inst = path_name (te_roster t) \<and>
    in_pi_default_provider inst = agent_provider a \<and> in_pi_default_model inst = m \<and> in_project_name inst = pj_name p \<and>
    in_project_file inst = path_str (resolve_lax os (pj_path p)) \<and> in_project_description inst = pj_description p \<and>
    in_project_generation inst = pj_sha256 p \<and> in_project_config inst = c \<and>
    in_project_mounts inst = encode_project_mounts (pj_mounts p) \<and> in_runtime_version inst = cyclo_version \<and>
    in_schema inst = JInt STATE_SCHEMA"
  using assms unfolding new_instance_def rbind_eq_Inr of_option_eq
  by (elim exE conjE) (auto split: list.splits)

lemma roster_part: "n \<in> set ROSTER_NAMES \<Longrightarrow> path_name (path_of n) = n \<and> n \<notin> {lit ''.'', lit ''..''} \<and> strip n \<noteq> []"
proof -
  have "list_all (\<lambda>n. path_name (path_of n) = n \<and> n \<noteq> lit ''.'' \<and> n \<noteq> lit ''..'' \<and> strip n \<noteq> []) ROSTER_NAMES"
    by code_simp
  then show "n \<in> set ROSTER_NAMES \<Longrightarrow> path_name (path_of n) = n \<and> n \<notin> {lit ''.'', lit ''..''} \<and> strip n \<noteq> []"
    by (auto simp: list_all_iff)
qed

lemma version_not_blank: "strip cyclo_version \<noteq> []"
  by code_simp

lemma team_name_strip: "is_team_name n \<Longrightarrow> strip n \<noteq> []"
proof -
  assume n: "is_team_name n"
  then obtain c r where c: "n = c # r" by (cases n) (auto simp: is_team_name_def re_name_def)
  then have "team_tail c" using team_name_chars [OF n, of c] by simp
  then have "is_alnum c \<or> c = 46 \<or> c = 95 \<or> c = 45" by (auto simp: team_tail_def)
  then have "\<not> isspace c" using alnum_not_space by (elim disjE) (blast, simp_all add: isspace_def)
  then show ?thesis by (simp add: strip_eq_Nil c)
qed

lemma ipv4_strip: "is_ipv4 s \<Longrightarrow> strip s \<noteq> []"
proof -
  assume s: "is_ipv4 s"
  then obtain c r where c: "s = c # r" using is_ipv4_not_Nil by (cases s) auto
  then have "is_digit c \<or> c = 46" using is_ipv4_chars [OF s, of c] by simp
  then have "\<not> isspace c" by (auto simp: is_digit_def isspace_def)
  then show ?thesis by (simp add: strip_eq_Nil c)
qed

lemma instance_from_team:
  assumes new: "new_instance os args t (team_generation node head t) i img ov w p c = Inr inst"
    and p: "load_project os value = Inr p" and os: "resolves os"
    and t: "load_team os node_at v = Inr t" and root: "te_root t = pt_path sel" "sel \<in> set (pj_teams p)"
    and opt: "validate_run_options args n = Inr ()" and img: "is_image_id img" and i: "validate_instance_id i = Inr i"
    and c: "render_container_project p sel = Inr c"
  shows "instance_valid inst"
proof -
  have wf: "project_wf os p" using p by (rule load_project_inv)
  obtain g a as m where f: "team_generation node head t = Inr g" "te_agents t = a # as" "agent_model_id a = Some m" "in_id inst = i"
     "in_team_name inst = path_name (te_root t)" "in_team_path inst = path_str (te_root t)" "in_generation inst = g"
     "in_models inst = sort (remdups (map ag_model (te_agents t)))" "in_image inst = img" "in_agentws_host inst = ra_host args"
     "in_intent inst = lit ''running''" "in_requested_port inst = ra_port args" "in_team_roster inst = path_name (te_roster t)"
     "in_pi_default_provider inst = agent_provider a" "in_pi_default_model inst = m" "in_project_name inst = pj_name p"
     "in_project_file inst = path_str (resolve_lax os (pj_path p))" "in_project_description inst = pj_description p"
     "in_project_generation inst = pj_sha256 p" "in_project_config inst = c"
     "in_project_mounts inst = encode_project_mounts (pj_mounts p)" "in_runtime_version inst = cyclo_version"
     "in_schema inst = JInt STATE_SCHEMA"
    using run_instance_fields [OF new] by blast
  have agents: "\<forall>x\<in>set (te_agents t). \<exists>roles. wf_agent roles x" using load_team_inv [OF t] by blast
  have a: "ag_model a \<noteq> []" "strip (agent_provider a) \<noteq> []" "strip m \<noteq> []"
    using first_agent_ok agents f(2,3) by fastforce+
  have models: "\<forall>x\<in>set (in_models inst). x \<noteq> []" using agents first_agent_ok f(8) by fastforce
  have some: "in_models inst \<noteq> []"
  proof -
    have "set (in_models inst) = ag_model ` set (te_agents t)" using f(8) by simp
    then show ?thesis using f(2) by force
  qed
  have team: "is_team_name (team_name sel)" "root_ok os (pt_path sel)" using wf root(2) by (auto simp: project_wf_def teams_wf_def)
  have path: "wf_path (te_root t)" "is_absolute (te_root t)"
    using team(2) os unfolding root(1) root_ok_def resolves_def by blast+
  have name: "strip (path_name (te_root t)) \<noteq> []"
    using team_name_strip [OF team(1)] by (simp add: team_name_def root(1))
  obtain r where r: "te_roster t = child (te_root t) r" "r \<in> set ROSTER_NAMES" using loaded_team_parts [OF t] by blast
  have roster: "in_team_roster inst = r" using f(13) r(1) by (simp add: child_def path_name_def)
  have located: "wf_path (resolve_lax os (pj_path p))" "is_absolute (resolve_lax os (pj_path p))" using os by (auto simp: resolves_def)
  have "\<forall>x\<in>set (pj_mounts p). storable x"
    using wf os unfolding project_wf_def mounts_wf_def root_ok_def storable_def resolves_def by blast
  then have dec: "\<exists>q. decode_instance_project inst = Inr q \<and> require_valid q = Inr q"
    using decode_encoded_ok [OF f(21) _ _ f(17) located] wf project_texts [OF p] unfolding f(16,18,19) project_wf_def by fastforce
  have "is_ipv4 (ra_host args)" using opt by (simp add: validate_run_options_def)
  then have host: "strip (ra_host args) \<noteq> []" by (rule ipv4_strip)
  have image_text: "strip img \<noteq> []" using img by (auto simp: is_image_id_def startswith_iff strip_eq_Nil lit_def isspace_def)
  have texts: "\<forall>x\<in>set (required_texts inst). strip x \<noteq> []"
    using a name f strip_absolute [OF path] strip_absolute [OF located] generation_not_blank [OF f(1)] host image_text
      project_texts [OF p] strip_rendered [OF c] version_not_blank roster_part [OF r(2)] roster
    by (simp add: required_texts_def)
  have "check_instance inst = Inr inst"
    unfolding check_instance_def
    using texts dec i img roster_part [OF r(2)] roster f(4,6,9,17) path_of_absolute [OF path] path_of_absolute [OF located] path(2) located(2)
    by auto
  moreover have "0 \<le> ra_port args" "ra_port args \<le> 65535" using opt by (auto simp: validate_run_options_def)
  ultimately show ?thesis using models some f(11,12,23) by (simp add: instance_valid_def INSTANCE_INTENTS_def equals_schema_def)
qed

lemma load_team_directory: "load_team os node_at v = Inr t \<Longrightarrow> resolve_team_directory os v = Inr (te_root t)"
  by (auto simp: load_team_def)

lemma stored_bindings:
  assumes p: "load_project os value = Inr p" and os: "resolves os"
    and teams: "load_project_teams os node_at git p ids = Inr configured"
    and opt: "validate_run_options args n = Inr ()"
    and img: "is_image_id (case ra_image args of Some s \<Rightarrow> if s \<noteq> [] then s else base | None \<Rightarrow> base)"
    and bs: "project_run_bindings os stat args p base (\<lambda>t. team_generation (node_at (te_root t)) (head (te_root t)) t) configured = Inr bs"
    and b: "b \<in> set bs"
  shows "from_json (as_json (rb_instance b)) = Inr (rb_instance b)"
proof -
  let ?t = "rb_team b"
  obtain sel c where s: "(sel, ?t) \<in> set configured" "project_instance_id p sel = Inr (in_id (rb_instance b))"
    "render_container_project p sel = Inr c"
    "new_instance os args ?t (team_generation (node_at (te_root ?t)) (head (te_root ?t)) ?t) (in_id (rb_instance b))
       (case ra_image args of Some s \<Rightarrow> if s \<noteq> [] then s else base | None \<Rightarrow> base)
       (case ra_image args of Some s \<Rightarrow> s | None \<Rightarrow> []) (pt_mode sel = RW) p c = Inr (rb_instance b)"
  proof -
    have "binding_of os stat args p base (\<lambda>t. team_generation (node_at (te_root t)) (head (te_root t)) t) configured b"
      using bindings_inv [OF bs] b by blast
    then show ?thesis unfolding binding_of_def by (elim exE conjE) (rule that; simp)
  qed
  have "load_teams_loop (load_selected_team os node_at git) (project_instance_id p) ids (pj_teams p) = Inr configured"
    using teams by (auto simp: load_project_teams_def split: option.splits)
  then have l: "sel \<in> set (pj_teams p)" "load_team os node_at (path_str (pt_path sel)) = Inr ?t"
    using loaded_teams s(1) by blast+
  have "root_ok os (pt_path sel)" using load_project_inv [OF p] l(1) by (auto simp: project_wf_def teams_wf_def)
  then have r: "wf_path (pt_path sel)" "is_absolute (pt_path sel)" "resolve_lax os (expanduser os (pt_path sel)) = pt_path sel"
    using os unfolding root_ok_def resolves_def by blast+
  have "resolve_team_directory os (path_str (pt_path sel)) = Inr (te_root ?t)" by (rule load_team_directory [OF l(2)])
  then have root: "te_root ?t = pt_path sel"
    using r(3) path_of_absolute [OF r(1,2)] by (simp add: resolve_team_directory_def Let_def split: if_splits)
  have "validate_instance_id (in_id (rb_instance b)) = Inr (in_id (rb_instance b))"
    using s(2) by (auto simp: project_instance_id_def validate_instance_id_def Let_def split: if_splits)
  then show ?thesis using from_json_as_json instance_from_team [OF s(4) p os l(2) root l(1) opt img _ s(3)] by blast
qed

text \<open>C11: the instances \<open>cyclo project run\<close> makes of a project and its teams have distinct identifiers, and each
  passes the strict check of the state store: written as a document and read back it is the same record.\<close>

theorem run_bindings_storable:
  assumes "load_project os value = Inr p" "resolves os"
    and "load_project_teams os node_at git p ids = Inr configured" "validate_run_options args n = Inr ()"
    and "is_image_id (case ra_image args of Some s \<Rightarrow> if s \<noteq> [] then s else base | None \<Rightarrow> base)"
    and "project_run_bindings os stat args p base (\<lambda>t. team_generation (node_at (te_root t)) (head (te_root t)) t) configured = Inr bs"
  shows "distinct (map (in_id \<circ> rb_instance) bs) \<and>
    (\<forall>b\<in>set bs. from_json (as_json (rb_instance b)) = Inr (rb_instance b))"
  using bindings_inv [OF assms(6)] stored_bindings [OF assms] by blast

section \<open>A concrete run\<close>

definition ex_run_os :: os_env where
  "ex_run_os = ex_project_os\<lparr>resolve_strict := (\<lambda>p. if wf_path p \<and> is_absolute p then Some p else None),
     resolve_lax := (\<lambda>p. if wf_path p \<and> is_absolute p then p else Path (lit ''/'') [])\<rparr>"

definition ex_run_args :: run_args where
  "ex_run_args = \<lparr>ra_offline = False, ra_verbose = False, ra_host = lit ''127.0.0.1'', ra_port = 0, ra_image = None,
     ra_foreground = False\<rparr>"

definition ex_run_team :: team where
  "ex_run_team = ex_loaded\<lparr>te_root := Path (lit ''/'') [lit ''t'', lit ''Alpha''],
     te_roster := Path (lit ''/'') [lit ''t'', lit ''Alpha'', lit ''team''],
     te_roles_dir := Path (lit ''/'') [lit ''t'', lit ''Alpha'', lit ''roles''],
     te_dockerfile := Path (lit ''/'') [lit ''t'', lit ''Alpha'', lit ''Dockerfile'']\<rparr>"

definition ex_run_image :: ustr where
  "ex_run_image = lit ''sha256:'' @ replicate 64 48"

definition ex_run_stat :: stat where
  "ex_run_stat p = Some \<lparr>fst_is_dir = True, fst_device = 1, fst_inode = length (path_str p)\<rparr>"

lemma ex_run_resolves: "resolves ex_run_os"
  by (auto simp: resolves_def ex_run_os_def ex_project_os_def ex_os_def wf_path_def is_absolute_def lit_def)

lemma ex_run_project: "\<exists>sha. load_project ex_run_os (lit ''/h/project.cyclo'') = Inr (ex_project sha)"
proof -
  obtain sha where l: "load_project ex_project_os (lit ''/h/project.cyclo'') = Inr (ex_project sha)"
    using ex_project_loads by blast
  have 1: "selected_path ex_run_os (lit ''/h/project.cyclo'') = selected_path ex_project_os (lit ''/h/project.cyclo'')"
    "read_project_file ex_run_os (selected_path ex_project_os (lit ''/h/project.cyclo'')) =
     read_project_file ex_project_os (selected_path ex_project_os (lit ''/h/project.cyclo''))"
    "read_project_file ex_project_os (selected_path ex_project_os (lit ''/h/project.cyclo'')) = Inr ex_project_text"
    "decode_text_file ex_project_text = Inr ex_project_text"
    "project_lines ex_run_os (selected_path ex_project_os (lit ''/h/project.cyclo'')) empty_project (numbered_lines ex_project_text) =
     project_lines ex_project_os (selected_path ex_project_os (lit ''/h/project.cyclo'')) empty_project (numbered_lines ex_project_text)"
    by code_simp+
  show ?thesis using l by (auto simp: load_project_def Let_def 1)
qed

lemma ex_run_teams:
  "load_project_teams ex_run_os (\<lambda>p. Some (ex_team_dir ex_split_roles)) (\<lambda>p. Some (path_str p)) (ex_project sha) None =
    Inr [(ex_team, ex_run_team)]"
  by code_simp

lemma ex_run_id: "project_instance_id (ex_project sha) ex_team = Inr (lit ''demo-alpha'')"
  by code_simp

lemma ex_run_bindings:
  "\<exists>b. project_run_bindings ex_run_os ex_run_stat ex_run_args (ex_project sha) ex_run_image
     (\<lambda>t. team_generation (Some (ex_team_dir ex_split_roles)) None t) [(ex_team, ex_run_team)] = Inr [b] \<and>
     in_id (rb_instance b) = lit ''demo-alpha''"
proof -
  have "is_ok (generation_input (Some (ex_team_dir ex_split_roles)) ex_run_team)" by code_simp
  then obtain g where g: "team_generation (Some (ex_team_dir ex_split_roles)) None ex_run_team = Inr g"
    by (auto simp: team_generation_def is_ok_iff)
  have "is_ok (capture_source_identities ex_run_os ex_run_stat (te_root ex_run_team # map pm_path (pj_mounts (ex_project sha))))"
    by code_simp
  then obtain srcs where s: "capture_source_identities ex_run_os ex_run_stat
      (te_root ex_run_team # map pm_path (pj_mounts (ex_project sha))) = Inr srcs" by (auto simp: is_ok_iff)
  obtain a as m where a: "te_agents ex_run_team = a # as" "agent_model_id a = Some m"
  proof -
    have "te_agents ex_run_team = te_agents ex_loaded" by (simp add: ex_run_team_def)
    moreover have "agent_model_id (hd (te_agents ex_loaded)) = Some (lit ''m'')" by code_simp
    ultimately show thesis using that by (simp add: ex_loaded_def)
  qed
  show ?thesis
    using g s a by (simp add: project_run_bindings_def bind_team_def ex_run_id ex_project_rendered new_instance_def ex_run_args_def)
qed

lemma project_instance_id_total_witness:
  "\<exists>sha. is_instance_id (lit ''demo-alpha'') \<and> project_instance_id (ex_project sha) ex_team = Inr (lit ''demo-alpha'')"
proof -
  obtain sha where l: "load_project ex_run_os (lit ''/h/project.cyclo'') = Inr (ex_project sha)" using ex_run_project by blast
  have e: "is_ok (utf8_encode (path_str (pj_path (ex_project sha)) @ [0] @ path_str (pt_path ex_team)))" by code_simp
  have "ex_team \<in> set (pj_teams (ex_project sha))" by (simp add: ex_project_def)
  from project_instance_id_total [OF l this e] show ?thesis using ex_run_id [of sha] by auto
qed

lemma run_bindings_storable_witness:
  "\<exists>sha b. project_run_bindings ex_run_os ex_run_stat ex_run_args (ex_project sha) ex_run_image
     (\<lambda>t. team_generation (Some (ex_team_dir ex_split_roles)) None t) [(ex_team, ex_run_team)] = Inr [b] \<and>
     from_json (as_json (rb_instance b)) = Inr (rb_instance b)"
proof -
  obtain sha where l: "load_project ex_run_os (lit ''/h/project.cyclo'') = Inr (ex_project sha)" using ex_run_project by blast
  obtain b where b: "project_run_bindings ex_run_os ex_run_stat ex_run_args (ex_project sha) ex_run_image
     (\<lambda>t. team_generation (Some (ex_team_dir ex_split_roles)) None t) [(ex_team, ex_run_team)] = Inr [b]"
    using ex_run_bindings by blast
  have o: "validate_run_options ex_run_args 1 = Inr ()"
    "is_image_id (case ra_image ex_run_args of Some s \<Rightarrow> if s \<noteq> [] then s else ex_run_image | None \<Rightarrow> ex_run_image)"
    by code_simp+
  show ?thesis using run_bindings_storable [OF l ex_run_resolves ex_run_teams o b] b by auto
qed

end
