(* ===== verification/Supervisor.thy ===== *)
theory Supervisor imports Paths Bytes begin

text \<open>
  \<open>src/cyclo/components/team/runtime.py\<close>: the process that supervises the queue runner and the viewer of a team
  container.  What the program does between two system calls is one \<open>advance\<close> of a state; signals and the exits of
  children come in between, as the steps of the environment.  \<open>spawns\<close> tells whether \<open>Popen\<close> can start a command.
  A timed wait that runs out is an \<open>advance\<close> in a state where the child has not exited; time is not modelled.
\<close>

section \<open>Preconditions\<close>

definition MAX_PROJECT_CONFIG_BYTES :: nat where "MAX_PROJECT_CONFIG_BYTES = 1048576"
definition SUP_AGENTWS_ROOT :: ppath where "SUP_AGENTWS_ROOT = Path (lit ''/'') [lit ''agentws'']"
definition SUP_TEAM_ROOT :: ppath where "SUP_TEAM_ROOT = Path (lit ''/'') [lit ''team'']"
definition SUP_WORKSPACE_ROOT :: ppath where "SUP_WORKSPACE_ROOT = Path (lit ''/'') [lit ''workspace'']"
definition PI_AGENT_ROOT :: ppath where
  "PI_AGENT_ROOT = Path (lit ''/'') [lit ''home'', lit ''cyclo'', lit ''.pi'', lit ''agent'']"
definition RUNTIME_LOCK_FD_ENV :: ustr where "RUNTIME_LOCK_FD_ENV = lit ''CYCLO_RUNTIME_LOCK_FD''"

record sup_options =
  so_roster :: ustr
  so_team_protocol :: "ustr option"
  so_verbose :: bool

definition byte_space :: "nat \<Rightarrow> bool" where
  "byte_space b \<longleftrightarrow> b = 32 \<or> 9 \<le> b \<and> b \<le> 13"

definition require_project_config :: "file_read \<Rightarrow> unit res" where
  "require_project_config config =
     (case config of
        Content all_bytes \<Rightarrow>
          (let content = take (MAX_PROJECT_CONFIG_BYTES + 1) all_bytes in
           if MAX_PROJECT_CONFIG_BYTES < length content then Inl (OSErr ''file is too large'')
           else if list_all byte_space content then Inl (OSErr ''file is empty'')
           else if utf8_decode content = None then Inl (OSErr ''file is not valid UTF-8'')
           else Inr ())
      | NotRegular \<Rightarrow> Inl (OSErr ''not a regular file'')
      | _ \<Rightarrow> Inl (OSErr ''open''))"

definition runtime_child :: "ustr list \<Rightarrow> ustr" where
  "runtime_child ps = path_str (joinpath SUP_AGENTWS_ROOT (Path [] ps))"

definition recovery_command :: "ustr list" where
  "recovery_command = [runtime_child [lit ''bin'', lit ''job-reset-orphans''], lit ''--all-active'']"

definition viewer_command :: "ustr list" where
  "viewer_command =
     [runtime_child [lit ''tools'', lit ''agentws''], lit ''--root'', path_str SUP_AGENTWS_ROOT, lit ''--no-team'',
      lit ''--no-console'', lit ''--host'', lit ''0.0.0.0'', lit ''--port'', lit ''4137'', lit ''--pin-root'', lit ''--read-only'']"

definition runner_command :: "sup_options \<Rightarrow> ustr list" where
  "runner_command opts =
     [runtime_child [lit ''tools'', lit ''run_agentws'']] @ (if so_verbose opts then [lit ''--verbose''] else []) @
     [path_str (path_of (so_roster opts))]"

definition supervisor_environment :: "sup_options \<Rightarrow> (ustr \<rightharpoonup> ustr) \<Rightarrow> (ustr \<rightharpoonup> ustr)" where
  "supervisor_environment opts inherited =
     (let environment = inherited(
        lit ''PI_CODING_AGENT_DIR'' \<mapsto> path_str PI_AGENT_ROOT,
        lit ''AGENTWS_TEAM_ROOT'' \<mapsto> path_str SUP_TEAM_ROOT,
        lit ''AGENTWS_TEAM_ROSTER'' \<mapsto> path_str (path_of (so_roster opts)),
        lit ''AGENTWS_SYSTEM_PROTOCOL'' \<mapsto> runtime_child [lit ''AGENTS.md''],
        lit ''AGENTWS_TEAM_ROLES_DIR'' \<mapsto> path_str (Path (lit ''/'') [lit ''team'', lit ''roles'']),
        lit ''AGENTWS_WORKSPACE'' \<mapsto> path_str SUP_WORKSPACE_ROOT)
      in case so_team_protocol opts of
           Some p \<Rightarrow> if p \<noteq> [] then environment(lit ''AGENTWS_TEAM_PROTOCOL'' \<mapsto> path_str (path_of p)) else environment
         | None \<Rightarrow> environment)"

definition roster_ok :: "sup_options \<Rightarrow> bool" where
  "roster_ok opts \<longleftrightarrow>
     (let roster = path_of (so_roster opts) in
      is_absolute roster \<and> path_parent roster = SUP_TEAM_ROOT \<and> path_name roster \<notin> {[], lit ''.'', lit ''..''})"

definition protocol_ok :: "sup_options \<Rightarrow> bool" where
  "protocol_ok opts \<longleftrightarrow>
     (case so_team_protocol opts of
        None \<Rightarrow> True
      | Some p \<Rightarrow> p = [] \<or> path_of p = Path (lit ''/'') [lit ''team'', lit ''AGENTS.md''])"

section \<open>Children and states\<close>

record child =
  ch_command :: "ustr list"
  ch_exit :: "int option"
  ch_term :: bool
  ch_kill :: bool

definition new_child :: "ustr list \<Rightarrow> child" where
  "new_child command = \<lparr>ch_command = command, ch_exit = None, ch_term = False, ch_kill = False\<rparr>"

datatype pc =
    Starting
  | Recovering
  | Recovered
  | Spawning "ustr list list"
  | Launching "ustr list" "ustr list list"
  | Watching
  | Polling nat
  | Terminating "int res" nat
  | Reaping "int res" nat
  | Killing "int res" nat
  | Returned "int res"

record sup =
  su_pc :: pc
  su_stopping :: bool
  su_children :: "child list"
  su_recovery :: "int option"
  su_lock :: bool

text \<open>\<open>main\<close> up to the first process: an exit status, or the state with the lock held.\<close>

definition supervisor_start :: "sup_options \<Rightarrow> file_read \<Rightarrow> bool \<Rightarrow> int + sup" where
  "supervisor_start opts config lock_free =
     (if \<not> roster_ok opts then Inl 2
      else if \<not> protocol_ok opts then Inl 2
      else if \<not> is_ok (require_project_config config) then Inl 70
      else if \<not> lock_free then Inl 70
      else Inr \<lparr>su_pc = Starting, su_stopping = False, su_children = [], su_recovery = None, su_lock = True\<rparr>)"

definition spawn :: "(ustr list \<Rightarrow> bool) \<Rightarrow> ustr list \<Rightarrow> pc \<Rightarrow> sup \<Rightarrow> sup" where
  "spawn spawns command next s =
     (if spawns command then s\<lparr>su_children := su_children s @ [new_child command], su_pc := next\<rparr>
      else s\<lparr>su_pc := Terminating (Inl (OSErr ''Popen'')) 0\<rparr>)"

definition exit_status :: "sup \<Rightarrow> nat \<Rightarrow> int option" where
  "exit_status s i = ch_exit (su_children s ! i)"

text \<open>The two loops of \<open>terminate\<close>, and the end of \<open>main\<close>'s \<open>finally\<close>.\<close>

definition terminate_step :: "sup \<Rightarrow> sup option" where
  "terminate_step s =
     (case su_pc s of
        Terminating r k \<Rightarrow>
          if k < length (su_children s)
          then Some (s\<lparr>su_children := (if exit_status s k = None then (su_children s)[k := (su_children s ! k)\<lparr>ch_term := True\<rparr>]
                                      else su_children s),
                       su_pc := Terminating r (Suc k)\<rparr>)
          else Some (s\<lparr>su_pc := Reaping r 0\<rparr>)
      | Reaping r k \<Rightarrow>
          if k < length (su_children s)
          then if exit_status s k \<noteq> None then Some (s\<lparr>su_pc := Reaping r (Suc k)\<rparr>)
               else Some (s\<lparr>su_children := (su_children s)[k := (su_children s ! k)\<lparr>ch_kill := True\<rparr>], su_pc := Killing r k\<rparr>)
          else Some (s\<lparr>su_lock := False, su_pc := Returned r\<rparr>)
      | Killing r k \<Rightarrow> if exit_status s k \<noteq> None then Some (s\<lparr>su_pc := Reaping r (Suc k)\<rparr>) else None
      | _ \<Rightarrow> None)"

definition advance :: "(ustr list \<Rightarrow> bool) \<Rightarrow> sup_options \<Rightarrow> sup \<Rightarrow> sup option" where
  "advance spawns opts s =
     (case su_pc s of
        Starting \<Rightarrow> Some (spawn spawns recovery_command Recovering s)
      | Recovering \<Rightarrow>
          if exit_status s 0 = None \<and> \<not> su_stopping s then Some s else Some (s\<lparr>su_pc := Recovered\<rparr>)
      | Recovered \<Rightarrow>
          if su_stopping s then Some (s\<lparr>su_pc := Terminating (Inr 0) 0\<rparr>)
          else (case exit_status s 0 of
                  None \<Rightarrow> None
                | Some status \<Rightarrow>
                    Some (s\<lparr>su_recovery := Some status, su_children := [],
                            su_pc := (if status \<noteq> 0 then Terminating (Inr status) 0
                                      else Spawning [viewer_command, runner_command opts])\<rparr>))
      | Spawning [] \<Rightarrow> Some (s\<lparr>su_pc := Watching\<rparr>)
      | Spawning (c # cs) \<Rightarrow>
          if su_stopping s then Some (s\<lparr>su_pc := Terminating (Inr 0) 0\<rparr>) else Some (s\<lparr>su_pc := Launching c cs\<rparr>)
      | Launching c cs \<Rightarrow> Some (spawn spawns c (Spawning cs) s)
      | Watching \<Rightarrow>
          if su_stopping s then Some (s\<lparr>su_pc := Terminating (Inr 0) 0\<rparr>) else Some (s\<lparr>su_pc := Polling 0\<rparr>)
      | Polling i \<Rightarrow>
          if i < length (su_children s)
          then (case exit_status s i of
                  Some status \<Rightarrow> Some (s\<lparr>su_pc := Terminating (Inr (if status = 0 then 1 else status)) 0\<rparr>)
                | None \<Rightarrow> Some (s\<lparr>su_pc := Polling (Suc i)\<rparr>))
          else Some (s\<lparr>su_pc := Watching\<rparr>)
      | Returned r \<Rightarrow> None
      | _ \<Rightarrow> terminate_step s)"

definition is_returned :: "sup \<Rightarrow> bool" where
  "is_returned s = (case su_pc s of Returned r \<Rightarrow> True | _ \<Rightarrow> False)"

inductive sup_env :: "sup \<Rightarrow> sup \<Rightarrow> bool" where
  signal: "\<not> is_returned s \<Longrightarrow> sup_env s (s\<lparr>su_stopping := True\<rparr>)"
| child_exit: "i < length (su_children s) \<Longrightarrow> exit_status s i = None \<Longrightarrow>
    sup_env s (s\<lparr>su_children := (su_children s)[i := (su_children s ! i)\<lparr>ch_exit := Some status\<rparr>]\<rparr>)"

inductive sup_reach :: "(ustr list \<Rightarrow> bool) \<Rightarrow> sup_options \<Rightarrow> sup \<Rightarrow> bool" for spawns opts where
  start: "supervisor_start opts config lock_free = Inr s \<Longrightarrow> sup_reach spawns opts s"
| env: "sup_reach spawns opts s \<Longrightarrow> sup_env s s' \<Longrightarrow> sup_reach spawns opts s'"
| act: "sup_reach spawns opts s \<Longrightarrow> advance spawns opts s = Some s' \<Longrightarrow> sup_reach spawns opts s'"

inductive_cases sup_envE: "sup_env s s'"

section \<open>Invariant\<close>

definition queue_commands :: "sup_options \<Rightarrow> ustr list list" where
  "queue_commands opts = [viewer_command, runner_command opts]"

definition commands :: "sup \<Rightarrow> ustr list list" where
  "commands s = map ch_command (su_children s)"

definition pc_inv :: "sup_options \<Rightarrow> sup \<Rightarrow> bool" where
  "pc_inv opts s =
     (case su_pc s of
        Starting \<Rightarrow> su_children s = []
      | Recovering \<Rightarrow> commands s = [recovery_command]
      | Recovered \<Rightarrow> commands s = [recovery_command] \<and> (su_stopping s \<or> exit_status s 0 \<noteq> None)
      | Spawning cs \<Rightarrow> su_recovery s = Some 0 \<and> commands s @ cs = queue_commands opts
      | Launching c cs \<Rightarrow> su_recovery s = Some 0 \<and> commands s @ c # cs = queue_commands opts
      | Watching \<Rightarrow> su_recovery s = Some 0 \<and> commands s = queue_commands opts
      | Polling i \<Rightarrow> su_recovery s = Some 0 \<and> commands s = queue_commands opts
      | Terminating r k \<Rightarrow> (r = Inr 0 \<longrightarrow> su_stopping s) \<and>
          (\<forall>i<min k (length (su_children s)). exit_status s i \<noteq> None \<or> ch_term (su_children s ! i))
      | Reaping r k \<Rightarrow> (r = Inr 0 \<longrightarrow> su_stopping s) \<and> k \<le> length (su_children s) \<and> (\<forall>i<k. exit_status s i \<noteq> None) \<and>
          (\<forall>i<length (su_children s). exit_status s i \<noteq> None \<or> ch_term (su_children s ! i))
      | Killing r k \<Rightarrow> (r = Inr 0 \<longrightarrow> su_stopping s) \<and> k < length (su_children s) \<and> (\<forall>i<k. exit_status s i \<noteq> None) \<and>
          (\<forall>i<length (su_children s). exit_status s i \<noteq> None \<or> ch_term (su_children s ! i))
      | Returned r \<Rightarrow> (r = Inr 0 \<longrightarrow> su_stopping s) \<and> (\<forall>i<length (su_children s). exit_status s i \<noteq> None))"

definition sup_inv :: "sup_options \<Rightarrow> sup \<Rightarrow> bool" where
  "sup_inv opts s \<longleftrightarrow> pc_inv opts s \<and> (su_lock s \<longleftrightarrow> \<not> is_returned s) \<and>
     (set (commands s) \<subseteq> {recovery_command} \<or> su_recovery s = Some 0 \<and> set (commands s) \<subseteq> set (queue_commands opts)) \<and>
     (\<forall>c\<in>set (su_children s). ch_kill c \<longrightarrow> ch_term c)"

lemma start_inv: "supervisor_start opts config lock_free = Inr s \<Longrightarrow> sup_inv opts s"
  by (auto simp: supervisor_start_def sup_inv_def pc_inv_def commands_def is_returned_def split: if_splits)

lemma exit_other: "sup_env s s' \<Longrightarrow> exit_status s i \<noteq> None \<Longrightarrow> exit_status s' i = exit_status s i"
  by (erule sup_envE) (auto simp: exit_status_def nth_list_update)

lemma map_update_same: "i < length xs \<Longrightarrow> f y = f (xs ! i) \<Longrightarrow> map f (xs[i := y]) = map f xs"
  by (simp add: map_update list_update_same_conv)

lemma env_same:
  assumes "sup_env s s'"
  shows "su_pc s' = su_pc s \<and> commands s' = commands s \<and> su_recovery s' = su_recovery s \<and> su_lock s' = su_lock s \<and>
    length (su_children s') = length (su_children s) \<and> (su_stopping s \<longrightarrow> su_stopping s') \<and>
    (\<forall>i<length (su_children s). ch_term (su_children s' ! i) = ch_term (su_children s ! i) \<and>
       ch_kill (su_children s' ! i) = ch_kill (su_children s ! i))"
  using assms by (elim sup_envE) (auto simp: commands_def map_update_same nth_list_update)

lemma kill_term_nth: "(\<forall>c\<in>set cs. ch_kill c \<longrightarrow> ch_term c) \<longleftrightarrow> (\<forall>i<length cs. ch_kill (cs ! i) \<longrightarrow> ch_term (cs ! i))"
  by (rule all_set_conv_all_nth)

lemma env_inv:
  assumes e: "sup_env s s'" and inv: "sup_inv opts s"
  shows "sup_inv opts s'"
proof -
  note same = env_same [OF e]
  have exits: "\<forall>i. exit_status s i \<noteq> None \<longrightarrow> exit_status s' i \<noteq> None" using exit_other [OF e] by metis
  have pc: "pc_inv opts s" using inv by (simp add: sup_inv_def)
  have "pc_inv opts s'"
    using pc same exits unfolding pc_inv_def by (cases "su_pc s"; simp) (blast | fastforce simp: commands_def)+
  then show ?thesis using inv same unfolding sup_inv_def kill_term_nth is_returned_def by simp
qed

lemma spawn_commands:
  "commands (spawn spawns c next s) = (if spawns c then commands s @ [c] else commands s)"
  by (simp add: spawn_def commands_def new_child_def)

lemma update_commands [simp]:
  "commands (s\<lparr>su_pc := p\<rparr>) = commands s" "commands (s\<lparr>su_lock := l\<rparr>) = commands s" "exit_status (s\<lparr>su_pc := p\<rparr>) = exit_status s"
  "exit_status (s\<lparr>su_lock := l\<rparr>) = exit_status s"
  by (simp_all add: commands_def exit_status_def fun_eq_iff)

lemma commands_length: "length (commands s) = length (su_children s)"
  by (simp add: commands_def)

lemma exit_update [simp]:
  "exit_status (s\<lparr>su_children := cs\<rparr>) i = ch_exit (cs ! i)" "commands (s\<lparr>su_children := cs\<rparr>) = map ch_command cs"
  "exit_status (s\<lparr>su_children := cs, su_pc := p\<rparr>) i = ch_exit (cs ! i)"
  "commands (s\<lparr>su_children := cs, su_pc := p\<rparr>) = map ch_command cs"
  by (simp_all add: exit_status_def commands_def)

lemma terminate_inv:
  assumes a: "terminate_step s = Some s'" and inv: "sup_inv opts s"
  shows "sup_inv opts s'"
proof -
  have inv: "pc_inv opts s" "su_lock s \<longleftrightarrow> \<not> is_returned s"
    "set (commands s) \<subseteq> {recovery_command} \<or> su_recovery s = Some 0 \<and> set (commands s) \<subseteq> set (queue_commands opts)"
    "\<forall>i<length (su_children s). ch_kill (su_children s ! i) \<longrightarrow> ch_term (su_children s ! i)"
    using inv by (auto simp: sup_inv_def)
  show ?thesis
  proof (cases "su_pc s")
    case (Terminating r k)
    define cs where "cs = (if exit_status s k = None then (su_children s)[k := (su_children s ! k)\<lparr>ch_term := True\<rparr>] else su_children s)"
    show ?thesis
    proof (cases "k < length (su_children s)")
      case True
      then have s': "s' = s\<lparr>su_children := cs, su_pc := Terminating r (Suc k)\<rparr>"
        using a Terminating by (simp add: terminate_step_def cs_def)
      have c: "map ch_command cs = commands s" "length cs = length (su_children s)"
        using True by (simp_all add: cs_def commands_def map_update_same)
      have t: "ch_exit (cs ! i) = exit_status s i" "ch_kill (cs ! i) = ch_kill (su_children s ! i)"
        "ch_term (su_children s ! i) \<Longrightarrow> ch_term (cs ! i)" "exit_status s k = None \<Longrightarrow> ch_term (cs ! k)" for i
        using True by (auto simp: cs_def nth_list_update exit_status_def)
      have "pc_inv opts s'"
        using inv(1) Terminating t c True unfolding s' pc_inv_def by (auto simp: less_Suc_eq)
      then show ?thesis using inv t c Terminating unfolding s' sup_inv_def kill_term_nth by (auto simp: is_returned_def)
    next
      case False
      then show ?thesis using a inv Terminating unfolding sup_inv_def kill_term_nth
        by (auto simp: terminate_step_def pc_inv_def is_returned_def)
    qed
  next
    case (Reaping r k)
    define cs where "cs = (su_children s)[k := (su_children s ! k)\<lparr>ch_kill := True\<rparr>]"
    show ?thesis
    proof (cases "k < length (su_children s) \<and> exit_status s k = None")
      case True
      then have s': "s' = s\<lparr>su_children := cs, su_pc := Killing r k\<rparr>"
        using a Reaping by (simp add: terminate_step_def cs_def)
      have c: "map ch_command cs = commands s" "length cs = length (su_children s)"
        using True by (simp_all add: cs_def commands_def map_update_same)
      have t: "ch_exit (cs ! i) = exit_status s i" "ch_term (cs ! i) = ch_term (su_children s ! i)"
        "ch_kill (cs ! i) \<longleftrightarrow> i = k \<or> ch_kill (su_children s ! i)" for i
        using True by (auto simp: cs_def nth_list_update exit_status_def)
      have k: "ch_term (su_children s ! k)" using inv(1) Reaping True by (auto simp: pc_inv_def)
      have "pc_inv opts s'"
        using inv(1) Reaping t(1,2) c True unfolding s' pc_inv_def by simp
      then show ?thesis using inv(2-4) t(2,3) c Reaping k unfolding s' sup_inv_def kill_term_nth by (simp add: is_returned_def)
    next
      case False
      then show ?thesis using a inv Reaping unfolding sup_inv_def kill_term_nth
        by (auto simp: terminate_step_def pc_inv_def is_returned_def less_Suc_eq split: if_splits)
    qed
  next
    case (Killing r k)
    then show ?thesis using a inv unfolding sup_inv_def kill_term_nth
      by (auto simp: terminate_step_def pc_inv_def is_returned_def less_Suc_eq split: if_splits)
  qed (use a in \<open>simp_all add: terminate_step_def\<close>)
qed

lemma act_inv:
  assumes a: "advance spawns opts s = Some s'" and inv: "sup_inv opts s"
  shows "sup_inv opts s'"
proof (cases "su_pc s")
  case Starting
  then show ?thesis using a inv
    by (auto simp: advance_def sup_inv_def pc_inv_def is_returned_def spawn_def commands_def new_child_def split: if_splits)
next
  case Recovering
  then show ?thesis using a inv
    by (auto simp: advance_def sup_inv_def pc_inv_def is_returned_def split: if_splits)
next
  case Recovered
  then show ?thesis using a inv
    by (auto simp: advance_def sup_inv_def pc_inv_def is_returned_def commands_def queue_commands_def
        split: if_splits option.splits)
next
  case (Spawning cs)
  then show ?thesis using a inv
    by (cases cs) (auto simp: advance_def sup_inv_def pc_inv_def is_returned_def split: if_splits)
next
  case (Launching c cs)
  have "commands s @ c # cs = queue_commands opts" "su_recovery s = Some 0" using inv Launching by (auto simp: sup_inv_def pc_inv_def)
  moreover from this(1) have "set (commands s @ [c]) \<subseteq> set (queue_commands opts)"
    by (metis append.assoc append_Cons append_Nil set_append sup_ge1)
  ultimately show ?thesis using a inv Launching
    by (auto simp: advance_def sup_inv_def pc_inv_def is_returned_def spawn_def commands_def new_child_def image_subset_iff split: if_splits)
next
  case Watching
  then show ?thesis using a inv
    by (auto simp: advance_def sup_inv_def pc_inv_def is_returned_def split: if_splits)
next
  case (Polling i)
  then show ?thesis using a inv
    by (auto simp: advance_def sup_inv_def pc_inv_def is_returned_def split: if_splits option.splits)
next
  case (Terminating r k)
  then show ?thesis using a inv terminate_inv by (simp add: advance_def)
next
  case (Reaping r k)
  then show ?thesis using a inv terminate_inv by (simp add: advance_def)
next
  case (Killing r k)
  then show ?thesis using a inv terminate_inv by (simp add: advance_def)
next
  case (Returned r)
  then show ?thesis using a by (simp add: advance_def)
qed

lemma reach_inv: "sup_reach spawns opts s \<Longrightarrow> sup_inv opts s"
  by (induction rule: sup_reach.induct) (use start_inv env_inv act_inv in blast)+

lemma queue_commands_not_recovery: "recovery_command \<notin> set (queue_commands opts)"
proof -
  have "hd recovery_command \<noteq> hd viewer_command" "hd recovery_command \<noteq> hd (runner_command opts)"
    by (simp_all add: recovery_command_def viewer_command_def runner_command_def runtime_child_def SUP_AGENTWS_ROOT_def
        joinpath_def path_str_def is_absolute_def lit_def)
  then show ?thesis by (auto simp: queue_commands_def)
qed

lemma inv_safe:
  assumes "sup_inv opts s"
  shows "((\<exists>c\<in>set (su_children s). ch_exit c = None) \<longrightarrow> su_lock s) \<and>
    ((\<exists>c\<in>set (su_children s). ch_command c \<noteq> recovery_command) \<longrightarrow> su_recovery s = Some 0) \<and>
    (\<nexists>c. c \<in> set (su_children s) \<and> ch_kill c \<and> \<not> ch_term c) \<and>
    (\<forall>r. su_pc s = Returned r \<longrightarrow> (\<forall>c\<in>set (su_children s). ch_exit c \<noteq> None) \<and> (r = Inr 0 \<longrightarrow> su_stopping s))"
proof -
  have ret: "\<forall>r. su_pc s = Returned r \<longrightarrow> (\<forall>c\<in>set (su_children s). ch_exit c \<noteq> None) \<and> (r = Inr 0 \<longrightarrow> su_stopping s)"
    using assms by (auto simp: sup_inv_def pc_inv_def exit_status_def in_set_conv_nth)
  moreover have "su_lock s \<longleftrightarrow> \<not> is_returned s" using assms by (simp add: sup_inv_def)
  ultimately show ?thesis using assms
    by (auto simp: sup_inv_def commands_def is_returned_def split: pc.splits)
qed

text \<open>C10: at every moment of a supervisor's life: while one of its children may still run it holds the lifetime lock of the
  queue; the viewer and the team start only after the recovery of the queue has exited with status 0; no child is
  killed that was not asked to terminate first; and when it has returned, every child has exited, and a status 0 means
  that a stop was requested.\<close>

theorem supervisor_safe:
  assumes "sup_reach spawns opts s"
  shows "((\<exists>c\<in>set (su_children s). ch_exit c = None) \<longrightarrow> su_lock s) \<and>
    ((\<exists>c\<in>set (su_children s). ch_command c \<noteq> recovery_command) \<longrightarrow> su_recovery s = Some 0) \<and>
    (\<nexists>c. c \<in> set (su_children s) \<and> ch_kill c \<and> \<not> ch_term c) \<and>
    (\<forall>r. su_pc s = Returned r \<longrightarrow> (\<forall>c\<in>set (su_children s). ch_exit c \<noteq> None) \<and> (r = Inr 0 \<longrightarrow> su_stopping s))"
  using inv_safe [OF reach_inv [OF assms]] .

section \<open>A supervisor returns\<close>

definition nearer :: "((nat \<times> nat) \<times> nat \<times> nat) set" where
  "nearer = less_than <*lex*> less_than"

lemma wf_nearer: "wf nearer"
  by (simp add: nearer_def wf_lex_prod)

lemma nearer_trans: "(a, b) \<in> nearer \<Longrightarrow> (b, c) \<in> nearer \<Longrightarrow> (a, c) \<in> nearer"
  unfolding nearer_def by (rule transD [OF trans_lex_prod [OF trans_less_than trans_less_than]])

lemma nearer_iff: "((a, b), (c, d)) \<in> nearer \<longleftrightarrow> a < c \<or> a = c \<and> b < d"
  by (simp add: nearer_def)

text \<open>
  A system that acts between the steps of an environment.  Once its end is due, the environment keeps it due and every
  action brings it nearer.  If actions never cease, it ends.
\<close>

locale scheduled =
  fixes env :: "'s \<Rightarrow> 's \<Rightarrow> bool" and act :: "'s \<Rightarrow> 's option" and fin :: "'s \<Rightarrow> bool"
    and due :: "'j \<Rightarrow> 's \<Rightarrow> bool" and rank :: "'j \<Rightarrow> 's \<Rightarrow> nat \<times> nat"
  assumes env_due: "due j s \<Longrightarrow> env s s' \<Longrightarrow> due j s' \<and> rank j s' = rank j s"
    and act_due: "due j s \<Longrightarrow> act s = Some s' \<Longrightarrow> due j s' \<and> (rank j s', rank j s) \<in> nearer"
begin

lemma due_kept:
  assumes run: "\<forall>n. env (\<sigma> n) (\<sigma> (Suc n)) \<or> act (\<sigma> n) = Some (\<sigma> (Suc n)) \<or> fin (\<sigma> n) \<and> \<sigma> (Suc n) = \<sigma> n"
    and due: "due j (\<sigma> n)"
  shows "due j (\<sigma> (n + d)) \<and> (rank j (\<sigma> (n + d)), rank j (\<sigma> n)) \<in> nearer\<^sup>="
proof (induction d)
  case 0
  then show ?case using due by simp
next
  case (Suc d)
  consider "env (\<sigma> (n + d)) (\<sigma> (Suc (n + d)))" | "act (\<sigma> (n + d)) = Some (\<sigma> (Suc (n + d)))" | "\<sigma> (Suc (n + d)) = \<sigma> (n + d)"
    using run by blast
  then show ?case
  proof cases
    case 1
    then show ?thesis using Suc env_due [of j "\<sigma> (n + d)"] by simp
  next
    case 2
    then have a: "due j (\<sigma> (Suc (n + d)))" "(rank j (\<sigma> (Suc (n + d))), rank j (\<sigma> (n + d))) \<in> nearer"
      using act_due Suc by blast+
    have "(rank j (\<sigma> (Suc (n + d))), rank j (\<sigma> n)) \<in> nearer"
    proof (cases "rank j (\<sigma> (n + d)) = rank j (\<sigma> n)")
      case True
      then show ?thesis using a(2) by simp
    next
      case False
      then have "(rank j (\<sigma> (n + d)), rank j (\<sigma> n)) \<in> nearer" using Suc by simp
      with a(2) show ?thesis by (rule nearer_trans)
    qed
    then show ?thesis using a(1) by simp
  next
    case 3
    then show ?thesis using Suc by simp
  qed
qed

lemma eventually_finished:
  assumes run: "\<forall>n. env (\<sigma> n) (\<sigma> (Suc n)) \<or> act (\<sigma> n) = Some (\<sigma> (Suc n)) \<or> fin (\<sigma> n) \<and> \<sigma> (Suc n) = \<sigma> n"
    and acts: "\<forall>n. \<exists>m\<ge>n. act (\<sigma> m) = Some (\<sigma> (Suc m)) \<or> fin (\<sigma> m)"
    and due: "due j (\<sigma> n)"
  shows "\<exists>m\<ge>n. fin (\<sigma> m)"
proof -
  have "due j (\<sigma> n) \<Longrightarrow> rank j (\<sigma> n) = r \<Longrightarrow> \<exists>m\<ge>n. fin (\<sigma> m)" for r
  proof (induction r arbitrary: n rule: wf_induct_rule [OF wf_nearer])
    case (1 r)
    obtain m where m: "n \<le> m" "act (\<sigma> m) = Some (\<sigma> (Suc m)) \<or> fin (\<sigma> m)" using acts by blast
    then obtain d where d: "m = n + d" using le_Suc_ex by blast
    show ?case
    proof (cases "fin (\<sigma> m)")
      case True
      then show ?thesis using m(1) by blast
    next
      case False
      have at_m: "due j (\<sigma> m)" "(rank j (\<sigma> m), r) \<in> nearer\<^sup>="
        using due_kept [OF run 1(2), of d] 1(3) d by auto
      have next_m: "due j (\<sigma> (Suc m))" "(rank j (\<sigma> (Suc m)), rank j (\<sigma> m)) \<in> nearer"
        using act_due [OF at_m(1)] m(2) False by blast+
      have "(rank j (\<sigma> (Suc m)), r) \<in> nearer"
        using at_m(2) next_m(2) nearer_trans by blast
      then have "\<exists>l\<ge>Suc m. fin (\<sigma> l)" using 1(1) next_m(1) by blast
      then show ?thesis using m(1) by (meson Suc_leD le_trans)
    qed
  qed
  then show ?thesis using due by blast
qed

end

definition leaving :: "sup \<Rightarrow> bool" where
  "leaving s = (case su_pc s of Terminating r k \<Rightarrow> True | Reaping r k \<Rightarrow> True | Killing r k \<Rightarrow> True | Returned r \<Rightarrow> True | _ \<Rightarrow> False)"

definition serving :: "sup \<Rightarrow> bool" where
  "serving s = (case su_pc s of Spawning cs \<Rightarrow> True | Launching c cs \<Rightarrow> True | Watching \<Rightarrow> True | Polling i \<Rightarrow> True | _ \<Rightarrow> False)"

text \<open>The end is due when a stop was requested (\<open>None\<close>), or the child at an index of the served list has exited.\<close>

definition end_due :: "sup_options \<Rightarrow> nat option \<Rightarrow> sup \<Rightarrow> bool" where
  "end_due opts j s \<longleftrightarrow> sup_inv opts s \<and>
     (leaving s \<or> (case j of None \<Rightarrow> su_stopping s
                           | Some i \<Rightarrow> serving s \<and> i < length (su_children s) \<and> exit_status s i \<noteq> None))"

definition sup_rank :: "nat option \<Rightarrow> sup \<Rightarrow> nat \<times> nat" where
  "sup_rank j s =
     (let n = length (su_children s) in
      case su_pc s of
        Starting \<Rightarrow> (13, 0)
      | Recovering \<Rightarrow> (12, 0)
      | Recovered \<Rightarrow> (11, 0)
      | Spawning cs \<Rightarrow> (9, 2 * length cs)
      | Launching c cs \<Rightarrow> (9, Suc (2 * length cs))
      | Watching \<Rightarrow> (7, 0)
      | Polling i \<Rightarrow> (case j of None \<Rightarrow> 8 | Some k \<Rightarrow> if i \<le> k then 6 else 8, n - i)
      | Terminating r k \<Rightarrow> (4, n - k)
      | Reaping r k \<Rightarrow> (3, 2 * (n - k))
      | Killing r k \<Rightarrow> (3, 2 * (n - k) - 1)
      | Returned r \<Rightarrow> (0, 0))"

lemma env_keeps_due:
  assumes "end_due opts j s" "sup_env s s'"
  shows "end_due opts j s' \<and> sup_rank j s' = sup_rank j s"
proof -
  note same = env_same [OF assms(2)]
  have inv: "sup_inv opts s'" using assms env_inv by (auto simp: end_due_def)
  have "exit_status s i \<noteq> None \<Longrightarrow> exit_status s' i \<noteq> None" for i using exit_other [OF assms(2)] by metis
  then show ?thesis using assms(1) same inv
    by (auto simp: end_due_def leaving_def serving_def sup_rank_def split: option.splits)
qed

lemma terminate_keeps_due:
  assumes "terminate_step s = Some s'" "sup_inv opts s"
  shows "leaving s' \<and> (sup_rank j s', sup_rank j s) \<in> nearer"
  using assms by (cases "su_pc s")
    (auto simp: nearer_iff terminate_step_def leaving_def sup_rank_def sup_inv_def pc_inv_def split: if_splits)

lemma act_nears_end:
  assumes due: "end_due opts j s" and a: "advance spawns opts s = Some s'"
  shows "end_due opts j s' \<and> (sup_rank j s', sup_rank j s) \<in> nearer"
proof -
  have inv: "sup_inv opts s" "sup_inv opts s'" using due act_inv [OF a] by (auto simp: end_due_def)
  show ?thesis
  proof (cases "leaving s")
    case True
    then have "terminate_step s = Some s'" using a by (cases "su_pc s") (simp_all add: advance_def leaving_def)
    then show ?thesis using terminate_keeps_due inv unfolding end_due_def by blast
  next
    case staying: False
    show ?thesis
    proof (cases j)
      case None
      then have stop: "su_stopping s" using due staying by (simp add: end_due_def)
      then have "(leaving s' \<or> su_stopping s') \<and> (sup_rank None s', sup_rank None s) \<in> nearer"
        using a staying by (cases "su_pc s" rule: pc.exhaust)
          (auto simp: advance_def sup_rank_def leaving_def nearer_iff spawn_def split: if_splits list.splits option.splits)
      then show ?thesis using inv None by (auto simp: end_due_def)
    next
      case (Some i)
      then have i: "serving s" "i < length (su_children s)" "exit_status s i \<noteq> None" using due staying by (auto simp: end_due_def)
      then have "(leaving s' \<or> serving s' \<and> i < length (su_children s') \<and> exit_status s' i \<noteq> None) \<and>
          (sup_rank (Some i) s', sup_rank (Some i) s) \<in> nearer"
      proof (cases "\<exists>k. su_pc s = Polling k \<and> k < length (su_children s) \<and> exit_status s k = None")
        case True
        then obtain k where k: "su_pc s = Polling k" "k < length (su_children s)" "exit_status s k = None" by blast
        then have "k \<noteq> i" "s' = s\<lparr>su_pc := Polling (Suc k)\<rparr>" using i(3) a by (auto simp: advance_def)
        then show ?thesis using k i by (auto simp: sup_rank_def serving_def nearer_iff)
      next
        case False
        then show ?thesis using a staying i by (cases "su_pc s" rule: pc.exhaust)
          (auto simp: advance_def sup_rank_def leaving_def serving_def nearer_iff spawn_def exit_status_def nth_append
            split: if_splits list.splits option.splits)
      qed
      then show ?thesis using inv Some by (auto simp: end_due_def)
    qed
  qed
qed

interpretation supervisor: scheduled sup_env "advance spawns opts" is_returned "end_due opts" sup_rank for spawns opts
proof
  show "end_due opts j s \<Longrightarrow> sup_env s s' \<Longrightarrow> end_due opts j s' \<and> sup_rank j s' = sup_rank j s" for j s s'
    by (rule env_keeps_due)
  show "end_due opts j s \<Longrightarrow> advance spawns opts s = Some s' \<Longrightarrow>
      end_due opts j s' \<and> (sup_rank j s', sup_rank j s) \<in> nearer" for j s s'
    by (rule act_nears_end)
qed

text \<open>
  A run of a supervisor from its start.  It is scheduled: if it can act from some moment on, it does.  And the kernel
  ends a killed process.
\<close>

definition supervisor_run :: "(ustr list \<Rightarrow> bool) \<Rightarrow> sup_options \<Rightarrow> (nat \<Rightarrow> sup) \<Rightarrow> bool" where
  "supervisor_run spawns opts \<sigma> \<longleftrightarrow> sup_reach spawns opts (\<sigma> 0) \<and>
     (\<forall>n. sup_env (\<sigma> n) (\<sigma> (Suc n)) \<or> advance spawns opts (\<sigma> n) = Some (\<sigma> (Suc n)) \<or> is_returned (\<sigma> n) \<and> \<sigma> (Suc n) = \<sigma> n)"

definition scheduled_fairly :: "(ustr list \<Rightarrow> bool) \<Rightarrow> sup_options \<Rightarrow> (nat \<Rightarrow> sup) \<Rightarrow> bool" where
  "scheduled_fairly spawns opts \<sigma> \<longleftrightarrow>
     (\<forall>n. (\<forall>m\<ge>n. advance spawns opts (\<sigma> m) \<noteq> None) \<longrightarrow> (\<exists>m\<ge>n. advance spawns opts (\<sigma> m) = Some (\<sigma> (Suc m))))"

definition killed_exit :: "(nat \<Rightarrow> sup) \<Rightarrow> bool" where
  "killed_exit \<sigma> \<longleftrightarrow> (\<forall>n r k. su_pc (\<sigma> n) = Killing r k \<longrightarrow> (\<exists>m\<ge>n. exit_status (\<sigma> m) k \<noteq> None))"

lemma run_reach: "supervisor_run spawns opts \<sigma> \<Longrightarrow> sup_reach spawns opts (\<sigma> n)"
proof (induction n)
  case (Suc n)
  then show ?case unfolding supervisor_run_def by (metis sup_reach.env sup_reach.act)
qed (simp add: supervisor_run_def)

lemma stuck_cases:
  assumes "sup_inv opts s" "advance spawns opts s = None"
  shows "is_returned s \<or> (\<exists>r k. su_pc s = Killing r k \<and> exit_status s k = None)"
  using assms by (cases "su_pc s")
    (auto simp: advance_def terminate_step_def is_returned_def sup_inv_def pc_inv_def split: if_splits list.splits option.splits)

lemma enabled_pc:
  assumes "su_pc s = Killing r k" "exit_status s k \<noteq> None"
  shows "advance spawns opts s \<noteq> None"
  using assms by (simp add: advance_def terminate_step_def)

lemma run_acts:
  assumes run: "supervisor_run spawns opts \<sigma>" and fair: "scheduled_fairly spawns opts \<sigma>" and killed: "killed_exit \<sigma>"
  shows "\<forall>n. \<exists>m\<ge>n. advance spawns opts (\<sigma> m) = Some (\<sigma> (Suc m)) \<or> is_returned (\<sigma> m)"
proof (rule allI, rule ccontr)
  fix n
  assume "\<not> (\<exists>m\<ge>n. advance spawns opts (\<sigma> m) = Some (\<sigma> (Suc m)) \<or> is_returned (\<sigma> m))"
  then have no: "\<forall>m\<ge>n. advance spawns opts (\<sigma> m) \<noteq> Some (\<sigma> (Suc m)) \<and> \<not> is_returned (\<sigma> m)" by blast
  then have env: "\<forall>m\<ge>n. sup_env (\<sigma> m) (\<sigma> (Suc m))" using run unfolding supervisor_run_def by blast
  obtain m where m: "n \<le> m" "advance spawns opts (\<sigma> m) = None" using fair no unfolding scheduled_fairly_def by blast
  have "sup_inv opts (\<sigma> m)" using run_reach [OF run] by (rule reach_inv)
  then obtain r k where k: "su_pc (\<sigma> m) = Killing r k" using stuck_cases m no by blast
  obtain l where l: "m \<le> l" "exit_status (\<sigma> l) k \<noteq> None" using killed k unfolding killed_exit_def by blast
  have stays: "su_pc (\<sigma> (m + d)) = Killing r k" for d
  proof (induction d)
    case (Suc d)
    have "sup_env (\<sigma> (m + d)) (\<sigma> (Suc (m + d)))" using env m(1) by simp
    then show ?case using Suc env_same by simp
  qed (simp add: k)
  have exited: "exit_status (\<sigma> (l + d)) k \<noteq> None" for d
  proof (induction d)
    case (Suc d)
    have "sup_env (\<sigma> (l + d)) (\<sigma> (Suc (l + d)))" using env m(1) l(1) by simp
    then show ?case using Suc exit_other by (metis add_Suc_right)
  qed (simp add: l(2))
  have "advance spawns opts (\<sigma> x) \<noteq> None" if x: "l \<le> x" for x
  proof (rule enabled_pc)
    show "su_pc (\<sigma> x) = Killing r k" using stays [of "x - m"] l(1) x by simp
    show "exit_status (\<sigma> x) k \<noteq> None" using exited [of "x - l"] x by simp
  qed
  then obtain x where "l \<le> x" "advance spawns opts (\<sigma> x) = Some (\<sigma> (Suc x))" using fair unfolding scheduled_fairly_def by blast
  then show False using no m(1) l(1) by simp
qed

lemma end_due_from:
  assumes inv: "sup_inv opts s"
    and due: "su_stopping s \<or> (\<exists>c\<in>set (su_children s). ch_command c \<noteq> recovery_command \<and> ch_exit c \<noteq> None)"
  shows "\<exists>j. end_due opts j s"
proof (cases "leaving s \<or> su_stopping s")
  case True
  then show ?thesis using inv by (auto simp: end_due_def intro: exI [of _ None])
next
  case False
  then obtain i where i: "i < length (su_children s)" "ch_command (su_children s ! i) \<noteq> recovery_command" "exit_status s i \<noteq> None"
    using due by (auto simp: in_set_conv_nth exit_status_def)
  have "ch_command (su_children s ! i) \<in> set (commands s)" using i(1) by (simp add: commands_def)
  then have "\<not> set (commands s) \<subseteq> {recovery_command}" using i(2) by blast
  then have "serving s" using inv False i(1)
    by (auto simp: sup_inv_def pc_inv_def serving_def leaving_def commands_def split: pc.splits)
  then have "end_due opts (Some i) s" using i inv by (simp add: end_due_def)
  then show ?thesis by blast
qed

text \<open>C8: a supervisor returns: in every run that is scheduled fairly and whose killed children exit, once a stop was
  requested or the viewer or the team has exited, \<open>main\<close> returns, however signals and exits interleave with its steps.\<close>

theorem supervisor_returns:
  assumes "supervisor_run spawns opts \<sigma>" "scheduled_fairly spawns opts \<sigma>" "killed_exit \<sigma>"
    and "su_stopping (\<sigma> n) \<or> (\<exists>c\<in>set (su_children (\<sigma> n)). ch_command c \<noteq> recovery_command \<and> ch_exit c \<noteq> None)"
  shows "\<exists>m\<ge>n. is_returned (\<sigma> m)"
proof -
  obtain j where j: "end_due opts j (\<sigma> n)"
    using end_due_from [OF reach_inv [OF run_reach [OF assms(1)]] assms(4)] by blast
  have "\<forall>n. sup_env (\<sigma> n) (\<sigma> (Suc n)) \<or> advance spawns opts (\<sigma> n) = Some (\<sigma> (Suc n)) \<or> is_returned (\<sigma> n) \<and> \<sigma> (Suc n) = \<sigma> n"
    using assms(1) by (simp add: supervisor_run_def)
  then show ?thesis by (rule supervisor.eventually_finished [OF _ run_acts [OF assms(1-3)] j])
qed

section \<open>A concrete run\<close>

definition ex_sup_options :: sup_options where
  "ex_sup_options = \<lparr>so_roster = lit ''/team/default.team'', so_team_protocol = None, so_verbose = False\<rparr>"

definition ex_sup_start :: sup where
  "ex_sup_start = \<lparr>su_pc = Starting, su_stopping = False, su_children = [], su_recovery = None, su_lock = True\<rparr>"

text \<open>A stop is requested first; the recovery process that was started ends after it was asked to.\<close>

fun ex_sup_run :: "nat \<Rightarrow> sup" where
  "ex_sup_run 0 = ex_sup_start"
| "ex_sup_run (Suc n) =
     (if n = 0 then (ex_sup_run n)\<lparr>su_stopping := True\<rparr>
      else if n = 6 then (ex_sup_run n)\<lparr>su_children := (su_children (ex_sup_run n))
        [0 := (su_children (ex_sup_run n) ! 0)\<lparr>ch_exit := Some 143\<rparr>]\<rparr>
      else case advance (\<lambda>_. True) ex_sup_options (ex_sup_run n) of Some s \<Rightarrow> s | None \<Rightarrow> ex_sup_run n)"

lemma ex_sup_started: "supervisor_start ex_sup_options (Content (lit ''name x'')) True = Inr ex_sup_start"
  by code_simp

lemma ex_sup_steps:
  "list_all (\<lambda>n. n = 0 \<or> n = 6 \<or> advance (\<lambda>_. True) ex_sup_options (ex_sup_run n) \<noteq> None) [0..<9] \<and>
   list_all (\<lambda>n. case su_pc (ex_sup_run n) of Killing r k \<Rightarrow> False | _ \<Rightarrow> True) [0..<9] \<and>
   su_pc (ex_sup_run 9) = Returned (Inr 0) \<and> length (su_children (ex_sup_run 6)) = 1 \<and> exit_status (ex_sup_run 6) 0 = None"
  by code_simp

lemma ex_sup_end: "su_pc (ex_sup_run (9 + d)) = Returned (Inr 0)"
proof (induction d)
  case 0
  then show ?case using ex_sup_steps by simp
next
  case (Suc d)
  then have "advance (\<lambda>_. True) ex_sup_options (ex_sup_run (9 + d)) = None" by (simp add: advance_def)
  then have "ex_sup_run (Suc (9 + d)) = ex_sup_run (9 + d)" by (simp only: ex_sup_run.simps) simp
  then show ?case using Suc by (simp only: add_Suc_right)
qed

lemma ex_sup_is_run:
  "supervisor_run (\<lambda>_. True) ex_sup_options ex_sup_run" "scheduled_fairly (\<lambda>_. True) ex_sup_options ex_sup_run"
  "killed_exit ex_sup_run"
proof -
  have late: "su_pc (ex_sup_run n) = Returned (Inr 0)" if "9 \<le> n" for n using ex_sup_end [of "n - 9"] that by simp
  have early: "n < 9 \<Longrightarrow> n \<noteq> 0 \<Longrightarrow> n \<noteq> 6 \<Longrightarrow> advance (\<lambda>_. True) ex_sup_options (ex_sup_run n) \<noteq> None" for n
    
  proof -
    fix n :: nat
    assume n: "n < 9" "n \<noteq> 0" "n \<noteq> 6"
    have "\<forall>n\<in>set [0..<9]. n = 0 \<or> n = 6 \<or> advance (\<lambda>_. True) ex_sup_options (ex_sup_run n) \<noteq> None"
      using conjunct1 [OF ex_sup_steps] by (simp only: list_all_iff)
    moreover have "n \<in> set [0..<9]" using n(1) by simp
    ultimately have "n = 0 \<or> n = 6 \<or> advance (\<lambda>_. True) ex_sup_options (ex_sup_run n) \<noteq> None" by (rule bspec)
    then show "advance (\<lambda>_. True) ex_sup_options (ex_sup_run n) \<noteq> None" using n(2,3) by (elim disjE) simp_all
  qed
  have "sup_env (ex_sup_run n) (ex_sup_run (Suc n)) \<or>
      advance (\<lambda>_. True) ex_sup_options (ex_sup_run n) = Some (ex_sup_run (Suc n)) \<or>
      is_returned (ex_sup_run n) \<and> ex_sup_run (Suc n) = ex_sup_run n" for n
  proof -
    consider "n = 0" | "n = 6" | "n \<noteq> 0" "n \<noteq> 6" "n < 9" | "9 \<le> n" by linarith
    then show ?thesis
    proof cases
      case 1
      have "sup_env (ex_sup_run 0) (ex_sup_run (Suc 0))"
        using sup_env.signal [of ex_sup_start] by (simp add: is_returned_def ex_sup_start_def)
      then show ?thesis using 1 by blast
    next
      case 2
      have "ex_sup_run (Suc 6) = (ex_sup_run 6)\<lparr>su_children := (su_children (ex_sup_run 6))
          [0 := (su_children (ex_sup_run 6) ! 0)\<lparr>ch_exit := Some 143\<rparr>]\<rparr>"
        by (simp only: ex_sup_run.simps) simp
      moreover have "0 < length (su_children (ex_sup_run 6))" "exit_status (ex_sup_run 6) 0 = None" using ex_sup_steps by auto
      ultimately have "sup_env (ex_sup_run 6) (ex_sup_run (Suc 6))" using sup_env.child_exit by presburger
      then show ?thesis using 2 by blast
    next
      case 3
      then show ?thesis using early [of n] by (auto split: option.splits)
    next
      case 4
      then show ?thesis using late [of n] by (simp add: is_returned_def advance_def)
    qed
  qed
  then show "supervisor_run (\<lambda>_. True) ex_sup_options ex_sup_run"
    using sup_reach.start [OF ex_sup_started] by (simp add: supervisor_run_def)
  have "\<exists>m\<ge>n. advance (\<lambda>_. True) ex_sup_options (ex_sup_run m) = None" for n
    using late [of "max n 9"] by (intro exI [of _ "max n 9"]) (simp add: advance_def)
  then show "scheduled_fairly (\<lambda>_. True) ex_sup_options ex_sup_run" unfolding scheduled_fairly_def by blast
  have "su_pc (ex_sup_run n) \<noteq> Killing r k" for n r k
    using late [of n] ex_sup_steps by (cases "n < 9") (auto simp: list_all_iff split: pc.splits)
  then show "killed_exit ex_sup_run" by (simp add: killed_exit_def)
qed

lemma supervisor_returns_witness: "\<exists>m\<ge>1. is_returned (ex_sup_run m)"
proof -
  have "su_stopping (ex_sup_run 1)" by simp
  then show ?thesis using supervisor_returns [OF ex_sup_is_run, of 1] by blast
qed

lemma supervisor_safe_witness:
  "sup_reach (\<lambda>_. True) ex_sup_options (ex_sup_run 5) \<and> length (su_children (ex_sup_run 5)) = 1 \<and> su_lock (ex_sup_run 5)"
proof -
  have "length (su_children (ex_sup_run 5)) = 1" "list_all (\<lambda>c. ch_exit c = None) (su_children (ex_sup_run 5))" by code_simp+
  moreover have r: "sup_reach (\<lambda>_. True) ex_sup_options (ex_sup_run 5)" using run_reach [OF ex_sup_is_run(1)] .
  ultimately show ?thesis using supervisor_safe [OF r] by (cases "su_children (ex_sup_run 5)") auto
qed

end
