(* ===== verification/Planner_Notice.thy ===== *)
theory Planner_Notice imports Queue begin

text \<open>
  \<open>src/cyclo/components/team/agentws/tools/planner_notification.py\<close>: before a job of a worker becomes terminal, a
  notice for the planner is published as a job of its own.  The jobs directory of the queue is a \<open>qdir\<close>; the program
  \<open>job-create\<close> is a parameter that may do anything to the directory, fail or run out of time.
\<close>

definition VALID_SOURCE_STATUSES :: "ustr list" where
  "VALID_SOURCE_STATUSES = [lit ''claimed'', lit ''running'']"

definition read_regular_text :: "qnode option \<Rightarrow> nat \<Rightarrow> ustr option" where
  "read_regular_text node maximum =
     (case node of
        Some (QFile _ all_bytes) \<Rightarrow>
          (let raw = take (maximum + 1) all_bytes in
           if maximum < length raw then None else utf8_decode raw)
      | _ \<Rightarrow> None)"

definition is_regular_node :: "qnode option \<Rightarrow> bool" where
  "is_regular_node node = (case node of Some (QFile _ _) \<Rightarrow> True | _ \<Rightarrow> False)"

definition is_real_directory :: "qnode option \<Rightarrow> bool" where
  "is_real_directory node = (case node of Some (QDir _ _) \<Rightarrow> True | Some QDenied \<Rightarrow> True | _ \<Rightarrow> False)"

text \<open>The entry \<open>directory / name\<close>; nothing can be opened below a directory that cannot be searched.\<close>

definition entry_of :: "qnode option \<Rightarrow> ustr \<Rightarrow> qnode option" where
  "entry_of node name = (case node of Some (QDir _ es) \<Rightarrow> map_of es name | _ \<Rightarrow> None)"

definition strip_id_tail :: "ustr \<Rightarrow> ustr" where
  "strip_id_tail s = rstrip_by (\<lambda>c. c = 46 \<or> c = 95 \<or> c = 45) s"

definition planner_notification_id :: "ustr \<Rightarrow> ustr \<Rightarrow> ustr res" where
  "planner_notification_id task_id job_id =
     rbind (utf8_encode (task_id @ [0] @ job_id)) (\<lambda>raw.
     Inr (strip_id_tail (take 40 job_id) @ lit ''-planner-terminal-'' @ take 20 (sha256_hex raw)))"

definition planner_notification_spec :: "ustr \<Rightarrow> ustr \<Rightarrow> ustr \<Rightarrow> ustr" where
  "planner_notification_spec task_id job_id source_role =
     join [10]
       [lit ''# Notify Planner: '' @ job_id, [], lit ''## Task'', task_id, [], lit ''## Source Job'', job_id, [],
        lit ''## Source Role'', source_role, [], lit ''## Event'', lit ''source job terminal transition'', [],
        lit ''## Settlement'',
        lit ''AgentWS publishes this notice before the source job becomes terminal, but the'',
        lit ''queue keeps it unclaimable until the source status is done or failed. Once this'',
        lit ''job can be claimed, the source evidence is stable and ready to inspect.'', [],
        lit ''## Follow-Up Jobs Created'',
        lit ''Inspect the other jobs attached to this task. The source worker may also have'',
        lit ''created a direct success-path handoff.'', [],
        lit ''## Evidence'',
        lit ''Read jobs/'' @ job_id @ lit ''/status, jobs/'' @ job_id @ lit ''/log.md, the task log, and any linked'',
        lit ''artifacts after the source settles.'', [],
        lit ''## When Done'',
        lit ''Record the source outcome on the task, create any missing route required by the'',
        lit ''team protocol, and then mark this planner notification done.'', []]"

definition text_is :: "qnode option \<Rightarrow> string \<Rightarrow> ustr \<Rightarrow> bool" where
  "text_is notice name expected =
     (case read_regular_text (entry_of notice (lit name)) 1024 of None \<Rightarrow> False | Some s \<Rightarrow> strip s = expected)"

definition notification_matches :: "qnode option \<Rightarrow> ustr \<Rightarrow> ustr \<Rightarrow> ustr \<Rightarrow> bool" where
  "notification_matches notice task_id source_job_id expected_spec \<longleftrightarrow>
     is_real_directory notice \<and> is_real_directory (entry_of notice (lit ''workspace'')) \<and>
     text_is notice ''role'' (lit ''planner'') \<and> text_is notice ''task-id'' task_id \<and>
     text_is notice ''status'' (lit ''pending'') \<and> text_is notice ''.terminal-notice-source'' source_job_id \<and>
     read_regular_text (entry_of notice (lit ''spec.md'')) (256 * 1024) = Some expected_spec \<and>
     is_regular_node (entry_of notice (lit ''log.md'')) \<and> is_regular_node (entry_of notice (lit ''.control.lock''))"

text \<open>
  \<open>job_create\<close> gets the arguments of the command and the contents of the temporary file; it gives the jobs directory
  afterwards and the exit status, or \<open>None\<close> when the process cannot start or runs for more than five seconds.
\<close>

type_synonym job_create = "ustr list \<Rightarrow> bytes \<Rightarrow> qdir \<Rightarrow> qdir \<times> int option"

definition source_text :: "qnode option \<Rightarrow> string \<Rightarrow> ustr" where
  "source_text job name = (case read_regular_text (entry_of job (lit name)) 1024 of None \<Rightarrow> [] | Some s \<Rightarrow> strip s)"

definition create_notice ::
    "job_create \<Rightarrow> bool \<Rightarrow> ustr \<Rightarrow> ustr \<Rightarrow> ustr \<Rightarrow> ustr \<Rightarrow> qdir \<Rightarrow> qdir \<times> ustr option res" where
  "create_notice create temp_ok notification_id task_id job_id spec jobs =
     (if \<not> temp_ok then (jobs, Inl (CycloError ''planner notification creation failed''))
      else
        case utf8_encode spec of
          Inl e \<Rightarrow> (jobs, Inl e)
        | Inr contents \<Rightarrow>
            (case create [notification_id, lit ''--role'', lit ''planner'', lit ''--task-id'', task_id,
                lit ''--terminal-notice-for'', job_id] contents jobs of
               (jobs, None) \<Rightarrow> (jobs, Inl (CycloError ''planner notification creation failed''))
             | (jobs, Some status) \<Rightarrow>
                 if notification_matches (map_of jobs notification_id) task_id job_id spec
                 then (jobs, Inr (Some notification_id))
                 else (jobs, Inl (CycloError ''planner notification creation failed''))))"

definition ensure_planner_notification ::
    "job_create \<Rightarrow> bool \<Rightarrow> qnode option \<Rightarrow> ustr \<Rightarrow> qdir \<Rightarrow> qdir \<times> ustr option res" where
  "ensure_planner_notification create temp_ok job job_id jobs =
     (if \<not> safe_queue_id job_id then (jobs, Inl (CycloError ''invalid source job ID''))
      else if \<not> is_real_directory job then (jobs, Inl (CycloError ''source job is not a real directory''))
      else
        let source_role = source_text job ''role''; task_id = source_text job ''task-id'';
            source_status = source_text job ''status''
        in
        if \<not> safe_queue_id source_role \<or> \<not> safe_queue_id task_id
        then (jobs, Inl (CycloError ''invalid role or task ID for source job''))
        else if source_role = lit ''planner'' then (jobs, Inr None)
        else if source_status \<notin> set VALID_SOURCE_STATUSES
        then (jobs, Inl (CycloError ''cannot prepare planner notification''))
        else
          case planner_notification_id task_id job_id of
            Inl e \<Rightarrow> (jobs, Inl e)
          | Inr notification_id \<Rightarrow>
              (let spec = planner_notification_spec task_id job_id source_role in
               case map_of jobs notification_id of
                 Some notice \<Rightarrow>
                   if notification_matches (Some notice) task_id job_id spec then (jobs, Inr (Some notification_id))
                   else (jobs, Inl (CycloError ''planner notification collision''))
               | None \<Rightarrow> create_notice create temp_ok notification_id task_id job_id spec jobs))"

section \<open>Identifiers\<close>

lemma queue_id_chars:
  assumes "safe_queue_id s"
  shows "s \<noteq> [] \<and> is_alnum (hd s) \<and> (\<forall>c\<in>set s. is_queue_char c)"
  using assms by (cases s) (auto simp: safe_queue_id_def re_name_star_def list_all_iff is_queue_char_def)

lemma queue_idI: "s \<noteq> [] \<Longrightarrow> is_alnum (hd s) \<Longrightarrow> \<forall>c\<in>set s. is_queue_char c \<Longrightarrow> safe_queue_id s"
  by (cases s) (auto simp: safe_queue_id_def re_name_star_def list_all_iff)

lemma queue_id_scalar: "safe_queue_id s \<Longrightarrow> list_all is_scalar s"
  unfolding list_all_iff
proof
  fix c assume "safe_queue_id s" "c \<in> set s"
  then have "is_queue_char c" using queue_id_chars by blast
  then show "is_scalar c" by (auto simp: is_queue_char_def is_scalar_def is_surrogate_def ascii_defs)
qed

lemma notification_id_ok:
  assumes "safe_queue_id task_id" "safe_queue_id job_id"
  shows "\<exists>i. planner_notification_id task_id job_id = Inr i \<and> safe_queue_id i \<and> length i \<le> 78"
proof -
  have "is_ok (utf8_encode (task_id @ [0] @ job_id))"
    using queue_id_scalar assms by (simp add: utf8_encode_def is_scalar_def is_surrogate_def)
  then obtain raw where raw: "utf8_encode (task_id @ [0] @ job_id) = Inr raw" by (auto simp: is_ok_iff)
  let ?t = "take 40 job_id" and ?s = "strip_id_tail (take 40 job_id)"
  let ?i = "?s @ lit ''-planner-terminal-'' @ take 20 (sha256_hex raw)"
  note j = queue_id_chars [OF assms(2)]
  have t: "?t \<noteq> []" "hd ?t = hd job_id" using j by (cases job_id; simp)+
  have "\<not> (hd ?t = 46 \<or> hd ?t = 95 \<or> hd ?t = 45)" using j t(2) by (auto simp: ascii_defs)
  then have s: "?s \<noteq> []" unfolding strip_id_tail_def by (rule rstrip_by_not_Nil [OF t(1)])
  obtain rest where rest: "?t = ?s @ rest"
    using rstrip_by_prefix [of ?t "\<lambda>c. c = 46 \<or> c = 95 \<or> c = 45"] unfolding strip_id_tail_def by blast
  have "hd ?t = hd (?s @ rest)" by (rule arg_cong [OF rest])
  also have "\<dots> = hd ?s" by (rule hd_append2 [OF s])
  finally have hd: "is_alnum (hd ?s)" using t(2) j by simp
  have "set ?s \<subseteq> set ?t" unfolding strip_id_tail_def by (rule set_rstrip_by)
  also have "\<dots> \<subseteq> set job_id" by (rule set_take_subset)
  finally have "\<forall>c\<in>set ?s. is_queue_char c" using j by blast
  moreover have "\<forall>c\<in>set (take 20 (sha256_hex raw)). is_queue_char c"
  proof
    fix c assume "c \<in> set (take 20 (sha256_hex raw))"
    then have "is_hex c" using sha256_hex_is_hex in_set_takeD by metis
    then show "is_queue_char c" by (auto simp: is_hex_def is_queue_char_def ascii_defs)
  qed
  moreover have "list_all is_queue_char (lit ''-planner-terminal-'')" by code_simp
  ultimately have "\<forall>c\<in>set ?i. is_queue_char c" by (auto simp: list_all_iff)
  then have "safe_queue_id ?i" using s hd by (intro queue_idI) auto
  moreover have "length ?s \<le> 40" using rstrip_by_length [of _ ?t] unfolding strip_id_tail_def by (simp add: le_trans)
  ultimately show ?thesis using raw by (simp add: planner_notification_id_def)
qed

text \<open>The notice of a job with valid identifiers has an identifier that is itself valid in the queue, of at most 78
  characters whatever the length of the job's.\<close>

theorem planner_notification_id_valid:
  assumes "safe_queue_id task_id" "safe_queue_id job_id"
  shows "\<exists>i. planner_notification_id task_id job_id = Inr i \<and> safe_queue_id i \<and> length i \<le> 78"
  using assms by (rule notification_id_ok)

lemma planner_notification_id_valid_witness:
  "\<exists>i. planner_notification_id (lit ''t-1'') (lit ''build_7'') = Inr i \<and> safe_queue_id i"
proof -
  have "safe_queue_id (lit ''t-1'')" "safe_queue_id (lit ''build_7'')" by code_simp+
  then show ?thesis using planner_notification_id_valid by blast
qed

section \<open>Publication\<close>

lemma notice_result:
  assumes "ensure_planner_notification create temp_ok job job_id jobs = (jobs', Inr r)"
  shows "(r = None \<and> jobs' = jobs \<and> source_text job ''role'' = lit ''planner'') \<or>
    (\<exists>i notice. r = Some i \<and> planner_notification_id (source_text job ''task-id'') job_id = Inr i \<and>
      map_of jobs' i = Some notice \<and> source_text job ''role'' \<noteq> lit ''planner'' \<and>
      source_text job ''status'' \<in> set VALID_SOURCE_STATUSES \<and>
      notification_matches (Some notice) (source_text job ''task-id'') job_id
        (planner_notification_spec (source_text job ''task-id'') job_id (source_text job ''role'')))"
  using assms
  by (auto simp: ensure_planner_notification_def create_notice_def Let_def notification_matches_def is_real_directory_def
      split: if_splits sum.splits option.splits prod.splits)

lemma notice_again:
  assumes "ensure_planner_notification create temp_ok job job_id jobs = (jobs', Inr r)"
  shows "ensure_planner_notification create' temp_ok' job job_id jobs' = (jobs', Inr r)"
proof -
  have v: "safe_queue_id job_id" "is_real_directory job" "safe_queue_id (source_text job ''role'')"
    "safe_queue_id (source_text job ''task-id'')"
    using assms by (auto simp: ensure_planner_notification_def Let_def split: if_splits)
  from notice_result [OF assms] show ?thesis
  proof (elim disjE exE conjE)
    assume "r = None" "jobs' = jobs" "source_text job ''role'' = lit ''planner''"
    then show ?thesis using v by (simp add: ensure_planner_notification_def Let_def)
  next
    fix i notice
    assume "r = Some i" "planner_notification_id (source_text job ''task-id'') job_id = Inr i" "map_of jobs' i = Some notice"
      "source_text job ''role'' \<noteq> lit ''planner''" "source_text job ''status'' \<in> set VALID_SOURCE_STATUSES"
      "notification_matches (Some notice) (source_text job ''task-id'') job_id
        (planner_notification_spec (source_text job ''task-id'') job_id (source_text job ''role''))"
    then show ?thesis using v by (simp add: ensure_planner_notification_def Let_def)
  qed
qed

text \<open>C36: whatever \<open>job-create\<close> did, a success means that the notice is there: a pending job of the planner on the same task,
  with the specification rendered for the source job, which was claimed or running (or the source is the planner's own
  and nothing was created); and asking again succeeds with the same answer and changes nothing, even if \<open>job-create\<close>
  no longer works.\<close>

theorem notice_published:
  assumes "ensure_planner_notification create temp_ok job job_id jobs = (jobs', Inr r)"
  shows "(r = None \<and> jobs' = jobs \<and> source_text job ''role'' = lit ''planner'' \<or>
    (\<exists>i notice. r = Some i \<and> planner_notification_id (source_text job ''task-id'') job_id = Inr i \<and>
      map_of jobs' i = Some notice \<and> source_text job ''status'' \<in> set VALID_SOURCE_STATUSES \<and>
      notification_matches (Some notice) (source_text job ''task-id'') job_id
        (planner_notification_spec (source_text job ''task-id'') job_id (source_text job ''role'')))) \<and>
    ensure_planner_notification create' temp_ok' job job_id jobs' = (jobs', Inr r)"
  using notice_result [OF assms] notice_again [OF assms] by blast

lemma read_small: "length bs \<le> n \<Longrightarrow> read_regular_text (Some (QFile m bs)) n = utf8_decode bs"
  by (simp add: read_regular_text_def Let_def)

text \<open>A \<open>job-create\<close> that does what its arguments say.\<close>

definition ex_job_create :: job_create where
  "ex_job_create args contents jobs =
     (jobs @ [(args ! 0, QDir 0 [(lit ''role'', QFile 0 (args ! 2)), (lit ''task-id'', QFile 0 (args ! 4)),
        (lit ''status'', QFile 0 (lit ''pending'')), (lit ''.terminal-notice-source'', QFile 0 (args ! 6)),
        (lit ''spec.md'', QFile 0 contents), (lit ''log.md'', QFile 0 []), (lit ''.control.lock'', QFile 0 []),
        (lit ''workspace'', QDir 0 [])])], Some 0)"

definition ex_source_job :: qnode where
  "ex_source_job = QDir 0 [(lit ''role'', QFile 0 (lit ''coder'')), (lit ''task-id'', QFile 0 (lit ''t-1'')),
     (lit ''status'', QFile 0 (lit ''running''))]"

lemma ex_notice_created:
  "\<exists>i jobs. ensure_planner_notification ex_job_create True (Some ex_source_job) (lit ''build_7'') [] = (jobs, Inr (Some i))"
proof -
  have s: "source_text (Some ex_source_job) ''role'' = lit ''coder''" "source_text (Some ex_source_job) ''task-id'' = lit ''t-1''"
    "source_text (Some ex_source_job) ''status'' \<in> set VALID_SOURCE_STATUSES" "is_real_directory (Some ex_source_job)"
    "safe_queue_id (lit ''coder'')" "safe_queue_id (lit ''t-1'')" "safe_queue_id (lit ''build_7'')" "lit ''coder'' \<noteq> lit ''planner''"
    by code_simp+
  obtain i where i: "planner_notification_id (lit ''t-1'') (lit ''build_7'') = Inr i"
    using notification_id_ok [OF s(6,7)] by blast
  let ?spec = "planner_notification_spec (lit ''t-1'') (lit ''build_7'') (lit ''coder'')"
  let ?args = "[i, lit ''--role'', lit ''planner'', lit ''--task-id'', lit ''t-1'', lit ''--terminal-notice-for'', lit ''build_7'']"
  have e: "utf8_encode ?spec = Inr ?spec" "length ?spec \<le> 262144" by code_simp+
  let ?n = "Some (snd (hd (fst (ex_job_create ?args ?spec []))))"
  have "text_is ?n ''role'' (lit ''planner'') \<and> text_is ?n ''task-id'' (lit ''t-1'') \<and> text_is ?n ''status'' (lit ''pending'') \<and>
      text_is ?n ''.terminal-notice-source'' (lit ''build_7'')"
    by (simp add: text_is_def entry_of_def ex_job_create_def read_small) code_simp
  moreover have "read_regular_text (entry_of ?n (lit ''spec.md'')) (256 * 1024) = Some ?spec"
    using utf8_decode_encode [OF e(1)] e(2) by (simp add: entry_of_def ex_job_create_def read_small)
  ultimately have "notification_matches (map_of (fst (ex_job_create ?args ?spec [])) i) (lit ''t-1'') (lit ''build_7'') ?spec"
    by (simp add: notification_matches_def ex_job_create_def is_real_directory_def entry_of_def is_regular_node_def)
  then show ?thesis using s i e
    by (simp add: ensure_planner_notification_def create_notice_def Let_def ex_job_create_def)
qed

lemma notice_published_witness:
  "\<exists>i jobs. ensure_planner_notification (\<lambda>args contents jobs. (jobs, None)) False (Some ex_source_job) (lit ''build_7'') jobs =
    (jobs, Inr (Some i))"
  using ex_notice_created notice_published by blast

end
