(* ===== verification/Pi_Rpc.thy ===== *)
theory Pi_Rpc imports Json begin

text \<open>
  The client of the agent's local Pi process, \<open>components/team/agentws/tools/pi_rpc.py\<close>: the framing of what is sent and
  the settlement of prompts between the thread that runs a prompt and the one that reads events.  A move is what a
  thread does between two points where another may run: a block under \<open>_state_lock\<close>, one operation on a queue, one
  write under \<open>_write_lock\<close>, one line read or one call of a callback.  What Pi writes, whether a write succeeds, what a
  callback raises and the exit status are parameters of the moves.
\<close>

section \<open>Commands and lines\<close>

definition pi_command :: "ustr option \<Rightarrow> ustr \<Rightarrow> ustr option \<Rightarrow> ustr list" where
  "pi_command model session_dir append_system_prompt =
     map lit [''pi'', ''--mode'', ''rpc''] @
     (case model of Some m \<Rightarrow> if m \<noteq> [] then [lit ''--model'', m] else [] | None \<Rightarrow> []) @
     (case append_system_prompt of Some p \<Rightarrow> [lit ''--append-system-prompt'', p] | None \<Rightarrow> []) @
     [lit ''--session-dir'', session_dir]"

definition message_line :: "ustr \<Rightarrow> ustr \<Rightarrow> ustr \<Rightarrow> ustr" where
  "message_line request_id command_type message =
     dump_compact True (JObj [(lit ''id'', JStr request_id), (lit ''type'', JStr command_type), (lit ''message'', JStr message)]) @ [10]"

section \<open>The session\<close>

datatype rpc_error = ProtocolError ustr | CommandRejected ustr | ProcessExited int

text \<open>What the next line is: a JSON value, not JSON, the cause of another exception, or the end.\<close>

datatype incoming = Parsed json | NotJson | Broken ustr | Eof

datatype callback = Accepted | RaisesProtocol rpc_error | Raises ustr

text \<open>Where the reader thread is.  \<open>Completing\<close> and \<open>Holding\<close> are \<open>_complete_active\<close> before and after its block under the lock,
  with the result and what comes next.\<close>

datatype reader_place =
    Reading
  | Handling "rpc_error option option"
  | Completing "rpc_error option" reader_place
  | Holding nat "rpc_error option" reader_place
  | Failing rpc_error
  | Finishing
  | Ended

text \<open>Where \<open>run_prompt\<close> is; \<open>_prompt_lock\<close> admits one caller at a time.  A queue is named by a number.\<close>

datatype prompt_place =
    NoPrompt
  | Opening ustr ustr
  | Sending nat ustr ustr
  | Waiting nat ustr
  | Closing nat ustr "rpc_error option"

text \<open>\<open>_active_request\<close> and \<open>_active_result\<close> are set and cleared together.  The last three fields record what happened: the
  requests registered, the events read and how each \<open>run_prompt\<close> ended (\<open>None\<close> when it returned).\<close>

record rpc =
  rp_active :: "(ustr \<times> nat) option"
  rp_queue :: "nat \<Rightarrow> rpc_error option option"
  rp_error :: "rpc_error option"
  rp_eof :: bool
  rp_exit_status :: int
  rp_reader :: reader_place
  rp_prompt :: prompt_place
  rp_fresh :: nat
  rp_sent :: "ustr list"
  rp_asked :: "ustr list"
  rp_heard :: "jobj list"
  rp_log :: "(ustr \<times> rpc_error option) list"

definition new_session :: rpc where
  "new_session = \<lparr>rp_active = None, rp_queue = Map.empty, rp_error = None, rp_eof = False, rp_exit_status = 1, rp_reader = Reading,
     rp_prompt = NoPrompt, rp_fresh = 0, rp_sent = [], rp_asked = [], rp_heard = [], rp_log = []\<rparr>"

section \<open>Events\<close>

definition event_is :: "string \<Rightarrow> jobj \<Rightarrow> bool" where
  "event_is kind event \<longleftrightarrow> map_of event (lit ''type'') = Some (JStr (lit kind))"

definition names_request :: "ustr option \<Rightarrow> jobj \<Rightarrow> bool" where
  "names_request request event \<longleftrightarrow>
     (case map_of event (lit ''id'') of
        None \<Rightarrow> request = None
      | Some JNull \<Rightarrow> request = None
      | Some j \<Rightarrow> (case request of Some r \<Rightarrow> j = JStr r | None \<Rightarrow> False))"

definition rejected :: "ustr option \<Rightarrow> jobj \<Rightarrow> bool" where
  "rejected request event \<longleftrightarrow>
     event_is ''response'' event \<and> names_request request event \<and> map_of event (lit ''success'') = Some (JBool False)"

definition falsy :: "json \<Rightarrow> bool" where
  "falsy j \<longleftrightarrow> (case j of
     JNull \<Rightarrow> True | JBool b \<Rightarrow> \<not> b | JInt i \<Rightarrow> i = 0 | JFloat s \<Rightarrow> s \<in> {lit ''0.0'', lit ''-0.0''}
   | JStr s \<Rightarrow> s = [] | JList xs \<Rightarrow> xs = [] | JObj kvs \<Rightarrow> kvs = [])"

text \<open>\<open>py_str\<close> is \<open>str\<close> of a JSON value.\<close>

definition rejection_text :: "(json \<Rightarrow> ustr) \<Rightarrow> jobj \<Rightarrow> ustr" where
  "rejection_text py_str event =
     (case map_of event (lit ''error'') of
        Some j \<Rightarrow> if falsy j then lit ''Pi rejected the prompt'' else py_str j
      | None \<Rightarrow> lit ''Pi rejected the prompt'')"

definition verdict :: "(json \<Rightarrow> ustr) \<Rightarrow> ustr option \<Rightarrow> jobj \<Rightarrow> rpc_error option option" where
  "verdict py_str request event =
     (if rejected request event then Some (Some (CommandRejected (rejection_text py_str event)))
      else if event_is ''agent_settled'' event then Some None else None)"

section \<open>The reader thread\<close>

datatype reader_move = ReadNext incoming | Rendered callback | TakeActive | PutResult | RecordFailure | ReadStatus int

definition handler_failure :: "ustr \<Rightarrow> rpc_error" where
  "handler_failure detail = ProtocolError (lit ''Pi RPC event handler failed: '' @ detail)"

definition read_next :: "(json \<Rightarrow> ustr) \<Rightarrow> incoming \<Rightarrow> rpc \<Rightarrow> rpc" where
  "read_next py_str incoming s =
     (case incoming of
        Eof \<Rightarrow> s\<lparr>rp_reader := Finishing\<rparr>
      | NotJson \<Rightarrow> s\<lparr>rp_reader := Failing (ProtocolError (lit ''Pi RPC emitted invalid JSON''))\<rparr>
      | Broken detail \<Rightarrow> s\<lparr>rp_reader := Failing (handler_failure detail)\<rparr>
      | Parsed (JObj event) \<Rightarrow>
          s\<lparr>rp_reader := Handling (verdict py_str (map_option fst (rp_active s)) event), rp_heard := rp_heard s @ [event]\<rparr>
      | Parsed _ \<Rightarrow> s\<lparr>rp_reader := Failing (ProtocolError (lit ''Pi RPC emitted a non-object JSON value''))\<rparr>)"

definition put_nowait :: "nat \<Rightarrow> rpc_error option \<Rightarrow> rpc \<Rightarrow> rpc" where
  "put_nowait q result s = (if rp_queue s q = None then s\<lparr>rp_queue := (rp_queue s)(q \<mapsto> result)\<rparr> else s)"

inductive reader_step :: "(json \<Rightarrow> ustr) \<Rightarrow> reader_move \<Rightarrow> rpc \<Rightarrow> rpc \<Rightarrow> bool" for py_str where
  read: "rp_reader s = Reading \<Longrightarrow> reader_step py_str (ReadNext incoming) s (read_next py_str incoming s)"
| judged: "rp_reader s = Handling (Some result) \<Longrightarrow>
    reader_step py_str (Rendered Accepted) s (s\<lparr>rp_reader := Completing result Reading\<rparr>)"
| unjudged: "rp_reader s = Handling None \<Longrightarrow> reader_step py_str (Rendered Accepted) s (s\<lparr>rp_reader := Reading\<rparr>)"
| violated: "rp_reader s = Handling v \<Longrightarrow> reader_step py_str (Rendered (RaisesProtocol e)) s (s\<lparr>rp_reader := Failing e\<rparr>)"
| raised: "rp_reader s = Handling v \<Longrightarrow>
    reader_step py_str (Rendered (Raises detail)) s (s\<lparr>rp_reader := Failing (handler_failure detail)\<rparr>)"
| no_active: "rp_reader s = Completing result rest \<Longrightarrow> rp_active s = None \<Longrightarrow> reader_step py_str TakeActive s (s\<lparr>rp_reader := rest\<rparr>)"
| take: "rp_reader s = Completing result rest \<Longrightarrow> rp_active s = Some (r, q) \<Longrightarrow>
    reader_step py_str TakeActive s (s\<lparr>rp_reader := Holding q result rest\<rparr>)"
| put: "rp_reader s = Holding q result rest \<Longrightarrow> reader_step py_str PutResult s ((put_nowait q result s)\<lparr>rp_reader := rest\<rparr>)"
| failed: "rp_reader s = Failing e \<Longrightarrow>
    reader_step py_str RecordFailure s (s\<lparr>rp_error := Some e, rp_reader := Completing (Some e) Finishing\<rparr>)"
| finished: "rp_reader s = Finishing \<Longrightarrow>
    reader_step py_str (ReadStatus status) s
      (s\<lparr>rp_eof := True, rp_exit_status := status, rp_reader := Completing (Some (ProcessExited status)) Ended\<rparr>)"

section \<open>The thread that runs prompts\<close>

datatype prompt_move = Register | WritePrompt bool | GetResult | ClosePrompt

definition raise_at_once :: "ustr \<Rightarrow> rpc_error \<Rightarrow> rpc \<Rightarrow> rpc" where
  "raise_at_once request e s = s\<lparr>rp_prompt := NoPrompt, rp_log := rp_log s @ [(request, Some e)]\<rparr>"

definition register :: "ustr \<Rightarrow> ustr \<Rightarrow> rpc \<Rightarrow> rpc" where
  "register request message s =
     (case rp_error s of
        Some e \<Rightarrow> raise_at_once request e s
      | None \<Rightarrow>
          if rp_eof s then raise_at_once request (ProcessExited (rp_exit_status s)) s
          else s\<lparr>rp_active := Some (request, rp_fresh s), rp_queue := (rp_queue s)(rp_fresh s := None), rp_fresh := Suc (rp_fresh s),
                 rp_prompt := Sending (rp_fresh s) request message, rp_asked := rp_asked s @ [request]\<rparr>)"

definition write_failure :: rpc_error where
  "write_failure = ProtocolError (lit ''could not write a Pi RPC prompt'')"

inductive prompt_step :: "prompt_move \<Rightarrow> rpc \<Rightarrow> rpc \<Rightarrow> bool" where
  register: "rp_prompt s = Opening request message \<Longrightarrow> prompt_step Register s (register request message s)"
| written: "rp_prompt s = Sending q request message \<Longrightarrow>
    prompt_step (WritePrompt True) s
      (s\<lparr>rp_sent := rp_sent s @ [message_line request (lit ''prompt'') message], rp_prompt := Waiting q request\<rparr>)"
| unwritten: "rp_prompt s = Sending q request message \<Longrightarrow>
    prompt_step (WritePrompt False) s (s\<lparr>rp_prompt := Closing q request (Some write_failure)\<rparr>)"
| got: "rp_prompt s = Waiting q request \<Longrightarrow> rp_queue s q = Some result \<Longrightarrow>
    prompt_step GetResult s (s\<lparr>rp_queue := (rp_queue s)(q := None), rp_prompt := Closing q request result\<rparr>)"
| closed: "rp_prompt s = Closing q request result \<Longrightarrow>
    prompt_step ClosePrompt s
      (s\<lparr>rp_active := (if map_option snd (rp_active s) = Some q then None else rp_active s),
         rp_prompt := NoPrompt, rp_log := rp_log s @ [(request, result)]\<rparr>)"

text \<open>\<open>CallPrompt\<close> is a caller entering \<open>run_prompt\<close>; \<open>SendMessage\<close> is \<open>send_message\<close> from any other thread.\<close>

datatype move = ReaderMove reader_move | PromptMove prompt_move | CallPrompt ustr ustr | SendMessage ustr ustr ustr bool

inductive rpc_step :: "(json \<Rightarrow> ustr) \<Rightarrow> move \<Rightarrow> rpc \<Rightarrow> rpc \<Rightarrow> bool" for py_str where
  by_reader: "reader_step py_str m s s' \<Longrightarrow> rpc_step py_str (ReaderMove m) s s'"
| by_prompt: "prompt_step m s s' \<Longrightarrow> rpc_step py_str (PromptMove m) s s'"
| called: "rp_prompt s = NoPrompt \<Longrightarrow> rpc_step py_str (CallPrompt request message) s (s\<lparr>rp_prompt := Opening request message\<rparr>)"
| sent: "rpc_step py_str (SendMessage request kind message True) s (s\<lparr>rp_sent := rp_sent s @ [message_line request kind message]\<rparr>)"
| unsent: "rpc_step py_str (SendMessage request kind message False) s s"

inductive rpc_run :: "(json \<Rightarrow> ustr) \<Rightarrow> move list \<Rightarrow> rpc \<Rightarrow> rpc \<Rightarrow> bool" for py_str where
  stay: "rpc_run py_str [] s s"
| go: "rpc_step py_str m s s' \<Longrightarrow> rpc_run py_str ms s' s'' \<Longrightarrow> rpc_run py_str (m # ms) s s''"

inductive_cases rpc_runE: "rpc_run py_str [] s s'" "rpc_run py_str (m # ms) s s'"

definition rpc_reachable :: "(json \<Rightarrow> ustr) \<Rightarrow> rpc \<Rightarrow> bool" where
  "rpc_reachable py_str s \<longleftrightarrow> (\<exists>ms. rpc_run py_str ms new_session s)"

section \<open>What a read did\<close>

lemma read_next_cases:
  obtains (eof) "read_next py_str incoming s = s\<lparr>rp_reader := Finishing\<rparr>"
  | (fails) e where "read_next py_str incoming s = s\<lparr>rp_reader := Failing e\<rparr>"
  | (event) event where "incoming = Parsed (JObj event)"
      "read_next py_str incoming s = s\<lparr>rp_reader := Handling (verdict py_str (map_option fst (rp_active s)) event),
         rp_heard := rp_heard s @ [event]\<rparr>"
proof (cases incoming)
  case (Parsed j)
  then show thesis by (cases j) (auto intro: fails event simp: read_next_def)
qed (auto intro: eof fails simp: read_next_def)

section \<open>No wake-up is lost\<close>

text \<open>Whether the reader is still going to look at the queue of the active prompt, or holds queue \<open>q\<close>.\<close>

definition wakes :: "nat \<Rightarrow> reader_place \<Rightarrow> bool" where
  "wakes q rd \<longleftrightarrow> rd \<noteq> Ended \<and> (\<forall>q' x. rd = Holding q' x Ended \<longrightarrow> q' = q)"

definition at_end :: "reader_place \<Rightarrow> bool" where
  "at_end rd \<longleftrightarrow> rd = Ended \<or> (\<exists>x. rd = Completing x Ended) \<or> (\<exists>q x. rd = Holding q x Ended)"

definition well_placed :: "reader_place \<Rightarrow> bool" where
  "well_placed rd \<longleftrightarrow> (\<forall>x n. rd = Completing x n \<longrightarrow> n \<in> {Reading, Finishing, Ended}) \<and>
     (\<forall>q x n. rd = Holding q x n \<longrightarrow> n \<in> {Reading, Finishing, Ended})"

definition attended :: "rpc \<Rightarrow> bool" where
  "attended s \<longleftrightarrow>
     (case rp_prompt s of
        NoPrompt \<Rightarrow> rp_active s = None
      | Opening r m \<Rightarrow> rp_active s = None
      | Sending q r m \<Rightarrow> rp_active s = Some (r, q) \<and> (rp_queue s q \<noteq> None \<or> wakes q (rp_reader s))
      | Waiting q r \<Rightarrow> rp_active s = Some (r, q) \<and> (rp_queue s q \<noteq> None \<or> wakes q (rp_reader s))
      | Closing q r x \<Rightarrow> rp_active s = Some (r, q))"

definition rpc_inv :: "rpc \<Rightarrow> bool" where
  "rpc_inv s \<longleftrightarrow> well_placed (rp_reader s) \<and> (rp_eof s \<longleftrightarrow> at_end (rp_reader s)) \<and> attended s"

lemma rpc_inv_read:
  assumes "rpc_inv s" "rp_reader s = Reading"
  shows "rpc_inv (read_next py_str incoming s)"
  using assms unfolding rpc_inv_def
  by (cases rule: read_next_cases [of py_str incoming s])
    (auto simp: well_placed_def at_end_def attended_def wakes_def split: prompt_place.splits)

lemma rpc_inv_reader: "reader_step py_str m s s' \<Longrightarrow> rpc_inv s \<Longrightarrow> rpc_inv s'"
proof (induction rule: reader_step.induct)
  case (put s q result rest)
  then show ?case
    by (auto simp: rpc_inv_def well_placed_def at_end_def attended_def wakes_def put_nowait_def split: prompt_place.splits)
qed (auto simp: rpc_inv_read, auto simp: rpc_inv_def well_placed_def at_end_def attended_def wakes_def split: prompt_place.splits)

lemma rpc_inv_prompt: "prompt_step m s s' \<Longrightarrow> rpc_inv s \<Longrightarrow> rpc_inv s'"
proof (induction rule: prompt_step.induct)
  case (register s request message)
  have "wakes q (rp_reader s)" if "\<not> rp_eof s" for q
    using register that by (auto simp: rpc_inv_def at_end_def wakes_def)
  then show ?case using register
    by (auto simp: rpc_inv_def attended_def register_def raise_at_once_def split: option.splits)
qed (auto simp: rpc_inv_def attended_def)

lemma rpc_inv_step: "rpc_step py_str m s s' \<Longrightarrow> rpc_inv s \<Longrightarrow> rpc_inv s'"
proof (induction rule: rpc_step.induct)
  case (by_reader m s s')
  then show ?case using rpc_inv_reader by blast
next
  case (by_prompt m s s')
  then show ?case using rpc_inv_prompt by blast
qed (auto simp: rpc_inv_def attended_def split: prompt_place.splits)

lemma rpc_inv_new: "rpc_inv new_session"
  by (simp add: rpc_inv_def well_placed_def at_end_def attended_def new_session_def)

lemma rpc_inv_run: "rpc_run py_str ms s s' \<Longrightarrow> rpc_inv s \<Longrightarrow> rpc_inv s'"
  by (induction rule: rpc_run.induct) (use rpc_inv_step in blast)+

section \<open>Prompts return\<close>

text \<open>The moves a prompt and, after the end of the output, the reader still make.\<close>

definition reader_rank :: "reader_place \<Rightarrow> nat" where
  "reader_rank rd = (if rd = Finishing then 3 else if \<exists>x. rd = Completing x Ended then 2 else if \<exists>q x. rd = Holding q x Ended then 1 else 0)"

definition prompt_rank :: "prompt_place \<Rightarrow> nat" where
  "prompt_rank p = (case p of NoPrompt \<Rightarrow> 0 | Opening _ _ \<Rightarrow> 4 | Sending _ _ _ \<Rightarrow> 3 | Waiting _ _ \<Rightarrow> 2 | Closing _ _ _ \<Rightarrow> 1)"

definition output_ended :: "rpc \<Rightarrow> bool" where
  "output_ended s \<longleftrightarrow> rp_reader s = Finishing \<or> at_end (rp_reader s)"

fun working :: "move \<Rightarrow> bool" where
  "working (ReaderMove _) = True" | "working (PromptMove _) = True" | "working (CallPrompt _ _) = False"
| "working (SendMessage _ _ _ _) = False"

fun calls :: "move \<Rightarrow> bool" where
  "calls (CallPrompt _ _) = True" | "calls _ = False"

abbreviation rpc_rank :: "rpc \<Rightarrow> nat" where
  "rpc_rank s \<equiv> reader_rank (rp_reader s) + prompt_rank (rp_prompt s)"

lemma reader_rank_step:
  "reader_step py_str m s s' \<Longrightarrow> output_ended s \<Longrightarrow>
    output_ended s' \<and> reader_rank (rp_reader s') < reader_rank (rp_reader s) \<and> rp_prompt s' = rp_prompt s"
  by (induction rule: reader_step.induct) (auto simp: output_ended_def at_end_def reader_rank_def put_nowait_def)

lemma prompt_rank_step:
  "prompt_step m s s' \<Longrightarrow> rp_reader s' = rp_reader s \<and> prompt_rank (rp_prompt s') < prompt_rank (rp_prompt s)"
  by (induction rule: prompt_step.induct) (auto simp: prompt_rank_def register_def raise_at_once_def split: option.splits)

lemma rank_step:
  "rpc_step py_str m s s' \<Longrightarrow> output_ended s \<Longrightarrow> \<not> calls m \<Longrightarrow>
    output_ended s' \<and> rpc_rank s' + (if working m then 1 else 0) \<le> rpc_rank s"
proof (induction rule: rpc_step.induct)
  case (by_reader m s s')
  then show ?case using reader_rank_step [of py_str m s s'] by simp
next
  case (by_prompt m s s')
  then show ?case using prompt_rank_step [of m s s'] by (simp add: output_ended_def)
qed (auto simp: output_ended_def)

lemma rank_run:
  "rpc_run py_str ms s s' \<Longrightarrow> output_ended s \<Longrightarrow> \<forall>m\<in>set ms. \<not> calls m \<Longrightarrow>
    output_ended s' \<and> rpc_rank s' + length (filter working ms) \<le> rpc_rank s"
proof (induction rule: rpc_run.induct)
  case (go m s s' ms s'')
  then have "output_ended s' \<and> rpc_rank s' + (if working m then 1 else 0) \<le> rpc_rank s"
    using rank_step by simp
  then show ?case using go.IH go.prems(2) by fastforce
qed simp

lemma reader_enabled: "output_ended s \<Longrightarrow> rp_reader s \<noteq> Ended \<Longrightarrow> \<exists>m s'. reader_step py_str m s s'"
  unfolding output_ended_def at_end_def
  by (cases "rp_active s") (auto intro: reader_step.intros)

lemma prompt_enabled:
  assumes "rp_prompt s \<noteq> NoPrompt" "\<And>q r. rp_prompt s = Waiting q r \<Longrightarrow> rp_queue s q \<noteq> None"
  shows "\<exists>m s'. prompt_step m s s'"
proof (cases "rp_prompt s")
  case (Waiting q r)
  then obtain x where "rp_queue s q = Some x" using assms(2) by blast
  then show ?thesis using got [OF Waiting] by blast
next
  case (Closing q r x)
  then show ?thesis by (intro exI) (rule prompt_step.closed)
qed (use assms(1) prompt_step.intros in blast)+

lemma working_enabled:
  assumes "rpc_inv s" "rp_prompt s \<noteq> NoPrompt" "output_ended s"
  shows "\<exists>m s'. working m \<and> rpc_step py_str m s s'"
proof (cases "rp_reader s = Ended")
  case False
  then show ?thesis using reader_enabled [OF assms(3)] by_reader working.simps(1) by metis
next
  case True
  have "rp_queue s q \<noteq> None" if "rp_prompt s = Waiting q r" for q r
    using that assms(1) True by (auto simp: rpc_inv_def attended_def wakes_def)
  then show ?thesis using prompt_enabled [OF assms(2)] by_prompt working.simps(2) by metis
qed

text \<open>C14: no wake-up is lost: however the threads interleave, once the output of Pi has ended and no new prompt is called, the
  reader and the prompt make at most seven more moves, and they can move until the prompt has returned or raised.\<close>

theorem prompt_returns:
  assumes "rpc_reachable py_str s" "output_ended s" "rpc_run py_str ms s s'" "\<forall>m\<in>set ms. \<not> calls m"
  shows "length (filter working ms) \<le> 7 \<and> (rp_prompt s' = NoPrompt \<or> (\<exists>m s''. working m \<and> rpc_step py_str m s' s''))"
proof -
  note r = rank_run [OF assms(3,2,4)]
  have "rpc_rank s \<le> 7" by (auto simp: reader_rank_def prompt_rank_def split: prompt_place.splits)
  moreover have "rpc_inv s'" using rpc_inv_run rpc_inv_new assms(1,3) unfolding rpc_reachable_def by blast
  ultimately show ?thesis using r working_enabled [of s' py_str] by fastforce
qed

section \<open>What an outcome means\<close>

inductive explained :: "(json \<Rightarrow> ustr) \<Rightarrow> rpc \<Rightarrow> rpc_error option \<Rightarrow> bool" for py_str s where
  by_settled: "event \<in> set (rp_heard s) \<Longrightarrow> event_is ''agent_settled'' event \<Longrightarrow> explained py_str s None"
| by_failure: "rp_error s = Some e \<Longrightarrow> explained py_str s (Some e)"
| by_write: "explained py_str s (Some write_failure)"
| by_exit: "rp_eof s \<Longrightarrow> rp_exit_status s = n \<Longrightarrow> explained py_str s (Some (ProcessExited n))"
| by_response: "event \<in> set (rp_heard s) \<Longrightarrow> rejected request event \<Longrightarrow> set_option request \<subseteq> set (rp_asked s) \<Longrightarrow>
    explained py_str s (Some (CommandRejected (rejection_text py_str event)))"

text \<open>The reader reads no further line: it has failed or come to the end.\<close>

fun doomed :: "reader_place \<Rightarrow> bool" where
  "doomed Finishing = True"
| "doomed Ended = True"
| "doomed (Completing _ rest) = doomed rest"
| "doomed (Holding _ _ rest) = doomed rest"
| "doomed _ = False"

definition carried :: "reader_place \<Rightarrow> rpc_error option option" where
  "carried rd = (case rd of Handling v \<Rightarrow> v | Completing x n \<Rightarrow> Some x | Holding q x n \<Rightarrow> Some x | _ \<Rightarrow> None)"

definition explained_inv :: "(json \<Rightarrow> ustr) \<Rightarrow> rpc \<Rightarrow> bool" where
  "explained_inv py_str s \<longleftrightarrow> rpc_inv s \<and> (\<not> doomed (rp_reader s) \<longrightarrow> rp_error s = None) \<and>
     (\<forall>x. carried (rp_reader s) = Some x \<longrightarrow> explained py_str s x) \<and>
     (\<forall>q x. rp_queue s q = Some x \<longrightarrow> explained py_str s x) \<and>
     (\<forall>q r x. rp_prompt s = Closing q r x \<longrightarrow> explained py_str s x) \<and>
     (\<forall>(r, x)\<in>set (rp_log s). explained py_str s x) \<and>
     (\<forall>r q. rp_active s = Some (r, q) \<longrightarrow> r \<in> set (rp_asked s))"

text \<open>An explanation stays one: the error and the end of the output are stored once.\<close>

definition extends :: "rpc \<Rightarrow> rpc \<Rightarrow> bool" where
  "extends s s' \<longleftrightarrow> set (rp_heard s) \<subseteq> set (rp_heard s') \<and> set (rp_asked s) \<subseteq> set (rp_asked s') \<and>
     (\<forall>e. rp_error s = Some e \<longrightarrow> rp_error s' = Some e) \<and>
     (rp_eof s \<longrightarrow> rp_eof s' \<and> rp_exit_status s' = rp_exit_status s)"

lemma explained_extends: "explained py_str s x \<Longrightarrow> extends s s' \<Longrightarrow> explained py_str s' x"
proof (induction rule: explained.induct)
  case (by_exit n)
  then show ?case by (intro explained.by_exit) (auto simp: extends_def)
qed (auto simp: extends_def intro: explained.intros)

lemma extends_reader: "reader_step py_str m s s' \<Longrightarrow> explained_inv py_str s \<Longrightarrow> extends s s'"
proof (induction rule: reader_step.induct)
  case (read s incoming)
  then show ?case by (cases rule: read_next_cases [of py_str incoming s]) (auto simp: extends_def)
qed (auto simp: extends_def put_nowait_def explained_inv_def rpc_inv_def at_end_def)

lemma extends_prompt: "prompt_step m s s' \<Longrightarrow> extends s s'"
  by (induction rule: prompt_step.induct) (auto simp: extends_def register_def raise_at_once_def split: option.splits)

lemma extends_step: "rpc_step py_str m s s' \<Longrightarrow> explained_inv py_str s \<Longrightarrow> extends s s'"
proof (induction rule: rpc_step.induct)
  case (by_reader m s s')
  then show ?case by (rule extends_reader)
next
  case (by_prompt m s s')
  then show ?case using extends_prompt by blast
qed (auto simp: extends_def)

lemma verdict_explained:
  assumes "verdict py_str (map_option fst (rp_active s)) event = Some x" "\<And>r q. rp_active s = Some (r, q) \<Longrightarrow> r \<in> set (rp_asked s)"
    "event \<in> set (rp_heard s')" "set (rp_asked s) \<subseteq> set (rp_asked s')"
  shows "explained py_str s' x"
proof (cases "rejected (map_option fst (rp_active s)) event")
  case True
  have "set_option (map_option fst (rp_active s)) \<subseteq> set (rp_asked s')"
    using assms(2,4) by (auto simp: subset_iff)
  from explained.by_response [OF assms(3) True this] show ?thesis using assms(1) True by (auto simp: verdict_def)
next
  case False
  then show ?thesis using assms(1) explained.by_settled [OF assms(3)] by (auto simp: verdict_def split: if_splits)
qed

lemma explained_inv_step:
  assumes "explained_inv py_str s" "extends s s'" "rpc_inv s'" "\<not> doomed (rp_reader s') \<longrightarrow> rp_error s' = None"
    and "\<And>x. carried (rp_reader s') = Some x \<Longrightarrow> carried (rp_reader s) = Some x \<or> explained py_str s' x"
    and "\<And>q x. rp_queue s' q = Some x \<Longrightarrow> rp_queue s q = Some x \<or> carried (rp_reader s) = Some x"
    and "\<And>q r x. rp_prompt s' = Closing q r x \<Longrightarrow> rp_prompt s = Closing q r x \<or> rp_queue s q = Some x \<or> explained py_str s' x"
    and "\<And>r x. (r, x) \<in> set (rp_log s') \<Longrightarrow> (r, x) \<in> set (rp_log s) \<or> (\<exists>q. rp_prompt s = Closing q r x) \<or> explained py_str s' x"
    and "\<And>r q. rp_active s' = Some (r, q) \<Longrightarrow> rp_active s = Some (r, q) \<or> r \<in> set (rp_asked s')"
  shows "explained_inv py_str s'"
proof -
  have old: "explained py_str s' x" if "explained py_str s x" for x by (rule explained_extends [OF that assms(2)])
  have i: "\<And>x. carried (rp_reader s) = Some x \<Longrightarrow> explained py_str s x" "\<And>q x. rp_queue s q = Some x \<Longrightarrow> explained py_str s x"
    "\<And>q r x. rp_prompt s = Closing q r x \<Longrightarrow> explained py_str s x" "\<And>r x. (r, x) \<in> set (rp_log s) \<Longrightarrow> explained py_str s x"
    "\<And>r q. rp_active s = Some (r, q) \<Longrightarrow> r \<in> set (rp_asked s)"
    using assms(1) unfolding explained_inv_def by blast+
  have a: "set (rp_asked s) \<subseteq> set (rp_asked s')" using assms(2) by (simp add: extends_def)
  show ?thesis unfolding explained_inv_def
  proof (intro conjI allI impI ballI)
    show "rpc_inv s'" by (rule assms(3))
    show "rp_error s' = None" if "\<not> doomed (rp_reader s')" using assms(4) that by blast
    show "explained py_str s' x" if "carried (rp_reader s') = Some x" for x using assms(5) [OF that] i(1) old by blast
    show "explained py_str s' x" if "rp_queue s' q = Some x" for q x using assms(6) [OF that] i(1,2) old by blast
    show "explained py_str s' x" if "rp_prompt s' = Closing q r x" for q r x using assms(7) [OF that] i(2,3) old by blast
    show "case y of (r, x) \<Rightarrow> explained py_str s' x" if "y \<in> set (rp_log s')" for y
    proof -
      obtain r x where y: "y = (r, x)" by fastforce
      show ?thesis using that assms(8) [of r x] i(3,4) old unfolding y by blast
    qed
    show "r \<in> set (rp_asked s')" if "rp_active s' = Some (r, q)" for r q using assms(9) [OF that] i(5) a by blast
  qed
qed

lemma explained_reader:
  assumes "reader_step py_str m s s'" "explained_inv py_str s"
  shows "explained_inv py_str s'"
proof (rule explained_inv_step [OF assms(2) extends_reader [OF assms]])
  note inv = assms(2)
  show "rpc_inv s'" using rpc_inv_reader assms unfolding explained_inv_def by blast
  show "\<not> doomed (rp_reader s') \<longrightarrow> rp_error s' = None"
    using assms
  proof (induction rule: reader_step.induct)
    case (read s incoming)
    then show ?case by (cases rule: read_next_cases [of py_str incoming s]) (auto simp: explained_inv_def)
  qed (auto simp: explained_inv_def put_nowait_def)
  show "carried (rp_reader s) = Some x \<or> explained py_str s' x" if "carried (rp_reader s') = Some x" for x
    using assms that
  proof (induction rule: reader_step.induct)
    case (read s incoming)
    show ?case
    proof (cases rule: read_next_cases [of py_str incoming s])
      case (event e)
      then have "verdict py_str (map_option fst (rp_active s)) e = Some x" using read(3) by (simp add: carried_def)
      then show ?thesis unfolding event(2)
        by (intro disjI2 verdict_explained) (use read(2) in \<open>auto simp: explained_inv_def\<close>)
    qed (use read(3) in \<open>simp_all add: carried_def\<close>)
  next
    case (no_active s result rest)
    then show ?case by (auto simp: carried_def explained_inv_def rpc_inv_def well_placed_def split: reader_place.splits)
  next
    case (put s q result rest)
    then show ?case by (auto simp: carried_def explained_inv_def rpc_inv_def well_placed_def split: reader_place.splits)
  qed (auto simp: carried_def intro: explained.intros)
  show "rp_queue s q = Some x \<or> carried (rp_reader s) = Some x" if "rp_queue s' q = Some x" for q x
    using assms(1) that
  proof (induction rule: reader_step.induct)
    case (read s incoming)
    then show ?case by (cases rule: read_next_cases [of py_str incoming s]) auto
  qed (auto simp: put_nowait_def carried_def split: if_splits)
  have same: "rp_prompt s' = rp_prompt s \<and> rp_log s' = rp_log s \<and> rp_active s' = rp_active s"
    using assms(1)
  proof (induction rule: reader_step.induct)
    case (read s incoming)
    then show ?case by (cases rule: read_next_cases [of py_str incoming s]) auto
  qed (auto simp: put_nowait_def)
  then show "rp_prompt s = Closing q r x \<or> rp_queue s q = Some x \<or> explained py_str s' x" if "rp_prompt s' = Closing q r x" for q r x
    using that by simp
  show "(r, x) \<in> set (rp_log s) \<or> (\<exists>q. rp_prompt s = Closing q r x) \<or> explained py_str s' x" if "(r, x) \<in> set (rp_log s')" for r x
    using same that by simp
  show "rp_active s = Some (r, q) \<or> r \<in> set (rp_asked s')" if "rp_active s' = Some (r, q)" for r q
    using same that by simp
qed

lemma explained_prompt:
  assumes "prompt_step m s s'" "explained_inv py_str s"
  shows "explained_inv py_str s'"
proof (rule explained_inv_step [OF assms(2) extends_prompt [OF assms(1)]])
  show "rpc_inv s'" using rpc_inv_prompt assms unfolding explained_inv_def by blast
  have same: "rp_reader s' = rp_reader s" "rp_error s' = rp_error s"
    using assms(1) by (induction rule: prompt_step.induct) (auto simp: register_def raise_at_once_def split: option.splits)
  then show "\<not> doomed (rp_reader s') \<longrightarrow> rp_error s' = None" using assms(2) by (simp add: explained_inv_def)
  show "carried (rp_reader s) = Some x \<or> explained py_str s' x" if "carried (rp_reader s') = Some x" for x
    using that same by simp
  show "rp_queue s q = Some x \<or> carried (rp_reader s) = Some x" if "rp_queue s' q = Some x" for q x
    using assms(1) that
    by (induction rule: prompt_step.induct) (auto simp: register_def raise_at_once_def split: option.splits if_splits)
  show "rp_prompt s = Closing q r x \<or> rp_queue s q = Some x \<or> explained py_str s' x" if "rp_prompt s' = Closing q r x" for q r x
    using assms(1) that
    by (induction rule: prompt_step.induct)
      (auto simp: register_def raise_at_once_def split: option.splits if_splits intro: explained.intros)
  show "(r, x) \<in> set (rp_log s) \<or> (\<exists>q. rp_prompt s = Closing q r x) \<or> explained py_str s' x" if "(r, x) \<in> set (rp_log s')" for r x
    using assms(1) that
    by (induction rule: prompt_step.induct)
      (auto simp: register_def raise_at_once_def split: option.splits if_splits intro: explained.intros)
  show "rp_active s = Some (r, q) \<or> r \<in> set (rp_asked s')" if "rp_active s' = Some (r, q)" for r q
    using assms(1) that
    by (induction rule: prompt_step.induct) (auto simp: register_def raise_at_once_def split: option.splits if_splits)
qed

lemma explained_step:
  "rpc_step py_str m s s' \<Longrightarrow> explained_inv py_str s \<Longrightarrow> explained_inv py_str s'"
proof (induction rule: rpc_step.induct)
  case (called s request message)
  show ?case
    by (rule explained_inv_step [OF called(2)])
      (use called rpc_inv_step [OF rpc_step.called [OF called(1)]] in \<open>auto simp: extends_def explained_inv_def\<close>)
next
  case (sent request kind message s)
  show ?case
    by (rule explained_inv_step [OF sent]) (use sent rpc_inv_step [OF rpc_step.sent] in \<open>auto simp: extends_def explained_inv_def\<close>)
qed (use explained_reader explained_prompt in blast)+

lemma explained_run: "rpc_run py_str ms s s' \<Longrightarrow> explained_inv py_str s \<Longrightarrow> explained_inv py_str s'"
  by (induction rule: rpc_run.induct) (use explained_step in blast)+

lemma explained_new: "explained_inv py_str new_session"
  using rpc_inv_new by (auto simp: explained_inv_def new_session_def carried_def)


section \<open>Lines\<close>

lemma hex_digit_plain: "n < 16 \<Longrightarrow> 32 \<le> hex_digit n \<and> hex_digit n < 127"
  by (auto simp: hex_digit_def)

lemma u_escape_plain: "c \<in> set (u_escape n) \<Longrightarrow> 32 \<le> c \<and> c < 127"
  using hex_digit_plain by (auto simp: u_escape_def hex4_def)

lemma dump_char_plain: "c \<in> set (dump_char True d) \<Longrightarrow> 32 \<le> c \<and> c < 127"
  by (auto simp: dump_char_def split: if_splits dest: u_escape_plain)

lemma dump_str_plain: "c \<in> set (dump_str True s) \<Longrightarrow> 32 \<le> c \<and> c < 127"
  by (auto simp: dump_str_def dest: dump_char_plain)

text \<open>A message is exactly one line: printable ASCII, and the line feed that ends it.\<close>

theorem one_line_each:
  "\<exists>body. message_line request kind message = body @ [10] \<and> set body \<subseteq> {32..<127}"
proof -
  let ?body = "dump_compact True (JObj [(lit ''id'', JStr request), (lit ''type'', JStr kind), (lit ''message'', JStr message)])"
  have "set ?body \<subseteq> {32..<127}" by (auto dest: dump_str_plain)
  then show ?thesis by (simp add: message_line_def)
qed

section \<open>Executing moves\<close>

text \<open>A move determines the step; \<open>None\<close> when it is not enabled.\<close>

fun reader_next :: "(json \<Rightarrow> ustr) \<Rightarrow> reader_place \<Rightarrow> reader_move \<Rightarrow> rpc \<Rightarrow> rpc option" where
  "reader_next py_str Reading (ReadNext incoming) s = Some (read_next py_str incoming s)"
| "reader_next py_str (Handling (Some result)) (Rendered Accepted) s = Some (s\<lparr>rp_reader := Completing result Reading\<rparr>)"
| "reader_next py_str (Handling None) (Rendered Accepted) s = Some (s\<lparr>rp_reader := Reading\<rparr>)"
| "reader_next py_str (Handling v) (Rendered (RaisesProtocol e)) s = Some (s\<lparr>rp_reader := Failing e\<rparr>)"
| "reader_next py_str (Handling v) (Rendered (Raises detail)) s = Some (s\<lparr>rp_reader := Failing (handler_failure detail)\<rparr>)"
| "reader_next py_str (Completing result rest) TakeActive s =
     Some (s\<lparr>rp_reader := (case rp_active s of None \<Rightarrow> rest | Some (r, q) \<Rightarrow> Holding q result rest)\<rparr>)"
| "reader_next py_str (Holding q result rest) PutResult s = Some ((put_nowait q result s)\<lparr>rp_reader := rest\<rparr>)"
| "reader_next py_str (Failing e) RecordFailure s = Some (s\<lparr>rp_error := Some e, rp_reader := Completing (Some e) Finishing\<rparr>)"
| "reader_next py_str Finishing (ReadStatus n) s =
     Some (s\<lparr>rp_eof := True, rp_exit_status := n, rp_reader := Completing (Some (ProcessExited n)) Ended\<rparr>)"
| "reader_next py_str rd m s = None"

fun prompt_next :: "prompt_place \<Rightarrow> prompt_move \<Rightarrow> rpc \<Rightarrow> rpc option" where
  "prompt_next (Opening request message) Register s = Some (register request message s)"
| "prompt_next (Sending q request message) (WritePrompt True) s =
     Some (s\<lparr>rp_sent := rp_sent s @ [message_line request (lit ''prompt'') message], rp_prompt := Waiting q request\<rparr>)"
| "prompt_next (Sending q request message) (WritePrompt False) s = Some (s\<lparr>rp_prompt := Closing q request (Some write_failure)\<rparr>)"
| "prompt_next (Waiting q request) GetResult s =
     map_option (\<lambda>x. s\<lparr>rp_queue := (rp_queue s)(q := None), rp_prompt := Closing q request x\<rparr>) (rp_queue s q)"
| "prompt_next (Closing q request x) ClosePrompt s =
     Some (s\<lparr>rp_active := (if map_option snd (rp_active s) = Some q then None else rp_active s),
             rp_prompt := NoPrompt, rp_log := rp_log s @ [(request, x)]\<rparr>)"
| "prompt_next p m s = None"

fun exec_moves :: "(json \<Rightarrow> ustr) \<Rightarrow> move list \<Rightarrow> rpc \<Rightarrow> rpc option" where
  "exec_moves py_str [] s = Some s"
| "exec_moves py_str (ReaderMove m # ms) s = Option.bind (reader_next py_str (rp_reader s) m s) (exec_moves py_str ms)"
| "exec_moves py_str (PromptMove m # ms) s = Option.bind (prompt_next (rp_prompt s) m s) (exec_moves py_str ms)"
| "exec_moves py_str (CallPrompt request message # ms) s =
     (if rp_prompt s = NoPrompt then exec_moves py_str ms (s\<lparr>rp_prompt := Opening request message\<rparr>) else None)"
| "exec_moves py_str (SendMessage request kind message written # ms) s =
     exec_moves py_str ms (if written then s\<lparr>rp_sent := rp_sent s @ [message_line request kind message]\<rparr> else s)"

lemma reader_next_step: "reader_next py_str rd m s = Some s' \<Longrightarrow> rp_reader s = rd \<Longrightarrow> reader_step py_str m s s'"
  by (induction py_str rd m s rule: reader_next.induct) (auto intro: reader_step.intros split: option.splits)

lemma prompt_next_step: "prompt_next p m s = Some s' \<Longrightarrow> rp_prompt s = p \<Longrightarrow> prompt_step m s s'"
proof (induction p m s rule: prompt_next.induct)
  case (5 q request x s)
  then show ?case using prompt_step.closed [OF 5(2)] by simp
qed (auto intro: prompt_step.intros)

lemma exec_moves_run: "exec_moves py_str ms s = Some s' \<Longrightarrow> rpc_run py_str ms s s'"
proof (induction py_str ms s rule: exec_moves.induct)
  case (5 py_str request kind message written ms s)
  then show ?case by (cases written) (auto intro: rpc_run.go rpc_step.sent rpc_step.unsent)
qed (auto intro: rpc_run.intros rpc_step.intros reader_next_step prompt_next_step split: bind_splits if_splits)

section \<open>Witnesses\<close>

definition ex_settled :: incoming where
  "ex_settled = Parsed (JObj [(lit ''type'', JStr (lit ''agent_settled''))])"

text \<open>A prompt that Pi settles before its output ends.\<close>

definition ex_moves :: "move list" where
  "ex_moves = [CallPrompt (lit ''initial'') (lit ''go''), PromptMove Register, PromptMove (WritePrompt True), ReaderMove (ReadNext ex_settled),
     ReaderMove (Rendered Accepted), ReaderMove TakeActive, ReaderMove PutResult, ReaderMove (ReadNext Eof)]"

definition ex_session :: rpc where
  "ex_session = the (exec_moves (\<lambda>j. []) ex_moves new_session)"

lemma ex_session_reached: "rpc_run (\<lambda>j. []) ex_moves new_session ex_session" "rp_reader ex_session = Finishing"
    "rp_prompt ex_session = Waiting 0 (lit ''initial'')"
proof -
  have "exec_moves (\<lambda>j. []) ex_moves new_session \<noteq> None" "rp_reader (the (exec_moves (\<lambda>j. []) ex_moves new_session)) = Finishing"
    "rp_prompt (the (exec_moves (\<lambda>j. []) ex_moves new_session)) = Waiting 0 (lit ''initial'')" by code_simp+
  then show "rpc_run (\<lambda>j. []) ex_moves new_session ex_session" "rp_reader ex_session = Finishing"
    "rp_prompt ex_session = Waiting 0 (lit ''initial'')" unfolding ex_session_def by (auto intro: exec_moves_run)
qed

lemma prompt_returns_witness:
  "rp_prompt ex_session \<noteq> NoPrompt \<and> (\<exists>m s''. working m \<and> rpc_step (\<lambda>j. []) m ex_session s'')"
proof -
  have "rpc_reachable (\<lambda>j. []) ex_session" using ex_session_reached(1) unfolding rpc_reachable_def by blast
  from prompt_returns [OF this _ rpc_run.stay] show ?thesis using ex_session_reached by (simp add: output_ended_def)
qed

text \<open>The output then ends with status 0, and the prompt returns.\<close>

definition ex_end :: "move list" where
  "ex_end = [PromptMove GetResult, PromptMove ClosePrompt, ReaderMove (ReadStatus 0), ReaderMove TakeActive,
     CallPrompt (lit ''next'') [], PromptMove Register]"


text \<open>What the reader found out before a prompt registers is given to that prompt when it registers while the callback runs: here
  the prompt returns although nothing was read after it was sent.  A session that runs one prompt, as that of
  \<open>agent-pi-interactive\<close>, is not affected unless Pi reports a settled agent before it.\<close>

lemma stale_settlement:
  "\<exists>s. rpc_reachable (\<lambda>j. []) s \<and> rp_log s = [(lit ''late'', None)] \<and> length (rp_heard s) = 1"
proof -
  let ?ms = "[ReaderMove (ReadNext ex_settled), CallPrompt (lit ''late'') [], PromptMove Register, ReaderMove (Rendered Accepted),
     ReaderMove TakeActive, ReaderMove PutResult, PromptMove (WritePrompt True), PromptMove GetResult, PromptMove ClosePrompt]"
  have "exec_moves (\<lambda>j. []) ?ms new_session \<noteq> None" "rp_log (the (exec_moves (\<lambda>j. []) ?ms new_session)) = [(lit ''late'', None)]"
    "length (rp_heard (the (exec_moves (\<lambda>j. []) ?ms new_session))) = 1" by code_simp+
  then show ?thesis using exec_moves_run unfolding rpc_reachable_def by fastforce
qed

end
