(* ===== verification/Queue_Reader.thy ===== *)
theory Queue_Reader imports Queue Paths begin

text \<open>
  \<open>src/cyclo/components/team/agentws/tools/queue_reader.py\<close> and \<open>task_read.py\<close>: reads of a queue that follow no link and
  have limits, and the two commands that print tasks.  The root directory is open: its entries are a \<open>qdir\<close> that does
  not change while a command runs.  \<open>fifo_writable\<close> and times of directories are not modelled.
\<close>

section \<open>Names and terminal text\<close>

definition READER_MAX_ENTRIES :: nat where "READER_MAX_ENTRIES = 4096"
definition READER_MAX_FILE_BYTES :: nat where "READER_MAX_FILE_BYTES = 2 * 1024 * 1024"
definition READER_MAX_READ_BYTES :: nat where "READER_MAX_READ_BYTES = 16 * 1024 * 1024"

text \<open>A failed read: \<open>QueueLimitError\<close>, \<open>FileNotFoundError\<close>, another \<open>OSError\<close>, or a \<open>ValueError\<close>.\<close>

datatype read_error = LimitError | NotFound | OSFailure | BadValue string

definition validate_queue_id :: "ustr \<Rightarrow> read_error + ustr" where
  "validate_queue_id value = (if safe_queue_id value then Inr value else Inl (BadValue ''invalid queue ID''))"

definition validate_task_state :: "ustr \<Rightarrow> read_error + ustr" where
  "validate_task_state value =
     (if value \<in> {lit ''open'', lit ''done''} then Inr value else Inl (BadValue ''invalid task state''))"

text \<open>The characters of the categories Cc, Cf and Cs of Unicode 14.\<close>

definition hidden_ranges :: "(nat \<times> nat) list" where
  "hidden_ranges =
     [(0, 31), (127, 159), (173, 173), (1536, 1541), (1564, 1564), (1757, 1757), (1807, 1807), (2192, 2193), (2274, 2274),
      (6158, 6158), (8203, 8207), (8234, 8238), (8288, 8292), (8294, 8303), (55296, 57343), (65279, 65279), (65529, 65531),
      (69821, 69821), (69837, 69837), (78896, 78904), (113824, 113827), (119155, 119162), (917505, 917505), (917536, 917631)]"

definition hidden_char :: "uchar \<Rightarrow> bool" where
  "hidden_char c \<longleftrightarrow> list_ex (\<lambda>(lo, hi). lo \<le> c \<and> c \<le> hi) hidden_ranges"

text \<open>\<open>f"{n:0kx}"\<close>: lower-case hexadecimal digits, at least \<open>k\<close>.\<close>

fun hex_digits :: "nat \<Rightarrow> nat \<Rightarrow> ustr" where
  "hex_digits 0 n = []"
| "hex_digits (Suc k) n = hex_digits k (n div 16) @ [hex_digit (n mod 16)]"

definition visible_char :: "uchar \<Rightarrow> ustr" where
  "visible_char c =
     (if c = 10 \<or> c = 9 \<or> \<not> hidden_char c then [c]
      else if c \<le> 255 then [92, 120] @ hex_digits 2 c
      else if c \<le> 65535 then [92, 117] @ hex_digits 4 c
      else [92, 85] @ hex_digits 8 c)"

definition terminal_safe :: "ustr \<Rightarrow> ustr" where
  "terminal_safe value = concat (map visible_char value)"

section \<open>The reader\<close>

record reader =
  rd_root :: qdir
  rd_max_entries :: nat
  rd_max_file_bytes :: nat
  rd_max_read_bytes :: nat
  rd_entries_seen :: nat
  rd_bytes_read :: nat

definition make_reader :: "qdir \<Rightarrow> int \<Rightarrow> int \<Rightarrow> int \<Rightarrow> read_error + reader" where
  "make_reader root max_entries max_file_bytes max_read_bytes =
     rbind (ensure (0 \<le> max_entries) (BadValue ''max_entries must be non-negative'')) (\<lambda>_.
     rbind (ensure (0 \<le> max_file_bytes) (BadValue ''max_file_bytes must be non-negative'')) (\<lambda>_.
     rbind (ensure (0 \<le> max_read_bytes) (BadValue ''max_read_bytes must be non-negative'')) (\<lambda>_.
     Inr \<lparr>rd_root = root, rd_max_entries = nat max_entries, rd_max_file_bytes = nat max_file_bytes,
          rd_max_read_bytes = nat max_read_bytes, rd_entries_seen = 0, rd_bytes_read = 0\<rparr>)))"

text \<open>A relative path is given by its components, \<open>Path(*relative)\<close>.\<close>

definition reader_parts :: "ustr list \<Rightarrow> read_error + ustr list" where
  "reader_parts relative =
     (let path = foldl (\<lambda>p s. joinpath p (path_of s)) (Path [] []) relative in
      if is_absolute path \<or> list_ex (\<lambda>x. x \<in> {[], lit ''.'', lit ''..''}) (parts path)
      then Inl (BadValue ''AgentWS queue path must stay below its root'') else Inr (parts path))"

definition os_error :: "errno \<Rightarrow> read_error" where
  "os_error e = (if e = ENOENT then NotFound else OSFailure)"

fun walk_directory :: "qdir \<Rightarrow> ustr list \<Rightarrow> read_error + int \<times> qdir" where
  "walk_directory d [] = Inr (0, d)"
| "walk_directory d [x] = (case open_directory_at d x of Inl e \<Rightarrow> Inl (os_error e) | Inr r \<Rightarrow> Inr r)"
| "walk_directory d (x # y # xs) =
     (case open_directory_at d x of Inl e \<Rightarrow> Inl (os_error e) | Inr (_, es) \<Rightarrow> walk_directory es (y # xs))"

definition open_below :: "reader \<Rightarrow> ustr list \<Rightarrow> read_error + qdir" where
  "open_below r relative =
     rbind (reader_parts relative) (\<lambda>ps. rbind (walk_directory (rd_root r) ps) (\<lambda>(_, es). Inr es))"

definition open_parent :: "reader \<Rightarrow> ustr list \<Rightarrow> read_error + qdir \<times> ustr" where
  "open_parent r relative =
     rbind (reader_parts relative) (\<lambda>ps.
     rbind (ensure (ps \<noteq> []) (BadValue ''AgentWS queue file path is empty'')) (\<lambda>_.
     rbind (walk_directory (rd_root r) (butlast ps)) (\<lambda>(_, es). Inr (es, last ps))))"

definition open_regular :: "reader \<Rightarrow> ustr list \<Rightarrow> read_error + bytes" where
  "open_regular r relative =
     rbind (open_parent r relative) (\<lambda>(es, name).
     case map_of es name of
       None \<Rightarrow> Inl NotFound
     | Some (QFile _ content) \<Rightarrow> Inr content
     | Some _ \<Rightarrow> Inl OSFailure)"

text \<open>The generator \<open>_entries\<close> consumed by a loop: the entries before the limit, and whether it was hit.\<close>

fun reader_entries :: "reader \<Rightarrow> qdir \<Rightarrow> reader \<times> qdir \<times> bool" where
  "reader_entries r [] = (r, [], True)"
| "reader_entries r (e # es) =
     (if rd_max_entries r \<le> rd_entries_seen r then (r, [], False)
      else case reader_entries (r\<lparr>rd_entries_seen := rd_entries_seen r + 1\<rparr>) es of
             (r', taken, complete) \<Rightarrow> (r', e # taken, complete))"

definition has_directory :: "reader \<Rightarrow> ustr list \<Rightarrow> bool" where
  "has_directory r relative = is_ok (open_below r relative)"

definition has_regular_file :: "reader \<Rightarrow> ustr list \<Rightarrow> bool" where
  "has_regular_file r relative = is_ok (open_regular r relative)"

definition entry_names :: "(ustr \<times> qnode \<Rightarrow> bool) \<Rightarrow> reader \<Rightarrow> ustr list \<Rightarrow> reader \<times> (read_error + ustr list)" where
  "entry_names wanted r relative =
     (case open_below r relative of
        Inl e \<Rightarrow> (r, Inr [])
      | Inr es \<Rightarrow>
          (case reader_entries r es of
             (r', taken, complete) \<Rightarrow>
               if complete then (r', Inr (sort (map fst (filter wanted taken)))) else (r', Inl LimitError)))"

definition list_directories :: "bool \<Rightarrow> reader \<Rightarrow> ustr list \<Rightarrow> reader \<times> (read_error + ustr list)" where
  "list_directories include_hidden =
     entry_names (\<lambda>(name, node). (include_hidden \<or> \<not> startswith [46] name) \<and>
       (case node of QDir _ _ \<Rightarrow> True | QDenied \<Rightarrow> True | _ \<Rightarrow> False))"

definition list_regular_files :: "ustr \<Rightarrow> reader \<Rightarrow> ustr list \<Rightarrow> reader \<times> (read_error + ustr list)" where
  "list_regular_files ending =
     entry_names (\<lambda>(name, node). (ending = [] \<or> endswith ending name) \<and> (case node of QFile _ _ \<Rightarrow> True | _ \<Rightarrow> False))"

definition file_size :: "reader \<Rightarrow> ustr list \<Rightarrow> nat" where
  "file_size r relative = (case open_regular r relative of Inl _ \<Rightarrow> 0 | Inr content \<Rightarrow> length content)"

definition earlier_marker :: ustr where "earlier_marker = [10] @ lit ''[... earlier content truncated ...]'' @ [10]"
definition content_marker :: ustr where "content_marker = [10] @ lit ''[... content truncated ...]'' @ [10]"

definition read_file :: "reader \<Rightarrow> ustr list \<Rightarrow> nat \<Rightarrow> bool \<Rightarrow> reader \<times> (read_error + ustr \<times> nat \<times> bool)" where
  "read_file r relative max_bytes tail =
     (if rd_max_file_bytes r < max_bytes then (r, Inl (BadValue ''max_bytes exceeds the queue limit''))
      else
        case open_regular r relative of
          Inl e \<Rightarrow> (r, Inl e)
        | Inr content \<Rightarrow>
            (let size = length content;
                 remaining = rd_max_read_bytes r - rd_bytes_read r;
                 (data, truncated, at_front) =
                   (if tail \<and> max_bytes < size
                    then (take (min max_bytes (remaining + 1)) (drop (size - max_bytes) content), True, True)
                    else (let data = take (min (max_bytes + 1) (remaining + 1)) content
                          in (data, max_bytes < size \<or> max_bytes < length data, False)))
             in
             if remaining < length data then (r, Inl LimitError)
             else
               let r' = r\<lparr>rd_bytes_read := rd_bytes_read r + length data\<rparr>;
                   body = utf8_decode_replace (take max_bytes data)
               in (r', Inr (if truncated then (if at_front then earlier_marker @ body else body @ content_marker) else body,
                            size, truncated))))"

definition read_text :: "reader \<Rightarrow> ustr list \<Rightarrow> ustr \<Rightarrow> nat \<Rightarrow> bool \<Rightarrow> reader \<times> (read_error + ustr)" where
  "read_text r relative fallback max_bytes tail =
     (case read_file r relative max_bytes tail of
        (r', Inr (body, _, _)) \<Rightarrow> (r', Inr body)
      | (r', Inl LimitError) \<Rightarrow> (r', Inl LimitError)
      | (r', Inl _) \<Rightarrow> (r', Inr fallback))"

section \<open>Task commands\<close>

text \<open>A command gives its standard output, its standard error and its status.  \<open>str(exc)\<close> is a parameter.\<close>

definition read_task_state :: "reader \<Rightarrow> ustr \<Rightarrow> reader \<times> (read_error + ustr)" where
  "read_task_state r task_id =
     (case read_file r [task_id, lit ''state''] 128 False of
        (r', Inr (value, _, _)) \<Rightarrow>
          (r', validate_task_state (if strip value = [] then lit ''open'' else strip value))
      | (r', Inl NotFound) \<Rightarrow> (r', validate_task_state (lit ''open''))
      | (r', Inl (BadValue m)) \<Rightarrow> (r', Inl (BadValue m))
      | (r', Inl _) \<Rightarrow> (r', Inl (BadValue ''unreadable state'')))"

fun list_tasks :: "reader \<Rightarrow> ustr list \<Rightarrow> ustr list \<times> (read_error + unit)" where
  "list_tasks r [] = ([], Inr ())"
| "list_tasks r (task_id # rest) =
     (case validate_queue_id task_id of
        Inl _ \<Rightarrow> ([], Inl (BadValue ''tasks directory contains an invalid task ID''))
      | Inr _ \<Rightarrow>
          (case read_task_state r task_id of
             (r', Inl e) \<Rightarrow> ([], Inl e)
           | (r', Inr state) \<Rightarrow>
               (case list_tasks r' rest of (ls, result) \<Rightarrow> ((task_id @ [9] @ state) # ls, result))))"

type_synonym command_result = "ustr \<times> ustr \<times> nat"

definition failed :: "(read_error \<Rightarrow> ustr) \<Rightarrow> ustr \<Rightarrow> read_error \<Rightarrow> command_result" where
  "failed message out e = (out, lit ''error: '' @ terminal_safe (message e) @ [10], 1)"

definition print_lines :: "ustr list \<Rightarrow> ustr" where
  "print_lines ls = concat (map (\<lambda>l. l @ [10]) ls)"

definition list_main :: "(read_error \<Rightarrow> ustr) \<Rightarrow> (read_error + reader) \<Rightarrow> ustr list \<Rightarrow> command_result" where
  "list_main message opened arguments =
     (if arguments \<noteq> [] then (print_lines [lit ''Usage: task-list''], [], 1)
      else
        case opened of
          Inl e \<Rightarrow> failed message [] e
        | Inr r \<Rightarrow>
            (case list_directories False r [] of
               (_, Inl e) \<Rightarrow> failed message [] e
             | (r', Inr ids) \<Rightarrow>
                 (case list_tasks r' ids of
                    (ls, Inl e) \<Rightarrow> failed message (print_lines ls) e
                  | (ls, Inr _) \<Rightarrow> (print_lines ls, [], 0))))"

definition show_task :: "reader \<Rightarrow> ustr \<Rightarrow> read_error + ustr \<times> ustr \<times> ustr \<times> ustr option" where
  "show_task r task_id =
     rbind (ensure (has_directory r [task_id]) (BadValue ''task does not exist'')) (\<lambda>_.
     case read_task_state r task_id of
       (_, Inl e) \<Rightarrow> Inl e
     | (r, Inr state) \<Rightarrow>
         (case read_file r [task_id, lit ''spec.md''] (160 * 1024) False of
            (_, Inl e) \<Rightarrow> Inl e
          | (r, Inr (spec, _, _)) \<Rightarrow>
              (case read_file r [task_id, lit ''log.md''] (512 * 1024) False of
                 (_, Inl e) \<Rightarrow> Inl e
               | (r, Inr (log, _, _)) \<Rightarrow>
                   if has_regular_file r [task_id, lit ''result.md'']
                   then (case read_file r [task_id, lit ''result.md''] (160 * 1024) False of
                           (_, Inl e) \<Rightarrow> Inl e
                         | (_, Inr (result, _, _)) \<Rightarrow> Inr (state, spec, log, Some result))
                   else Inr (state, spec, log, None))))"

definition show_main :: "(read_error \<Rightarrow> ustr) \<Rightarrow> (read_error + reader) \<Rightarrow> ustr list \<Rightarrow> command_result" where
  "show_main message opened arguments =
     (case arguments of
        [argument] \<Rightarrow>
          (case rbind (validate_queue_id argument) (\<lambda>task_id. rbind opened (\<lambda>r. show_task r task_id)) of
             Inl e \<Rightarrow> failed message [] e
           | Inr (state, spec, log, result) \<Rightarrow>
               (print_lines [lit ''# Task '' @ argument, [], lit ''State: '' @ state, [], lit ''## Spec''] @
                terminal_safe spec @ print_lines [[], lit ''## Log''] @ terminal_safe log @
                (case result of None \<Rightarrow> [] | Some t \<Rightarrow> print_lines [[], lit ''## Result''] @ terminal_safe t), [], 0))
      | _ \<Rightarrow> (print_lines [lit ''Usage: task-show <task-id>''], [], 1))"

section \<open>What a terminal gets\<close>

definition plain_char :: "uchar \<Rightarrow> bool" where
  "plain_char c \<longleftrightarrow> c = 10 \<or> c = 9 \<or> \<not> hidden_char c"

lemma plain_layout [simp]: "plain_char 10" "plain_char 9"
  by (simp_all add: plain_char_def)

lemma ascii_visible: "32 \<le> c \<Longrightarrow> c \<le> 126 \<Longrightarrow> plain_char c"
  by (simp add: plain_char_def hidden_char_def hidden_ranges_def)

lemma hex_digits_visible: "c \<in> set (hex_digits k n) \<Longrightarrow> plain_char c"
proof (induction k n rule: hex_digits.induct)
  case (2 k n)
  have "is_hex (hex_digit (n mod 16))" by (rule hex_digit_is_hex) simp
  then have "plain_char (hex_digit (n mod 16))" by (intro ascii_visible) (auto simp: is_hex_def is_digit_def)
  then show ?case using 2 by auto
qed simp

lemma visible_char_plain: "x \<in> set (visible_char c) \<Longrightarrow> plain_char x"
  using hex_digits_visible ascii_visible by (fastforce simp: visible_char_def plain_char_def split: if_splits)

lemma terminal_safe_plain: "x \<in> set (terminal_safe s) \<Longrightarrow> plain_char x"
  using visible_char_plain by (auto simp: terminal_safe_def)

lemma terminal_safe_id: "\<forall>c\<in>set s. plain_char c \<Longrightarrow> terminal_safe s = s"
  by (induction s) (auto simp: terminal_safe_def visible_char_def plain_char_def)

lemma queue_id_plain: "safe_queue_id s \<Longrightarrow> c \<in> set s \<Longrightarrow> plain_char c"
proof -
  assume "safe_queue_id s" "c \<in> set s"
  then have "is_queue_char c"
    by (cases s) (auto simp: safe_queue_id_def re_name_star_def list_all_iff is_queue_char_def)
  then show ?thesis by (intro ascii_visible) (auto simp: is_queue_char_def ascii_defs)
qed

lemma lit_plain: "list_all (\<lambda>c. c = 10 \<or> 32 \<le> c \<and> c \<le> 126) (lit s) \<Longrightarrow> c \<in> set (lit s) \<Longrightarrow> plain_char c"
  using ascii_visible by (auto simp: list_all_iff plain_char_def)

lemma read_task_state_value: "read_task_state r t = (r', Inr state) \<Longrightarrow> state \<in> {lit ''open'', lit ''done''}"
  by (auto simp: read_task_state_def validate_task_state_def split: prod.splits sum.splits read_error.splits if_splits)

lemma state_plain: "state \<in> {lit ''open'', lit ''done''} \<Longrightarrow> c \<in> set state \<Longrightarrow> plain_char c"
proof -
  have "list_all plain_char (lit ''open'') \<and> list_all plain_char (lit ''done'')" by code_simp
  then show "state \<in> {lit ''open'', lit ''done''} \<Longrightarrow> c \<in> set state \<Longrightarrow> plain_char c" by (auto simp: list_all_iff)
qed

lemma list_tasks_plain: "list_tasks r ids = (ls, result) \<Longrightarrow> l \<in> set ls \<Longrightarrow> c \<in> set l \<Longrightarrow> plain_char c"
proof (induction ids arbitrary: r ls result)
  case (Cons task_id rest)
  have "\<forall>c\<in>set state. plain_char c" if "read_task_state r task_id = (r', Inr state)" for r' state
    using state_plain [OF read_task_state_value [OF that]] by blast
  then show ?case
    using Cons queue_id_plain [of task_id]
    by (fastforce simp: validate_queue_id_def split: if_splits prod.splits sum.splits)
qed simp

lemma print_lines_plain: "\<forall>l\<in>set ls. \<forall>c\<in>set l. plain_char c \<Longrightarrow> c \<in> set (print_lines ls) \<Longrightarrow> plain_char c"
  by (auto simp: print_lines_def split: if_splits)

lemma failed_plain: "\<forall>c\<in>set out. plain_char c \<Longrightarrow> failed message out e = (out', err, n) \<Longrightarrow> \<forall>c\<in>set (out' @ err). plain_char c"
proof -
  have "list_all plain_char (lit ''error: '')" by code_simp
  then show "\<forall>c\<in>set out. plain_char c \<Longrightarrow> failed message out e = (out', err, n) \<Longrightarrow> \<forall>c\<in>set (out' @ err). plain_char c"
    using terminal_safe_plain by (auto simp: failed_def list_all_iff)
qed

lemma usage_plain: "c \<in> set (print_lines [lit ''Usage: task-list'']) \<or> c \<in> set (print_lines [lit ''Usage: task-show <task-id>'']) \<Longrightarrow> plain_char c"
proof -
  have "list_all plain_char (print_lines [lit ''Usage: task-list'']) \<and> list_all plain_char (print_lines [lit ''Usage: task-show <task-id>''])"
    by code_simp
  then show "c \<in> set (print_lines [lit ''Usage: task-list'']) \<or> c \<in> set (print_lines [lit ''Usage: task-show <task-id>'']) \<Longrightarrow> plain_char c"
    by (auto simp: list_all_iff)
qed

lemma list_main_plain: "list_main message opened arguments = (out, err, n) \<Longrightarrow> \<forall>c\<in>set (out @ err). plain_char c"
  using usage_plain
  by (auto simp: list_main_def split: if_splits sum.splits prod.splits
      dest!: failed_plain [rotated] intro: print_lines_plain list_tasks_plain)

lemma show_task_state: "show_task r t = Inr (state, rest) \<Longrightarrow> state \<in> {lit ''open'', lit ''done''}"
  unfolding show_task_def rbind_eq_Inr
  by (elim exE conjE) (auto split: sum.split_asm prod.split_asm if_split_asm dest!: read_task_state_value)

lemma show_main_plain: "show_main message opened arguments = (out, err, n) \<Longrightarrow> \<forall>c\<in>set (out @ err). plain_char c"
proof -
  assume m: "show_main message opened arguments = (out, err, n)"
  show ?thesis
  proof (cases "\<exists>argument. arguments = [argument]")
    case False
    then have "out = print_lines [lit ''Usage: task-show <task-id>'']" "err = []"
      using m by (auto simp: show_main_def split: list.splits)
    then show ?thesis using usage_plain by auto
  next
    case True
    then obtain argument where a: "arguments = [argument]" by blast
    show ?thesis
    proof (cases "rbind (validate_queue_id argument) (\<lambda>task_id. rbind opened (\<lambda>r. show_task r task_id))")
      case (Inl e)
      then show ?thesis using m a failed_plain [of "[]" message e out err n] by (simp add: show_main_def)
    next
      case (Inr shown)
      obtain state spec log result where x: "shown = (state, spec, log, result)" by (metis prod.exhaust)
      have v: "safe_queue_id argument" using Inr by (auto simp: validate_queue_id_def split: if_splits)
      have st: "state \<in> {lit ''open'', lit ''done''}"
        using Inr x show_task_state by fastforce
      have k: "list_all plain_char (lit ''# Task '') \<and> list_all plain_char (lit ''State: '') \<and> list_all plain_char (lit ''## Spec'') \<and>
          list_all plain_char (lit ''## Log'') \<and> list_all plain_char (lit ''## Result'')" by code_simp
      have "out = print_lines [lit ''# Task '' @ argument, [], lit ''State: '' @ state, [], lit ''## Spec''] @
          terminal_safe spec @ print_lines [[], lit ''## Log''] @ terminal_safe log @
          (case result of None \<Rightarrow> [] | Some t \<Rightarrow> print_lines [[], lit ''## Result''] @ terminal_safe t)" "err = []"
        using m a Inr x by (auto simp: show_main_def)
      then show ?thesis
        using k state_plain [OF st] queue_id_plain [OF v] terminal_safe_plain
        by (auto simp: list_all_iff print_lines_def split: option.splits)
    qed
  qed
qed

text \<open>\<open>task-list\<close> and \<open>task-show\<close> write nothing to the terminal but visible characters, tabs and line ends, whatever
  the files of the queue contain and whatever error is reported.\<close>

theorem task_output_plain:
  assumes "list_main message opened arguments = (out, err, n) \<or> show_main message opened arguments = (out, err, n)"
  shows "\<forall>c\<in>set (out @ err). plain_char c"
  using assms list_main_plain show_main_plain by blast

section \<open>Reads\<close>

fun node_below :: "qdir \<Rightarrow> ustr list \<Rightarrow> qnode option" where
  "node_below d [] = Some (QDir 0 d)"
| "node_below d [x] = map_of d x"
| "node_below d (x # y # xs) = (case map_of d x of Some (QDir _ es) \<Rightarrow> node_below es (y # xs) | _ \<Rightarrow> None)"

lemma walk_node: "walk_directory d ps = Inr (m, es) \<Longrightarrow> \<exists>m'. node_below d ps = Some (QDir m' es)"
  by (induction d ps rule: walk_directory.induct)
    (auto simp: open_directory_at_def split: option.splits qnode.splits sum.splits)

lemma node_below_snoc:
  "node_below d ps = Some (QDir m es) \<Longrightarrow> node_below d (ps @ [x]) = map_of es x"
  by (induction d ps rule: node_below.induct) (auto split: option.splits qnode.splits)

lemma open_regular_node:
  assumes "open_regular r relative = Inr content"
  shows "\<exists>ps m. reader_parts relative = Inr ps \<and> ps \<noteq> [] \<and> lit ''..'' \<notin> set ps \<and> node_below (rd_root r) ps = Some (QFile m content)"
proof -
  obtain es name where op: "open_parent r relative = Inr (es, name)" and n: "(case map_of es name of None \<Rightarrow> Inl NotFound
      | Some (QFile _ content) \<Rightarrow> Inr content | Some _ \<Rightarrow> Inl OSFailure) = Inr content"
    using assms by (auto simp: open_regular_def)
  obtain m where m: "map_of es name = Some (QFile m content)" using n by (auto split: option.split_asm qnode.split_asm)
  obtain ps mm where p: "reader_parts relative = Inr ps" "ps \<noteq> []" "walk_directory (rd_root r) (butlast ps) = Inr (mm, es)"
    "map_of es (last ps) = Some (QFile m content)"
    using op m by (auto simp: open_parent_def)
  have "lit ''..'' \<notin> set ps" using p(1) by (auto simp: reader_parts_def Let_def list_ex_iff split: if_splits)
  moreover have "node_below (rd_root r) (butlast ps @ [last ps]) = Some (QFile m content)"
    using walk_node [OF p(3)] node_below_snoc p(4) by metis
  ultimately show ?thesis using p by auto
qed

lemma read_file_result:
  assumes "read_file r relative max_bytes tail = (r', Inr (body, len, shortened))"
  shows "\<exists>content. open_regular r relative = Inr content \<and> len = length content \<and> shortened = (max_bytes < len) \<and>
    (\<not> shortened \<longrightarrow> body = utf8_decode_replace content) \<and>
    (shortened \<longrightarrow> body = (if tail then earlier_marker @ utf8_decode_replace (drop (len - max_bytes) content)
                         else utf8_decode_replace (take max_bytes content) @ content_marker)) \<and>
    rd_bytes_read r' \<le> rd_bytes_read r + max_bytes + 1 \<and> rd_bytes_read r' \<le> max (rd_bytes_read r) (rd_max_read_bytes r) \<and>
    r' = r\<lparr>rd_bytes_read := rd_bytes_read r'\<rparr>"
proof -
  obtain content where c: "open_regular r relative = Inr content" "max_bytes \<le> rd_max_file_bytes r"
    using assms by (auto simp: read_file_def split: if_splits sum.splits)
  show ?thesis
    using assms c by (auto simp: read_file_def Let_def min_def split: if_splits)
qed

text \<open>C35: what a read of the queue returns is the text of a regular file that lies below the root through real directories
  only, without \<open>..\<close>; complete when it is not marked as truncated, else its first (or last) \<open>max_bytes\<close> bytes between
  markers; and the bytes read stay within the budget of the reader.\<close>

theorem read_file_confined:
  assumes "read_file r relative max_bytes tail = (r', Inr (body, len, shortened))"
    and "rd_bytes_read r \<le> rd_max_read_bytes r"
  shows "\<exists>ps m content. node_below (rd_root r) ps = Some (QFile m content) \<and> lit ''..'' \<notin> set ps \<and> len = length content \<and>
    shortened = (max_bytes < len) \<and>
    body = (if \<not> shortened then utf8_decode_replace content
            else if tail then earlier_marker @ utf8_decode_replace (drop (len - max_bytes) content)
            else utf8_decode_replace (take max_bytes content) @ content_marker) \<and>
    rd_bytes_read r' \<le> rd_max_read_bytes r"
proof -
  obtain content where c: "open_regular r relative = Inr content" "len = length content" "shortened = (max_bytes < len)"
    "\<not> shortened \<longrightarrow> body = utf8_decode_replace content"
    "shortened \<longrightarrow> body = (if tail then earlier_marker @ utf8_decode_replace (drop (len - max_bytes) content)
                        else utf8_decode_replace (take max_bytes content) @ content_marker)"
    "rd_bytes_read r' \<le> max (rd_bytes_read r) (rd_max_read_bytes r)"
    using read_file_result [OF assms(1)] by blast
  obtain ps m where "lit ''..'' \<notin> set ps" "node_below (rd_root r) ps = Some (QFile m content)"
    using open_regular_node [OF c(1)] by blast
  moreover have "rd_bytes_read r' \<le> rd_max_read_bytes r" using c(6) assms(2) by simp
  ultimately show ?thesis using c(2-5) by (intro exI [of _ ps] exI [of _ m] exI [of _ content]) simp
qed

section \<open>The list of tasks\<close>

definition stored_state :: "qdir \<Rightarrow> ustr \<Rightarrow> ustr" where
  "stored_state root task_id =
     (case map_of root task_id of
        Some (QDir _ es) \<Rightarrow>
          (case map_of es (lit ''state'') of
             Some (QFile _ content) \<Rightarrow>
               (let value = strip (utf8_decode_replace content) in if value = [] then lit ''open'' else value)
           | _ \<Rightarrow> lit ''open'')
      | _ \<Rightarrow> lit ''open'')"

definition visible_directories :: "qdir \<Rightarrow> ustr list" where
  "visible_directories root =
     sort (map fst (filter (\<lambda>(name, node). \<not> startswith [46] name \<and>
       (case node of QDir _ _ \<Rightarrow> True | QDenied \<Rightarrow> True | _ \<Rightarrow> False)) root))"

lemma in_set_strip: "c \<in> set s \<Longrightarrow> \<not> isspace c \<Longrightarrow> c \<in> set (strip s)"
proof -
  assume c: "c \<in> set s" "\<not> isspace c"
  have "set s = set (takeWhile isspace s) \<union> set (lstrip s)"
    unfolding lstrip_def by (metis set_append takeWhile_dropWhile_id)
  then have l: "c \<in> set (lstrip s)" using c by (auto dest: set_takeWhileD)
  obtain t where t: "lstrip s = rstrip_by isspace (lstrip s) @ t" "\<forall>x\<in>set t. isspace x" using rstrip_by_prefix by blast
  have "c \<in> set (rstrip_by isspace (lstrip s) @ t)" using l t(1) by metis
  then show ?thesis using t(2) c(2) by (auto simp: strip_def rstrip_def)
qed

lemma queue_id_path: "safe_queue_id s \<Longrightarrow> path_of s = Path [] [s] \<and> s \<notin> {[], lit ''.'', lit ''..''}"
proof -
  assume s: "safe_queue_id s"
  then obtain c t where c: "s = c # t" "is_alnum c" "\<forall>x\<in>set t. is_queue_char x"
    by (cases s) (auto simp: safe_queue_id_def re_name_star_def list_all_iff)
  then have n: "s \<notin> {[], lit ''.'', lit ''..''}" "47 \<notin> set s" by (auto simp: lit_def ascii_defs is_queue_char_def)
  then have "wf_path (Path [] [s])" by (auto simp: wf_path_def wf_part_def)
  then have "path_of (path_str (Path [] [s])) = Path [] [s]" by (rule path_of_str) simp
  then show ?thesis using n by (simp add: path_str_def)
qed

lemma state_parts: "safe_queue_id t \<Longrightarrow> reader_parts [t, lit ''state''] = Inr [t, lit ''state'']"
proof -
  assume t: "safe_queue_id t"
  have "safe_queue_id (lit ''state'')" by code_simp
  then show ?thesis using queue_id_path t by (auto simp: reader_parts_def joinpath_def is_absolute_def)
qed

lemma open_state:
  assumes "safe_queue_id t"
  shows "open_regular r [t, lit ''state''] =
    (case map_of (rd_root r) t of
       None \<Rightarrow> Inl NotFound
     | Some (QDir _ es) \<Rightarrow> (case map_of es (lit ''state'') of
           None \<Rightarrow> Inl NotFound | Some (QFile _ content) \<Rightarrow> Inr content | Some _ \<Rightarrow> Inl OSFailure)
     | Some _ \<Rightarrow> Inl OSFailure)"
proof (cases "map_of (rd_root r) t")
  case None
  then show ?thesis by (simp add: open_regular_def open_parent_def state_parts [OF assms] open_directory_at_def os_error_def)
next
  case (Some node)
  then show ?thesis
    by (cases node) (simp_all add: open_regular_def open_parent_def state_parts [OF assms] open_directory_at_def os_error_def)
qed

lemma state_open:
  assumes "safe_queue_id t"
  shows "open_regular r [t, lit ''state''] = Inl NotFound \<Longrightarrow> stored_state (rd_root r) t = lit ''open''"
    and "open_regular r [t, lit ''state''] = Inr content \<Longrightarrow>
      stored_state (rd_root r) t = (if strip (utf8_decode_replace content) = [] then lit ''open'' else strip (utf8_decode_replace content))"
  unfolding open_state [OF assms] stored_state_def Let_def
  by (auto split: option.split_asm qnode.split_asm)

lemma marker_state: "strip (s @ content_marker) \<notin> {[], lit ''open'', lit ''done''}"
proof -
  have "91 \<in> set (s @ content_marker)" by (simp add: content_marker_def lit_def)
  then have "91 \<in> set (strip (s @ content_marker))" by (rule in_set_strip) (simp add: isspace_def)
  then show ?thesis by (auto simp: lit_def)
qed

lemma read_state_exact:
  assumes "safe_queue_id t" "read_task_state r t = (r', Inr state)"
  shows "state = stored_state (rd_root r) t \<and> rd_root r' = rd_root r \<and> state \<in> {lit ''open'', lit ''done''}"
proof -
  have ok: "state \<in> {lit ''open'', lit ''done''}" by (rule read_task_state_value [OF assms(2)])
  obtain res where f: "read_file r [t, lit ''state''] 128 False = (r', res)" 
    using assms(2) by (cases "read_file r [t, lit ''state''] 128 False")
      (auto simp: read_task_state_def split: sum.split_asm prod.split_asm read_error.split_asm)
  show ?thesis
  proof (cases res)
    case (Inr shown)
    obtain body len cut_off where x: "shown = (body, len, cut_off)" by (metis prod.exhaust)
    obtain content where c: "open_regular r [t, lit ''state''] = Inr content"
      "\<not> cut_off \<longrightarrow> body = utf8_decode_replace content" "cut_off \<longrightarrow> body = utf8_decode_replace (take 128 content) @ content_marker"
      "r' = r\<lparr>rd_bytes_read := rd_bytes_read r'\<rparr>"
      using read_file_result [OF f [unfolded Inr x]] by auto
    have st: "state = (if strip body = [] then lit ''open'' else strip body)"
      using assms(2) by (auto simp: read_task_state_def f Inr x validate_task_state_def split: if_splits)
    then have "\<not> cut_off" using ok c(3) marker_state by (metis insertI1 insertI2)
    then have "body = utf8_decode_replace content" using c(2) by blast
    then have "state = stored_state (rd_root r) t" using st state_open(2) [OF assms(1) c(1)] by simp
    moreover have "rd_root r' = rd_root r" using c(4) by (metis reader.ext_inject reader.surjective reader.update_convs(6))
    ultimately show ?thesis using ok by simp
  next
    case (Inl e)
    then have e: "e = NotFound" "state = lit ''open''"
      using assms(2) f by (auto simp: read_task_state_def validate_task_state_def split: read_error.split_asm)
    then have "r' = r" "open_regular r [t, lit ''state''] = Inl NotFound"
      using f Inl by (auto simp: read_file_def Let_def split: if_splits sum.splits)
    then show ?thesis using e ok state_open(1) [OF assms(1)] by simp
  qed
qed

lemma list_tasks_exact:
  assumes "list_tasks r ids = (ls, Inr ())"
  shows "ls = map (\<lambda>i. i @ [9] @ stored_state (rd_root r) i) ids \<and>
    (\<forall>i\<in>set ids. safe_queue_id i \<and> stored_state (rd_root r) i \<in> {lit ''open'', lit ''done''})"
  using assms
proof (induction ids arbitrary: r ls)
  case (Cons t rest)
  obtain r' state ls' where 1: "safe_queue_id t" "read_task_state r t = (r', Inr state)" "list_tasks r' rest = (ls', Inr ())"
    "ls = (t @ [9] @ state) # ls'"
    using Cons.prems by (auto simp: validate_queue_id_def split: if_splits prod.split_asm sum.split_asm)
  show ?case using read_state_exact [OF 1(1,2)] Cons.IH [OF 1(3)] 1 by auto
qed simp

lemma reader_entries_all: "reader_entries r es = (r', taken, True) \<Longrightarrow> taken = es \<and> rd_root r' = rd_root r"
  by (induction es arbitrary: r r' taken) (auto split: if_splits prod.splits)

lemma list_main_exact:
  assumes "list_main message (Inr r) [] = (out, err, 0)"
  shows "err = [] \<and> out = print_lines (map (\<lambda>i. i @ [9] @ stored_state (rd_root r) i) (visible_directories (rd_root r))) \<and>
    (\<forall>i\<in>set (visible_directories (rd_root r)). safe_queue_id i \<and> stored_state (rd_root r) i \<in> {lit ''open'', lit ''done''})"
proof -
  obtain r' ids ls where 1: "list_directories False r [] = (r', Inr ids)" "list_tasks r' ids = (ls, Inr ())" "out = print_lines ls" "err = []"
    using assms by (auto simp: list_main_def failed_def split: prod.split_asm sum.split_asm)
  have "reader_parts [] = Inr []" by (simp add: reader_parts_def is_absolute_def)
  then have "open_below r [] = Inr (rd_root r)" by (simp add: open_below_def)
  then have "ids = visible_directories (rd_root r) \<and> rd_root r' = rd_root r"
    using 1(1) reader_entries_all by (auto simp: list_directories_def entry_names_def visible_directories_def split: prod.split_asm if_splits)
  then show ?thesis using list_tasks_exact [OF 1(2)] 1(3,4) by auto
qed

text \<open>When \<open>task-list\<close> succeeds, it printed every visible directory of the tasks directory, sorted, with its stored state
  (\<open>open\<close> where none is stored), and every name is a valid identifier and every state open or done.\<close>

theorem tasks_listed:
  assumes "list_main message (Inr r) [] = (out, err, 0)"
  shows "out = print_lines (map (\<lambda>i. i @ [9] @ stored_state (rd_root r) i) (visible_directories (rd_root r))) \<and>
    (\<forall>i\<in>set (visible_directories (rd_root r)). safe_queue_id i \<and> stored_state (rd_root r) i \<in> {lit ''open'', lit ''done''})"
  using list_main_exact [OF assms] by blast

definition ex_tasks_root :: qdir where
  "ex_tasks_root =
     [(lit ''t-2'', QDir 0 [(lit ''state'', QFile 0 (lit ''done'' @ [10])), (lit ''spec.md'', QFile 0 ([27] @ lit ''[31mred''))]),
      (lit ''.hidden'', QDir 0 []), (lit ''notes.md'', QFile 0 []), (lit ''t-1'', QDir 0 [])]"

definition ex_reader :: reader where
  "ex_reader = \<lparr>rd_root = ex_tasks_root, rd_max_entries = 10, rd_max_file_bytes = 600, rd_max_read_bytes = 1000,
     rd_entries_seen = 0, rd_bytes_read = 0\<rparr>"

definition ex_message :: "read_error \<Rightarrow> ustr" where "ex_message e = [27] @ lit ''failed''"

lemma ex_listed: "list_main ex_message (Inr ex_reader) [] = (lit ''t-1'' @ [9] @ lit ''open'' @ [10] @ lit ''t-2'' @ [9] @ lit ''done'' @ [10], [], 0)"
  by code_simp

lemma tasks_listed_witness: "stored_state ex_tasks_root (lit ''t-2'') \<in> {lit ''open'', lit ''done''}"
proof -
  have "lit ''t-2'' \<in> set (visible_directories (rd_root ex_reader))" by code_simp
  then show ?thesis using tasks_listed [OF ex_listed] by (auto simp: ex_reader_def)
qed

lemma task_output_plain_witness:
  "\<exists>err. show_main ex_message (Inr ex_reader) [lit ''t-9''] = ([], err, 1) \<and> list_all plain_char err"
proof -
  have "show_main ex_message (Inr ex_reader) [lit ''t-9''] = ([], lit ''error: '' @ [92] @ lit ''x1bfailed'' @ [10], 1)"
    by code_simp
  then show ?thesis using task_output_plain by (fastforce simp: list_all_iff)
qed

lemma read_file_confined_witness:
  "\<exists>ps m content. node_below ex_tasks_root ps = Some (QFile m content) \<and> utf8_decode_replace content = lit ''done'' @ [10]"
proof -
  let ?r = "fst (read_file ex_reader [lit ''t-2'', lit ''state''] 128 False)"
  have "snd (read_file ex_reader [lit ''t-2'', lit ''state''] 128 False) = Inr (lit ''done'' @ [10], 5, False)"
    "rd_bytes_read ex_reader \<le> rd_max_read_bytes ex_reader" by code_simp+
  then have 1: "read_file ex_reader [lit ''t-2'', lit ''state''] 128 False = (?r, Inr (lit ''done'' @ [10], 5, False))"
    "rd_bytes_read ex_reader \<le> rd_max_read_bytes ex_reader" by (simp_all add: prod_eq_iff)
  obtain ps m content where c: "node_below (rd_root ex_reader) ps = Some (QFile m content)"
    "lit ''done'' @ [10] = utf8_decode_replace content"
    using read_file_confined [OF 1] by auto
  then show ?thesis unfolding ex_reader_def reader.simps by metis
qed

end
