(* ===== verification/Task_Admin.thy ===== *)
theory Task_Admin imports Images Team_Component Queue_Reader begin

text \<open>
  \<open>src/cyclo/team/admin.py\<close>: the tools of AgentWS that the host runs on the queue of an instance, each in a container of
  its own with the authority of the tool.  The disk is the one of \<open>Team_Component\<close>; Docker, the fresh name of the
  staged file and the one of the container are parameters.  Modes and fsync are left out.
\<close>

section \<open>Authority\<close>

definition TASK_TOOL_LABEL :: ustr where "TASK_TOOL_LABEL = lit ''io.cyclo.task-tool''"
definition SPEC_TARGET :: ustr where "SPEC_TARGET = lit ''/run/cyclo/queue-spec.md''"
definition MAX_SPEC_BYTES :: nat where "MAX_SPEC_BYTES = 2 * 1024 * 1024"
definition SPEC_TOOLS :: "ustr list" where "SPEC_TOOLS = [lit ''task-create'', lit ''job-create'']"

datatype queue_part = TaskQueue | JobQueue

text \<open>The queues a tool sees, and whether read-only.\<close>

definition TOOL_AUTHORITY :: "(ustr \<times> (queue_part \<times> bool) list) list" where
  "TOOL_AUTHORITY =
     [(lit ''task-list'', [(TaskQueue, True)]), (lit ''task-show'', [(TaskQueue, True)]),
      (lit ''task-comment'', [(TaskQueue, False)]), (lit ''task-state'', [(TaskQueue, False)]),
      (lit ''task-create'', [(TaskQueue, False), (JobQueue, False)]),
      (lit ''job-create'', [(TaskQueue, True), (JobQueue, False)])]"

section \<open>Mount options\<close>

definition csv_value :: "ustr \<Rightarrow> ustr res" where
  "csv_value value =
     (if 0 \<in> set value \<or> 10 \<in> set value \<or> 13 \<in> set value
      then Inl (CycloError ''task tool mount path contains an unsupported character'')
      else if 44 \<notin> set value \<and> 34 \<notin> set value then Inr value
      else Inr ([34] @ concat (map (\<lambda>c. if c = 34 then [34, 34] else [c]) value) @ [34]))"

definition bind_option :: "os_env \<Rightarrow> ppath \<Rightarrow> ustr \<Rightarrow> bool \<Rightarrow> ustr res" where
  "bind_option os source target read_only =
     rbind (of_option (CycloError ''task tool bind source is unavailable'') (resolve_strict os source)) (\<lambda>selected.
     rbind (csv_value (path_str selected)) (\<lambda>src.
     rbind (csv_value target) (\<lambda>dst.
     Inr (lit ''type=bind,src='' @ src @ lit '',dst='' @ dst @ (if read_only then lit '',readonly'' else [])))))"

section \<open>Running a tool\<close>

record 'd task_admin =
  ta_docker :: "'d docker"
  ta_endpoint :: "ustr option"
  ta_os :: os_env
  ta_root :: ppath
  ta_system :: ustr
  ta_instance :: instance_rec
  ta_uid :: nat
  ta_gid :: nat
  ta_hex :: ustr
  ta_ensure :: "fs \<Rightarrow> fs res"
  ta_temp :: "fs \<Rightarrow> ppath option"

record 'd admin_world =
  aw_docker :: 'd
  aw_fs :: fs

definition by_docker :: "('d, 'a) action \<Rightarrow> ('d admin_world, 'a) action" where
  "by_docker m w = (case m (aw_docker w) of (d, r) \<Rightarrow> (w\<lparr>aw_docker := d\<rparr>, r))"

definition admin_docker :: "'d task_admin \<Rightarrow> ustr list \<Rightarrow> ('d admin_world, run) action" where
  "admin_docker ta arguments = by_docker (docker_command (ta_docker ta) (ta_endpoint ta) arguments False)"

text \<open>Both administration modules remove the containers of earlier tools by their label.\<close>

fun remove_containers :: "(ustr list \<Rightarrow> ('w, run) action) \<Rightarrow> string \<Rightarrow> ustr list \<Rightarrow> ('w, unit) action" where
  "remove_containers command failure [] = ret (Inr ())"
| "remove_containers command failure (identifier # rest) =
     (if identifier = [] then remove_containers command failure rest
      else
        dbind (command [lit ''container'', lit ''rm'', lit ''--force'', lit ''--'', identifier]) (\<lambda>removed.
        if rn_code removed \<noteq> 0 then ret (Inl (CycloError failure)) else remove_containers command failure rest))"

definition remove_abandoned :: "(ustr list \<Rightarrow> ('w, run) action) \<Rightarrow> ustr \<Rightarrow> string \<Rightarrow> string \<Rightarrow> ('w, unit) action" where
  "remove_abandoned command label enumeration removal =
     dbind (command [lit ''container'', lit ''ls'', lit ''--all'', lit ''--quiet'', lit ''--no-trunc'', lit ''--filter'',
       lit ''label='' @ label]) (\<lambda>found.
     if rn_code found \<noteq> 0 then ret (Inl (CycloError enumeration))
     else remove_containers command removal (sort (remdups (splitlines (rn_stdout found)))))"

definition remove_abandoned_tools :: "'d task_admin \<Rightarrow> ('d admin_world, unit) action" where
  "remove_abandoned_tools ta =
     remove_abandoned (admin_docker ta) (TASK_TOOL_LABEL @ [61] @ ta_system ta) ''cannot enumerate abandoned task tools''
       ''cannot remove abandoned task tool''"

definition queue_location :: "'d task_admin \<Rightarrow> queue_part \<Rightarrow> ppath \<times> ustr" where
  "queue_location ta q =
     (case q of
        TaskQueue \<Rightarrow> (tasks_dir (ta_root ta) (in_id (ta_instance ta)), lit ''/agentws/tasks'')
      | JobQueue \<Rightarrow> (jobs_dir (ta_root ta) (in_id (ta_instance ta)), lit ''/agentws/jobs''))"

definition tool_options :: "'d task_admin \<Rightarrow> ustr list" where
  "tool_options ta =
     [lit ''run'', lit ''--rm'', lit ''--init'', lit ''--read-only'', lit ''--user'', dec (ta_uid ta) @ [58] @ dec (ta_gid ta),
      lit ''--name'', lit ''cyclo-'' @ ta_system ta @ lit ''-task-tool-'' @ ta_hex ta,
      lit ''--label'', TASK_TOOL_LABEL @ [61] @ ta_system ta, lit ''--network'', lit ''none'',
      lit ''--security-opt'', lit ''no-new-privileges'', lit ''--cap-drop'', lit ''ALL'', lit ''--pids-limit'', lit ''256'',
      lit ''--tmpfs'', lit ''/tmp:rw,noexec,nosuid,nodev,size=16m'', lit ''--env'', lit ''CYCLO_ADMIN_TOOL=1'']"

definition queue_mount :: "'d task_admin \<Rightarrow> queue_part \<times> bool \<Rightarrow> ustr res" where
  "queue_mount ta = (\<lambda>(q, read_only). case queue_location ta q of (source, target) \<Rightarrow> bind_option (ta_os ta) source target read_only)"

definition tool_command :: "'d task_admin \<Rightarrow> ustr \<Rightarrow> (queue_part \<times> bool) list \<Rightarrow> ustr list \<Rightarrow> ppath option \<Rightarrow> ustr list res" where
  "tool_command ta tool authority arguments staged =
     rbind (mapE (queue_mount ta) authority) (\<lambda>mounts.
     rbind (case staged of None \<Rightarrow> Inr [] | Some path \<Rightarrow> rbind (bind_option (ta_os ta) path SPEC_TARGET True) (\<lambda>m. Inr [m])) (\<lambda>spec.
     Inr (tool_options ta @ concat (map (\<lambda>m. [lit ''--mount'', m]) (mounts @ spec)) @
          [in_image (ta_instance ta), lit ''/agentws/bin/'' @ tool] @ arguments @
          (case staged of None \<Rightarrow> [] | Some path \<Rightarrow> [SPEC_TARGET]))))"

definition on_disk :: "(fs \<Rightarrow> fs res) \<Rightarrow> ('d admin_world, unit) action" where
  "on_disk f w = (case f (aw_fs w) of Inl e \<Rightarrow> (w, Inl e) | Inr fs \<Rightarrow> (w\<lparr>aw_fs := fs\<rparr>, Inr ()))"

definition prepare_queue_directory :: "ppath \<Rightarrow> fs \<Rightarrow> fs res" where
  "prepare_queue_directory path fs =
     (case prepare_directory fs path of Inl (OSErr _) \<Rightarrow> Inl (CycloError ''cannot prepare AgentWS task queue'') | r \<Rightarrow> r)"

definition ensure_queue :: "'d task_admin \<Rightarrow> ('d admin_world, unit) action" where
  "ensure_queue ta =
     (let i = in_id (ta_instance ta) in
      dbind (on_disk (prepare_queue_directory (queue_root (ta_root ta) i))) (\<lambda>_.
      dbind (on_disk (prepare_queue_directory (tasks_dir (ta_root ta) i))) (\<lambda>_.
      on_disk (prepare_queue_directory (jobs_dir (ta_root ta) i)))))"

text \<open>The context manager: the file exists while \<open>body\<close> runs, and no longer.\<close>

definition with_staged :: "'d task_admin \<Rightarrow> bytes option \<Rightarrow> (ppath option \<Rightarrow> ('d admin_world, 'a) action) \<Rightarrow> ('d admin_world, 'a) action" where
  "with_staged ta specification body =
     (case specification of
        None \<Rightarrow> body None
      | Some content \<Rightarrow>
          dbind (on_disk (ta_ensure ta)) (\<lambda>_ w.
          case ta_temp ta (aw_fs w) of
            None \<Rightarrow> (w, Inl (OSErr ''mkstemp''))
          | Some path \<Rightarrow>
              (case body (Some path) (w\<lparr>aw_fs := (aw_fs w)(path \<mapsto> FsFile content)\<rparr>) of
                 (w', r) \<Rightarrow> (w'\<lparr>aw_fs := (aw_fs w')(path := None)\<rparr>, r))))"

definition run_task_tool :: "'d task_admin \<Rightarrow> ustr \<Rightarrow> ustr list \<Rightarrow> bytes option \<Rightarrow> ('d admin_world, int) action" where
  "run_task_tool ta tool arguments specification =
     dbind (ret (ensure (ta_uid ta \<noteq> 0) (CycloError ''Cyclo task administration refuses host root''))) (\<lambda>_.
     dbind (ret (of_option (CycloError ''invalid AgentWS task tool'') (map_of TOOL_AUTHORITY tool))) (\<lambda>authority.
     dbind (ret (ensure ((specification \<noteq> None) = (tool \<in> set SPEC_TOOLS))
       (CycloError ''a specification is required exactly for task-create or job-create''))) (\<lambda>_.
     dbind (ensure_queue ta) (\<lambda>_.
     with_staged ta specification (\<lambda>staged.
       dbind (remove_abandoned_tools ta) (\<lambda>_.
       dbind (ret (tool_command ta tool authority arguments staged)) (\<lambda>command.
       dbind (admin_docker ta command) (\<lambda>result. ret (Inr (rn_code result))))))))))"

section \<open>Reading a specification\<close>

text \<open>\<open>read_task_specification\<close> opens the components one by one from the root directory \<open>tree\<close> without following links.\<close>

definition spec_node :: "qdir \<Rightarrow> ustr list \<Rightarrow> errno + qnode" where
  "spec_node tree ps =
     rbind (open_directory tree (butlast ps)) (\<lambda>es.
     case map_of es (last ps) of None \<Rightarrow> Inl ENOENT | Some QLink \<Rightarrow> Inl ELOOP | Some QDenied \<Rightarrow> Inl EACCES | Some node \<Rightarrow> Inr node)"

definition read_task_specification :: "os_env \<Rightarrow> qdir \<Rightarrow> ppath \<Rightarrow> bytes res" where
  "read_task_specification os tree path =
     (let ps = parts (abspath os (expanduser os path)) in
      rbind (ensure (ps \<noteq> []) (CycloError ''task specification is not a regular file'')) (\<lambda>_.
      rbind (case spec_node tree ps of
          Inl e \<Rightarrow> Inl (CycloError (if e \<in> {ELOOP, ENOTDIR} then ''task specification path must contain only real directories''
                                   else ''task specification is unavailable''))
        | Inr (QFile _ all_bytes) \<Rightarrow> Inr all_bytes
        | Inr _ \<Rightarrow> Inl (CycloError ''task specification is not a regular file'')) (\<lambda>all_bytes.
      let content = take (MAX_SPEC_BYTES + 1) all_bytes in
      rbind (ensure (length content \<le> MAX_SPEC_BYTES) (CycloError ''task specification exceeds the limit'')) (\<lambda>_.
      Inr content))))"

section \<open>What Docker is asked to do\<close>

text \<open>How Docker reads the arguments of \<open>docker run\<close>: the options up to the first argument that is none, then the image
  and its command.\<close>

definition docker_switches :: "ustr list" where
  "docker_switches = [lit ''--rm'', lit ''--init'', lit ''--read-only'', lit ''--interactive'']"

fun docker_options :: "ustr list \<Rightarrow> (ustr \<times> ustr) list \<times> ustr list" where
  "docker_options [] = ([], [])"
| "docker_options (a # rest) =
     (if \<not> startswith [45, 45] a then ([], a # rest)
      else if a \<in> set docker_switches then (case docker_options rest of (opts, positional) \<Rightarrow> ((a, []) # opts, positional))
      else case rest of
             [] \<Rightarrow> ([(a, [])], [])
           | v # rest \<Rightarrow> (case docker_options rest of (opts, positional) \<Rightarrow> ((a, v) # opts, positional)))"

definition tool_restrictions :: "'d task_admin \<Rightarrow> (ustr \<times> ustr) list" where
  "tool_restrictions ta =
     [(lit ''--rm'', []), (lit ''--init'', []), (lit ''--read-only'', []),
      (lit ''--user'', dec (ta_uid ta) @ [58] @ dec (ta_gid ta)),
      (lit ''--name'', lit ''cyclo-'' @ ta_system ta @ lit ''-task-tool-'' @ ta_hex ta),
      (lit ''--label'', TASK_TOOL_LABEL @ [61] @ ta_system ta), (lit ''--network'', lit ''none''),
      (lit ''--security-opt'', lit ''no-new-privileges''), (lit ''--cap-drop'', lit ''ALL''), (lit ''--pids-limit'', lit ''256''),
      (lit ''--tmpfs'', lit ''/tmp:rw,noexec,nosuid,nodev,size=16m''), (lit ''--env'', lit ''CYCLO_ADMIN_TOOL=1'')]"

definition granted_mount :: "'d task_admin \<Rightarrow> ustr \<Rightarrow> ustr \<Rightarrow> bool" where
  "granted_mount ta tool m \<longleftrightarrow>
     (\<exists>authority g. map_of TOOL_AUTHORITY tool = Some authority \<and> g \<in> set authority \<and> queue_mount ta g = Inr m) \<or>
     tool \<in> set SPEC_TOOLS \<and> (\<exists>path. bind_option (ta_os ta) path SPEC_TARGET True = Inr m)"

definition confined_command :: "'d task_admin \<Rightarrow> ustr \<Rightarrow> ustr list \<Rightarrow> ustr list \<Rightarrow> bool" where
  "confined_command ta tool arguments command \<longleftrightarrow>
     (\<exists>mounts rest. command \<noteq> [] \<and> hd command = lit ''run'' \<and>
        docker_options (tl command) =
          (tool_restrictions ta @ map (Pair (lit ''--mount'')) mounts,
           [in_image (ta_instance ta), lit ''/agentws/bin/'' @ tool] @ arguments @ rest) \<and>
        (\<forall>m\<in>set mounts. granted_mount ta tool m))"

text \<open>The words of an option, and how a list of options reads back.\<close>

definition option_words :: "ustr \<times> ustr \<Rightarrow> ustr list" where
  "option_words = (\<lambda>(a, v). if a \<in> set docker_switches then [a] else [a, v])"

definition good_option :: "ustr \<times> ustr \<Rightarrow> bool" where
  "good_option = (\<lambda>(a, v). startswith [45, 45] a \<and> (a \<in> set docker_switches \<longrightarrow> v = []))"

lemma docker_options_words:
  "list_all good_option opts \<Longrightarrow>
    docker_options (concat (map option_words opts) @ rest) = (opts @ fst (docker_options rest), snd (docker_options rest))"
  by (induction opts) (auto simp: option_words_def good_option_def split: prod.splits)

lemma mount_words: "option_words (lit ''--mount'', m) = [lit ''--mount'', m]" "good_option (lit ''--mount'', m)"
proof -
  have "lit ''--mount'' \<notin> set docker_switches" "startswith [45, 45] (lit ''--mount'')" by code_simp+
  then show "option_words (lit ''--mount'', m) = [lit ''--mount'', m]" "good_option (lit ''--mount'', m)"
    by (simp_all add: option_words_def good_option_def)
qed

lemma docker_options_mounts:
  "docker_options (concat (map (\<lambda>m. [lit ''--mount'', m]) ms) @ rest) =
    (map (Pair (lit ''--mount'')) ms @ fst (docker_options rest), snd (docker_options rest))"
proof -
  have "concat (map (\<lambda>m. [lit ''--mount'', m]) ms) = concat (map option_words (map (Pair (lit ''--mount'')) ms))"
    by (simp add: comp_def mount_words)
  moreover have "list_all good_option (map (Pair (lit ''--mount'')) ms)" by (simp add: list_all_iff mount_words)
  ultimately show ?thesis using docker_options_words by metis
qed

lemma docker_options_tool:
  "docker_options (tl (tool_options ta) @ rest) = (tool_restrictions ta @ fst (docker_options rest), snd (docker_options rest))"
proof -
  have "tl (tool_options ta) = concat (map option_words (tool_restrictions ta))" "list_all good_option (tool_restrictions ta)"
    by code_simp+
  then show ?thesis using docker_options_words by metis
qed

lemma tool_command_confined:
  assumes c: "tool_command ta tool authority arguments staged = Inr command"
    and a: "map_of TOOL_AUTHORITY tool = Some authority" and st: "staged \<noteq> None \<longrightarrow> tool \<in> set SPEC_TOOLS"
    and image_name: "\<not> startswith [45, 45] (in_image (ta_instance ta))"
  shows "confined_command ta tool arguments command"
proof -
  obtain ms spec where m: "mapE (queue_mount ta) authority = Inr ms"
    and sp: "(case staged of None \<Rightarrow> Inr [] | Some path \<Rightarrow> rbind (bind_option (ta_os ta) path SPEC_TARGET True) (\<lambda>m. Inr [m])) = Inr spec"
    and cmd: "command = tool_options ta @ concat (map (\<lambda>m. [lit ''--mount'', m]) (ms @ spec)) @
          [in_image (ta_instance ta), lit ''/agentws/bin/'' @ tool] @ arguments @
          (case staged of None \<Rightarrow> [] | Some path \<Rightarrow> [SPEC_TARGET])"
    using c by (auto simp: tool_command_def)
  let ?rest = "(case staged of None \<Rightarrow> [] | Some path \<Rightarrow> [SPEC_TARGET])"
  let ?positional = "[in_image (ta_instance ta), lit ''/agentws/bin/'' @ tool] @ arguments @ ?rest"
  have t: "tool_options ta = lit ''run'' # tl (tool_options ta)" by (simp add: tool_options_def)
  have tl: "tl command = tl (tool_options ta) @ concat (map (\<lambda>m. [lit ''--mount'', m]) (ms @ spec)) @ ?positional"
    unfolding cmd by (subst t) (simp only: append_Cons list.sel)
  have "docker_options ?positional = ([], ?positional)" using image_name by simp
  then have d: "docker_options (tl command) = (tool_restrictions ta @ map (Pair (lit ''--mount'')) (ms @ spec), ?positional)"
    unfolding tl docker_options_tool docker_options_mounts by simp
  have g: "\<forall>m\<in>set (ms @ spec). granted_mount ta tool m"
  proof
    fix m assume "m \<in> set (ms @ spec)"
    then consider "m \<in> set ms" | "m \<in> set spec" by auto
    then show "granted_mount ta tool m"
    proof cases
      case 1
      then obtain g where "g \<in> set authority" "queue_mount ta g = Inr m" using mapE_in_set [OF m] by blast
      then show ?thesis using a unfolding granted_mount_def by blast
    next
      case 2
      then show ?thesis using sp st by (auto simp: granted_mount_def split: option.splits)
    qed
  qed
  show ?thesis unfolding confined_command_def
  proof (rule exI [of _ "ms @ spec"], rule exI [of _ ?rest], intro conjI)
    show "command \<noteq> []" "hd command = lit ''run''" unfolding cmd by (subst t, simp)+
  qed (use d g in simp_all)
qed

text \<open>A Docker that writes down what it is asked for, and otherwise does what another one does.\<close>

definition logged :: "'d docker \<Rightarrow> (ustr list list \<times> 'd) docker" where
  "logged dk = \<lparr>dk_command = (\<lambda>e args (log, d). case dk_command dk e args d of (d', r) \<Rightarrow> ((log @ [args], d'), r)),
     dk_loads = dk_loads dk, dk_iidfile = (\<lambda>(log, d). dk_iidfile dk d), dk_environ = dk_environ dk\<rparr>"

definition log_of :: "(ustr list list \<times> 'd) admin_world \<Rightarrow> ustr list list" where
  "log_of w = fst (aw_docker w)"

text \<open>\<open>only P m\<close>: every command that \<open>m\<close> gives to the Docker satisfies \<open>P\<close>.\<close>

definition only :: "(ustr list \<Rightarrow> bool) \<Rightarrow> ((ustr list list \<times> 'd) admin_world, 'a) action \<Rightarrow> bool" where
  "only P m \<longleftrightarrow> (\<forall>w. \<exists>new. log_of (fst (m w)) = log_of w @ new \<and> list_all P new)"

lemma only_ret [simp]: "only P (ret r)"
  by (simp add: only_def)

lemma only_bind:
  assumes "only P m" "\<And>x w w'. m w = (w', Inr x) \<Longrightarrow> only P (k x)"
  shows "only P (dbind m k)"
  unfolding only_def
proof
  fix w
  obtain w1 r where m: "m w = (w1, r)" by (cases "m w")
  obtain new where 1: "log_of w1 = log_of w @ new" "list_all P new" using assms(1) m unfolding only_def by (metis fst_conv)
  show "\<exists>new. log_of (fst (dbind m k w)) = log_of w @ new \<and> list_all P new"
  proof (cases r)
    case (Inl e)
    then show ?thesis using 1 by (auto simp: dbind_def m)
  next
    case (Inr x)
    then obtain more where "log_of (fst (k x w1)) = log_of w1 @ more" "list_all P more"
      using assms(2) m unfolding only_def by blast
    then show ?thesis using 1 by (auto simp: dbind_def m Inr)
  qed
qed

lemma only_disk: "only P (on_disk f)"
  by (auto simp: only_def on_disk_def log_of_def split: sum.splits)

lemma only_docker: "ta_docker ta = logged dk \<Longrightarrow> P args \<Longrightarrow> only P (admin_docker ta args)"
  by (auto simp: only_def admin_docker_def by_docker_def docker_command_def logged_def log_of_def
      split: prod.splits docker_outcome.splits)

lemma only_staged:
  assumes "\<And>staged. (staged \<noteq> None) = (given \<noteq> None) \<Longrightarrow> only P (body staged)"
  shows "only P (with_staged ta given body)"
proof (cases given)
  case None
  then show ?thesis using assms by (simp add: with_staged_def)
next
  case (Some content)
  have "only P (\<lambda>w. case ta_temp ta (aw_fs w) of None \<Rightarrow> (w, Inl (OSErr ''mkstemp''))
      | Some path \<Rightarrow> (case body (Some path) (w\<lparr>aw_fs := (aw_fs w)(path \<mapsto> FsFile content)\<rparr>) of
           (w', r) \<Rightarrow> (w'\<lparr>aw_fs := (aw_fs w')(path := None)\<rparr>, r)))"
    unfolding only_def
  proof
    fix w
    show "\<exists>new. log_of (fst (case ta_temp ta (aw_fs w) of None \<Rightarrow> (w, Inl (OSErr ''mkstemp''))
        | Some path \<Rightarrow> (case body (Some path) (w\<lparr>aw_fs := (aw_fs w)(path \<mapsto> FsFile content)\<rparr>) of
             (w', r) \<Rightarrow> (w'\<lparr>aw_fs := (aw_fs w')(path := None)\<rparr>, r)))) = log_of w @ new \<and> list_all P new"
    proof (cases "ta_temp ta (aw_fs w)")
      case (Some path)
      let ?w = "w\<lparr>aw_fs := (aw_fs w)(path \<mapsto> FsFile content)\<rparr>"
      have "only P (body (Some path))" using assms \<open>given = Some content\<close> by simp
      then obtain new where "log_of (fst (body (Some path) ?w)) = log_of ?w @ new" "list_all P new" unfolding only_def by blast
      then show ?thesis using Some by (auto simp: log_of_def split: prod.splits)
    qed simp
  qed
  then show ?thesis using Some by (auto simp: with_staged_def intro!: only_bind only_disk)
qed

definition housekeeping :: "ustr \<Rightarrow> ustr list \<Rightarrow> bool" where
  "housekeeping label command \<longleftrightarrow>
     command = [lit ''container'', lit ''ls'', lit ''--all'', lit ''--quiet'', lit ''--no-trunc'', lit ''--filter'', lit ''label='' @ label] \<or>
     (\<exists>identifier. command = [lit ''container'', lit ''rm'', lit ''--force'', lit ''--'', identifier])"

lemma only_remove:
  assumes "ta_docker ta = logged dk" "\<And>c. housekeeping label c \<Longrightarrow> P c"
  shows "only P (remove_containers (admin_docker ta) failure ids)"
proof (induction ids)
  case (Cons i rest)
  have "only P (admin_docker ta [lit ''container'', lit ''rm'', lit ''--force'', lit ''--'', i])"
    by (rule only_docker [OF assms(1)], rule assms(2)) (simp add: housekeeping_def)
  then show ?case using Cons by (auto intro!: only_bind)
qed simp

lemma only_abandoned:
  assumes "ta_docker ta = logged dk" "\<And>c. housekeeping label c \<Longrightarrow> P c"
  shows "only P (remove_abandoned (admin_docker ta) label enumeration removal)"
proof -
  have "only P (admin_docker ta [lit ''container'', lit ''ls'', lit ''--all'', lit ''--quiet'', lit ''--no-trunc'', lit ''--filter'', lit ''label='' @ label])"
    by (rule only_docker [OF assms(1)], rule assms(2)) (simp add: housekeeping_def)
  then show ?thesis unfolding remove_abandoned_def
    by (rule only_bind) (simp add: only_remove [OF assms])
qed

lemma run_task_tool_only:
  assumes l: "ta_docker ta = logged dk" and img: "\<not> startswith [45, 45] (in_image (ta_instance ta))"
  shows "only (\<lambda>c. confined_command ta tool arguments c \<or> housekeeping (TASK_TOOL_LABEL @ [61] @ ta_system ta) c)
    (run_task_tool ta tool arguments given)"
proof -
  let ?P = "\<lambda>c. confined_command ta tool arguments c \<or> housekeeping (TASK_TOOL_LABEL @ [61] @ ta_system ta) c"
  have body: "only ?P (dbind (remove_abandoned_tools ta) (\<lambda>_.
       dbind (ret (tool_command ta tool authority arguments staged)) (\<lambda>command.
       dbind (admin_docker ta command) (\<lambda>result. ret (Inr (rn_code result))))))"
    if a: "map_of TOOL_AUTHORITY tool = Some authority" and st: "staged \<noteq> None \<longrightarrow> tool \<in> set SPEC_TOOLS" for authority staged
  proof (intro only_bind)
    show "only ?P (remove_abandoned_tools ta)"
      unfolding remove_abandoned_tools_def by (rule only_abandoned [OF l]) blast
    show "only ?P (ret (tool_command ta tool authority arguments staged))" by simp
    fix command and w w' :: "(ustr list list \<times> 'a) admin_world"
    assume "ret (tool_command ta tool authority arguments staged) w = (w', Inr command)"
    then have "tool_command ta tool authority arguments staged = Inr command" by (simp add: ret_def)
    then have "confined_command ta tool arguments command" using a st img by (rule tool_command_confined)
    then show "only ?P (admin_docker ta command)" by (intro only_docker [OF l]) simp
  qed simp
  have queue: "only ?P (ensure_queue ta)"
    unfolding ensure_queue_def Let_def by (intro only_bind only_disk)
  show ?thesis unfolding run_task_tool_def
    by (intro only_bind only_ret queue only_staged body) (auto simp: ret_def)
qed


section \<open>How Docker reads a mount\<close>

text \<open>Docker parses the value of \<open>--mount\<close> as one CSV record (RFC 4180): a field that starts with a quote ends at the next
  single quote and must be followed by a comma or the end; any other field ends at the next comma and holds no quote.\<close>

fun csv_quoted :: "ustr \<Rightarrow> (ustr \<times> ustr) option" where
  "csv_quoted [] = None"
| "csv_quoted (c # s) =
     (if c \<noteq> 34 then map_option (\<lambda>(f, r). (c # f, r)) (csv_quoted s)
      else case s of d # t \<Rightarrow> if d = 34 then map_option (\<lambda>(f, r). (34 # f, r)) (csv_quoted t) else Some ([], s)
           | [] \<Rightarrow> Some ([], []))"

lemma csv_quoted_shrinks: "csv_quoted s = Some (f, r) \<Longrightarrow> length r < length s"
  by (induction s arbitrary: f r rule: csv_quoted.induct) (fastforce split: if_splits list.splits)+

function csv_record :: "ustr \<Rightarrow> ustr list option" where
  "csv_record s =
     (if startswith [34] s then
        (case csv_quoted (tl s) of
           None \<Rightarrow> None
         | Some (f, []) \<Rightarrow> Some [f]
         | Some (f, c # r) \<Rightarrow> if c = 44 then map_option ((#) f) (csv_record r) else None)
      else
        (case partition_at 44 s of
           (f, found, r) \<Rightarrow>
             if 34 \<in> set f then None else if found then map_option ((#) f) (csv_record r) else Some [f]))"
  by pat_completeness auto

lemma dropWhile_tl_less: "c \<in> set s \<Longrightarrow> length (tl (dropWhile (\<lambda>x. x \<noteq> c) s)) < length s"
  using length_dropWhile_le [of "\<lambda>x. x \<noteq> c" s] by (cases s) auto

termination csv_record
  by (relation "measure length") (auto dest!: csv_quoted_shrinks intro: dropWhile_tl_less [simplified] simp: partition_at_def)

declare csv_record.simps [simp del]

lemma csv_plain_field:
  assumes "44 \<notin> set f" "34 \<notin> set f"
  shows "csv_record (f @ 44 # r) = map_option ((#) f) (csv_record r)" "csv_record f = Some [f]"
proof -
  have "\<not> startswith [34] (f @ 44 # r)" "\<not> startswith [34] f" using assms(2) by (cases f; simp add: startswith_Cons)+
  then show "csv_record (f @ 44 # r) = map_option ((#) f) (csv_record r)" "csv_record f = Some [f]"
    using assms partition_at_append [of 44 f r] partition_at_none [of 44 f]
    by (subst csv_record.simps; simp)+
qed

lemma csv_bare_quote:
  assumes "44 \<notin> set f" "f \<noteq> []" "34 \<notin> set f"
  shows "csv_record (f @ 34 # r) = None"
proof -
  have "\<not> startswith [34] (f @ 34 # r)" using assms(2,3) by (cases f) (simp_all add: startswith_Cons)
  moreover have "34 \<in> set (takeWhile (\<lambda>x. x \<noteq> 44) (f @ 34 # r))"
    using assms(1) by (subst takeWhile_append2) auto
  ultimately show ?thesis by (subst csv_record.simps) (simp add: partition_at_def)
qed

lemma bind_parts:
  "list_all (\<lambda>s. 44 \<notin> set s \<and> 34 \<notin> set s) [lit ''type=bind'', lit ''src='', lit ''dst='', lit ''readonly'']"
  "lit ''type=bind,src='' = lit ''type=bind'' @ 44 # lit ''src=''" "lit '',dst='' = 44 # lit ''dst=''" "lit '',readonly'' = 44 # lit ''readonly''"
  by code_simp+

lemma bind_csv:
  assumes "bind_option os source target read_only = Inr v" "resolve_strict os source = Some p" "44 \<notin> set target" "34 \<notin> set target"
  shows "csv_record v =
    (if 44 \<in> set (path_str p) \<or> 34 \<in> set (path_str p) then None
     else Some ([lit ''type=bind'', lit ''src='' @ path_str p, lit ''dst='' @ target] @ (if read_only then [lit ''readonly''] else [])))"
proof -
  have parts: "44 \<notin> set (lit ''type=bind'')" "34 \<notin> set (lit ''type=bind'')" "44 \<notin> set (lit ''src='')" "34 \<notin> set (lit ''src='')"
    "44 \<notin> set (lit ''dst='')" "34 \<notin> set (lit ''dst='')" "44 \<notin> set (lit ''readonly'')" "34 \<notin> set (lit ''readonly'')"
    using bind_parts(1) by simp_all
  obtain src where src: "csv_value (path_str p) = Inr src"
    and v: "v = lit ''type=bind'' @ 44 # (lit ''src='' @ src) @ 44 # (lit ''dst='' @ target) @ (if read_only then 44 # lit ''readonly'' else [])"
    using assms by (auto simp: bind_option_def csv_value_def bind_parts(2-4) split: if_splits)
  show ?thesis
  proof (cases "44 \<in> set (path_str p) \<or> 34 \<in> set (path_str p)")
    case True
    then obtain r where "src = 34 # r" using src by (auto simp: csv_value_def split: if_splits)
    then have "csv_record ((lit ''src='' @ src) @ x) = None" for x
      using csv_bare_quote [of "lit ''src=''" "r @ x"] parts by simp
    then show ?thesis using True parts unfolding v by (simp add: csv_plain_field)
  next
    case False
    then have "src = path_str p" using src by (auto simp: csv_value_def split: if_splits)
    moreover have "44 \<notin> set (lit ''src='' @ path_str p)" "34 \<notin> set (lit ''src='' @ path_str p)"
      "44 \<notin> set (lit ''dst='' @ target)" "34 \<notin> set (lit ''dst='' @ target)" using False parts assms(3,4) by simp_all
    ultimately show ?thesis using False parts csv_plain_field [of "lit ''src='' @ path_str p"] csv_plain_field [of "lit ''dst='' @ target"]
      unfolding v by (simp add: csv_plain_field)
  qed
qed

text \<open>Docker reads the mount option of a path without commas and quotes as exactly the source, the target and the mode
  that were asked for; a path with a comma or a quote is quoted in a way that Docker rejects.\<close>

theorem bind_option_read:
  assumes "bind_option os source target read_only = Inr v" "resolve_strict os source = Some p" "44 \<notin> set target" "34 \<notin> set target"
  shows "csv_record v =
    (if 44 \<in> set (path_str p) \<or> 34 \<in> set (path_str p) then None
     else Some ([lit ''type=bind'', lit ''src='' @ path_str p, lit ''dst='' @ target] @ (if read_only then [lit ''readonly''] else [])))"
  using assms by (rule bind_csv)

section \<open>A concrete run\<close>

definition ex_admin :: "(ustr list list \<times> unit) task_admin" where
  "ex_admin = \<lparr>ta_docker = logged \<lparr>dk_command = (\<lambda>e args d. (d, DockerRan \<lparr>rn_code = 0, rn_stdout = [], rn_stderr = []\<rparr>)),
       dk_loads = (\<lambda>s. None), dk_iidfile = (\<lambda>d. None), dk_environ = Map.empty\<rparr>,
     ta_endpoint = None, ta_os = ex_canonical_os, ta_root = ex_store_root, ta_system = lit ''demo'', ta_instance = ex_instance,
     ta_uid = 1000, ta_gid = 1000, ta_hex = lit ''0a'', ta_ensure = Inr, ta_temp = (\<lambda>fs. None)\<rparr>"

definition ex_admin_world :: "(ustr list list \<times> unit) admin_world" where
  "ex_admin_world = \<lparr>aw_docker = ([], ()), aw_fs = (\<lambda>p. Some FsDir)\<rparr>"

lemma ex_admin_log:
  "map hd (log_of (fst (run_task_tool ex_admin (lit ''task-list'') [lit ''--privileged''] None ex_admin_world))) =
    [lit ''container'', lit ''run'']"
  by code_simp


lemma bind_option_read_witness:
  "\<exists>v w. bind_option ex_canonical_os (Path (lit ''/'') [lit ''a'']) (lit ''/x'') True = Inr v \<and>
     csv_record v = Some [lit ''type=bind'', lit ''src=/a'', lit ''dst=/x'', lit ''readonly''] \<and>
     bind_option ex_canonical_os (Path (lit ''/'') [lit ''a,b'']) (lit ''/x'') True = Inr w \<and> csv_record w = None"
proof -
  have "is_ok (bind_option ex_canonical_os (Path (lit ''/'') [lit ''a'']) (lit ''/x'') True)"
    "is_ok (bind_option ex_canonical_os (Path (lit ''/'') [lit ''a,b'']) (lit ''/x'') True)" by code_simp+
  then obtain v w where
    v: "bind_option ex_canonical_os (Path (lit ''/'') [lit ''a'']) (lit ''/x'') True = Inr v" and
    w: "bind_option ex_canonical_os (Path (lit ''/'') [lit ''a,b'']) (lit ''/x'') True = Inr w" by (auto simp: is_ok_iff)
  have r: "resolve_strict ex_canonical_os p = Some p" for p by (simp add: ex_canonical_os_def)
  have t: "44 \<notin> set (lit ''/x'')" "34 \<notin> set (lit ''/x'')" by code_simp+
  have p: "44 \<notin> set (path_str (Path (lit ''/'') [lit ''a'']))" "34 \<notin> set (path_str (Path (lit ''/'') [lit ''a'']))"
    "44 \<in> set (path_str (Path (lit ''/'') [lit ''a,b'']))"
    "lit ''src='' @ path_str (Path (lit ''/'') [lit ''a'']) = lit ''src=/a''" "lit ''dst='' @ lit ''/x'' = lit ''dst=/x''" by code_simp+
  show ?thesis using bind_option_read [OF v r t] bind_option_read [OF w r t] p v w by simp
qed

end
