(* ===== verification/Gateway_Admin.thy ===== *)
theory Gateway_Admin imports Runtime_Ops Task_Admin begin

text \<open>
  \<open>src/cyclo/gateway_admin.py\<close>: administration of the gateway's accounts by one-shot containers of the gateway image.
  The runtime is the one of \<open>Runtime_Ops\<close>; Docker's command with its standard input, and what dcomp knows of volumes
  and pending operations, are parameters.
\<close>

definition GATEWAY_TOOL_LABEL :: ustr where "GATEWAY_TOOL_LABEL = lit ''io.cyclo.gateway-tool''"
definition GATEWAY_COMPONENT :: ustr where "GATEWAY_COMPONENT = lit ''gateway''"
definition CREDENTIALS_VOLUME :: ustr where "CREDENTIALS_VOLUME = lit ''credentials''"

definition is_environment_name :: "ustr \<Rightarrow> bool" where
  "is_environment_name s \<longleftrightarrow> re_name_star (\<lambda>c. is_alpha c \<or> c = 95) (\<lambda>c. is_alnum c \<or> c = 95) s"

record 'd gateway_tools =
  gt_command :: "ustr list \<Rightarrow> ustr option \<Rightarrow> ('d, run) action"
  gt_resume :: "('d, unit) action"
  gt_volume :: "ustr \<Rightarrow> ustr \<Rightarrow> ('d, ustr) action"
  gt_hex :: ustr

section \<open>Tools\<close>

definition tool_words ::
    "'d services \<Rightarrow> 'd gateway_tools \<Rightarrow> ustr \<Rightarrow> ustr list \<Rightarrow> ustr option \<Rightarrow> bool \<Rightarrow> ustr \<Rightarrow> bool \<Rightarrow> ustr list" where
  "tool_words sv gt img command volume read_only network interactive =
     [lit ''run''] @ (if interactive then [lit ''--interactive''] else []) @
     [lit ''--rm'', lit ''--name'', lit ''cyclo-'' @ sv_system sv @ lit ''-gateway-tool-'' @ gt_hex gt,
      lit ''--label'', GATEWAY_TOOL_LABEL @ [61] @ system_name sv, lit ''--network'', network,
      lit ''--security-opt'', lit ''no-new-privileges'', lit ''--cap-drop'', lit ''ALL'', lit ''--pids-limit'', lit ''256''] @
     (case volume of
        None \<Rightarrow> []
      | Some v \<Rightarrow> [lit ''--mount'', lit ''type=volume,src='' @ v @ lit '',dst='' @ GATEWAY_STORE @
                                  (if read_only then lit '',readonly'' else [])]) @
     [img] @ command"

definition gateway_tool ::
    "'d services \<Rightarrow> 'd gateway_tools \<Rightarrow> docker_image \<Rightarrow> ustr list \<Rightarrow> ustr option \<Rightarrow> bool \<Rightarrow> ustr \<Rightarrow> ustr option \<Rightarrow> bool \<Rightarrow>
      ('d world, run) action" where
  "gateway_tool sv gt im command volume read_only network input interactive =
     dbind (outside (remove_abandoned (\<lambda>args. gt_command gt args None) (GATEWAY_TOOL_LABEL @ [61] @ system_name sv)
       ''cannot enumerate abandoned gateway tools'' ''cannot remove abandoned gateway tool'')) (\<lambda>_.
     dbind (outside (gt_command gt (tool_words sv gt (di_id im) command volume read_only network interactive) input)) (\<lambda>result.
     ret (rbind (ensure (rn_code result = 0) (CycloError ''gateway tool failed'')) (\<lambda>_. Inr result))))"

definition credential_volume :: "'d services \<Rightarrow> 'd gateway_tools \<Rightarrow> ('d world, ustr) action" where
  "credential_volume sv gt = outside (gt_volume gt GATEWAY_COMPONENT CREDENTIALS_VOLUME)"

definition prepare_store :: "'d services \<Rightarrow> 'd gateway_tools \<Rightarrow> ('d world, ustr) action" where
  "prepare_store sv gt =
     dbind (outside (sv_status sv)) (\<lambda>first.
     dbind (if st_operation first \<noteq> [] then dbind (outside (gt_resume gt)) (\<lambda>_. outside (sv_status sv)) else ret (Inr first)) (\<lambda>st.
     if \<not> st_desired st then dbind (apply_gateway sv) (\<lambda>_. credential_volume sv gt)
     else
       dbind (ret (case status_component st GATEWAY_COMPONENT of
         None \<Rightarrow> Inl (CycloError ''gateway component is absent from the applied system'')
       | Some c \<Rightarrow> ensure (cs_container_id c \<noteq> [] \<and> cs_status c \<noteq> lit ''missing'')
           (CycloError ''gateway component is absent from the applied system''))) (\<lambda>_. credential_volume sv gt)))"

definition gateway_providers :: "'d services \<Rightarrow> 'd gateway_tools \<Rightarrow> ('d world, ustr) action" where
  "gateway_providers sv gt =
     dbind (build_gateway sv False) (\<lambda>im.
     dbind (gateway_tool sv gt im [lit ''providers''] None False (lit ''none'') None False) (\<lambda>r.
     ret (Inr (rstrip (rn_stdout r)))))"

definition gateway_usage :: "'d services \<Rightarrow> 'd gateway_tools \<Rightarrow> ('d world, jobj) action" where
  "gateway_usage sv gt =
     dbind (prepare_store sv gt) (\<lambda>volume.
     dbind (build_gateway sv False) (\<lambda>im.
     dbind (gateway_tool sv gt im [lit ''usage''] (Some volume) True (lit ''none'') None False) (\<lambda>r.
     ret (case dk_loads (sv_docker sv) (rn_stdout r) of
            None \<Rightarrow> Inl (CycloError ''gateway usage returned invalid JSON'')
          | Some (JObj document) \<Rightarrow> Inr document
          | Some _ \<Rightarrow> Inl (CycloError ''gateway usage did not return an object'')))))"

section \<open>Restarting the gateway\<close>

definition gateway_ready :: "dcomp_status \<Rightarrow> unit res" where
  "gateway_ready observed =
     (case status_component observed GATEWAY_COMPONENT of
        None \<Rightarrow> Inl (CycloError ''gateway did not become ready'')
      | Some c \<Rightarrow> ensure (cs_status c = lit ''running'' \<and> cs_health c = lit ''healthy'') (CycloError ''gateway did not become ready''))"

definition restart_gateway :: "'d services \<Rightarrow> 'd world \<Rightarrow> ('d world \<times> unit res) option" where
  "restart_gateway sv w =
     (case outside (sv_restart sv GATEWAY_COMPONENT) w of
        (w, Inl e) \<Rightarrow> Some (w, Inl e)
      | (w, Inr _) \<Rightarrow>
          map_option (\<lambda>(d, r). (w\<lparr>wd_outside := d\<rparr>, rbind r gateway_ready)) (wait_status sv 30000 (wd_outside w)))"

definition then_restart :: "'d services \<Rightarrow> ('d world, 'a) action \<Rightarrow> 'd world \<Rightarrow> ('d world \<times> unit res) option" where
  "then_restart sv m w = (case m w of (w, Inl e) \<Rightarrow> Some (w, Inl e) | (w, Inr _) \<Rightarrow> restart_gateway sv w)"

definition gateway_restart :: "'d services \<Rightarrow> 'd gateway_tools \<Rightarrow> 'd world \<Rightarrow> ('d world \<times> unit res) option" where
  "gateway_restart sv gt = then_restart sv (prepare_store sv gt)"

section \<open>Accounts\<close>

definition update_credentials :: "'d services \<Rightarrow> 'd gateway_tools \<Rightarrow> ustr list \<Rightarrow> 'd world \<Rightarrow> ('d world \<times> unit res) option" where
  "update_credentials sv gt command =
     then_restart sv
       (dbind (prepare_store sv gt) (\<lambda>volume.
        dbind (build_gateway sv False) (\<lambda>im. gateway_tool sv gt im command (Some volume) False (lit ''none'') None False)))"

definition gateway_logout :: "'d services \<Rightarrow> 'd gateway_tools \<Rightarrow> ustr \<Rightarrow> 'd world \<Rightarrow> ('d world \<times> unit res) option" where
  "gateway_logout sv gt account w =
     (if account = [] then Some (w, Inl (CycloError ''gateway logout requires an account''))
      else update_credentials sv gt [lit ''logout'', account] w)"

definition gateway_rename :: "'d services \<Rightarrow> 'd gateway_tools \<Rightarrow> ustr \<Rightarrow> ustr \<Rightarrow> 'd world \<Rightarrow> ('d world \<times> unit res) option" where
  "gateway_rename sv gt account new_account w =
     (if account = [] \<or> new_account = [] then Some (w, Inl (CycloError ''gateway rename requires two account names''))
      else update_credentials sv gt [lit ''rename'', account, new_account] w)"

text \<open>The arguments with \<open>--api-key-env NAME\<close> replaced, and the standard input of the tool.\<close>

definition login_selection :: "ustr list \<Rightarrow> env \<Rightarrow> (ustr list \<times> ustr option) res" where
  "login_selection arguments environment =
     (let indexes = filter (\<lambda>i. arguments ! i = lit ''--api-key-env'') [0..<length arguments] in
      rbind (ensure (length indexes \<le> 1) (CycloError ''--api-key-env may be used only once'')) (\<lambda>_.
      case indexes of
        [] \<Rightarrow> Inr (arguments, None)
      | index # _ \<Rightarrow>
          (let name = (if index + 1 < length arguments then arguments ! (index + 1) else []) in
           rbind (ensure (is_environment_name name) (CycloError ''--api-key-env requires an environment variable name'')) (\<lambda>_.
           rbind (of_option (CycloError ''environment variable is empty or unset'')
             (case environment name of Some value \<Rightarrow> if value \<noteq> [] then Some value else None | None \<Rightarrow> None)) (\<lambda>value.
           Inr (take index arguments @ [lit ''--api-key-stdin''] @ drop (index + 2) arguments, Some (value @ [10])))))))"

definition gateway_login :: "'d services \<Rightarrow> 'd gateway_tools \<Rightarrow> ustr list \<Rightarrow> env \<Rightarrow> 'd world \<Rightarrow> ('d world \<times> unit res) option" where
  "gateway_login sv gt arguments environment =
     then_restart sv
       (dbind (ret (ensure (arguments \<noteq> [] \<and> list_all (\<lambda>x. x \<noteq> []) arguments) (CycloError ''gateway login requires a provider''))) (\<lambda>_.
        dbind (prepare_store sv gt) (\<lambda>volume.
        dbind (build_gateway sv False) (\<lambda>im.
        dbind (ret (login_selection arguments environment)) (\<lambda>(selected, input).
        gateway_tool sv gt im (lit ''login'' # selected) (Some volume) False
          (if lit ''--api-key-stdin'' \<in> set selected then lit ''none'' else lit ''bridge'') input True)))))"

definition destroy_store :: "'d services \<Rightarrow> 'd gateway_tools \<Rightarrow> ustr \<Rightarrow> ('d world, ustr) action" where
  "destroy_store sv gt confirmation =
     dbind (credential_volume sv gt) (\<lambda>volume.
     dbind (ret (ensure (confirmation = volume) (CycloError ''confirmation must exactly match the gateway volume name''))) (\<lambda>_.
     dbind (outside (sv_down sv)) (\<lambda>_.
     dbind (outside (gt_command gt [lit ''volume'', lit ''rm'', lit ''--'', volume] None)) (\<lambda>result.
     if rn_code result = 0 then ret (Inr volume)
     else
       dbind (outside (gt_command gt [lit ''volume'', lit ''inspect'', lit ''--'', volume] None)) (\<lambda>inspected.
       ret (rbind (ensure (rn_code inspected \<noteq> 0) (CycloError ''cannot delete gateway store'')) (\<lambda>_. Inr volume)))))))"

section \<open>The key of a login\<close>

definition occurrences :: "'a \<Rightarrow> 'a list \<Rightarrow> nat list" where
  "occurrences a xs = filter (\<lambda>i. xs ! i = a) [0..<length xs]"

lemma occurrences_Nil: "occurrences a xs = [] \<longleftrightarrow> a \<notin> set xs"
  by (auto simp: occurrences_def filter_empty_conv in_set_conv_nth)

lemma occurrences_single:
  assumes "occurrences a xs = i # is" "length (occurrences a xs) \<le> 1"
  shows "i < length xs \<and> xs = take i xs @ a # drop (Suc i) xs \<and> a \<notin> set (take i xs) \<union> set (drop (Suc i) xs)"
proof -
  have "set (occurrences a xs) = {i}" using assms by (cases "is") auto
  then have o: "{j. j < length xs \<and> xs ! j = a} = {i}" by (auto simp: occurrences_def)
  then have i: "i < length xs" "xs ! i = a" by auto
  have "xs ! j = a \<Longrightarrow> j < length xs \<Longrightarrow> j = i" for j using o by auto
  then have "a \<notin> set (take i xs) \<union> set (drop (Suc i) xs)" using i(1) by (fastforce simp: in_set_conv_nth)
  then show ?thesis using i id_take_nth_drop [of i xs] by simp
qed

lemma occurrences_append:
  assumes "a \<notin> set ys" "a \<notin> set zs"
  shows "occurrences a (ys @ a # zs) = [length ys]"
proof (rule distinct_set_singleton)
  show "distinct (occurrences a (ys @ a # zs))" by (simp add: occurrences_def)
  have "j = length ys" if "j < length (ys @ a # zs)" "(ys @ a # zs) ! j = a" for j
    using that assms by (auto simp: nth_append nth_Cons split: if_splits nat.splits dest: nth_mem)
  moreover have "length ys < length (ys @ a # zs)" "(ys @ a # zs) ! length ys = a" by simp_all
  moreover have "set (occurrences a (ys @ a # zs)) = {j. j < length (ys @ a # zs) \<and> (ys @ a # zs) ! j = a}"
    unfolding occurrences_def set_filter by (simp only: set_upt) auto
  ultimately show "set (occurrences a (ys @ a # zs)) = {length ys}" by blast
qed

lemma key_name_not_option: "is_environment_name name \<Longrightarrow> name \<noteq> lit ''--api-key-env'' \<and> name \<noteq> []"
proof -
  have "\<not> is_environment_name (lit ''--api-key-env'')" "\<not> is_environment_name []" by code_simp+
  then show "is_environment_name name \<Longrightarrow> name \<noteq> lit ''--api-key-env'' \<and> name \<noteq> []" by metis
qed

lemma login_selection_cases:
  "login_selection arguments environment = Inr (selected, input) \<longleftrightarrow>
    lit ''--api-key-env'' \<notin> set arguments \<and> selected = arguments \<and> input = None \<or>
    (\<exists>before name after value. arguments = before @ [lit ''--api-key-env'', name] @ after \<and>
       lit ''--api-key-env'' \<notin> set (before @ [name] @ after) \<and> is_environment_name name \<and>
       environment name = Some value \<and> value \<noteq> [] \<and> selected = before @ [lit ''--api-key-stdin''] @ after \<and>
       input = Some (value @ [10]))" (is "?l \<longleftrightarrow> ?plain \<or> ?key")
proof (cases "occurrences (lit ''--api-key-env'') arguments")
  case Nil
  then have "lit ''--api-key-env'' \<notin> set arguments" by (simp add: occurrences_Nil)
  moreover have "?l \<longleftrightarrow> selected = arguments \<and> input = None"
    using Nil by (auto simp: login_selection_def occurrences_def)
  ultimately show ?thesis by auto
next
  case (Cons i "is")
  have in_args: "lit ''--api-key-env'' \<in> set arguments" using Cons occurrences_Nil [of "lit ''--api-key-env''" arguments] by auto
  have "?l \<Longrightarrow> ?key"
  proof -
    assume l: ?l
    let ?name = "if i + 1 < length arguments then arguments ! (i + 1) else []"
    have one: "length (occurrences (lit ''--api-key-env'') arguments) \<le> 1"
      using l by (auto simp: login_selection_def occurrences_def Let_def)
    have n: "is_environment_name ?name" and v: "\<exists>value. environment ?name = Some value \<and> value \<noteq> [] \<and>
        selected = take i arguments @ [lit ''--api-key-stdin''] @ drop (i + 2) arguments \<and> input = Some (value @ [10])"
      using l Cons by (auto simp: login_selection_def occurrences_def Let_def split: option.split_asm if_split_asm)
    note s = occurrences_single [OF Cons one]
    have "i + 1 < length arguments" using n key_name_not_option by (metis (full_types))
    then have d: "drop (Suc i) arguments = ?name # drop (i + 2) arguments"
      using Cons_nth_drop_Suc [of "i + 1" arguments] by simp
    have "arguments = take i arguments @ [lit ''--api-key-env'', ?name] @ drop (i + 2) arguments"
      using s d by (metis append_Cons append_Nil)
    moreover have "lit ''--api-key-env'' \<notin> set (take i arguments @ [?name] @ drop (i + 2) arguments)"
      using s d by (metis Un_iff append_Cons append_Nil set_append)
    ultimately show ?key using n v by blast
  qed
  moreover have "?key \<Longrightarrow> ?l"
  proof (elim exE conjE)
    fix before name after "value"
    assume a: "arguments = before @ [lit ''--api-key-env'', name] @ after"
      "lit ''--api-key-env'' \<notin> set (before @ [name] @ after)" "is_environment_name name"
      "environment name = Some value" "value \<noteq> []" "selected = before @ [lit ''--api-key-stdin''] @ after"
      "input = Some (value @ [10])"
    have "occurrences (lit ''--api-key-env'') (before @ lit ''--api-key-env'' # name # after) = [length before]"
      using a(2) by (intro occurrences_append) auto
    then show ?l using a unfolding login_selection_def occurrences_def [symmetric] Let_def by (simp add: nth_append)
  qed
  ultimately show ?thesis using in_args by blast
qed



section \<open>A restarted gateway\<close>

definition ends_ready :: "'d services \<Rightarrow> ('d world \<times> unit res) option \<Rightarrow> bool" where
  "ends_ready sv x \<longleftrightarrow> (\<exists>w' r. x = Some (w', r) \<and>
     (r = Inr () \<longrightarrow> (\<exists>d0 st. sv_status sv d0 = (wd_outside w', Inr st) \<and> gateway_ready st = Inr ())))"

lemma ends_error: "ends_ready sv (Some (w, Inl e))"
  by (simp add: ends_ready_def)

lemma restart_result:
  assumes "clock_runs sv"
  shows "ends_ready sv (restart_gateway sv w)"
proof -
  obtain w1 q where o: "outside (sv_restart sv GATEWAY_COMPONENT) w = (w1, q)" by (cases "outside (sv_restart sv GATEWAY_COMPONENT) w")
  show ?thesis
  proof (cases q)
    case (Inl e)
    then show ?thesis using o by (simp add: restart_gateway_def ends_error)
  next
    case (Inr u)
    obtain d' r where l: "wait_status sv 30000 (wd_outside w1) = Some (d', r)"
      using wait_loop_returns [OF assms] unfolding wait_status_def by blast
    obtain d0 where "sv_status sv d0 = (d', r)" using wait_loop_last [OF l [unfolded wait_status_def]] by blast
    then show ?thesis using o Inr l by (auto simp: restart_gateway_def ends_ready_def)
  qed
qed

lemma then_restart_result:
  assumes "clock_runs sv"
  shows "ends_ready sv (then_restart sv m w)"
proof -
  obtain w1 q where m: "m w = (w1, q)" by (cases "m w")
  show ?thesis
  proof (cases q)
    case (Inl e)
    then show ?thesis by (simp add: then_restart_def m ends_error)
  next
    case (Inr x)
    then show ?thesis using restart_result [OF assms, of w1] by (simp add: then_restart_def m)
  qed
qed

text \<open>A login, a logout and a rename always return; and a success means that after the account was changed the gateway
  was restarted and the last status that was read shows it running and healthy.\<close>

theorem account_change_ready:
  assumes "clock_runs sv"
    and "change = gateway_login sv gt arguments environment \<or> change = gateway_logout sv gt account \<or>
      change = gateway_rename sv gt account new_account \<or> change = gateway_restart sv gt"
  shows "\<exists>w' r. change w = Some (w', r) \<and>
    (r = Inr () \<longrightarrow> (\<exists>d0 st c. sv_status sv d0 = (wd_outside w', Inr st) \<and> status_component st GATEWAY_COMPONENT = Some c \<and>
       cs_status c = lit ''running'' \<and> cs_health c = lit ''healthy''))"
proof -
  have "ends_ready sv (change w)"
    using assms(2)
    unfolding gateway_login_def gateway_logout_def gateway_rename_def gateway_restart_def update_credentials_def
    by (elim disjE) (simp_all add: then_restart_result [OF assms(1)] ends_error)
  then show ?thesis by (fastforce simp: ends_ready_def gateway_ready_def split: option.splits)
qed

definition ex_tools :: "nat gateway_tools" where
  "ex_tools = \<lparr>gt_command = (\<lambda>args input d. (d, Inr \<lparr>rn_code = 0, rn_stdout = [], rn_stderr = []\<rparr>)), gt_resume = (\<lambda>d. (d, Inr ())),
     gt_volume = (\<lambda>c v d. (d, Inr (lit ''vol''))), gt_hex = lit ''0a''\<rparr>"

lemma account_change_ready_witness:
  "\<exists>w r. gateway_login ex_services ex_tools [lit ''acme'', lit ''--api-key-env'', lit ''KEY''] [lit ''KEY'' \<mapsto> lit ''s3''] ex_world = Some (w, r)"
  using account_change_ready [OF ex_clock_runs] by blast

end
