(* ===== verification/Realm.thy ===== *)
theory Realm imports Mounts Images begin

text \<open>
  The identity of a realm, the rest of \<open>StateStore\<close> (\<open>src/cyclo/state.py\<close>) with its selection in
  \<open>src/cyclo/cli.py\<close>: the host configuration scope and the Docker endpoint a state root is bound to.  Both are
  one-line files; the scope is bound under the lock of the realm, the endpoint by processes that do not hold it.
\<close>

section \<open>One-line files\<close>

text \<open>What opening such a file without following a link finds: its bytes, a node that is not a regular file, or a
  failure other than absence.\<close>

datatype state_file = LineBytes bytes | LineSpecial | LineDenied

text \<open>Universal newlines of a file opened in text mode.\<close>

fun text_newlines :: "ustr \<Rightarrow> ustr" where
  "text_newlines [] = []"
| "text_newlines [c] = [if c = 13 then 10 else c]"
| "text_newlines (c # d # cs) =
     (if c = 13 then (if d = 10 then 10 # text_newlines cs else 10 # text_newlines (d # cs))
      else c # text_newlines (d # cs))"

definition read_one_line :: "ustr set option \<Rightarrow> state_file option \<Rightarrow> ustr option res" where
  "read_one_line allowed f =
     (case f of
        None \<Rightarrow> Inr None
      | Some LineSpecial \<Rightarrow> Inl (CycloError ''invalid state file'')
      | Some LineDenied \<Rightarrow> Inl (CycloError ''cannot read state file'')
      | Some (LineBytes b) \<Rightarrow>
          rbind (ensure (length b \<le> 4096) (CycloError ''invalid state file'')) (\<lambda>_.
          rbind (of_option (CycloError ''cannot read state file'') (utf8_decode b)) (\<lambda>s.
          let content = take 4097 (text_newlines s) in
          rbind (ensure (endswith [10] content \<and> length (filter (\<lambda>c. c = 10) content) = 1) (CycloError ''invalid state file'')) (\<lambda>_.
          let line = butlast content in
          rbind (ensure (line \<noteq> [] \<and> (case allowed of None \<Rightarrow> True | Some vs \<Rightarrow> line \<in> vs)) (CycloError ''invalid state file'')) (\<lambda>_.
          Inr (Some line))))))"

text \<open>\<open>_write_once\<close> links a complete file to the name unless the name exists; \<open>_replace_file\<close> renames over it.\<close>

definition write_once :: "ustr \<Rightarrow> state_file option \<Rightarrow> state_file option \<times> unit res" where
  "write_once content f =
     (case utf8_encode content of
        Inl e \<Rightarrow> (f, Inl e)
      | Inr b \<Rightarrow> (case f of None \<Rightarrow> (Some (LineBytes b), Inr ()) | Some _ \<Rightarrow> (f, Inr ())))"

definition replace_line :: "ustr \<Rightarrow> state_file option \<Rightarrow> state_file option \<times> unit res" where
  "replace_line content f =
     (case utf8_encode content of Inl e \<Rightarrow> (f, Inl e) | Inr b \<Rightarrow> (Some (LineBytes b), Inr ()))"

section \<open>The store of a realm\<close>

record realm_store =
  rs_root :: ppath
  rs_shared :: bool
  rs_requested :: ustr
  rs_migrate :: bool
  rs_selected :: "ustr option"
  rs_bound :: "ustr option"

definition HOST_CONFIG_SCOPES :: "ustr set" where "HOST_CONFIG_SCOPES = {lit ''system'', lit ''local''}"

definition make_store :: "os_env \<Rightarrow> ppath option \<Rightarrow> ustr option \<Rightarrow> bool option \<Rightarrow> bool \<Rightarrow> realm_store res" where
  "make_store os root requested shared migrate =
     (let implicit_root = (root = None);
          scope = (case requested of Some s \<Rightarrow> s | None \<Rightarrow> if implicit_root then lit ''system'' else lit ''local'') in
      rbind (ensure (scope \<in> HOST_CONFIG_SCOPES) (CycloError ''host configuration scope must be system or local'')) (\<lambda>_.
      let selected = resolve_lax os (expanduser os (case root of Some p \<Rightarrow> p | None \<Rightarrow> SYSTEM_STATE_ROOT));
          common = (case shared of Some b \<Rightarrow> b | None \<Rightarrow> implicit_root) in
      rbind (ensure (\<not> (selected = resolve_lax os SYSTEM_STATE_ROOT \<and> \<not> common))
        (CycloError ''/var/lib/cyclo is the shared host realm'')) (\<lambda>_.
      Inr \<lparr>rs_root = selected, rs_shared = common, rs_requested = scope, rs_migrate = migrate,
           rs_selected = None, rs_bound = None\<rparr>)))"

definition state_store :: "os_env \<Rightarrow> user_env \<Rightarrow> ustr option \<Rightarrow> ustr option \<Rightarrow> bool \<Rightarrow> realm_store res" where
  "state_store os us xdg_state_home state_root locally =
     (let selected = (case state_root of Some s \<Rightarrow> if s = [] then None else Some s | None \<Rightarrow> None) in
      rbind (ensure (\<not> (locally \<and> selected \<noteq> None))
        (CycloError ''--local cannot be combined with --state-root or CYCLO_STATE_ROOT'')) (\<lambda>_.
      if locally then
        make_store os (Some (local_state_root os us xdg_state_home)) (Some (lit ''local'')) (Some False) True
      else
        make_store os (map_option (\<lambda>s. resolve_lax os (expanduser os (path_of s))) selected)
          (Some (if selected \<noteq> None then lit ''local'' else lit ''system''))
          (Some (selected = None)) False))"

section \<open>The host configuration scope\<close>

record realm_files =
  rf_scope :: "state_file option"
  rf_endpoint :: "state_file option"

definition can_migrate :: "realm_store \<Rightarrow> ustr \<Rightarrow> bool" where
  "can_migrate rs persisted \<longleftrightarrow>
     rs_migrate rs \<and> \<not> rs_shared rs \<and> persisted = lit ''system'' \<and> rs_requested rs = lit ''local''"

definition read_scope :: "realm_files \<Rightarrow> ustr option res" where
  "read_scope fl = read_one_line (Some HOST_CONFIG_SCOPES) (rf_scope fl)"

definition another_scope :: error where
  "another_scope = CycloError ''Cyclo realm was initialized with another host configuration scope''"

definition host_config_scope :: "realm_files \<Rightarrow> (realm_store, ustr) action" where
  "host_config_scope fl rs =
     (case rs_selected rs of
        Some s \<Rightarrow> (rs, Inr s)
      | None \<Rightarrow>
          (case rbind (read_scope fl) (\<lambda>persisted.
             case persisted of
               None \<Rightarrow> Inr (rs_requested rs)
             | Some p \<Rightarrow>
                 if p = rs_requested rs \<or> can_migrate rs p then Inr (rs_requested rs) else Inl another_scope) of
             Inl e \<Rightarrow> (rs, Inl e)
           | Inr s \<Rightarrow> (rs\<lparr>rs_selected := Some s\<rparr>, Inr s)))"

definition on_scope :: "(state_file option \<Rightarrow> state_file option \<times> unit res) \<Rightarrow> (realm_files \<times> realm_store, unit) action" where
  "on_scope f w = (case w of (fl, rs) \<Rightarrow> case f (rf_scope fl) of (x, r) \<Rightarrow> ((fl\<lparr>rf_scope := x\<rparr>, rs), r))"

definition scope_now :: "(realm_files \<times> realm_store, ustr option) action" where
  "scope_now w = (w, read_scope (fst w))"

definition bind_host_config_scope :: "(realm_files \<times> realm_store, unit) action" where
  "bind_host_config_scope =
     dbind (\<lambda>(fl, rs). case host_config_scope fl rs of (rs, r) \<Rightarrow> ((fl, rs), r)) (\<lambda>selected.
     dbind scope_now (\<lambda>persisted.
     dbind (if persisted = None then dbind (on_scope (write_once (selected @ [10]))) (\<lambda>_. scope_now)
            else ret (Inr persisted)) (\<lambda>persisted w.
     if persisted = Some selected then (w, Inr ())
     else
       dbind (if (case persisted of Some p \<Rightarrow> can_migrate (snd w) p | None \<Rightarrow> False)
              then dbind (on_scope (replace_line (selected @ [10]))) (\<lambda>_. scope_now) else ret (Inr persisted)) (\<lambda>persisted.
       ret (ensure (persisted = Some selected) another_scope)) w)))"

definition host_config :: "realm_files \<Rightarrow> (realm_store, ppath) action" where
  "host_config fl =
     dbind (host_config_scope fl) (\<lambda>scope rs.
     if scope = lit ''system'' then (rs, Inr SYSTEM_HOST_CONFIG)
     else if scope = lit ''local'' then (rs, Inr (joinpath (rs_root rs) (path_of (lit ''host.conf''))))
     else (rs, Inl (CycloError ''Cyclo realm has no host configuration scope'')))"

section \<open>The Docker endpoint\<close>

text \<open>The steps of the property \<open>docker_endpoint\<close>, between which other processes run: it reads the file, publishes
  its own endpoint when there is none, and reads again.  \<open>sel\<close> is the result of \<open>local_docker_endpoint\<close>.\<close>

datatype binding_pc = Fresh | Unbound ustr | Published ustr | Bound ustr | Refused error

definition bind_step :: "ustr res \<Rightarrow> state_file option \<times> binding_pc \<Rightarrow> state_file option \<times> binding_pc" where
  "bind_step sel st =
     (case st of (f, p) \<Rightarrow>
      case p of
        Fresh \<Rightarrow>
          (f, case rbind sel (\<lambda>s. rbind (read_one_line None f) (\<lambda>found. Inr (s, found))) of
                Inl e \<Rightarrow> Refused e
              | Inr (s, None) \<Rightarrow> Unbound s
              | Inr (s, Some found) \<Rightarrow>
                  if found = s then Bound found else Refused (CycloError ''Cyclo realm is bound to another Docker daemon''))
      | Unbound s \<Rightarrow> (case write_once (s @ [10]) f of (f', Inl e) \<Rightarrow> (f', Refused e) | (f', Inr _) \<Rightarrow> (f', Published s))
      | Published s \<Rightarrow>
          (f, case read_one_line None f of
                Inl e \<Rightarrow> Refused e
              | Inr found \<Rightarrow>
                  if found = Some s then Bound s
                  else Refused (CycloError ''Cyclo realm was concurrently bound to another Docker daemon''))
      | _ \<Rightarrow> (f, p))"

text \<open>One process alone: at most three steps.  The store remembers an endpoint it has read.\<close>

definition docker_endpoint :: "ustr res \<Rightarrow> (realm_files \<times> realm_store, ustr) action" where
  "docker_endpoint sel w =
     (case w of (fl, rs) \<Rightarrow>
      case rs_bound rs of
        Some found \<Rightarrow>
          (w, rbind sel (\<lambda>s. rbind (ensure (found = s) (CycloError ''Cyclo realm is bound to another Docker daemon'')) (\<lambda>_. Inr found)))
      | None \<Rightarrow>
          (case ((bind_step sel) ^^ 3) (rf_endpoint fl, Fresh) of
             (f, Bound s) \<Rightarrow> ((fl\<lparr>rf_endpoint := f\<rparr>, rs\<lparr>rs_bound := Some s\<rparr>), Inr s)
           | (f, Refused e) \<Rightarrow>
               ((fl\<lparr>rf_endpoint := f\<rparr>,
                 rs\<lparr>rs_bound := (case (sel, read_one_line None (rf_endpoint fl)) of (Inr _, Inr found) \<Rightarrow> found | _ \<Rightarrow> None)\<rparr>), Inl e)
           | (f, _) \<Rightarrow> ((fl\<lparr>rf_endpoint := f\<rparr>, rs), Inl AssertionErr)))"

definition bound_docker_endpoint :: "realm_files \<Rightarrow> (realm_store, ustr option) action" where
  "bound_docker_endpoint fl rs =
     (case rs_bound rs of
        Some found \<Rightarrow> (rs, Inr (Some found))
      | None \<Rightarrow>
          (case read_one_line None (rf_endpoint fl) of
             Inl e \<Rightarrow> (rs, Inl e)
           | Inr found \<Rightarrow> (rs\<lparr>rs_bound := found\<rparr>, Inr found)))"

definition observed_docker_endpoint :: "realm_files \<Rightarrow> ustr res \<Rightarrow> (realm_store, ustr) action" where
  "observed_docker_endpoint fl sel =
     dbind (bound_docker_endpoint fl) (\<lambda>found. ret (case found of Some e \<Rightarrow> Inr e | None \<Rightarrow> sel))"

text \<open>Any number of processes on one state root, each with its own Docker, in any interleaving.\<close>

inductive binders :: "(nat \<Rightarrow> ustr res) \<Rightarrow> state_file option \<Rightarrow> state_file option \<Rightarrow> (nat \<Rightarrow> binding_pc) \<Rightarrow> bool" for sel f0 where
  binders_start: "binders sel f0 f0 (\<lambda>_. Fresh)"
| binders_step: "binders sel f0 f ps \<Longrightarrow> bind_step (sel i) (f, ps i) = (f', p) \<Longrightarrow> binders sel f0 f' (ps(i := p))"


section \<open>What is written reads back\<close>

lemma text_newlines_id: "13 \<notin> set s \<Longrightarrow> text_newlines s = s"
  by (induction s rule: text_newlines.induct) auto

text \<open>A line that a later reader accepts unchanged.\<close>

definition storable_line :: "ustr \<Rightarrow> bool" where
  "storable_line s \<longleftrightarrow> s \<noteq> [] \<and> 10 \<notin> set s \<and> 13 \<notin> set s \<and> (\<exists>b. utf8_encode (s @ [10]) = Inr b \<and> length b \<le> 4096)"

lemma utf8_char_not_Nil: "utf8_char c \<noteq> []"
  by (auto simp: utf8_char_def)

lemma utf8_encode_grows:
  assumes "utf8_encode s = Inr b"
  shows "length s \<le> length b"
proof -
  have one: "1 \<le> length (utf8_char c)" for c using utf8_char_not_Nil [of c] by (cases "utf8_char c") auto
  have "length s \<le> length (concat (map utf8_char s))"
  proof (induction s)
    case (Cons c s)
    then show ?case using one [of c] by simp
  qed simp
  then show ?thesis using assms by (auto simp: utf8_encode_def split: if_splits)
qed

lemma read_written:
  assumes "storable_line s" "utf8_encode (s @ [10]) = Inr b" "case allowed of None \<Rightarrow> True | Some vs \<Rightarrow> s \<in> vs"
  shows "read_one_line allowed (Some (LineBytes b)) = Inr (Some s)"
proof -
  have b: "length b \<le> 4096" using assms(1,2) by (auto simp: storable_line_def)
  have "length (s @ [10]) \<le> 4096" using utf8_encode_grows [OF assms(2)] b by linarith
  then have t: "take 4097 (s @ [10]) = s @ [10]" by simp
  have "text_newlines (s @ [10]) = s @ [10]" using assms(1) by (intro text_newlines_id) (auto simp: storable_line_def)
  moreover have "filter (\<lambda>c. c = 10) s = []" using assms(1) by (auto simp: storable_line_def filter_empty_conv)
  ultimately show ?thesis
    using b utf8_decode_encode [OF assms(2)] assms(1,3) t
    by (auto simp: read_one_line_def storable_line_def endswith_iff Let_def split: option.splits)
qed

section \<open>One Docker daemon\<close>

lemma bind_step_file:
  assumes "bind_step sel (Some x, p) = (f', p')"
  shows "f' = Some x"
  using assms by (auto simp: bind_step_def write_once_def split: binding_pc.splits sum.splits option.splits)

text \<open>What the file says while a process is at one of its points.\<close>

definition pc_ok :: "ustr res \<Rightarrow> state_file option \<Rightarrow> binding_pc \<Rightarrow> bool" where
  "pc_ok sel f p = (case p of
     Bound s \<Rightarrow> sel = Inr s \<and> f \<noteq> None \<and> read_one_line None f = Inr (Some s)
   | Published s \<Rightarrow> sel = Inr s \<and> f \<noteq> None
   | Unbound s \<Rightarrow> sel = Inr s
   | _ \<Rightarrow> True)"

lemma bind_step_ok:
  assumes "pc_ok sel f p" "bind_step sel (f, p) = (f', p')"
  shows "pc_ok sel f' p'"
  using assms
  by (cases p) (auto simp: bind_step_def pc_ok_def write_once_def read_one_line_def
      split: sum.splits option.splits if_splits prod.splits)

lemma pc_ok_kept: "pc_ok sel f p \<Longrightarrow> bind_step sel' (f, q) = (f', q') \<Longrightarrow> pc_ok sel f' p"
  using bind_step_file by (cases f; cases p) (fastforce simp: pc_ok_def)+

lemma binders_inv: "binders sel f0 f ps \<Longrightarrow> (\<forall>i. pc_ok (sel i) f (ps i)) \<and> (f0 \<noteq> None \<longrightarrow> f = f0)"
proof (induction rule: binders.induct)
  case binders_start
  then show ?case by (simp add: pc_ok_def)
next
  case (binders_step f ps i f' p)
  have "pc_ok (sel j) f' ((ps(i := p)) j)" for j
    using bind_step_ok [OF _ binders_step.hyps(2)] pc_ok_kept [OF _ binders_step.hyps(2)] binders_step.IH by simp
  moreover have "f' = f0" if "f0 \<noteq> None"
    using binders_step.IH binders_step.hyps(2) bind_step_file that by fastforce
  ultimately show ?case by blast
qed

text \<open>C23: however many processes with different Docker daemons start on one state root, and however their steps
  interleave, those whose \<open>docker_endpoint\<close> succeeds agree: each got the daemon it selected, it is the one the file
  names, and no later step changes the file.\<close>

theorem one_docker_daemon:
  assumes "binders sel f0 f ps" "ps i = Bound e"
  shows "sel i = Inr e \<and> read_one_line None f = Inr (Some e) \<and> (\<forall>j e'. ps j = Bound e' \<longrightarrow> e' = e) \<and>
    (\<forall>j f' p. bind_step (sel j) (f, ps j) = (f', p) \<longrightarrow> f' = f)"
proof -
  have inv: "pc_ok (sel j) f (ps j)" for j using binders_inv [OF assms(1)] by blast
  have f: "f \<noteq> None" "read_one_line None f = Inr (Some e)" "sel i = Inr e"
    using inv [of i] assms(2) by (simp_all add: pc_ok_def)
  moreover have "e' = e" if "ps j = Bound e'" for j e' using inv [of j] f(2) that by (simp add: pc_ok_def)
  moreover have "f' = f" if "bind_step (sel j) (f, ps j) = (f', p)" for j f' p
    using bind_step_file f(1) that by fastforce
  ultimately show ?thesis by blast
qed

text \<open>A process alone always comes to an end, and binds an unbound root.\<close>

lemma docker_endpoint_unbound:
  assumes "rf_endpoint fl = None" "rs_bound rs = None" "storable_line e"
  shows "\<exists>f. docker_endpoint (Inr e) (fl, rs) = ((fl\<lparr>rf_endpoint := f\<rparr>, rs\<lparr>rs_bound := Some e\<rparr>), Inr e) \<and>
    read_one_line None f = Inr (Some e)"
proof -
  obtain b where b: "utf8_encode (e @ [10]) = Inr b" using assms(3) by (auto simp: storable_line_def)
  have r: "read_one_line None (Some (LineBytes b)) = Inr (Some e)" by (rule read_written [OF assms(3) b]) simp
  have "read_one_line None None = Inr None" by (simp add: read_one_line_def)
  then show ?thesis using assms b r
    by (intro exI [of _ "Some (LineBytes b)"])
      (simp add: docker_endpoint_def numeral_3_eq_3 bind_step_def write_once_def del: rbind_eq_Inr)
qed

section \<open>One host configuration\<close>

lemma bind_scope_ok:
  assumes "bind_host_config_scope (fl, rs) = ((fl', rs'), Inr ())" "rs_selected rs = None"
  shows "rs_selected rs' = Some (rs_requested rs) \<and> read_scope fl' = Inr (Some (rs_requested rs)) \<and>
    rs_root rs' = rs_root rs \<and>
    (\<forall>p. read_scope fl = Inr (Some p) \<longrightarrow> p = rs_requested rs \<or> can_migrate rs p)"
  using assms
  by (auto simp: bind_host_config_scope_def dbind_def ret_def scope_now_def on_scope_def host_config_scope_def
      ensure_def another_scope_def split: prod.splits sum.splits option.splits if_splits)

lemma bind_scope_refused:
  assumes "read_scope fl = Inr (Some p)" "rs_selected rs = None" "p \<noteq> rs_requested rs" "\<not> can_migrate rs p"
  shows "bind_host_config_scope (fl, rs) = ((fl, rs), Inl another_scope)" "host_config fl rs = (rs, Inl another_scope)"
  using assms
  by (simp_all add: bind_host_config_scope_def host_config_def dbind_def host_config_scope_def del: rbind_eq_Inr)

lemma read_scope_known: "read_scope fl = Inr (Some p) \<Longrightarrow> p \<in> HOST_CONFIG_SCOPES"
  by (auto simp: read_scope_def read_one_line_def Let_def split: option.split_asm state_file.split_asm)


text \<open>The stores the command line selects: only the default realm is shared and reads the system's configuration,
  and no private realm has its state root.\<close>

theorem state_store_private:
  assumes "state_store os us xdg state_root locally = Inr rs"
  shows "rs_selected rs = None \<and> rs_shared rs = (rs_requested rs = lit ''system'') \<and>
    rs_requested rs = (if \<not> locally \<and> state_root \<in> {None, Some []} then lit ''system'' else lit ''local'') \<and>
    (rs_requested rs = lit ''local'' \<longrightarrow> rs_root rs \<noteq> resolve_lax os SYSTEM_STATE_ROOT) \<and>
    (rs_migrate rs \<longrightarrow> locally)"
  using assms by (auto simp: state_store_def make_store_def HOST_CONFIG_SCOPES_def Let_def split: if_splits option.splits)

section \<open>Examples\<close>

definition ex_realm_store :: realm_store where
  "ex_realm_store = \<lparr>rs_root = path_of (lit ''/srv/c''), rs_shared = False, rs_requested = lit ''local'', rs_migrate = False,
     rs_selected = None, rs_bound = None\<rparr>"

lemma one_docker_daemon_witness:
  "\<exists>f ps. binders (\<lambda>i. Inr (lit ''unix:///run/d.sock'')) None f ps \<and> ps 0 = Bound (lit ''unix:///run/d.sock'') \<and>
    read_one_line None f = Inr (Some (lit ''unix:///run/d.sock''))"
proof -
  let ?e = "lit ''unix:///run/d.sock''" and ?sel = "\<lambda>i :: nat. Inr (lit ''unix:///run/d.sock'') :: ustr res"
  let ?f1 = "fst (bind_step (Inr ?e) (None, Fresh))" and ?p1 = "snd (bind_step (Inr ?e) (None, Fresh))"
  let ?f2 = "fst (bind_step (Inr ?e) (?f1, ?p1))" and ?p2 = "snd (bind_step (Inr ?e) (?f1, ?p1))"
  let ?f3 = "fst (bind_step (Inr ?e) (?f2, ?p2))" and ?p3 = "snd (bind_step (Inr ?e) (?f2, ?p2))"
  have 1: "binders ?sel None ?f1 ((\<lambda>_. Fresh)(0 := ?p1))" by (rule binders_step [OF binders_start]) simp
  have 2: "binders ?sel None ?f2 ((\<lambda>_. Fresh)(0 := ?p1, 0 := ?p2))" by (rule binders_step [OF 1]) simp
  have 3: "binders ?sel None ?f3 ((\<lambda>_. Fresh)(0 := ?p1, 0 := ?p2, 0 := ?p3))" by (rule binders_step [OF 2]) simp
  have p: "?p3 = Bound ?e" by code_simp
  have b: "((\<lambda>_. Fresh)(0 := ?p1, 0 := ?p2, 0 := ?p3)) 0 = Bound ?e" by (simp only: fun_upd_same p)
  show ?thesis using 3 b one_docker_daemon [OF 3 b] by blast
qed

lemma ex_scope_bound:
  "\<exists>fl rs. bind_host_config_scope (\<lparr>rf_scope = None, rf_endpoint = None\<rparr>, ex_realm_store) = ((fl, rs), Inr ())"
proof -
  have "snd (bind_host_config_scope (\<lparr>rf_scope = None, rf_endpoint = None\<rparr>, ex_realm_store)) = Inr ()" by code_simp
  then show ?thesis by (metis prod.exhaust_sel)
qed


lemma state_store_private_witness:
  "\<exists>os us rs. state_store os us None (Some (lit ''/srv/c'')) False = Inr rs \<and> \<not> rs_shared rs"
proof -
  let ?os = "\<lparr>resolve_strict = Some, resolve_lax = \<lambda>p. p, expanduser = \<lambda>p. p, cwd = path_of (lit ''/''), is_dir = \<lambda>p. True,
    read_nofollow = \<lambda>p. undefined\<rparr>"
  let ?us = "\<lparr>us_home = path_of (lit ''/root''), us_uid = 0, us_runtime = None\<rparr>"
  have "is_ok (state_store ?os ?us None (Some (lit ''/srv/c'')) False)" by code_simp
  then obtain rs where rs: "state_store ?os ?us None (Some (lit ''/srv/c'')) False = Inr rs" by (auto simp: is_ok_iff)
  then show ?thesis using state_store_private [OF rs] by (auto simp: lit_def)
qed

end
