(* ===== verification/Command_Line.thy ===== *)
theory Command_Line imports Project_Run Runtime_Ops Realm "HOL-Library.Sublist" "HOL-Library.Multiset" begin

text \<open>
  The parts of \<open>src/cyclo/cli.py\<close> that compute without a realm: the global options, the choice between project
  files and repositories, a new project definition, the checks of identifiers, conditions of components, tables and
  the model catalogue.  A printed line is a value without its line end.
\<close>

section \<open>Options\<close>

definition STATE_ROOT_OPTION :: ustr where "STATE_ROOT_OPTION = lit ''--state-root''"
definition LOCAL_OPTION :: ustr where "LOCAL_OPTION = lit ''--local''"
definition END_OF_OPTIONS :: ustr where "END_OF_OPTIONS = lit ''--''"

text \<open>The options that move to the front, and the words that remain.\<close>

fun split_global_options :: "ustr list \<Rightarrow> ustr list \<times> ustr list" where
  "split_global_options [] = ([], [])"
| "split_global_options [a] =
     (if a = END_OF_OPTIONS then ([], [a])
      else if a = STATE_ROOT_OPTION \<or> startswith (STATE_ROOT_OPTION @ [61]) a \<or> a = LOCAL_OPTION then ([a], [])
      else ([], [a]))"
| "split_global_options (a # b # rest) =
     (if a = END_OF_OPTIONS then ([], a # b # rest)
      else if a = STATE_ROOT_OPTION then (let (g, r) = split_global_options rest in (a # b # g, r))
      else if startswith (STATE_ROOT_OPTION @ [61]) a \<or> a = LOCAL_OPTION
        then (let (g, r) = split_global_options (b # rest) in (a # g, r))
      else (let (g, r) = split_global_options (b # rest) in (g, a # r)))"

definition normalize_global_options :: "ustr list \<Rightarrow> ustr list" where
  "normalize_global_options argv = (let (g, r) = split_global_options argv in g @ r)"

section \<open>Project files\<close>

text \<open>\<open>PurePath.suffix\<close>.\<close>

definition path_suffix :: "ppath \<Rightarrow> ustr" where
  "path_suffix p =
     (let n = path_name p; stem = rev (dropWhile (\<lambda>c. c \<noteq> 46) (rev n)) in
      if length stem \<le> 1 \<or> length stem = length n then [] else drop (length stem - 1) n)"

definition PROJECT_FILE :: ustr where "PROJECT_FILE = lit ''project.cyclo''"
definition PROJECT_SUFFIX :: ustr where "PROJECT_SUFFIX = lit ''.cyclo''"

definition looks_like_project_file :: "os_env \<Rightarrow> (ppath \<Rightarrow> bool) \<Rightarrow> ustr \<Rightarrow> bool" where
  "looks_like_project_file os is_file v =
     (let path = expanduser os (path_of v) in
      \<not> is_dir os path \<and> (is_file path \<or> path_name path = PROJECT_FILE \<or> path_suffix path = PROJECT_SUFFIX))"

definition project_init_path :: "os_env \<Rightarrow> ustr \<Rightarrow> ppath res" where
  "project_init_path os v =
     (let selected = abspath os (expanduser os (path_of v)) in
      rbind (ensure (path_name selected = PROJECT_FILE \<or> path_suffix selected = PROJECT_SUFFIX)
        (CycloError ''project definition must be named project.cyclo or end in .cyclo'')) (\<lambda>_. Inr selected))"

definition check_access_mode :: "ustr \<Rightarrow> unit res" where
  "check_access_mode v = ensure (v \<in> {lit ''ro'', lit ''rw''}) (CycloError ''invalid access mode; expected ro or rw'')"

record init_args =
  ia_definition :: ustr
  ia_name :: "ustr option"
  ia_description :: "ustr option"
  ia_context_file :: "ustr option"
  ia_team :: "(ustr \<times> ustr) list"
  ia_mount :: "(ustr \<times> ustr \<times> ustr) list"

definition given :: "ustr option \<Rightarrow> bool" where
  "given x \<longleftrightarrow> (case x of None \<Rightarrow> False | Some s \<Rightarrow> s \<noteq> [])"

definition path_stem :: "ppath \<Rightarrow> ustr" where
  "path_stem p = (let n = path_name p in take (length n - length (path_suffix p)) n)"

definition default_project_name :: "ppath \<Rightarrow> ustr" where
  "default_project_name destination =
     slug (if path_name destination = PROJECT_FILE then path_name (path_parent destination) else path_stem destination) 64"

definition project_init_content :: "os_env \<Rightarrow> init_args \<Rightarrow> ppath \<Rightarrow> ustr res" where
  "project_init_content os args destination =
     (let name = (if given (ia_name args) then the (ia_name args) else default_project_name destination);
          description = (if given (ia_description args) then the (ia_description args)
                         else lit ''Cyclo project '' @ name @ lit ''.'') in
      rbind (if given (ia_context_file args)
             then rbind (read_project_context os (the (ia_context_file args))) (\<lambda>context.
               let marker = project_context_marker context in
               Inr [[], lit ''context <<'' @ marker, context, marker])
             else Inr []) (\<lambda>context.
      rbind (mapE (\<lambda>(path, mode). rbind (check_access_mode mode) (\<lambda>_. Inr (lit ''team '' @ path @ [32] @ mode))) (ia_team args)) (\<lambda>teams.
      rbind (mapE (\<lambda>(mount, path, mode). rbind (check_access_mode mode) (\<lambda>_.
               Inr (lit ''mount '' @ mount @ [32] @ path @ [32] @ mode))) (ia_mount args)) (\<lambda>mounts.
      Inr (join [10] ([lit ''name '' @ name, lit ''description '' @ description] @ context @ [[]] @ teams @ [[]] @ mounts)
           @ [10])))))"

text \<open>\<open>files\<close> holds the files beside the destination.  The new file is written under the name \<open>temporary\<close>, loaded
  there, and linked to its name unless that exists; the temporary name goes away in any case.\<close>

type_synonym files = "ppath \<rightharpoonup> bytes"

definition with_files :: "os_env \<Rightarrow> files \<Rightarrow> os_env" where
  "with_files os files =
     os\<lparr>read_nofollow := (\<lambda>p. case files p of Some content \<Rightarrow> Content content | None \<Rightarrow> read_nofollow os p)\<rparr>"

definition publish_project ::
    "os_env \<Rightarrow> (os_env \<Rightarrow> project \<Rightarrow> unit res) \<Rightarrow> ppath \<Rightarrow> ppath \<Rightarrow> ustr \<Rightarrow> files \<Rightarrow> files \<times> unit res" where
  "publish_project os load_teams temporary destination content files =
     (case files temporary of
        Some _ \<Rightarrow> (files(temporary := None), Inl (OSErr ''file exists''))
      | None \<Rightarrow>
          (case utf8_encode content of
             Inl e \<Rightarrow> (files, Inl e)
           | Inr raw \<Rightarrow>
               let os' = with_files os (files(temporary \<mapsto> raw)) in
               (case rbind (load_project os' (path_str temporary)) (load_teams os') of
                  Inl e \<Rightarrow> (files, Inl e)
                | Inr _ \<Rightarrow>
                    (case files destination of
                       Some _ \<Rightarrow> (files, Inl (CycloError ''refusing to overwrite project definition''))
                     | None \<Rightarrow> (files(destination \<mapsto> raw), Inr ())))))"

definition init_temporary :: "ppath \<Rightarrow> ustr \<Rightarrow> ppath" where
  "init_temporary destination tail =
     child (path_parent destination) (lit ''.'' @ path_name destination @ lit ''.init-'' @ tail)"

definition cmd_project_init ::
    "os_env \<Rightarrow> (os_env \<Rightarrow> project \<Rightarrow> unit res) \<Rightarrow> ustr \<Rightarrow> init_args \<Rightarrow> files \<Rightarrow> files \<times> ustr list res" where
  "cmd_project_init os load_teams tail args files =
     (case rbind (project_init_path os (ia_definition args)) (\<lambda>destination.
        rbind (project_init_content os args destination) (\<lambda>content. Inr (destination, content))) of
        Inl e \<Rightarrow> (files, Inl e)
      | Inr (destination, content) \<Rightarrow>
          (case publish_project os load_teams (init_temporary destination tail) destination content files of
             (files, r) \<Rightarrow> (files, rbind r (\<lambda>_. Inr [lit ''initialized Cyclo project: '' @ path_str destination]))))"

section \<open>Identifiers\<close>

definition is_task_id :: "ustr \<Rightarrow> bool" where
  "is_task_id = re_name_star is_alnum (\<lambda>c. is_alnum c \<or> c = 46 \<or> c = 95 \<or> c = 45)"

definition validate_task_id :: "ustr \<Rightarrow> unit res" where
  "validate_task_id v = ensure (is_task_id v) (CycloError ''task ID must start with a letter or number'')"

definition validate_job_id :: "ustr \<Rightarrow> unit res" where
  "validate_job_id v = ensure (is_task_id v) (CycloError ''job ID must start with a letter or number'')"

definition validate_role :: "ustr \<Rightarrow> unit res" where
  "validate_role v = ensure (is_task_id v) (CycloError ''role must start with a letter or number'')"

section \<open>Conditions\<close>

definition component_condition :: "component_status option \<Rightarrow> ustr \<times> ustr" where
  "component_condition c =
     (case c of
        None \<Rightarrow> (lit ''absent'', lit ''component is not in the applied DComp system'')
      | Some c \<Rightarrow>
          if cs_status c = lit ''running'' \<and> cs_health c = lit ''healthy'' then (lit ''ready'', [])
          else (lit ''not-ready'',
                if cs_problem c \<noteq> [] then cs_problem c
                else lit ''container='' @ cs_status c @ lit '', health='' @ cs_health c))"

text \<open>\<open>host\<close> is \<open>runtime.host\<close>, which raises when the host configuration does not load; \<open>repr\<close> is
  Python's, of a string.\<close>

definition running_instance_condition ::
    "(ustr \<Rightarrow> ustr) \<Rightarrow> host res \<Rightarrow> dcomp_status \<Rightarrow> component_status option \<Rightarrow> bool \<Rightarrow> (ustr \<times> ustr) res" where
  "running_instance_condition repr host st c check_provider =
     (if st_operation st \<noteq> [] then
        Inr (lit ''not-ready'', lit ''DComp operation '' @ repr (st_operation st) @ lit '' is pending'' @
             (if st_phase st \<noteq> [] then lit '' ('' @ st_phase st @ lit '')'' else []))
      else if \<not> check_provider then Inr (component_condition c)
      else
        rbind host (\<lambda>h.
        case component_condition (status_component st (outer_component h)) of (condition, detail) \<Rightarrow>
        if condition \<noteq> lit ''ready'' then
          Inr (lit ''not-ready'', lit ''provider '' @ repr (outer_component h) @ lit '': '' @
               (if detail \<noteq> [] then detail else condition))
        else Inr (component_condition c)))"

section \<open>Tables\<close>

definition ljust :: "nat \<Rightarrow> ustr \<Rightarrow> ustr" where
  "ljust w s = s @ replicate (w - length s) 32"

definition table_widths :: "ustr list \<Rightarrow> ustr list list \<Rightarrow> nat list" where
  "table_widths headers rows =
     map (\<lambda>i. if rows = [] then length (headers ! i) else Max (set (map (\<lambda>row. length (row ! i)) rows))) [0..<length headers]"

definition table_line :: "nat list \<Rightarrow> ustr list \<Rightarrow> ustr" where
  "table_line widths row = join [32, 32] (map2 ljust widths row)"

definition print_table :: "ustr list \<Rightarrow> ustr list list \<Rightarrow> ustr list" where
  "print_table headers rows =
     (let widths = table_widths headers rows in table_line widths headers # map (table_line widths) rows)"

definition component_rows :: "dcomp_status \<Rightarrow> ustr list \<Rightarrow> ustr list list" where
  "component_rows st names =
     map (\<lambda>name.
       let c = status_component st name; (condition, detail) = component_condition c in
       [name, condition, (case c of Some c \<Rightarrow> cs_health c | None \<Rightarrow> lit ''-''), if detail \<noteq> [] then detail else lit ''-'']) names"

definition known_component_names :: "instance_rec list \<Rightarrow> dcomp_status \<Rightarrow> ustr list res" where
  "known_component_names instances st =
     rbind (mapE (\<lambda>i. team_component_name (in_id i)) (filter (\<lambda>i. in_intent i = lit ''running'') instances)) (\<lambda>teams.
     Inr (sort (remdups ([lit ''gateway''] @ teams @ map cs_name (st_components st)))))"

section \<open>The model catalogue\<close>

definition check_catalogue :: "jobj \<Rightarrow> jobj res" where
  "check_catalogue catalogue =
     rbind (of_option (CycloError ''provider system returned an invalid model catalogue'')
       (as_list (jget catalogue (lit ''models'')))) (\<lambda>_. Inr catalogue)"

definition catalogue_ids :: "jobj \<Rightarrow> ustr list res" where
  "catalogue_ids catalogue =
     rbind (of_option (CycloError ''provider system returned an invalid model catalogue'')
       (as_list (jget catalogue (lit ''models'')))) (\<lambda>raw.
     Inr (sort (remdups (List.map_filter (\<lambda>j.
       case as_obj j of
         None \<Rightarrow> None
       | Some kvs \<Rightarrow> (case as_str (jget kvs (lit ''id'')) of Some i \<Rightarrow> if i \<noteq> [] then Some i else None | None \<Rightarrow> None)) raw))))"

section \<open>Instances\<close>

definition ensure_new_instances :: "run_binding list \<Rightarrow> instance_rec list \<Rightarrow> unit res" where
  "ensure_new_instances bindings current =
     ensure (\<not> (\<exists>b\<in>set bindings. in_id (rb_instance b) \<in> in_id ` set current)) (CycloError ''Cyclo instance already exists'')"

text \<open>The lines before a raise are printed.\<close>

definition announce_instance :: "dcomp_status \<Rightarrow> instance_rec \<Rightarrow> ustr list \<times> unit res" where
  "announce_instance st i =
     (let first = in_id i @ lit '': running'' in
      case team_port i st of
        Inl e \<Rightarrow> ([first], Inl e)
      | Inr None \<Rightarrow> ([first, lit ''  AgentWS dashboard: disabled (--offline)''], Inr ())
      | Inr (Some port) \<Rightarrow>
          ([first,
            if in_agentws_host i = lit ''0.0.0.0''
            then lit ''  AgentWS dashboard: port '' @ dec (nat port) @ lit '' (bound on all IPv4 interfaces)''
            else lit ''  AgentWS dashboard: http://'' @ in_agentws_host i @ [58] @ dec (nat port) @ [47]], Inr ()))"

definition task_project_summary :: "instance_rec \<Rightarrow> ustr list res" where
  "task_project_summary i =
     rbind (rbind (decode_instance_project i) require_valid) (\<lambda>p.
     let line = (\<lambda>m. lit ''  '' @ pm_name m @ lit '': '' @ path_str (container_path_of m));
         none = (\<lambda>ls. if ls = [] then [lit ''  none''] else ls) in
     Inr ([lit ''project: '' @ ip_name p, lit ''writable workspace mounts:''] @
          none (map line (filter (\<lambda>m. pm_mode m = RW) (ip_mounts p))) @ [lit ''read-only mounts:''] @
          none (map line (filter (\<lambda>m. pm_mode m = RO) (ip_mounts p)))))"

definition gateway_login_arguments :: "ustr \<Rightarrow> ustr option \<Rightarrow> ustr option \<Rightarrow> bool \<Rightarrow> ustr list" where
  "gateway_login_arguments provider account api_key_env api_key_stdin =
     [provider] @ (if given account then [lit ''--as'', the account] else []) @
     (if given api_key_env then [lit ''--api-key-env'', the api_key_env]
      else if api_key_stdin then [lit ''--api-key-stdin''] else [])"

section \<open>The global options come first\<close>

definition global_word :: "ustr \<Rightarrow> bool" where
  "global_word a \<longleftrightarrow> a = STATE_ROOT_OPTION \<or> startswith (STATE_ROOT_OPTION @ [61]) a \<or> a = LOCAL_OPTION"

text \<open>Before the end of the options every \<open>--state-root\<close> has its value.\<close>

fun complete_options :: "ustr list \<Rightarrow> bool" where
  "complete_options [] = True"
| "complete_options [a] = (a \<noteq> STATE_ROOT_OPTION)"
| "complete_options (a # b # rest) =
     (if a = END_OF_OPTIONS then True
      else if a = STATE_ROOT_OPTION then complete_options rest else complete_options (b # rest))"

lemma option_words:
  "END_OF_OPTIONS \<noteq> STATE_ROOT_OPTION" "END_OF_OPTIONS \<noteq> LOCAL_OPTION" "LOCAL_OPTION \<noteq> STATE_ROOT_OPTION"
  "\<not> startswith (STATE_ROOT_OPTION @ [61]) END_OF_OPTIONS" "\<not> startswith (STATE_ROOT_OPTION @ [61]) STATE_ROOT_OPTION"
  by code_simp+

lemma split_options_Cons:
  "a \<noteq> STATE_ROOT_OPTION \<Longrightarrow> split_global_options (a # rest) =
     (if a = END_OF_OPTIONS then ([], a # rest)
      else if global_word a then (case split_global_options rest of (g, r) \<Rightarrow> (a # g, r))
      else (case split_global_options rest of (g, r) \<Rightarrow> (g, a # r)))"
  by (cases rest) (auto simp: global_word_def)

lemma complete_Cons: "a \<noteq> STATE_ROOT_OPTION \<Longrightarrow> complete_options (a # rest) \<longleftrightarrow> a = END_OF_OPTIONS \<or> complete_options rest"
  by (cases rest) auto

text \<open>A list of words that are all global options with their values.\<close>

inductive only_globals :: "ustr list \<Rightarrow> bool" where
  globals_Nil: "only_globals []"
| globals_word: "only_globals ws \<Longrightarrow> global_word a \<Longrightarrow> a \<noteq> STATE_ROOT_OPTION \<Longrightarrow> only_globals (a # ws)"
| globals_value: "only_globals ws \<Longrightarrow> only_globals (STATE_ROOT_OPTION # v # ws)"

lemma split_only_globals:
  "only_globals g \<Longrightarrow> split_global_options (g @ r) = (case split_global_options r of (g', r') \<Rightarrow> (g @ g', r'))"
proof (induction rule: only_globals.induct)
  case (globals_word ws a)
  have "a \<noteq> END_OF_OPTIONS" using globals_word.hyps(2) option_words by (auto simp: global_word_def)
  then show ?case using globals_word split_options_Cons [OF globals_word.hyps(3), of "ws @ r"] by (simp split: prod.splits)
qed (use option_words in \<open>simp_all split: prod.splits\<close>)

lemma split_options_parts:
  "complete_options argv \<Longrightarrow> split_global_options argv = (g, r) \<Longrightarrow>
    only_globals g \<and> split_global_options r = ([], r) \<and> subseq r argv \<and> mset (g @ r) = mset argv \<and> subseq g argv"
proof (induction argv arbitrary: g r rule: split_global_options.induct)
  case (2 a)
  then show ?case using option_words
    by (auto simp: global_word_def intro!: only_globals.intros split: if_splits)
next
  case (3 a b rest)
  show ?case
  proof (cases "a = STATE_ROOT_OPTION")
    case True
    obtain g' r' where s: "split_global_options rest = (g', r')" by (cases "split_global_options rest")
    have "a \<noteq> END_OF_OPTIONS" using True option_words by simp
    then show ?thesis using 3(1) [OF _ True _] 3(4,5) s True option_words
      by (auto intro: globals_value)
  next
    case False
    obtain g' r' where s: "split_global_options (b # rest) = (g', r')" by (cases "split_global_options (b # rest)")
    show ?thesis
    proof (cases "a = END_OF_OPTIONS")
      case True
      then show ?thesis using 3(5) by (auto intro: globals_Nil)
    next
      case stop: False
      have c: "complete_options (b # rest)" using 3(4) False stop by simp
      show ?thesis
      proof (cases "global_word a")
        case True
        then have "startswith (STATE_ROOT_OPTION @ [61]) a \<or> a = LOCAL_OPTION" using False by (simp add: global_word_def)
        from 3(2) [OF stop False this c s] show ?thesis
          using 3(5) split_options_Cons [OF False, of "b # rest"] s stop True False by (auto intro: globals_word)
      next
        case g: False
        then have n: "\<not> (startswith (STATE_ROOT_OPTION @ [61]) a \<or> a = LOCAL_OPTION)" by (simp add: global_word_def)
        have e: "g = g'" "r = a # r'" using 3(5) unfolding split_options_Cons [OF False, of "b # rest"] s using stop g by simp_all
        from 3(3) [OF stop False n c s] show ?thesis
          using e split_options_Cons [OF False, of r'] stop g by auto
      qed
    qed
  qed
qed (auto intro: globals_Nil)

text \<open>When every \<open>--state-root\<close> has its value, normalising the words of a command line only reorders them: the global
  options come first with their values and in their order, the other words follow in theirs, whatever comes
  after \<open>--\<close> stays, and normalising again changes nothing.\<close>

theorem global_options_first:
  assumes "complete_options argv"
  shows "\<exists>g r. normalize_global_options argv = g @ r \<and> only_globals g \<and> split_global_options r = ([], r) \<and>
    subseq g argv \<and> subseq r argv \<and> mset (normalize_global_options argv) = mset argv \<and>
    normalize_global_options (normalize_global_options argv) = normalize_global_options argv"
proof -
  obtain g r where s: "split_global_options argv = (g, r)" by (cases "split_global_options argv")
  note p = split_options_parts [OF assms s]
  have n: "normalize_global_options argv = g @ r" using s by (simp add: normalize_global_options_def)
  have "normalize_global_options (g @ r) = g @ r"
    using split_only_globals [of g r] p by (simp add: normalize_global_options_def)
  then show ?thesis using n p by metis
qed

text \<open>A \<open>--state-root\<close> at the end has no value; moved to the front it takes the name of the command for one.\<close>

theorem missing_state_root_value:
  assumes "\<forall>a\<in>set ws. a \<noteq> END_OF_OPTIONS \<and> \<not> global_word a"
  shows "normalize_global_options (ws @ [STATE_ROOT_OPTION]) = STATE_ROOT_OPTION # ws"
proof -
  have "split_global_options (ws @ [STATE_ROOT_OPTION]) = ([STATE_ROOT_OPTION], ws)"
    using assms
  proof (induction ws)
    case (Cons a ws)
    have "a \<noteq> STATE_ROOT_OPTION" using Cons.prems by (auto simp: global_word_def)
    then show ?case using Cons split_options_Cons [of a "ws @ [STATE_ROOT_OPTION]"] by simp
  qed (use option_words in simp)
  then show ?thesis by (simp add: normalize_global_options_def)
qed

section \<open>A new project is complete\<close>

text \<open>The directory of a definition is all that loading takes from its path.\<close>

lemma resolve_directory_cong:
  "path_parent a = path_parent b \<Longrightarrow> resolve_directory (with_files os f) a v = resolve_directory (with_files os g) b v"
  by (simp add: resolve_directory_def with_files_def cong: option.case_cong)

lemma project_directive_cong:
  assumes "path_parent a = path_parent b"
  shows "project_directive (with_files os f) a st n line = project_directive (with_files os g) b st n line"
  unfolding project_directive_def team_directive_def mount_directive_def resolve_directory_cong [OF assms, of os f _ g] ..

lemma project_lines_cong:
  assumes "path_parent a = path_parent b"
  shows "project_lines (with_files os f) a st ls = project_lines (with_files os g) b st ls"
proof (induction "length ls" arbitrary: st ls rule: less_induct)
  case less
  show ?case
  proof (cases ls)
    case (Cons x rest)
    have rest: "project_lines (with_files os f) a st' rest = project_lines (with_files os g) b st' rest" for st'
      by (rule less) (simp add: Cons)
    have later: "project_lines (with_files os f) a st' rest' = project_lines (with_files os g) b st' rest'"
      if "dropWhile q rest = y # rest'" for st' q y rest'
      by (rule less) (use length_dropWhile_le [of q rest] that in \<open>simp add: Cons\<close>)
    show ?thesis
      unfolding Cons project_lines.simps Let_def project_directive_cong [OF assms, of os f _ _ _ g] rest
      by (auto split: sum.splits list.splits intro: later simp del: dropWhile_eq_Nil_conv)
  qed simp
qed

lemma finish_project_path:
  "finish_project b st = rbind (finish_project a st) (\<lambda>p. Inr (p\<lparr>pj_path := b\<rparr>))"
  by (auto simp: finish_project_def of_option_def ensure_def Let_def rbind_assoc rbind_def split: option.splits sum.splits)

lemma load_project_moved:
  assumes "load_project (with_files os (files(a \<mapsto> raw))) (path_str a) = Inr p"
    "path_parent a = path_parent b" "selected_path os (path_str a) = a" "selected_path os (path_str b) = b"
  shows "load_project (with_files os (files(b \<mapsto> raw))) (path_str b) = Inr (p\<lparr>pj_path := b\<rparr>)"
proof -
  have s: "selected_path (with_files os f) v = selected_path os v" for f v
    by (simp add: selected_path_def abspath_def with_files_def)
  have r: "read_project_file (with_files os (files(c \<mapsto> raw))) c =
      (if MAX_PROJECT_FILE_BYTES < length raw then Inl (CycloError ''exceeds the limit'') else Inr raw)" for c
    by (simp add: read_project_file_def with_files_def)
  show ?thesis
    using assms(1)
    unfolding load_project_def s assms(3,4) Let_def r
      project_lines_cong [OF assms(2), of os "files(a \<mapsto> raw)" _ _ "files(b \<mapsto> raw)"]
      finish_project_path [of b _ a] rbind_eq_Inr
    by (elim exE conjE) (intro exI conjI, assumption+, simp)
qed


section \<open>Readiness as the commands show it\<close>

lemma condition_ready: "component_condition c = (lit ''ready'', d) \<longleftrightarrow>
    (\<exists>x. c = Some x \<and> cs_status x = lit ''running'' \<and> cs_health x = lit ''healthy'') \<and> d = []"
  by (auto simp: component_condition_def lit_def split: option.splits)

lemma condition_fst: "fst (component_condition c) = lit ''ready'' \<longleftrightarrow> component_condition c = (lit ''ready'', [])"
  by (auto simp: component_condition_def lit_def split: option.splits)

text \<open>\<open>ps\<close>, \<open>inspect\<close> and \<open>doctor\<close> show a running instance as ready exactly when \<open>start\<close>, \<open>run\<close> and
  \<open>refresh\<close> accept it as ready in the same status.\<close>

theorem shown_ready_iff_accepted:
  assumes "team_component_name (in_id i) = Inr name"
  shows "running_instance_condition repr host st (status_component st name) True = Inr (lit ''ready'', []) \<longleftrightarrow>
    require_instances_ready host [i] st = Inr ()"
proof -
  have c: "require_component_ready st n = Inr () \<longleftrightarrow> component_condition (status_component st n) = (lit ''ready'', [])" for n
    unfolding condition_ready by (cases "status_component st n") (auto simp: require_component_ready_def)
  have r: "(lit ''not-ready'', d) \<noteq> (lit ''ready'', [])" for d by (simp add: lit_def)
  show ?thesis
  proof (cases host)
    case (Inr h)
    then show ?thesis
      using assms r c condition_fst by (auto simp: running_instance_condition_def require_instances_ready_def
          split: prod.splits) (metis fst_conv prod.inject)
  qed (use assms r in \<open>auto simp: running_instance_condition_def require_instances_ready_def\<close>)
qed

text \<open>The widths come from the rows alone, so a header longer than the cells below shifts the headers after it.\<close>

lemma table_header_misplaced:
  "print_table [lit ''COMPONENT'', lit ''STATUS''] [[lit ''db'', lit ''ready'']] = [lit ''COMPONENT  STATUS'', lit ''db  ready'']"
  by code_simp

section \<open>Examples\<close>

lemma global_options_first_witness:
  "normalize_global_options [lit ''ps'', lit ''--local'', lit ''--'', lit ''--local''] =
     [lit ''--local'', lit ''ps'', lit ''--'', lit ''--local'']"
  "complete_options [lit ''ps'', lit ''--local'', lit ''--'', lit ''--local'']"
  "mset (normalize_global_options [lit ''ps'', lit ''--local'', lit ''--'', lit ''--local'']) =
    mset [lit ''ps'', lit ''--local'', lit ''--'', lit ''--local'']"
proof -
  show c: "complete_options [lit ''ps'', lit ''--local'', lit ''--'', lit ''--local'']" by code_simp
  show "mset (normalize_global_options [lit ''ps'', lit ''--local'', lit ''--'', lit ''--local'']) =
    mset [lit ''ps'', lit ''--local'', lit ''--'', lit ''--local'']"
    using global_options_first [OF c] by blast
qed code_simp

lemma missing_state_root_value_witness:
  "normalize_global_options [lit ''ps'', STATE_ROOT_OPTION] = [STATE_ROOT_OPTION, lit ''ps'']"
proof -
  have "lit ''ps'' \<noteq> END_OF_OPTIONS \<and> \<not> global_word (lit ''ps'')" by code_simp
  then have "\<forall>a\<in>set [lit ''ps'']. a \<noteq> END_OF_OPTIONS \<and> \<not> global_word a" by simp
  from missing_state_root_value [OF this] show ?thesis by simp
qed

lemma shown_ready_iff_accepted_witness:
  "\<exists>name. team_component_name (in_id ex_instance) = Inr name \<and>
    running_instance_condition id (Inr ex_bare_host) ex_pending (status_component ex_pending name) True \<noteq> Inr (lit ''ready'', [])"
proof -
  have "is_name (lit ''team'')" "length (lit ''team'') \<le> 50" "is_ok (utf8_encode (in_id ex_instance))" by code_simp+
  then obtain name where n: "team_component_name (in_id ex_instance) = Inr name"
    using component_name_ok [of "lit ''team''"] unfolding team_component_name_def is_ok_iff by blast
  have "require_instances_ready (Inr ex_bare_host) [ex_instance] ex_pending \<noteq> Inr ()"
    by (simp add: require_instances_ready_def ex_pending_def lit_def)
  then show ?thesis using n shown_ready_iff_accepted [OF n] by blast
qed

definition ex_init_args :: init_args where
  "ex_init_args = \<lparr>ia_definition = lit ''/h/new.cyclo'', ia_name = None, ia_description = None, ia_context_file = None,
     ia_team = [(lit ''/t/Alpha'', lit ''rw'')], ia_mount = [(lit ''code'', lit ''/src/code'', lit ''rw'')]\<rparr>"


end
