(* ===== verification/Lifecycle.thy ===== *)
theory Lifecycle imports Command_Line begin

text \<open>
  The commands of \<open>src/cyclo/cli.py\<close> that change a realm: \<open>run\<close>, \<open>refresh\<close>, \<open>start\<close>, \<open>stop\<close>, \<open>forget\<close>,
  \<open>shutdown\<close>, \<open>repair\<close> and \<open>models\<close>.  A command is a partial action on the realm: \<open>None\<close> is a command that never
  returns.  The realm has the files that bind it, the instance store, and the world of the runtime; \<open>rl_out\<close>
  is what was printed.  Loading is over the file system of \<open>cl_os\<close>, which a command does not change.
\<close>

section \<open>Partial actions\<close>

type_synonym ('w, 'a) partial = "'w \<Rightarrow> ('w \<times> 'a res) option"

definition pbind :: "('w, 'a) partial \<Rightarrow> ('a \<Rightarrow> ('w, 'b) partial) \<Rightarrow> ('w, 'b) partial" where
  "pbind m k w = (case m w of None \<Rightarrow> None | Some (w', Inl e) \<Rightarrow> Some (w', Inl e) | Some (w', Inr x) \<Rightarrow> k x w')"

definition pret :: "'a res \<Rightarrow> ('w, 'a) partial" where
  "pret r w = Some (w, r)"

fun pmap :: "('a \<Rightarrow> ('w, 'b) partial) \<Rightarrow> 'a list \<Rightarrow> ('w, 'b list) partial" where
  "pmap f [] = pret (Inr [])"
| "pmap f (x # xs) = pbind (f x) (\<lambda>y. pbind (pmap f xs) (\<lambda>ys. pret (Inr (y # ys))))"

section \<open>The realm\<close>

record 'd realm =
  rl_files :: realm_files
  rl_realm :: realm_store
  rl_store :: sstore
  rl_world :: "'d world"
  rl_builder :: team_builder
  rl_out :: "ustr list"

record 'd cli =
  cl_os :: os_env
  cl_user :: user_env
  cl_xdg :: "ustr option"
  cl_state_root :: "ustr option"
  cl_local :: bool
  cl_services :: "realm_store \<Rightarrow> ppath \<Rightarrow> 'd services"
  cl_builder :: "realm_store \<Rightarrow> team_builder"
  cl_docker_endpoint :: "ustr res"
  cl_agentws :: "unit res"
  cl_node_at :: "ppath \<Rightarrow> qnode option"
  cl_git :: "ppath \<Rightarrow> ustr option"
  cl_generation :: "team \<Rightarrow> ustr res"
  cl_stat :: "'d \<Rightarrow> stat"
  cl_now :: "ustr \<Rightarrow> ustr"
  cl_tail :: ustr
  cl_list_models :: "int \<Rightarrow> ('d, jobj) action"
  cl_format :: ustr
  cl_logs :: "ustr \<Rightarrow> ustr \<Rightarrow> ('d, unit) action"

definition in_world :: "('d world, 'a) action \<Rightarrow> ('d realm, 'a) partial" where
  "in_world m r = (case m (rl_world r) of (w, x) \<Rightarrow> Some (r\<lparr>rl_world := w\<rparr>, x))"

definition in_runtime :: "('d world \<Rightarrow> ('d world \<times> 'a res) option) \<Rightarrow> ('d realm, 'a) partial" where
  "in_runtime m r = map_option (\<lambda>(w, x). (r\<lparr>rl_world := w\<rparr>, x)) (m (rl_world r))"

definition in_store :: "(sstore \<Rightarrow> 'a sresult) \<Rightarrow> ('d realm, 'a) partial" where
  "in_store m r = (case m (rl_store r) of (ops, x) \<Rightarrow> Some (r\<lparr>rl_store := exec (rl_store r) ops\<rparr>, x))"

definition in_files :: "(realm_files \<times> realm_store, 'a) action \<Rightarrow> ('d realm, 'a) partial" where
  "in_files m r = (case m (rl_files r, rl_realm r) of ((fl, rs), x) \<Rightarrow> Some (r\<lparr>rl_files := fl, rl_realm := rs\<rparr>, x))"

text \<open>What \<open>os.stat\<close> finds now.\<close>

definition look :: "'d cli \<Rightarrow> (stat \<Rightarrow> 'a res) \<Rightarrow> ('d realm, 'a) partial" where
  "look cl f r = Some (r, f (cl_stat cl (wd_outside (rl_world r))))"

definition say :: "ustr list \<Rightarrow> ('d realm, unit) partial" where
  "say ls r = Some (r\<lparr>rl_out := rl_out r @ ls\<rparr>, Inr ())"

text \<open>\<open>state_store(args)\<close> and \<open>cyclo_runtime(args, store)\<close>: a runtime starts with empty caches.\<close>

definition open_store :: "'d cli \<Rightarrow> ('d realm, unit) partial" where
  "open_store cl r =
     (case state_store (cl_os cl) (cl_user cl) (cl_xdg cl) (cl_state_root cl) (cl_local cl) of
        Inl e \<Rightarrow> Some (r, Inl e)
      | Inr rs \<Rightarrow> Some (r\<lparr>rl_realm := rs\<rparr>, Inr ()))"

definition open_runtime :: "'d cli \<Rightarrow> ('d realm, 'd services) partial" where
  "open_runtime cl =
     pbind (in_files (\<lambda>(fl, rs). case host_config fl rs of (rs, x) \<Rightarrow> ((fl, rs), x))) (\<lambda>path r.
     Some (r\<lparr>rl_world := (rl_world r)\<lparr>wd_cache := \<lparr>ic_gateway = None, ic_providers = Map.empty, ic_components = Map.empty\<rparr>\<rparr>,
             rl_builder := cl_builder cl (rl_realm r)\<rparr>,
           Inr (cl_services cl (rl_realm r) path)))"

definition open_realm :: "'d cli \<Rightarrow> ('d realm, 'd services) partial" where
  "open_realm cl = pbind (open_store cl) (\<lambda>_. open_runtime cl)"

text \<open>Entering \<open>store.locked()\<close>.\<close>

definition locked :: "('d realm, unit) partial" where
  "locked = in_files bind_host_config_scope"

definition apply_instances :: "'d services \<Rightarrow> bool \<Rightarrow> instance_rec list \<Rightarrow> ('d realm, dcomp_status) partial" where
  "apply_instances sv rebuild instances =
     pbind (in_runtime (apply_system sv rebuild instances)) (\<lambda>(definition, st). pret (Inr st))"

definition apply_inventory :: "'d services \<Rightarrow> ('d realm, dcomp_status) partial" where
  "apply_inventory sv = pbind (in_store list_all_instances) (apply_instances sv False)"

definition running :: "instance_rec list \<Rightarrow> instance_rec list" where
  "running = filter (\<lambda>i. in_intent i = lit ''running'')"

definition announce :: "dcomp_status \<Rightarrow> instance_rec \<Rightarrow> ('d realm, unit) partial" where
  "announce st i = (case announce_instance st i of (ls, x) \<Rightarrow> pbind (say ls) (\<lambda>_. pret x))"

section \<open>Start, stop, forget\<close>

definition cmd_start :: "'d cli \<Rightarrow> ustr \<Rightarrow> ('d realm, int) partial" where
  "cmd_start cl identifier =
     pbind (open_realm cl) (\<lambda>sv.
     pbind locked (\<lambda>_.
     pbind (in_store (\<lambda>st. load st identifier)) (\<lambda>i.
     pbind (pret (ensure (in_intent i \<noteq> lit ''running'') (CycloError ''Cyclo instance is already desired running''))) (\<lambda>_.
     let i = i\<lparr>in_intent := lit ''running''\<rparr> in
     pbind (in_store (\<lambda>st. save (cl_now cl) st i)) (\<lambda>_.
     pbind (apply_inventory sv) (\<lambda>st.
     pbind (pret (require_instances_ready (sv_host sv) [i] st)) (\<lambda>_.
     pbind (announce st i) (\<lambda>_. pret (Inr 0)))))))))"

definition stop_targets :: "'d cli \<Rightarrow> 'd services \<Rightarrow> ustr \<Rightarrow> ('d realm, instance_rec list) partial" where
  "stop_targets cl sv target =
     (if looks_like_project_file (cl_os cl) (sv_is_file sv) target then
        pbind (pret (rbind (load_project (cl_os cl) target) (\<lambda>p. mapE (project_instance_id p) (pj_teams p)))) (\<lambda>ids.
        pbind (pret (ensure (ids \<noteq> []) (CycloError ''project has no team instances''))) (\<lambda>_.
        pmap (\<lambda>i. in_store (\<lambda>st. load st i)) (sort (remdups ids))))
      else pmap (\<lambda>i. in_store (\<lambda>st. load st i)) [target])"

definition cmd_stop :: "'d cli \<Rightarrow> ustr \<Rightarrow> ('d realm, int) partial" where
  "cmd_stop cl target =
     pbind (open_realm cl) (\<lambda>sv.
     pbind locked (\<lambda>_.
     pbind (stop_targets cl sv target) (\<lambda>targets.
     let changed = map (\<lambda>i. i\<lparr>in_intent := lit ''stopped''\<rparr>) (running targets);
         others = filter (\<lambda>i. in_id i \<notin> in_id ` set changed) targets in
     pbind (in_store (\<lambda>st. save_many (cl_now cl) st changed)) (\<lambda>_.
     pbind (apply_inventory sv) (\<lambda>_.
     pbind (say (map (\<lambda>i. in_id i @ lit '': stopped'') changed @ map (\<lambda>i. in_id i @ lit '': already stopped'') others)) (\<lambda>_.
     pret (Inr 0)))))))"

definition cmd_forget :: "'d cli \<Rightarrow> ustr \<Rightarrow> ustr \<Rightarrow> ('d realm, int) partial" where
  "cmd_forget cl identifier confirmation =
     pbind (pret (ensure (confirmation = identifier) (CycloError ''confirmation must exactly match the instance ID''))) (\<lambda>_.
     pbind (open_realm cl) (\<lambda>sv.
     pbind locked (\<lambda>_.
     pbind (in_store (\<lambda>st. load st identifier)) (\<lambda>i.
     pbind (pret (ensure (in_intent i = lit ''stopped'') (CycloError ''refusing to forget running Cyclo instance''))) (\<lambda>_.
     pbind (apply_inventory sv) (\<lambda>_.
     pbind (in_store (\<lambda>st. remove_instance (cl_tail cl) st (in_id i))) (\<lambda>_.
     pbind (say [lit ''forgot Cyclo instance: '' @ in_id i]) (\<lambda>_. pret (Inr 0)))))))))"

definition cmd_shutdown :: "'d cli \<Rightarrow> ('d realm, int) partial" where
  "cmd_shutdown cl =
     pbind (open_realm cl) (\<lambda>sv.
     pbind (in_world (outside (shutdown sv))) (\<lambda>_ r.
     pbind (say [lit ''shut down Cyclo realm: '' @ path_str (rs_root (rl_realm r))]) (\<lambda>_. pret (Inr 0)) r))"

definition cmd_repair :: "'d cli \<Rightarrow> ('d realm, int) partial" where
  "cmd_repair cl =
     pbind (open_realm cl) (\<lambda>sv.
     pbind locked (\<lambda>_.
     pbind (apply_inventory sv) (\<lambda>st.
     pbind (say [system_name sv @ lit '': '' @ (if st_operational st then lit ''operational'' else lit ''not operational'')]) (\<lambda>_.
     pret (Inr (if st_operational st then 0 else 1))))))"

section \<open>Models\<close>

definition catalogue :: "'d cli \<Rightarrow> 'd services \<Rightarrow> dcomp_status \<Rightarrow> ('d realm, jobj) partial" where
  "catalogue cl sv st =
     pbind (pret (outer_port (sv_host sv) st)) (\<lambda>port.
     pbind (in_world (outside (cl_list_models cl port))) (\<lambda>found. pret (check_catalogue found)))"

definition cmd_models :: "'d cli \<Rightarrow> ('d realm, int) partial" where
  "cmd_models cl =
     pbind (open_realm cl) (\<lambda>sv.
     pbind locked (\<lambda>_.
     pbind (apply_inventory sv) (\<lambda>st.
     pbind (catalogue cl sv st) (\<lambda>found.
     pbind (pret (catalogue_ids found)) (\<lambda>ids.
     pbind (pret (ensure (ids \<noteq> []) (CycloError ''provider system returned no models''))) (\<lambda>_.
     pbind (say ids) (\<lambda>_. pret (Inr 0))))))))"

section \<open>Run\<close>

definition validate_project_mounts ::
    "'d cli \<Rightarrow> 'd services \<Rightarrow> project \<Rightarrow> (project_team \<times> team) list \<Rightarrow> ('d realm, unit) partial" where
  "validate_project_mounts cl sv p teams =
     (let re = sv_env sv in
      pbind (pret (sv_host sv)) (\<lambda>h.
      pbind (in_files (docker_endpoint (cl_docker_endpoint cl))) (\<lambda>endpoint.
      pret (validate_project_authority (re_os re) (re_user re) (re_bad_netloc re) (re_package_root re) (re_root re) h p teams
              endpoint (Some (re_executable re))))))"

definition build_team :: "'d cli \<Rightarrow> 'd services \<Rightarrow> team \<Rightarrow> ustr \<Rightarrow> ('d realm, docker_image) partial" where
  "build_team cl sv t override =
     pbind (pret (require_non_root_team_host (us_uid (re_user (sv_env sv))))) (\<lambda>_.
     pbind (in_world (outside (sv_bind sv))) (\<lambda>_ r.
     case build_team_image (sv_docker sv) (re_os (sv_env sv)) (sv_is_file sv) (sv_iidfile sv) (bound_endpoint sv)
            (rl_builder r) t override (wd_outside (rl_world r)) of
       (d, x) \<Rightarrow>
         let r' = r\<lparr>rl_world := (rl_world r)\<lparr>wd_outside := d\<rparr>\<rparr> in
         Some (case x of Inl e \<Rightarrow> (r', Inl e) | Inr (tb, im) \<Rightarrow> (r'\<lparr>rl_builder := tb\<rparr>, Inr im))))"

text \<open>The images are a dictionary by the root of the team; the first of its values stands in until each binding gets its own.\<close>

definition select_images :: "(ppath \<times> ustr) list \<Rightarrow> run_binding list \<Rightarrow> run_binding list res" where
  "select_images images bindings =
     mapE (\<lambda>b. rbind (of_option KeyErr (map_of (rev images) (te_root (rb_team b)))) (\<lambda>im.
       Inr (b\<lparr>rb_instance := (rb_instance b)\<lparr>in_image := im\<rparr>\<rparr>))) bindings"

definition prepare_run_bindings ::
    "'d cli \<Rightarrow> 'd services \<Rightarrow> run_args \<Rightarrow> project \<Rightarrow> (project_team \<times> team) list \<Rightarrow> ('d realm, run_binding list) partial" where
  "prepare_run_bindings cl sv args p teams =
     pbind (pmap (\<lambda>(selected, t). pbind (build_team cl sv t (case ra_image args of Some s \<Rightarrow> s | None \<Rightarrow> [])) (\<lambda>im.
       pret (Inr (te_root t, di_id im)))) teams) (\<lambda>images.
     pbind (pret (of_option (ValueErr ''StopIteration'')
       (case images of [] \<Rightarrow> None | (root, _) # _ \<Rightarrow> map_of (rev images) root))) (\<lambda>placeholder.
     look cl (\<lambda>stat. rbind (project_run_bindings (cl_os cl) stat args p placeholder (cl_generation cl) teams)
       (select_images images))))"

definition instances_ready :: "'d services \<Rightarrow> instance_rec list \<Rightarrow> dcomp_status \<Rightarrow> ('d realm, unit) partial" where
  "instances_ready sv selected st = pret (require_instances_ready (sv_host sv) selected st)"

definition follow_logs :: "'d cli \<Rightarrow> 'd services \<Rightarrow> run_binding list \<Rightarrow> ('d realm, int) partial" where
  "follow_logs cl sv bindings =
     (case bindings of
        [b] \<Rightarrow>
          pbind (pret (team_component_name (in_id (rb_instance b)))) (\<lambda>name.
          pbind (in_world (outside (cl_logs cl (system_name sv) name))) (\<lambda>_. pret (Inr 0)))
      | _ \<Rightarrow> pret (Inl (CycloError ''--foreground requires a project with exactly one team'')))"

text \<open>The provider system first, so that the models of the teams are known before anything is stored.\<close>

definition prepare_providers ::
    "'d cli \<Rightarrow> 'd services \<Rightarrow> bool \<Rightarrow> instance_rec list \<Rightarrow> team list \<Rightarrow> ('d realm, unit) partial" where
  "prepare_providers cl sv rebuild instances teams =
     pbind (apply_instances sv rebuild instances) (\<lambda>st.
     pbind (catalogue cl sv st) (\<lambda>found.
     pret (checkE (\<lambda>t. validate_pi_team_models (cl_format cl) (te_agents t) found) teams)))"

definition new_bindings ::
    "'d cli \<Rightarrow> 'd services \<Rightarrow> run_args \<Rightarrow> project \<Rightarrow> (project_team \<times> team) list \<Rightarrow> ('d realm, run_binding list) partial" where
  "new_bindings cl sv args p teams =
     pbind (in_store list_all_instances) (\<lambda>current.
     pbind (pret (mapE (\<lambda>(selected, t). project_instance_id p selected) teams)) (\<lambda>expected.
     pbind (pret (ensure (set expected \<inter> in_id ` set current = {}) (CycloError ''Cyclo instance already exists''))) (\<lambda>_.
     pbind (prepare_providers cl sv False current (map snd teams)) (\<lambda>_.
     pbind (prepare_run_bindings cl sv args p teams) (\<lambda>bindings.
     pbind (pret (ensure_new_instances bindings current)) (\<lambda>_.
     pbind (look cl (\<lambda>stat. checkE (verify_source_identities (cl_os cl) stat) bindings)) (\<lambda>_.
     pbind (pret (validate_instances (sv_env sv) (sv_host sv) (sv_endpoint sv) (running current @ map rb_instance bindings))) (\<lambda>_.
     pret (Inr bindings)))))))))"

definition commit_running :: "'d cli \<Rightarrow> 'd services \<Rightarrow> instance_rec list \<Rightarrow> ('d realm, dcomp_status) partial" where
  "commit_running cl sv selected =
     pbind (in_store (\<lambda>st. save_many (cl_now cl) st selected)) (\<lambda>_.
     pbind (apply_inventory sv) (\<lambda>st.
     pbind (instances_ready sv selected st) (\<lambda>_. pret (Inr st))))"

definition cmd_run :: "'d cli \<Rightarrow> run_args \<Rightarrow> ustr \<Rightarrow> ('d realm, int) partial" where
  "cmd_run cl args definition =
     pbind (pret (load_project (cl_os cl) definition)) (\<lambda>p.
     pbind (pret (load_project_teams (cl_os cl) (cl_node_at cl) (cl_git cl) p None)) (\<lambda>teams.
     pbind (pret (validate_run_options args (length teams))) (\<lambda>_.
     pbind (pret (cl_agentws cl)) (\<lambda>_.
     pbind (open_realm cl) (\<lambda>sv.
     pbind (validate_project_mounts cl sv p teams) (\<lambda>_.
     pbind locked (\<lambda>_.
     pbind (new_bindings cl sv args p teams) (\<lambda>bindings.
     pbind (commit_running cl sv (map rb_instance bindings)) (\<lambda>st.
     pbind (pmap (\<lambda>b. announce st (rb_instance b)) bindings) (\<lambda>_.
     if ra_foreground args then follow_logs cl sv bindings else pret (Inr 0)))))))))))"

section \<open>Refresh\<close>

definition refreshed_instance ::
    "'d cli \<Rightarrow> instance_rec \<Rightarrow> project \<Rightarrow> project_team \<Rightarrow> team \<Rightarrow> docker_image \<Rightarrow> instance_rec res" where
  "refreshed_instance cl i p selected t im =
     rbind (cl_generation cl t) (\<lambda>generation.
     rbind (of_option (ValueErr ''agents'') (case te_agents t of a # _ \<Rightarrow> Some a | [] \<Rightarrow> None)) (\<lambda>first.
     rbind (of_option (ValueErr ''model'') (agent_model_id first)) (\<lambda>model_id.
     rbind (render_container_project p selected) (\<lambda>project_config.
     Inr (i\<lparr>in_team_name := path_name (te_root t), in_team_path := path_str (te_root t), in_generation := generation,
            in_models := sort (remdups (map ag_model (te_agents t))), in_image := di_id im,
            in_team_write := (pt_mode selected = RW), in_team_roster := path_name (te_roster t),
            in_team_protocol := (te_protocol t \<noteq> None), in_pi_default_provider := agent_provider first,
            in_pi_default_model := model_id, in_project_name := pj_name p,
            in_project_file := path_str (resolve_lax (cl_os cl) (pj_path p)),
            in_project_description := pj_description p, in_project_generation := pj_sha256 p,
            in_project_config := project_config, in_project_mounts := encode_project_mounts (pj_mounts p),
            in_runtime_version := cyclo_version\<rparr>)))))"

definition refresh_instance :: "'d cli \<Rightarrow> 'd services \<Rightarrow> instance_rec \<Rightarrow> ('d realm, instance_rec \<times> team) partial" where
  "refresh_instance cl sv i =
     pbind (pret (load_project (cl_os cl) (in_project_file i))) (\<lambda>p.
     pbind (pret (load_project_teams (cl_os cl) (cl_node_at cl) (cl_git cl) p None)) (\<lambda>configured.
     pbind (validate_project_mounts cl sv p configured) (\<lambda>_.
     pbind (pret (mapE (\<lambda>(selected, t). project_instance_id p selected) configured)) (\<lambda>ids.
     let candidates = map snd (filter (\<lambda>(n, c). n = in_id i) (zip ids configured)) in
     pbind (pret (case candidates of [c] \<Rightarrow> Inr c
                  | _ \<Rightarrow> Inl (CycloError ''project definition no longer selects instance''))) (\<lambda>(selected, t).
     pbind (build_team cl sv t (in_image_override i)) (\<lambda>im.
     pbind (look cl (\<lambda>stat. capture_source_identities (cl_os cl) stat (te_root t # map pm_path (pj_mounts p)))) (\<lambda>identities.
     pbind (pret (refreshed_instance cl i p selected t im)) (\<lambda>refreshed.
     pbind (look cl (\<lambda>stat. verify_source_identities (cl_os cl) stat
       \<lparr>rb_team = t, rb_instance = refreshed, rb_sources = identities\<rparr>)) (\<lambda>_.
     pret (Inr (refreshed, t)))))))))))"

definition replace_refreshed :: "(instance_rec \<times> team) list \<Rightarrow> instance_rec list \<Rightarrow> instance_rec list" where
  "replace_refreshed replacements current =
     map (\<lambda>i. case find (\<lambda>(n, t). in_id n = in_id i) replacements of Some (n, t) \<Rightarrow> n | None \<Rightarrow> i) current"

definition cmd_refresh :: "'d cli \<Rightarrow> ('d realm, int) partial" where
  "cmd_refresh cl =
     pbind (pret (cl_agentws cl)) (\<lambda>_.
     pbind (open_realm cl) (\<lambda>sv.
     pbind locked (\<lambda>_.
     pbind (in_store list_all_instances) (\<lambda>current.
     pbind (pmap (refresh_instance cl sv) (running current)) (\<lambda>replacements.
     let selected = running (replace_refreshed replacements current) in
     pbind (pret (validate_instances (sv_env sv) (sv_host sv) (sv_endpoint sv) selected)) (\<lambda>_.
     pbind (prepare_providers cl sv True [] (map snd replacements)) (\<lambda>_.
     pbind (commit_running cl sv selected) (\<lambda>st.
     pbind (say [lit ''refreshed '' @ dec (length selected) @ lit '' running instance(s); system operational='' @
                 (if st_operational st then lit ''true'' else lit ''false'')]) (\<lambda>_. pret (Inr 0))))))))))"

section \<open>The program\<close>

datatype lifecycle_command =
    Run run_args ustr | Refresh | Start ustr | Stop ustr | Forget ustr ustr | Shutdown | Repair | Models

fun execute :: "'d cli \<Rightarrow> lifecycle_command \<Rightarrow> ('d realm, int) partial" where
  "execute cl (Run args definition) = cmd_run cl args definition"
| "execute cl Refresh = cmd_refresh cl"
| "execute cl (Start i) = cmd_start cl i"
| "execute cl (Stop target) = cmd_stop cl target"
| "execute cl (Forget i confirmation) = cmd_forget cl i confirmation"
| "execute cl Shutdown = cmd_shutdown cl"
| "execute cl Repair = cmd_repair cl"
| "execute cl Models = cmd_models cl"

text \<open>\<open>main\<close>: an error of Cyclo is reported with the exit code 1, any other exception leaves the program with a traceback.\<close>

datatype exit = Exit int | Traceback error

definition main_exit :: "int res \<Rightarrow> exit" where
  "main_exit r = (case r of Inr code \<Rightarrow> Exit code | Inl (CycloError m) \<Rightarrow> Exit 1 | Inl e \<Rightarrow> Traceback e)"

section \<open>What an operation does to the store\<close>

definition quiet :: "sstore \<Rightarrow> bool" where
  "quiet st \<longleftrightarrow> \<not> file_exists (ss_pending st)"

text \<open>The instances of a store, by identifier.\<close>

definition stored :: "sstore \<Rightarrow> ustr \<Rightarrow> instance_rec option" where
  "stored st k = (case load_document st k of Inl _ \<Rightarrow> None | Inr i \<Rightarrow> Some i)"

lemma stored_Some: "stored st k = Some i \<longleftrightarrow> load_document st k = Inr i"
  by (simp add: stored_def split: sum.splits)

lemma stored_id: "stored st k = Some i \<Longrightarrow> in_id i = k"
  unfolding stored_Some by (rule conjunct1 [OF load_document_Inr])

lemma stored_cong: "entry_of st k = entry_of st' k \<Longrightarrow> stored st k = stored st' k"
  by (simp add: stored_def load_document_cong [of st k st'])

lemma stored_committed: "committed st k = Some (as_json i) \<Longrightarrow> instance_valid i \<Longrightarrow> in_id i = k \<Longrightarrow> stored st k = Some i"
  using load_committed by (simp add: stored_Some)

lemma load_quiet: "quiet st \<Longrightarrow> load st k = ([], load_document st k)"
  by (simp add: quiet_def load_def)

lemma list_quiet:
  assumes "quiet st" "list_all_instances st = (ops, r)"
  shows "ops = [] \<and> (\<forall>is. r = Inr is \<longrightarrow> (\<forall>i. i \<in> set is \<longleftrightarrow> stored st (in_id i) = Some i))"
proof -
  obtain res es where e: "list_entries st (list_names st) = (res, es)" by fastforce
  have "i \<in> set res" if l: "load_document st (in_id i) = Inr i" for i
  proof -
    obtain d b where d: "entry_of st (in_id i) = Some (IDir (Some (SDoc d)) b)" "validate_instance_id (in_id i) = Inr (in_id i)"
      using load_document_Inr [OF l] by blast
    have "in_id i \<in> fst ` set (ss_entries st)" using d(1) by (auto simp: entry_of_def dest!: map_of_SomeD intro: rev_image_eqI)
    then have "in_id i \<in> set (list_names st)" using valid_id_no_dot [OF d(2)] by (simp add: list_names_def)
    then show ?thesis using list_entries_set [OF e] l by blast
  qed
  then have s: "i \<in> set res \<longleftrightarrow> load_document st (in_id i) = Inr i" for i using list_entries_set [OF e] by blast
  have "list_report st = ([], Inr (sort_key in_id res, es))"
    using assms(1) by (simp add: quiet_def list_report_def e)
  then have l: "list_all_instances st =
      ([], if es \<noteq> [] then Inl (CycloError ''cannot enumerate Cyclo instance state'') else Inr (sort_key in_id res))"
    by (simp add: list_all_instances_def)
  have "r = Inr is \<Longrightarrow> set is = set res" for "is" using assms(2) unfolding l by (auto split: if_splits)
  moreover have "ops = []" using assms(2) unfolding l by simp
  ultimately show ?thesis unfolding stored_Some using s by blast
qed

text \<open>One instance becomes \<open>new\<close>, the others stay.\<close>

definition updated :: "sstore \<Rightarrow> sstore \<Rightarrow> instance_rec list \<Rightarrow> bool" where
  "updated st st' is \<longleftrightarrow> (\<forall>k. stored st' k = stored st k \<or> (\<exists>i\<in>set is. in_id i = k \<and> stored st' k = Some i))"

lemma write_updates:
  assumes "write_document st (in_id i) (as_json i) = (ops, r)" "instance_valid i"
  shows "updated st (exec st ops) [i] \<and> ss_pending (exec st ops) = ss_pending st \<and>
    (r = Inr () \<longrightarrow> stored (exec st ops) (in_id i) = Some i)"
proof (cases "check_write st (in_id i)")
  case (Inl e)
  then show ?thesis using assms(1) by (auto simp: write_document_def updated_def)
next
  case (Inr u)
  show ?thesis
  proof (cases "encode_document (as_json i)")
    case (Inl e)
    then have ops: "ops = (if entry_of st (in_id i) = None then [MkInstance (in_id i)] else [])" "r = Inl e"
      using assms(1) Inr by (auto simp: write_document_def Let_def)
    have "stored (exec st ops) k = stored st k" for k
    proof (cases "k = in_id i \<and> entry_of st k = None")
      case True
      then have "entry_of st (in_id i) = None" by blast
      then have "entry_of (exec st ops) k = Some (IDir None False)" using True by (simp add: ops)
      then show ?thesis using True by (auto simp: stored_def load_document_def instance_dir_def validate_instance_id_def)
    next
      case False
      then show ?thesis by (intro stored_cong) (auto simp: ops)
    qed
    then show ?thesis using ops by (simp add: updated_def)
  next
    case e: (Inr d)
    have w: "writable st (in_id i) (as_json i)"
      using assms(2) Inr e by (auto simp: writable_def sound_doc_def)
    have ops: "ops = write_ops st (in_id i) (as_json i)" "r = Inr ()" using assms(1) write_writable [OF w] by simp_all
    have "stored (exec st ops) (in_id i) = Some i"
      using write_ops_committed [OF w] assms(2) by (intro stored_committed) (simp_all add: ops)
    moreover have "stored (exec st ops) k = stored st k" if "k \<noteq> in_id i" for k
      by (rule stored_cong) (use that writable_dir [OF w] in \<open>auto simp: ops write_ops_def\<close>)
    moreover have "ss_pending (exec st ops) = ss_pending st"
      unfolding ops by (rule sound_ops_pending) (use w in \<open>simp add: write_ops_sound writable_def\<close>)
    ultimately show ?thesis unfolding updated_def by (metis list.set_intros(1))
  qed
qed

lemma updated_refl: "updated st st is"
  by (simp add: updated_def)

lemma updated_trans: "updated st st' is \<Longrightarrow> updated st' st'' js \<Longrightarrow> updated st st'' (is @ js)"
  unfolding updated_def set_append by (metis Un_iff)

lemma publish_updates:
  assumes "publish_batch st (map as_json is) = (ops, r)" "\<forall>i\<in>set is. instance_valid i" "distinct (map in_id is)"
  shows "updated st (exec st ops) is \<and> ss_pending (exec st ops) = ss_pending st \<and>
    (r = Inr () \<longrightarrow> (\<forall>i\<in>set is. stored (exec st ops) (in_id i) = Some i))"
  using assms
proof (induction "is" arbitrary: st ops r)
  case (Cons i "is")
  obtain o1 r1 where w: "write_document st (in_id i) (as_json i) = (o1, r1)" by fastforce
  note u = write_updates [OF w]
  show ?case
  proof (cases r1)
    case (Inl e)
    then have "ops = o1" "r = Inl e" using Cons.prems(1) w by simp_all
    then show ?thesis using u Cons.prems(2) by (auto simp: updated_def)
  next
    case (Inr x)
    obtain o2 r2 where p: "publish_batch (exec st o1) (map as_json is) = (o2, r2)" by fastforce
    have o: "ops = o1 @ o2" "r = r2" using Cons.prems(1) w p Inr by simp_all
    have v: "\<forall>i\<in>set is. instance_valid i" "distinct (map in_id is)" "in_id i \<notin> in_id ` set is" using Cons.prems(2,3) by auto
    note q = Cons.IH [OF p v(1,2)]
    have "stored (exec (exec st o1) o2) (in_id i) = stored (exec st o1) (in_id i)"
    proof -
      have "\<not> (\<exists>j\<in>set is. in_id j = in_id i)" using v(3) by (auto simp: image_iff)
      then show ?thesis using q unfolding updated_def by blast
    qed
    then show ?thesis using q u Inr updated_trans [of st "exec st o1" "[i]" "exec st ops" "is"] Cons.prems(2) by (simp add: o)
  qed
qed (simp add: updated_refl)

lemma save_updates:
  assumes "save now st i = (ops, r)" "quiet st"
  shows "updated st (exec st ops) [stamp now i] \<and> quiet (exec st ops) \<and>
    (r = Inr () \<longrightarrow> stored (exec st ops) (in_id i) = Some (stamp now i))"
proof (cases "prepare_instance now i")
  case (Inl e)
  then show ?thesis using assms by (auto simp: save_def quiet_def updated_def)
next
  case (Inr j)
  then have j: "j = stamp now i" "instance_valid j" unfolding prepare_instance_Inr by blast+
  have "write_document st (in_id j) (as_json j) = (ops, r)"
    using assms Inr by (simp add: save_def quiet_def split: prod.splits)
  from write_updates [OF this j(2)] show ?thesis using assms(2) j(1) by (simp add: quiet_def)
qed

lemma save_many_updates:
  assumes "save_many now st is = (ops, r)" "quiet st"
  shows "updated st (exec st ops) (map (stamp now) is) \<and>
    (r = Inr () \<longrightarrow> quiet (exec st ops) \<and> (\<forall>i\<in>set is. stored (exec st ops) (in_id i) = Some (stamp now i)))"
proof (cases "is = []")
  case True
  then show ?thesis using assms by (simp add: save_many_def quiet_def updated_def)
next
  case ne: False
  let ?is = "map (stamp now) is" and ?p = "batch_payload (map as_json (map (stamp now) is))"
  have pend: "stored (st\<lparr>ss_pending := q\<rparr>) k = stored st k" for st q k by (rule stored_cong) simp
  show ?thesis
  proof (cases "prepare_batch now {} is")
    case (Inl e)
    then show ?thesis using assms ne by (auto simp: save_many_def quiet_def updated_def)
  next
    case (Inr ys)
    then have ys: "ys = ?is" "\<forall>i\<in>set ?is. instance_valid i" "distinct (map in_id ?is)"
      by (simp_all add: prepare_batch_Inr comp_def)
    show ?thesis
    proof (cases "encode_document ?p")
      case (Inl e)
      then show ?thesis using assms ne Inr ys(1) by (auto simp: save_many_def quiet_def updated_def Let_def)
    next
      case (Inr b)
      obtain po pr where p: "publish_batch (apply_sop st (SetPending ?p)) (map as_json ?is) = (po, pr)" by fastforce
      note u = publish_updates [OF p ys(2,3)]
      have prep: "prepare_batch now {} is = Inr ?is" using \<open>prepare_batch now {} is = Inr ys\<close> ys(1) by blast
      have "save_many now st is = (case pr of
          Inl e \<Rightarrow> (SetPending ?p # po, Inl e) | Inr _ \<Rightarrow> (SetPending ?p # po @ [UnlinkPending], Inr ()))"
        using assms(2) ne unfolding save_many_def quiet_def
        by (simp add: prep Inr p Let_def del: apply_sop.simps map_map split: sum.split)
      then have o: "ops = SetPending ?p # po @ (if pr = Inr () then [UnlinkPending] else [])" "r = Inr () \<longleftrightarrow> pr = Inr ()"
        unfolding assms(1) by (cases pr; simp)+
      let ?st = "exec (apply_sop st (SetPending ?p)) po"
      have e: "stored (exec st ops) k = stored ?st k" for k
        by (cases "pr = Inr ()") (simp_all add: o pend)
      have s0: "stored (apply_sop st (SetPending ?p)) k = stored st k" for k by (simp add: pend)
      have "updated st (exec st ops) ?is" using u unfolding updated_def e s0 by blast
      moreover have "quiet (exec st ops)" if "pr = Inr ()" using that by (simp add: o quiet_def file_exists_def)
      moreover have "stored (exec st ops) (in_id i) = Some (stamp now i)" if "pr = Inr ()" "i \<in> set is" for i
        using u that unfolding e by simp
      ultimately show ?thesis using o(2) by blast
    qed
  qed
qed

lemma remove_updates:
  assumes "remove_instance tail st k = (ops, r)" "quiet st"
  shows "(exec st ops = st \<and> r \<noteq> Inr () \<or>
      (\<forall>j. stored (exec st ops) j = (if j = k then None else stored st j)) \<and> r = Inr () \<and>
      (\<exists>i. stored st k = Some i \<and> in_intent i = lit ''stopped'')) \<and> quiet (exec st ops)"
proof (cases "load_document st k")
  case (Inl e)
  then show ?thesis using assms by (auto simp: remove_instance_def load_quiet)
next
  case (Inr i)
  show ?thesis
  proof (cases "in_intent i = lit ''stopped''")
    case False
    then show ?thesis using assms Inr by (auto simp: remove_instance_def load_quiet)
  next
    case True
    let ?q = "lit ''.deleted-'' @ k @ lit ''-'' @ tail"
    have o: "ops = [Quarantine k ?q, Delete ?q]" "r = Inr ()"
      using assms True Inr by (simp_all add: remove_instance_def load_quiet Let_def)
    have dot: "startswith (lit ''.'') ?q" by (simp add: startswith_def lit_def)
    have none: "stored st' ?q = None" for st'
    proof (cases "load_document st' ?q")
      case l: (Inr x)
      have "validate_instance_id ?q = Inr ?q" using load_document_Inr [OF l] by (elim conjE)
      then show ?thesis using valid_id_no_dot dot by blast
    qed (simp add: stored_def)
    obtain d b where d: "entry_of st k = Some (IDir (Some (SDoc d)) b)"
      using load_document_Inr [OF Inr] by (elim conjE exE)
    have "stored (exec st ops) j = (if j = k then None else stored st j)" for j
    proof (cases "j = k \<or> j = ?q")
      case False
      then show ?thesis by (auto intro!: stored_cong simp: o d)
    next
      case True
      then have "entry_of (exec st ops) j = None" by (auto simp: o d)
      then have "stored (exec st ops) j = None"
        by (auto simp: stored_def load_document_def instance_dir_def validate_instance_id_def)
      then show ?thesis using True none [of st] by auto
    qed
    moreover have "quiet (exec st ops)" using assms(2) by (simp add: o d quiet_def)
    ultimately show ?thesis using o(2) True Inr by (auto simp: stored_Some)
  qed
qed

section \<open>Commands and the store\<close>

lemma pbind_ok: "pbind m k w = Some (w', Inr y) \<longleftrightarrow> (\<exists>v x. m w = Some (v, Inr x) \<and> k x v = Some (w', Inr y))"
  by (auto simp: pbind_def split: option.splits prod.splits sum.splits)

lemma pbind_cases:
  assumes "pbind m k w = Some (w', x)"
  obtains (raised) e where "m w = Some (w', Inl e)" "x = Inl e"
  | (continues) v y where "m w = Some (v, Inr y)" "k y v = Some (w', x)"
  using assms by (auto simp: pbind_def split: option.splits prod.splits sum.splits)

text \<open>Actions that leave a quiet store as it is.\<close>

definition keeps_store :: "('d realm, 'a) partial \<Rightarrow> bool" where
  "keeps_store m \<longleftrightarrow> (\<forall>w w' x. quiet (rl_store w) \<longrightarrow> m w = Some (w', x) \<longrightarrow> rl_store w' = rl_store w)"

named_theorems keeps_intros

lemma keeps_pbind [keeps_intros]: "keeps_store m \<Longrightarrow> (\<And>x. keeps_store (k x)) \<Longrightarrow> keeps_store (pbind m k)"
  unfolding keeps_store_def by (intro allI impI) (elim pbind_cases, metis, metis)

lemma keeps_basic [keeps_intros]:
  "keeps_store (pret r)" "keeps_store (in_world a)" "keeps_store (in_runtime b)" "keeps_store (in_files c)"
  "keeps_store (say ls)" "keeps_store (look cl f)"
  by (auto simp: keeps_store_def pret_def in_world_def in_runtime_def in_files_def say_def look_def split: prod.splits)

lemma keeps_pmap [keeps_intros]: "(\<And>x. keeps_store (f x)) \<Longrightarrow> keeps_store (pmap f xs)"
  by (induction xs) (auto intro: keeps_intros)

lemma keeps_list [keeps_intros]: "keeps_store (in_store list_all_instances)"
proof -
  have "exec st ops = st" if "quiet st" "list_all_instances st = (ops, x)" for st ops x
    using list_quiet [OF that] by simp
  then show ?thesis by (auto simp: keeps_store_def in_store_def split: prod.splits)
qed

lemma keeps_load [keeps_intros]: "keeps_store (in_store (\<lambda>st. load st i))"
  by (auto simp: keeps_store_def in_store_def load_quiet)

lemma keeps_open_store [keeps_intros]: "keeps_store (open_store cl)"
  by (auto simp: keeps_store_def open_store_def split: sum.splits)

lemma keeps_open_runtime [keeps_intros]: "keeps_store (open_runtime cl)"
proof -
  have "keeps_store (\<lambda>r. Some (r\<lparr>rl_world := f r, rl_builder := g r\<rparr>, h r))" for f g h
    by (auto simp: keeps_store_def)
  then show ?thesis unfolding open_runtime_def by (intro keeps_intros)
qed

lemma keeps_build_team [keeps_intros]: "keeps_store (build_team cl sv t override)"
  unfolding build_team_def
  by (intro keeps_intros) (auto simp: keeps_store_def Let_def split: prod.splits sum.splits)

lemma keeps_parts [keeps_intros]:
  "keeps_store (open_realm cl)" "keeps_store locked" "keeps_store (apply_instances sv rebuild instances)"
  "keeps_store (apply_inventory sv)" "keeps_store (announce st i)" "keeps_store (catalogue cl sv st)"
  "keeps_store (instances_ready sv selected st)"
  unfolding open_realm_def locked_def apply_instances_def apply_inventory_def announce_def catalogue_def instances_ready_def
  by (auto intro!: keeps_intros split: prod.splits)

lemma keeps_run_parts [keeps_intros]:
  "keeps_store (validate_project_mounts cl sv p teams)" "keeps_store (prepare_providers cl sv rebuild instances ts)"
  "keeps_store (prepare_run_bindings cl sv args p teams)" "keeps_store (follow_logs cl sv bindings)"
  unfolding validate_project_mounts_def prepare_providers_def prepare_run_bindings_def follow_logs_def Let_def
  by (auto intro!: keeps_intros split: prod.splits list.splits)

lemma keeps_stop_targets [keeps_intros]: "keeps_store (stop_targets cl sv target)"
  unfolding stop_targets_def by (auto intro!: keeps_intros)

lemma keeps_refresh [keeps_intros]: "keeps_store (refresh_instance cl sv i)"
  unfolding refresh_instance_def Let_def by (auto intro!: keeps_intros split: prod.splits)

lemma keeps_new_bindings [keeps_intros]: "keeps_store (new_bindings cl sv args p teams)"
  unfolding new_bindings_def by (intro keeps_intros)

text \<open>What holds of the store when an action ends, from a quiet store \<open>s\<close>.\<close>

definition ends :: "sstore \<Rightarrow> ('d realm, 'a) partial \<Rightarrow> (sstore \<Rightarrow> bool) \<Rightarrow> bool" where
  "ends s m Q \<longleftrightarrow> (\<forall>w w' x. rl_store w = s \<longrightarrow> m w = Some (w', x) \<longrightarrow> Q (rl_store w'))"

lemma ends_keeps: "quiet s \<Longrightarrow> keeps_store m \<Longrightarrow> Q s \<Longrightarrow> ends s m Q"
  unfolding ends_def keeps_store_def by metis

lemma endsD: "ends s m Q \<Longrightarrow> rl_store w = s \<Longrightarrow> m w = Some (w', x) \<Longrightarrow> Q (rl_store w')"
  unfolding ends_def by blast

lemma keepsD: "keeps_store m \<Longrightarrow> quiet (rl_store w) \<Longrightarrow> m w = Some (w', x) \<Longrightarrow> rl_store w' = rl_store w"
  unfolding keeps_store_def by blast

lemma ends_bind:
  assumes "quiet s" "keeps_store m" "Q s"
    and "\<And>x w v. rl_store w = s \<Longrightarrow> m w = Some (v, Inr x) \<Longrightarrow> ends s (k x) Q"
  shows "ends s (pbind m k) Q"
  unfolding ends_def
proof (intro allI impI)
  fix w w' x
  assume w: "rl_store w = s" and run: "pbind m k w = Some (w', x)"
  from run show "Q (rl_store w')"
  proof (cases rule: pbind_cases)
    case (raised e)
    have "rl_store w' = s" using keepsD [OF assms(2) _ raised(1)] assms(1) w by simp
    then show ?thesis using assms(3) by simp
  next
    case (continues v y)
    have v: "rl_store v = s" using keepsD [OF assms(2) _ continues(1)] assms(1) w by simp
    show ?thesis by (rule endsD [OF assms(4) [OF w continues(1)] v continues(2)])
  qed
qed

lemma ends_store:
  assumes "\<And>ops r. m s = (ops, r) \<Longrightarrow> Q (exec s ops)"
    and "\<And>ops x. m s = (ops, Inr x) \<Longrightarrow> ends (exec s ops) (k x) Q"
  shows "ends s (pbind (in_store m) k) Q"
  unfolding ends_def
proof (intro allI impI)
  fix w w' x
  assume w: "rl_store w = s" and run: "pbind (in_store m) k w = Some (w', x)"
  obtain ops r where m: "m s = (ops, r)" by fastforce
  have i: "in_store m w = Some (w\<lparr>rl_store := exec s ops\<rparr>, r)" by (simp add: in_store_def w m)
  show "Q (rl_store w')"
  proof (cases r)
    case (Inl e)
    have "w' = w\<lparr>rl_store := exec s ops\<rparr>" using run unfolding pbind_def i Inl by simp
    then show ?thesis using assms(1) [OF m] by simp
  next
    case (Inr y)
    have "k y (w\<lparr>rl_store := exec s ops\<rparr>) = Some (w', x)" using run unfolding pbind_def i Inr by simp
    then show ?thesis by (rule endsD [OF assms(2) [OF m [unfolded Inr]], rotated]) simp
  qed
qed

lemma ends_bind_keeps:
  assumes "ends s m Q" "\<And>w w' x. rl_store w = s \<Longrightarrow> m w = Some (w', Inr x) \<Longrightarrow> quiet (rl_store w')" "\<And>x. keeps_store (k x)"
  shows "ends s (pbind m k) Q"
  unfolding ends_def
proof (intro allI impI)
  fix w w' x
  assume w: "rl_store w = s" and run: "pbind m k w = Some (w', x)"
  from run show "Q (rl_store w')"
  proof (cases rule: pbind_cases)
    case (raised e)
    then show ?thesis using endsD [OF assms(1) w raised(1)] by simp
  next
    case (continues v y)
    have q: "quiet (rl_store v)" by (rule assms(2) [OF w continues(1)])
    show ?thesis using keepsD [OF assms(3) q continues(2)] endsD [OF assms(1) w continues(1)] by simp
  qed
qed

section \<open>The life of an instance\<close>

text \<open>What one command may do to one instance of the store.\<close>

inductive transition :: "(ustr \<Rightarrow> ustr) \<Rightarrow> lifecycle_command \<Rightarrow> instance_rec option \<Rightarrow> instance_rec option \<Rightarrow> bool" for now where
  stays: "transition now c x x"
| starts: "in_intent i \<noteq> lit ''running'' \<Longrightarrow>
    transition now (Start (in_id i)) (Some i) (Some (stamp now (i\<lparr>in_intent := lit ''running''\<rparr>)))"
| stops: "in_intent i = lit ''running'' \<Longrightarrow>
    transition now (Stop target) (Some i) (Some (stamp now (i\<lparr>in_intent := lit ''stopped''\<rparr>)))"
| forgets: "in_intent i = lit ''stopped'' \<Longrightarrow> transition now (Forget (in_id i) (in_id i)) (Some i) None"
| creates: "in_intent i = lit ''running'' \<Longrightarrow> transition now (Run args definition) None (Some i)"
| refreshes: "in_intent i = lit ''running'' \<Longrightarrow> in_intent j = lit ''running'' \<Longrightarrow> in_id j = in_id i \<Longrightarrow>
    transition now Refresh (Some i) (Some j)"

definition steps :: "(ustr \<Rightarrow> ustr) \<Rightarrow> lifecycle_command \<Rightarrow> sstore \<Rightarrow> sstore \<Rightarrow> bool" where
  "steps now c st st' \<longleftrightarrow> (\<forall>k. transition now c (stored st k) (stored st' k))"

lemma steps_refl: "steps now c st st"
  by (simp add: steps_def stays)

lemma steps_updated:
  assumes "updated st st' (map (stamp now) is)"
    and "\<And>i. i \<in> set is \<Longrightarrow> transition now c (stored st (in_id i)) (Some (stamp now i))"
  shows "steps now c st st'"
  unfolding steps_def
proof
  fix k
  show "transition now c (stored st k) (stored st' k)"
    using assms(1) [unfolded updated_def, rule_format, of k]
  proof
    assume "stored st' k = stored st k"
    then show ?thesis by (simp add: stays)
  next
    assume "\<exists>i\<in>set (map (stamp now) is). in_id i = k \<and> stored st' k = Some i"
    then obtain i where "i \<in> set is" "in_id i = k" "stored st' k = Some (stamp now i)" by auto
    then show ?thesis using assms(2) by fastforce
  qed
qed

lemma pmap_ok:
  "pmap f [] w = Some (v, Inr ys) \<longleftrightarrow> v = w \<and> ys = []"
  "pmap f (x # xs) w = Some (v, Inr ys) \<longleftrightarrow>
     (\<exists>u y zs. f x w = Some (u, Inr y) \<and> pmap f xs u = Some (v, Inr zs) \<and> ys = y # zs)"
  by (auto simp: pbind_ok pret_def)

lemma pmap_all2:
  assumes "pmap f xs w = Some (v, Inr ys)" "\<And>x w v y. f x w = Some (v, Inr y) \<Longrightarrow> R x y"
  shows "list_all2 R xs ys"
  using assms(1)
proof (induction xs arbitrary: w ys)
  case (Cons x xs)
  then obtain u y zs where "f x w = Some (u, Inr y)" "pmap f xs u = Some (v, Inr zs)" "ys = y # zs"
    unfolding pmap_ok by blast
  then show ?case using Cons.IH assms(2) by simp
qed (simp add: pret_def)

lemma load_result:
  assumes "in_store (\<lambda>st. load st k) w = Some (v, Inr i)" "rl_store w = s" "quiet s"
  shows "stored s k = Some i \<and> in_id i = k"
proof -
  have "stored s k = Some i" using assms by (simp add: in_store_def load_quiet stored_Some)
  then show ?thesis using stored_id by blast
qed

lemma list_result:
  assumes "in_store list_all_instances w = Some (v, Inr is)" "rl_store w = s" "quiet s"
  shows "i \<in> set is \<longleftrightarrow> stored s (in_id i) = Some i"
proof -
  obtain ops r where l: "list_all_instances s = (ops, r)" by fastforce
  then have "r = Inr is" using assms(1,2) by (simp add: in_store_def)
  then show ?thesis using list_quiet [OF assms(3) l] by blast
qed

text \<open>The rules for the beginning of a command.\<close>

lemma ends_open: "quiet s \<Longrightarrow> Q s \<Longrightarrow> (\<And>sv. ends s (k sv) Q) \<Longrightarrow> ends s (pbind (open_realm cl) k) Q"
  by (rule ends_bind) (auto intro: keeps_intros)

lemma ends_locked: "quiet s \<Longrightarrow> Q s \<Longrightarrow> ends s (k ()) Q \<Longrightarrow> ends s (pbind locked k) Q"
  by (rule ends_bind) (auto intro: keeps_intros)

lemma ends_check: "quiet s \<Longrightarrow> Q s \<Longrightarrow> (\<And>x. r = Inr x \<Longrightarrow> ends s (k x) Q) \<Longrightarrow> ends s (pbind (pret r) k) Q"
  by (rule ends_bind) (auto intro: keeps_intros simp: pret_def)

lemma ends_load:
  "quiet s \<Longrightarrow> Q s \<Longrightarrow> (\<And>i. stored s n = Some i \<Longrightarrow> in_id i = n \<Longrightarrow> ends s (k i) Q) \<Longrightarrow>
    ends s (pbind (in_store (\<lambda>st. load st n)) k) Q"
  by (rule ends_bind) (auto intro: keeps_intros dest: load_result)

lemma ends_list:
  "quiet s \<Longrightarrow> Q s \<Longrightarrow> (\<And>is. (\<And>i. i \<in> set is \<longleftrightarrow> stored s (in_id i) = Some i) \<Longrightarrow> ends s (k is) Q) \<Longrightarrow>
    ends s (pbind (in_store list_all_instances) k) Q"
  by (rule ends_bind) (auto intro: keeps_intros dest: list_result)

text \<open>The rules for the changes.\<close>

lemma ends_save:
  assumes "quiet s" "\<And>s'. updated s s' [stamp now i] \<Longrightarrow> Q s'" "\<And>x. keeps_store (k x)"
  shows "ends s (pbind (in_store (\<lambda>st. save now st i)) k) Q"
proof (rule ends_store)
  show "Q (exec s ops)" if "save now s i = (ops, r)" for ops r
    using save_updates [OF that assms(1)] assms(2) by blast
  show "ends (exec s ops) (k x) Q" if "save now s i = (ops, Inr x)" for ops x
    using save_updates [OF that assms(1)] assms(2,3) by (intro ends_keeps) blast+
qed

lemma ends_save_many:
  assumes "quiet s" "\<And>s'. updated s s' (map (stamp now) is) \<Longrightarrow> Q s'" "\<And>x. keeps_store (k x)"
  shows "ends s (pbind (in_store (\<lambda>st. save_many now st is)) k) Q"
proof (rule ends_store)
  show "Q (exec s ops)" if "save_many now s is = (ops, r)" for ops r
    using save_many_updates [OF that assms(1)] assms(2) by blast
  show "ends (exec s ops) (k x) Q" if "save_many now s is = (ops, Inr x)" for ops x
  proof (rule ends_keeps)
    have "x = ()" by simp
    then show "quiet (exec s ops)" using save_many_updates [OF that assms(1)] by blast
  qed (use save_many_updates [OF that assms(1)] assms(2,3) in blast)+
qed

lemma start_steps:
  assumes s: "quiet s"
  shows "ends s (cmd_start cl identifier) (steps (cl_now cl) (Start identifier) s)"
  unfolding cmd_start_def Let_def
proof (intro ends_open ends_locked ends_load ends_check ends_save s steps_refl keeps_intros)
  fix i :: instance_rec and x s'
  assume i: "stored s identifier = Some i" "in_id i = identifier"
    and e: "ensure (in_intent i \<noteq> lit ''running'') (CycloError ''Cyclo instance is already desired running'') = Inr x"
    and u: "updated s s' [stamp (cl_now cl) (i\<lparr>in_intent := lit ''running''\<rparr>)]"
  have n: "in_intent i \<noteq> lit ''running''" using e by simp
  show "steps (cl_now cl) (Start identifier) s s'"
  proof (rule steps_updated [of _ _ _ "[i\<lparr>in_intent := lit ''running''\<rparr>]"])
    show "transition (cl_now cl) (Start identifier) (stored s (in_id j)) (Some (stamp (cl_now cl) j))"
      if "j \<in> set [i\<lparr>in_intent := lit ''running''\<rparr>]" for j
      using that starts [OF n, of "cl_now cl"] i by simp
  qed (use u in simp)
qed

lemma loads_stored:
  "pmap (\<lambda>i. in_store (\<lambda>st. load st i)) ids w = Some (v, Inr xs) \<Longrightarrow> rl_store w = s \<Longrightarrow> quiet s \<Longrightarrow>
    \<forall>i\<in>set xs. stored s (in_id i) = Some i"
proof (induction ids arbitrary: w xs)
  case (Cons k ks)
  then obtain u y zs where 1: "in_store (\<lambda>st. load st k) w = Some (u, Inr y)"
      "pmap (\<lambda>i. in_store (\<lambda>st. load st i)) ks u = Some (v, Inr zs)" "xs = y # zs"
    unfolding pmap_ok by blast
  have "rl_store u = s" using keepsD [OF keeps_load _ 1(1)] Cons.prems(2,3) by simp
  then have "\<forall>i\<in>set zs. stored s (in_id i) = Some i" using Cons.IH 1(2) Cons.prems(3) by blast
  then show ?case using load_result [OF 1(1) Cons.prems(2,3)] 1(3) by auto
qed (simp add: pret_def)

lemma stop_target_stored:
  assumes "stop_targets cl sv target w = Some (v, Inr targets)" "rl_store w = s" "quiet s"
  shows "\<forall>i\<in>set targets. stored s (in_id i) = Some i"
proof (cases "looks_like_project_file (cl_os cl) (sv_is_file sv) target")
  case True
  then obtain ids where "pmap (\<lambda>i. in_store (\<lambda>st. load st i)) (sort (remdups ids)) w = Some (v, Inr targets)"
    using assms(1) unfolding stop_targets_def by (auto simp: pbind_ok pret_def)
  then show ?thesis using loads_stored assms(2,3) by blast
next
  case False
  then have "pmap (\<lambda>i. in_store (\<lambda>st. load st i)) [target] w = Some (v, Inr targets)"
    using assms(1) unfolding stop_targets_def by (simp del: pmap.simps)
  then show ?thesis using loads_stored assms(2,3) by blast
qed

lemma stop_steps:
  assumes s: "quiet s"
  shows "ends s (cmd_stop cl target) (steps (cl_now cl) (Stop target) s)"
  unfolding cmd_stop_def Let_def
proof (intro ends_open ends_locked s steps_refl, rule ends_bind [OF s keeps_stop_targets steps_refl],
    intro ends_save_many s keeps_intros)
  fix sv w v and targets :: "instance_rec list" and s'
  assume w: "rl_store w = s" "stop_targets cl sv target w = Some (v, Inr targets)"
  let ?stopped = "\<lambda>i. i\<lparr>in_intent := lit ''stopped''\<rparr>"
  assume u: "updated s s' (map (stamp (cl_now cl)) (map ?stopped (running targets)))"
  show "steps (cl_now cl) (Stop target) s s'"
  proof (rule steps_updated [OF u])
    fix j assume "j \<in> set (map ?stopped (running targets))"
    then obtain i where i: "i \<in> set targets" "in_intent i = lit ''running''" "j = ?stopped i" by (auto simp: running_def)
    have "stored s (in_id i) = Some i" using stop_target_stored [OF w(2,1) s] i(1) by blast
    then show "transition (cl_now cl) (Stop target) (stored s (in_id j)) (Some (stamp (cl_now cl) j))"
      using stops [OF i(2)] i(3) by simp
  qed
qed

lemma forget_steps:
  assumes s: "quiet s"
  shows "ends s (cmd_forget cl identifier confirmation) (steps (cl_now cl) (Forget identifier confirmation) s)"
  unfolding cmd_forget_def
proof (intro ends_open ends_locked ends_load ends_check s steps_refl, rule ends_bind [OF s keeps_parts(4) steps_refl])
  fix i :: instance_rec and x y
  assume i: "stored s identifier = Some i" "in_id i = identifier"
    and e: "ensure (confirmation = identifier) (CycloError ''confirmation must exactly match the instance ID'') = Inr x"
  have step: "steps (cl_now cl) (Forget identifier confirmation) s s'"
    if "s' = s \<or> (\<forall>j. stored s' j = (if j = identifier then None else stored s j)) \<and>
      (\<exists>i. stored s identifier = Some i \<and> in_intent i = lit ''stopped'')" for s'
    using that
  proof
    assume r: "(\<forall>j. stored s' j = (if j = identifier then None else stored s j)) \<and>
      (\<exists>i. stored s identifier = Some i \<and> in_intent i = lit ''stopped'')"
    then have "in_intent i = lit ''stopped''" using i(1) by simp
    from forgets [OF this, of "cl_now cl"] show ?thesis using r i e by (auto simp: steps_def stays)
  qed (simp add: steps_refl)
  show "ends s (pbind (in_store (\<lambda>st. remove_instance (cl_tail cl) st (in_id i)))
      (\<lambda>_. pbind (say [lit ''forgot Cyclo instance: '' @ in_id i]) (\<lambda>_. pret (Inr 0))))
      (steps (cl_now cl) (Forget identifier confirmation) s)"
  proof (rule ends_store)
    show "steps (cl_now cl) (Forget identifier confirmation) s (exec s ops)"
      if "remove_instance (cl_tail cl) s (in_id i) = (ops, r)" for ops r
      by (rule step) (use remove_updates [OF that s] i(2) in blast)
    show "ends (exec s ops) (pbind (say [lit ''forgot Cyclo instance: '' @ in_id i]) (\<lambda>_. pret (Inr 0)))
        (steps (cl_now cl) (Forget identifier confirmation) s)"
      if "remove_instance (cl_tail cl) s (in_id i) = (ops, Inr z)" for ops z
    proof (intro ends_keeps keeps_intros)
      show "steps (cl_now cl) (Forget identifier confirmation) s (exec s ops)"
        by (rule step) (use remove_updates [OF that s] i(2) in blast)
    qed (use remove_updates [OF that s] in blast)
  qed
qed

lemma new_instance_running: "new_instance os args t g i img ov w p c = Inr inst \<Longrightarrow> in_intent inst = lit ''running''"
  unfolding new_instance_def rbind_eq_Inr by (elim exE conjE) auto

lemma selected_running:
  assumes "project_run_bindings os stat args p base generation teams = Inr bs" "select_images images bs = Inr bs'" "b \<in> set bs'"
  shows "in_intent (rb_instance b) = lit ''running''"
proof -
  obtain b0 im where b: "b0 \<in> set bs" "b = b0\<lparr>rb_instance := (rb_instance b0)\<lparr>in_image := im\<rparr>\<rparr>"
    using mapE_in_set [OF assms(2) [unfolded select_images_def] assms(3)] by auto
  have "binding_of os stat args p base generation teams b0" using bindings_inv [OF assms(1)] b(1) by blast
  then have "in_intent (rb_instance b0) = lit ''running''"
    unfolding binding_of_def using new_instance_running by blast
  then show ?thesis using b(2) by simp
qed

lemma prepared_running:
  assumes "prepare_run_bindings cl sv args p teams w = Some (v, Inr bs)" "b \<in> set bs"
  shows "in_intent (rb_instance b) = lit ''running''"
  using assms selected_running unfolding prepare_run_bindings_def by (auto simp: pbind_ok look_def)

lemma new_bindings_ok:
  assumes "new_bindings cl sv args p teams w = Some (v, Inr bs)" "rl_store w = s" "quiet s" "b \<in> set bs"
  shows "in_intent (rb_instance b) = lit ''running'' \<and> stored s (in_id (rb_instance b)) = None"
proof -
  obtain current w1 w2 w3 where l: "in_store list_all_instances w = Some (w1, Inr current)"
    and p: "prepare_run_bindings cl sv args p teams w2 = Some (w3, Inr bs)"
    and e: "ensure_new_instances bs current = Inr ()"
    using assms(1) unfolding new_bindings_def pbind_ok pret_def by auto
  have "in_id (rb_instance b) \<notin> in_id ` set current" using e assms(4) by (auto simp: ensure_new_instances_def)
  moreover have "i \<in> set current \<longleftrightarrow> stored s (in_id i) = Some i" for i by (rule list_result [OF l assms(2,3)])
  ultimately have "stored s (in_id (rb_instance b)) = None" using stored_id by (metis image_eqI not_None_eq)
  then show ?thesis using prepared_running [OF p assms(4)] by blast
qed

lemma commit_steps:
  assumes s: "quiet s" and t: "\<And>i. i \<in> set selected \<Longrightarrow> transition (cl_now cl) c (stored s (in_id i)) (Some (stamp (cl_now cl) i))"
    and k: "\<And>x. keeps_store (k x)"
  shows "ends s (pbind (commit_running cl sv selected) k) (steps (cl_now cl) c s)"
proof -
  have "pbind (commit_running cl sv selected) k = pbind (in_store (\<lambda>st. save_many (cl_now cl) st selected)) (\<lambda>_.
      pbind (pbind (apply_inventory sv) (\<lambda>st. pbind (instances_ready sv selected st) (\<lambda>_. pret (Inr st)))) k)"
    unfolding commit_running_def by (simp add: fun_eq_iff pbind_def split: option.splits prod.splits sum.splits)
  moreover have "ends s (pbind (in_store (\<lambda>st. save_many (cl_now cl) st selected)) (\<lambda>_.
      pbind (pbind (apply_inventory sv) (\<lambda>st. pbind (instances_ready sv selected st) (\<lambda>_. pret (Inr st)))) k))
      (steps (cl_now cl) c s)"
    by (intro ends_save_many s keeps_intros k) (rule steps_updated, use t in auto)
  ultimately show ?thesis by simp
qed

lemma run_steps:
  assumes s: "quiet s"
  shows "ends s (cmd_run cl args definition) (steps (cl_now cl) (Run args definition) s)"
  unfolding cmd_run_def
proof (intro ends_open ends_locked ends_check s steps_refl, rule ends_bind [OF s keeps_run_parts(1) steps_refl],
    intro ends_locked s steps_refl, rule ends_bind [OF s keeps_new_bindings steps_refl])
  fix p teams sv w v bindings
  assume w: "rl_store w = s" "new_bindings cl sv args p teams w = Some (v, Inr bindings)"
  have "transition (cl_now cl) (Run args definition) (stored s (in_id i)) (Some (stamp (cl_now cl) i))"
    if i: "i \<in> set (map rb_instance bindings)" for i
  proof -
    obtain b where b: "b \<in> set bindings" "i = rb_instance b" using i by auto
    have "in_intent i = lit ''running''" "stored s (in_id i) = None" using new_bindings_ok [OF w(2,1) s b(1)] b(2) by simp_all
    then show ?thesis using creates [of "stamp (cl_now cl) i"] by (simp add: stamp_def)
  qed
  then show "ends s (pbind (commit_running cl sv (map rb_instance bindings)) (\<lambda>st.
      pbind (pmap (\<lambda>b. announce st (rb_instance b)) bindings) (\<lambda>_.
      if ra_foreground args then follow_logs cl sv bindings else pret (Inr 0)))) (steps (cl_now cl) (Run args definition) s)"
    by (intro commit_steps s) (auto intro!: keeps_intros)
qed

lemma refresh_result:
  assumes "refresh_instance cl sv i w = Some (v, Inr (n, t))"
  shows "in_id n = in_id i \<and> in_intent n = in_intent i"
proof -
  obtain p selected im where "refreshed_instance cl i p selected t im = Inr n"
    using assms unfolding refresh_instance_def Let_def
    by (auto simp: pbind_ok pret_def look_def split: prod.splits)
  then show ?thesis unfolding refreshed_instance_def rbind_eq_Inr by (elim exE conjE) auto
qed

lemma refreshed_transition:
  assumes "\<And>i. i \<in> set current \<longleftrightarrow> stored s (in_id i) = Some i"
    and "pmap (refresh_instance cl sv) (running current) w = Some (v, Inr replacements)"
    and "j \<in> set (running (replace_refreshed replacements current))"
  shows "transition now Refresh (stored s (in_id j)) (Some (stamp now j))"
proof -
  have r: "list_all2 (\<lambda>i (n, t). in_id n = in_id i \<and> in_intent n = in_intent i) (running current) replacements"
    using assms(2) by (rule pmap_all2) (auto dest: refresh_result)
  obtain i where i: "i \<in> set current" "in_intent j = lit ''running''"
      "j = (case find (\<lambda>(n, t). in_id n = in_id i) replacements of Some (n, t) \<Rightarrow> n | None \<Rightarrow> i)"
    using assms(3) by (auto simp: running_def replace_refreshed_def)
  have si: "stored s (in_id i) = Some i" using assms(1) i(1) by blast
  have "in_id j = in_id i \<and> in_intent i = lit ''running''"
  proof (cases "find (\<lambda>(n, t). in_id n = in_id i) replacements")
    case None
    then show ?thesis using i by simp
  next
    case (Some x)
    obtain n t where x: "x = (n, t)" by (cases x)
    have n: "(n, t) \<in> set replacements" "in_id n = in_id i" "j = n"
      using find_SomeD [OF Some] Some i(3) x by auto
    obtain i' where i': "i' \<in> set (running current)" "in_id n = in_id i'" "in_intent n = in_intent i'"
      using list_all2_in2 [OF r n(1)] by auto
    have "stored s (in_id i') = Some i'" using assms(1) i'(1) by (simp add: running_def)
    moreover have "in_id i' = in_id i" by (rule trans [OF i'(2) [symmetric] n(2)])
    ultimately have "i' = i" using si by simp
    moreover have "in_intent i' = lit ''running''" using i'(1) by (simp add: running_def)
    ultimately have "in_intent i = lit ''running''" by simp
    moreover have "in_id j = in_id i" unfolding n(3) by (rule n(2))
    ultimately show ?thesis by blast
  qed
  then show ?thesis using refreshes [of i "stamp now j" now] si i(2) by (simp add: stamp_def)
qed

lemma refresh_steps:
  assumes s: "quiet s"
  shows "ends s (cmd_refresh cl) (steps (cl_now cl) Refresh s)"
  unfolding cmd_refresh_def Let_def
proof (intro ends_open ends_locked ends_check ends_list s steps_refl,
    rule ends_bind [OF s keeps_pmap [OF keeps_refresh] steps_refl], intro ends_check s steps_refl,
    rule ends_bind [OF s keeps_run_parts(2) steps_refl])
  fix sv current w v replacements
  assume c: "\<And>i. i \<in> set current \<longleftrightarrow> stored s (in_id i) = Some i"
    and r: "pmap (refresh_instance cl sv) (running current) w = Some (v, Inr replacements)"
  show "ends s (pbind (commit_running cl sv (running (replace_refreshed replacements current))) (\<lambda>st.
      pbind (say [lit ''refreshed '' @ dec (length (running (replace_refreshed replacements current))) @
          lit '' running instance(s); system operational='' @
          (if st_operational st then lit ''true'' else lit ''false'')]) (\<lambda>_. pret (Inr 0))))
      (steps (cl_now cl) Refresh s)"
    by (intro commit_steps s keeps_intros) (rule refreshed_transition [OF c r])
qed

lemma keeps_shutdown: "keeps_store (cmd_shutdown cl)"
proof -
  have "keeps_store (\<lambda>r. pbind (say (f r)) (\<lambda>_. pret x) r)" for f x
    by (simp add: keeps_store_def pbind_def say_def pret_def)
  then show ?thesis unfolding cmd_shutdown_def by (intro keeps_intros)
qed

lemma quiet_commands:
  assumes "quiet s"
  shows "ends s (cmd_shutdown cl) (steps now Shutdown s)" "ends s (cmd_repair cl) (steps now Repair s)"
    "ends s (cmd_models cl) (steps now Models s)"
proof -
  have k: "keeps_store (cmd_repair cl)" "keeps_store (cmd_models cl)"
    unfolding cmd_repair_def cmd_models_def by (intro keeps_intros)+
  show "ends s (cmd_repair cl) (steps now Repair s)" by (rule ends_keeps [OF assms k(1) steps_refl])
  show "ends s (cmd_models cl) (steps now Models s)" by (rule ends_keeps [OF assms k(2) steps_refl])
  show "ends s (cmd_shutdown cl) (steps now Shutdown s)"
    by (rule ends_keeps [OF assms keeps_shutdown steps_refl])
qed


section \<open>Commands return\<close>

definition returns :: "('w, 'a) partial \<Rightarrow> bool" where
  "returns m \<longleftrightarrow> (\<forall>w. m w \<noteq> None)"

named_theorems returns_intros

lemma returns_pbind [returns_intros]: "returns m \<Longrightarrow> (\<And>x. returns (k x)) \<Longrightarrow> returns (pbind m k)"
  by (auto simp: returns_def pbind_def split: option.splits sum.splits)

lemma returns_basic [returns_intros]:
  "returns (pret r)" "returns (in_world a)" "returns (in_files c)" "returns (in_store b)" "returns (say ls)" "returns (look cl f)"
  by (auto simp: returns_def pret_def in_world_def in_files_def in_store_def say_def look_def split: prod.splits)

lemma returns_pmap [returns_intros]: "(\<And>x. returns (f x)) \<Longrightarrow> returns (pmap f xs)"
  by (induction xs) (auto intro: returns_intros)

lemma returns_apply:
  assumes "clock_runs sv"
  shows "returns (in_runtime (apply_system sv rebuild instances))"
proof -
  have "apply_system sv rebuild instances w \<noteq> None" for w
    using wait_loop_returns [OF assms]
    by (auto simp: apply_system_def then_wait_def wait_status_def split: prod.splits sum.splits) (metis option.distinct(1))
  then show ?thesis by (auto simp: returns_def in_runtime_def)
qed

lemma returns_open [returns_intros]: "returns (open_store cl)" "returns (open_runtime cl)" "returns locked"
  unfolding open_runtime_def locked_def
  by (auto intro!: returns_intros simp: returns_def [of "\<lambda>r. Some (f r)" for f] returns_def [of "open_store cl"] open_store_def
      split: sum.splits)

lemma returns_realm [returns_intros]:
  assumes "\<And>rs path. returns (k (cl_services cl rs path))"
  shows "returns (pbind (open_realm cl) k)"
proof -
  have o: "\<exists>rs path. sv = cl_services cl rs path" if "open_realm cl w = Some (v, Inr sv)" for w v sv
    using that unfolding open_realm_def open_runtime_def by (auto simp: pbind_ok)
  have "returns (open_realm cl)" unfolding open_realm_def by (intro returns_intros)
  then show ?thesis using o assms
    by (fastforce simp: returns_def pbind_def split: option.splits sum.splits)
qed

lemma returns_team [returns_intros]: "returns (build_team cl sv t override)"
proof -
  have "returns (\<lambda>r. case f r of (d, x) \<Rightarrow> Some (g r d x))" for f g by (simp add: returns_def split: prod.splits)
  then show ?thesis unfolding build_team_def Let_def by (intro returns_intros)
qed

lemma returns_parts [returns_intros]:
  "returns (announce st i)" "returns (catalogue cl sv st)" "returns (validate_project_mounts cl sv p teams)"
  "returns (prepare_run_bindings cl sv args p teams)" "returns (follow_logs cl sv bindings)" "returns (stop_targets cl sv target)"
  "returns (instances_ready sv selected st)"
  unfolding announce_def catalogue_def validate_project_mounts_def prepare_run_bindings_def follow_logs_def stop_targets_def
    instances_ready_def Let_def
  by (auto intro!: returns_intros split: prod.splits list.splits)

lemma returns_refresh [returns_intros]: "returns (refresh_instance cl sv i)"
  unfolding refresh_instance_def Let_def by (auto intro!: returns_intros split: prod.splits)

lemma returns_applied:
  assumes "clock_runs sv"
  shows "returns (apply_instances sv rebuild instances)" "returns (apply_inventory sv)"
    "returns (prepare_providers cl sv rebuild instances ts)" "returns (new_bindings cl sv args p teams)"
    "returns (commit_running cl sv selected)"
  unfolding apply_inventory_def apply_instances_def prepare_providers_def new_bindings_def commit_running_def
  by (auto intro!: returns_intros returns_apply [OF assms])

lemma returns_shutdown: "returns (cmd_shutdown cl)"
proof -
  have "returns (\<lambda>r. pbind (say (f r)) (\<lambda>_. pret x) r)" for f and x :: "int res"
    by (simp add: returns_def pbind_def say_def pret_def)
  then show ?thesis unfolding cmd_shutdown_def by (intro returns_intros)
qed

text \<open>C9: Every command returns, with an exit code or an error, however the services it asks answer, as long as the clock of
  the host runs.\<close>

theorem commands_return:
  assumes "\<forall>rs path. clock_runs (cl_services cl rs path)"
  shows "\<exists>r' x. execute cl c r = Some (r', x)"
proof -
  note app = returns_applied [OF assms [rule_format]]
  have "returns (execute cl c)"
  proof (cases c)
    case (Run args defn)
    then show ?thesis unfolding Run execute.simps cmd_run_def by (auto intro!: returns_intros app)
  next
    case Refresh
    then show ?thesis unfolding Refresh execute.simps cmd_refresh_def Let_def by (auto intro!: returns_intros app)
  next
    case (Start i)
    then show ?thesis unfolding Start execute.simps cmd_start_def Let_def by (auto intro!: returns_intros app)
  next
    case (Stop target)
    then show ?thesis unfolding Stop execute.simps cmd_stop_def Let_def by (auto intro!: returns_intros app)
  next
    case (Forget i confirmation)
    then show ?thesis unfolding Forget execute.simps cmd_forget_def by (auto intro!: returns_intros app)
  next
    case Shutdown
    then show ?thesis using returns_shutdown by simp
  next
    case Repair
    then show ?thesis unfolding Repair execute.simps cmd_repair_def by (auto intro!: returns_intros app)
  next
    case Models
    then show ?thesis unfolding Models execute.simps cmd_models_def by (auto intro!: returns_intros app)
  qed
  then show ?thesis by (metis returns_def not_None_eq prod.exhaust)
qed

section \<open>Examples\<close>

definition ex_cli :: "nat cli" where
  "ex_cli = \<lparr>cl_os = ex_canonical_os, cl_user = \<lparr>us_home = path_of (lit ''/root''), us_uid = 1000, us_runtime = None\<rparr>,
     cl_xdg = None, cl_state_root = Some (lit ''/srv/c''), cl_local = False, cl_services = (\<lambda>rs path. ex_services),
     cl_builder = (\<lambda>rs. \<lparr>tb_system = lit ''x'', tb_base = None, tb_uid = 1000, tb_gid = 1000, tb_components = path_of (lit ''/c'')\<rparr>),
     cl_docker_endpoint = Inr (lit ''unix:///d''), cl_agentws = Inr (), cl_node_at = (\<lambda>p. None), cl_git = (\<lambda>p. None),
     cl_generation = (\<lambda>t. Inr (lit ''g'')), cl_stat = (\<lambda>d p. None), cl_now = ex_now, cl_tail = lit ''1'',
     cl_list_models = (\<lambda>port d. (d, Inr [])), cl_format = lit ''f'', cl_logs = (\<lambda>s c d. (d, Inr ()))\<rparr>"

definition ex_realm :: "nat realm" where
  "ex_realm = \<lparr>rl_files = \<lparr>rf_scope = None, rf_endpoint = None\<rparr>, rl_realm = ex_realm_store, rl_store = ex_empty,
     rl_world = ex_world, rl_builder = \<lparr>tb_system = lit ''x'', tb_base = None, tb_uid = 1000, tb_gid = 1000, tb_components = path_of (lit ''/c'')\<rparr>,
     rl_out = []\<rparr>"

lemma commands_return_witness: "\<exists>r x. execute ex_cli Repair ex_realm = Some (r, x)"
  by (rule commands_return) (simp add: ex_cli_def ex_clock_runs)

lemma ex_realm_quiet: "quiet (rl_store ex_realm)"
  by (simp add: quiet_def ex_realm_def ex_empty_def file_exists_def)


end
