(* ===== verification/Lifecycle_Success.thy ===== *)
theory Lifecycle_Success imports Lifecycle begin

text \<open>
  What a command of \<open>Lifecycle\<close> that succeeds leaves behind: the system dcomp was given last is the one of the
  instances the store says are to run, and what it started is ready.
\<close>

section \<open>What runs when a command succeeds\<close>

lemma start_system_selects:
  assumes "start_system sv rebuild instances w = (w', Inr (digest, names))"
  shows "\<exists>images fs fs' s ds content. runtime_system (sv_env sv) (system_name sv) (sv_host sv) (sv_endpoint sv) images fs instances = Inr (fs', s) \<and>
    render_system (re_os (sv_env sv)) (sv_generated_root sv) s digest ds = Inr content \<and> st_system (wd_store w') = Some content"
proof -
  have out: "outside m v = (v', Inr x) \<Longrightarrow> wd_store v' = wd_store v" for m :: "('a, 'b) action" and v v' x
    by (auto simp: outside_def split: prod.splits)
  from assms obtain w1 images w2 s w3 where
    c: "compile_system sv images instances w1 = (w2, Inr s)" and
    m: "materialize_system sv s w2 = (w3, Inr (digest, names))" and
    u: "start_definition sv w3 = (w', Inr ())"
    unfolding start_system_def dbind_ok by (auto simp: ret_def)
  have r: "runtime_system (sv_env sv) (system_name sv) (sv_host sv) (sv_endpoint sv) images (wd_fs w1) instances = Inr (wd_fs w2, s)"
    using c by (auto simp: compile_system_def split: sum.splits)
  obtain ops where o: "materialize (re_os (sv_env sv)) (sv_generated_root sv) (sv_tmp sv) (wd_store w2) s = (ops, Inr (digest, names))"
      "wd_store w3 = apply_ops ops (wd_store w2)"
    using m by (auto simp: materialize_system_def split: prod.splits)
  have "\<exists>ds content. render_system (re_os (sv_env sv)) (sv_generated_root sv) s digest ds = Inr content \<and> st_system (wd_store w3) = Some content"
    using o(1)
  proof (cases rule: materialize_cases)
    case (3 d pops ds content rops rr)
    let ?st = "apply_ops (pops @ [Select content]) (wd_store w2)"
    have "wd_store w3 = apply_ops rops ?st" unfolding o(2) 3(6) by simp
    moreover have "spares (snd ` set ds) rops"
      using remove_unused_spares [of "snd ` set ds" "st_descriptors ?st"] 3(5) by simp
    ultimately have "st_system (wd_store w3) = Some content" using spares_system by simp
    moreover have "d = digest" using 3(7) by (cases rr) auto
    ultimately show ?thesis using 3(4) by blast
  qed auto
  moreover have "wd_store w' = wd_store w3" using u out unfolding start_definition_def dbind_ok by metis
  ultimately show ?thesis using r by metis
qed

text \<open>The system file that dcomp has is the one of the running instances of a store.\<close>

definition applied :: "'d services \<Rightarrow> sstore \<Rightarrow> 'd realm \<Rightarrow> bool" where
  "applied sv st r \<longleftrightarrow> (\<exists>instances images fs fs' s digest ds content.
     (\<forall>i. in_intent i = lit ''running'' \<longrightarrow> (i \<in> set instances \<longleftrightarrow> stored st (in_id i) = Some i)) \<and>
     runtime_system (sv_env sv) (system_name sv) (sv_host sv) (sv_endpoint sv) images fs instances = Inr (fs', s) \<and>
     render_system (re_os (sv_env sv)) (sv_generated_root sv) s digest ds = Inr content \<and>
     st_system (wd_store (rl_world r)) = Some content)"

lemma applied_cong:
  assumes "applied sv st r" "wd_store (rl_world r') = wd_store (rl_world r)"
    and "\<And>i. in_intent i = lit ''running'' \<Longrightarrow> stored st' (in_id i) = Some i \<longleftrightarrow> stored st (in_id i) = Some i"
  shows "applied sv st' r'"
  using assms(1) unfolding applied_def assms(2) by (simp only: assms(3) cong: imp_cong)

lemma apply_inventory_ok:
  assumes "apply_inventory sv w = Some (v, Inr st)" "quiet (rl_store w)"
  shows "applied sv (rl_store w) v \<and> rl_store v = rl_store w \<and> (\<exists>d d'. sv_status sv d = (d', Inr st))"
proof -
  obtain u instances defn where l: "in_store list_all_instances w = Some (u, Inr instances)"
    and a: "in_runtime (apply_system sv False instances) u = Some (v, Inr (defn, st))"
    using assms(1) unfolding apply_inventory_def apply_instances_def by (auto simp: pbind_ok pret_def)
  have u: "rl_store u = rl_store w" by (rule keepsD [OF keeps_list assms(2) l])
  obtain w1 where w1: "apply_system sv False instances (rl_world u) = Some (w1, Inr (defn, st))" "v = u\<lparr>rl_world := w1\<rparr>"
    using a by (auto simp: in_runtime_def)
  obtain w0 d where s: "start_system sv False instances (rl_world u) = (w0, Inr defn)"
      "wait_status sv 30000 (wd_outside w0) = Some (d, Inr st)" "w1 = w0\<lparr>wd_outside := d\<rparr>"
    using w1(1) by (auto simp: apply_system_def then_wait_def split: prod.splits sum.splits)
  obtain digest names where "defn = (digest, names)" by (cases defn)
  from start_system_selects [OF s(1) [unfolded this]] obtain images fs fs' sys ds content where
    c: "runtime_system (sv_env sv) (system_name sv) (sv_host sv) (sv_endpoint sv) images fs instances = Inr (fs', sys)"
      "render_system (re_os (sv_env sv)) (sv_generated_root sv) sys digest ds = Inr content"
      "st_system (wd_store w0) = Some content" by blast
  have "st_system (wd_store (rl_world v)) = Some content" by (simp add: w1(2) s(3) c(3))
  then have "applied sv (rl_store w) v"
    unfolding applied_def using list_result [OF l refl assms(2)] c(1,2) by blast
  moreover have "\<exists>d'. sv_status sv d' = (d, Inr st)" using wait_loop_last [OF s(2) [unfolded wait_status_def]] .
  ultimately show ?thesis using u w1(2) by auto
qed

text \<open>Actions after the system was applied leave its file.\<close>

definition keeps_file :: "('d realm, 'a) partial \<Rightarrow> bool" where
  "keeps_file m \<longleftrightarrow> (\<forall>w w' x. m w = Some (w', x) \<longrightarrow> wd_store (rl_world w') = wd_store (rl_world w))"

named_theorems file_intros

lemma file_pbind [file_intros]: "keeps_file m \<Longrightarrow> (\<And>x. keeps_file (k x)) \<Longrightarrow> keeps_file (pbind m k)"
  unfolding keeps_file_def by (intro allI impI) (elim pbind_cases, metis, metis)

lemma file_basic [file_intros]:
  "keeps_file (pret r)" "keeps_file (say ls)" "keeps_file (in_store a)" "keeps_file (in_world (outside b))"
  by (auto simp: keeps_file_def pret_def say_def in_store_def in_world_def outside_def split: prod.splits)

lemma file_pmap [file_intros]: "(\<And>x. keeps_file (f x)) \<Longrightarrow> keeps_file (pmap f xs)"
  by (induction xs) (auto intro: file_intros)

lemma file_parts [file_intros]:
  "keeps_file (announce st i)" "keeps_file (instances_ready sv selected st)" "keeps_file (follow_logs cl sv bindings)"
  "keeps_file (catalogue cl sv st)"
  unfolding announce_def instances_ready_def follow_logs_def catalogue_def
  by (auto intro!: file_intros split: prod.splits list.splits)

lemma fileD: "keeps_file m \<Longrightarrow> m w = Some (w', x) \<Longrightarrow> wd_store (rl_world w') = wd_store (rl_world w)"
  unfolding keeps_file_def by blast

lemma applied_later:
  assumes "applied sv (rl_store w) w" "quiet (rl_store w)" "keeps_store m" "keeps_file m" "m w = Some (w', x)"
  shows "applied sv (rl_store w') w' \<and> rl_store w' = rl_store w"
  using applied_cong [OF assms(1) fileD [OF assms(4,5)]] keepsD [OF assms(3,2,5)] by simp

lemma applied_said:
  assumes "applied sv (rl_store w) w" "pbind (say ls) (\<lambda>_. pret x) w = Some (w', y)"
  shows "applied sv (rl_store w') w' \<and> rl_store w' = rl_store w"
proof -
  have "w' = w\<lparr>rl_out := rl_out w @ ls\<rparr>" using assms(2) by (simp add: pbind_def say_def pret_def)
  then show ?thesis using applied_cong [OF assms(1), of w' "rl_store w"] by simp
qed

lemma store_ok:
  "in_store m w = Some (v, Inr x) \<longleftrightarrow> (\<exists>ops. m (rl_store w) = (ops, Inr x) \<and> v = w\<lparr>rl_store := exec (rl_store w) ops\<rparr>)"
  by (auto simp: in_store_def split: prod.splits)

text \<open>What a command has done once its changes are committed: the store has them, dcomp has the system of the store, and the
  status it reported last shows every changed instance ready.\<close>

definition committed_ready :: "(ustr \<Rightarrow> ustr) \<Rightarrow> 'd services \<Rightarrow> instance_rec list \<Rightarrow> sstore \<Rightarrow> 'd realm \<Rightarrow> bool" where
  "committed_ready now sv selected st v \<longleftrightarrow>
     quiet (rl_store v) \<and> applied sv (rl_store v) v \<and> updated st (rl_store v) (map (stamp now) selected) \<and>
     (\<forall>i\<in>set selected. stored (rl_store v) (in_id i) = Some (stamp now i)) \<and>
     (\<exists>d d' observed. sv_status sv d = (d', Inr observed) \<and> require_instances_ready (sv_host sv) selected observed = Inr ())"

lemma commit_ok:
  assumes "commit_running cl sv selected w = Some (v, Inr st)" "quiet (rl_store w)"
  shows "committed_ready (cl_now cl) sv selected (rl_store w) v"
proof -
  obtain u1 u2 x where 1: "in_store (\<lambda>st. save_many (cl_now cl) st selected) w = Some (u1, Inr x)"
      "apply_inventory sv u1 = Some (v, Inr st)" "require_instances_ready (sv_host sv) selected st = Inr ()"
    using assms(1) unfolding commit_running_def by (auto simp: pbind_ok pret_def instances_ready_def)
  obtain ops where o: "save_many (cl_now cl) (rl_store w) selected = (ops, Inr ())" "rl_store u1 = exec (rl_store w) ops"
    using 1(1) unfolding store_ok by auto
  note s = save_many_updates [OF o(1) assms(2), folded o(2)]
  have "quiet (rl_store u1)" using s by blast
  from apply_inventory_ok [OF 1(2) this] show ?thesis
    unfolding committed_ready_def using s 1(3) by auto
qed

definition opened :: "'d cli \<Rightarrow> 'd services \<Rightarrow> bool" where
  "opened cl sv \<longleftrightarrow> (\<exists>rs path. sv = cl_services cl rs path)"

lemma open_opened: "open_realm cl w = Some (v, Inr sv) \<Longrightarrow> opened cl sv"
  unfolding open_realm_def open_runtime_def opened_def by (auto simp: pbind_ok)

lemma start_ok:
  assumes "cmd_start cl identifier w = Some (w', Inr n)" "quiet (rl_store w)"
  shows "\<exists>sv v i. committed_ready (cl_now cl) sv [i\<lparr>in_intent := lit ''running''\<rparr>] (rl_store w) v \<and> in_id i = identifier \<and>
    rl_store w' = rl_store v \<and> applied sv (rl_store w') w' \<and> opened cl sv"
proof -
  obtain sv u0 u1 u2 i u3 u4 st where
    1: "open_realm cl w = Some (u0, Inr sv)" "locked u0 = Some (u1, Inr ())" and
    2: "in_store (\<lambda>st. load st identifier) u1 = Some (u2, Inr i)" and
    3: "in_store (\<lambda>st. save (cl_now cl) st (i\<lparr>in_intent := lit ''running''\<rparr>)) u2 = Some (u3, Inr ())" and
    4: "apply_inventory sv u3 = Some (u4, Inr st)"
      "require_instances_ready (sv_host sv) [i\<lparr>in_intent := lit ''running''\<rparr>] st = Inr ()" and
    5: "announce st (i\<lparr>in_intent := lit ''running''\<rparr>) u4 = Some (w', Inr ())"
    using assms(1) unfolding cmd_start_def Let_def by (auto simp: pbind_ok pret_def)
  have "rl_store u0 = rl_store w" by (rule keepsD [OF keeps_parts(1) assms(2) 1(1)])
  moreover from this have "rl_store u1 = rl_store u0" using keepsD [OF keeps_parts(2) _ 1(2)] assms(2) by simp
  ultimately have u1: "rl_store u1 = rl_store w" by simp
  moreover from this have "rl_store u2 = rl_store u1" using keepsD [OF keeps_load _ 2] assms(2) by simp
  ultimately have u2: "rl_store u2 = rl_store w" by simp
  obtain ops where o: "save (cl_now cl) (rl_store w) (i\<lparr>in_intent := lit ''running''\<rparr>) = (ops, Inr ())"
      "rl_store u3 = exec (rl_store w) ops"
    using 3 u2 unfolding store_ok by auto
  note s = save_updates [OF o(1) assms(2), folded o(2)]
  note a = apply_inventory_ok [OF 4(1)]
  have q: "quiet (rl_store u3)" using s by blast
  have c: "committed_ready (cl_now cl) sv [i\<lparr>in_intent := lit ''running''\<rparr>] (rl_store w) u4"
    unfolding committed_ready_def using s a [OF q] 4(2) by auto
  then have "applied sv (rl_store u4) u4" "quiet (rl_store u4)" by (simp_all add: committed_ready_def)
  from applied_later [OF this keeps_parts(5) file_parts(1) 5] show ?thesis
    using c load_result [OF 2 u1 assms(2)] open_opened [OF 1(1)] by blast
qed

lemma run_ok:
  assumes "cmd_run cl args definition w = Some (w', Inr n)" "quiet (rl_store w)"
  shows "\<exists>sv v selected. committed_ready (cl_now cl) sv selected (rl_store w) v \<and>
    (\<forall>i\<in>set selected. in_intent i = lit ''running'') \<and> rl_store w' = rl_store v \<and> applied sv (rl_store w') w' \<and> opened cl sv"
proof -
  obtain p teams sv u0 u1 u2 bindings u3 u4 st ys where
    1: "open_realm cl w = Some (u0, Inr sv)" "validate_project_mounts cl sv p teams u0 = Some (u1, Inr ())"
      "locked u1 = Some (u2, Inr ())" and
    2: "new_bindings cl sv args p teams u2 = Some (u3, Inr bindings)" and
    3: "commit_running cl sv (map rb_instance bindings) u3 = Some (u4, Inr st)" and
    4: "pbind (pmap (\<lambda>b. announce st (rb_instance b)) bindings) (\<lambda>_.
      if ra_foreground args then follow_logs cl sv bindings else pret (Inr 0)) u4 = Some (w', Inr n)"
    using assms(1) unfolding cmd_run_def
    by (elim pbind_ok [THEN iffD1, elim_format] exE conjE) (auto simp: pbind_ok pret_def)
  have "rl_store u0 = rl_store w" by (rule keepsD [OF keeps_parts(1) assms(2) 1(1)])
  moreover from this have "rl_store u1 = rl_store u0" using keepsD [OF keeps_run_parts(1) _ 1(2)] assms(2) by simp
  moreover from calculation have "rl_store u2 = rl_store u1" using keepsD [OF keeps_parts(2) _ 1(3)] assms(2) by simp
  ultimately have u2: "rl_store u2 = rl_store w" by simp
  then have q: "quiet (rl_store u2)" using assms(2) by simp
  have u3: "rl_store u3 = rl_store w" using keepsD [OF keeps_new_bindings q 2] u2 by simp
  then have c: "committed_ready (cl_now cl) sv (map rb_instance bindings) (rl_store w) u4"
    using commit_ok [OF 3] assms(2) by simp
  then have "applied sv (rl_store u4) u4" "quiet (rl_store u4)" by (simp_all add: committed_ready_def)
  moreover have "keeps_store (pbind (pmap (\<lambda>b. announce st (rb_instance b)) bindings) (\<lambda>_.
      if ra_foreground args then follow_logs cl sv bindings else pret (Inr 0)))"
    by (auto intro!: keeps_intros)
  moreover have "keeps_file (pbind (pmap (\<lambda>b. announce st (rb_instance b)) bindings) (\<lambda>_.
      if ra_foreground args then follow_logs cl sv bindings else pret (Inr 0)))"
    by (auto intro!: file_intros)
  ultimately have a: "applied sv (rl_store w') w' \<and> rl_store w' = rl_store u4" using 4 by (rule applied_later)
  have "\<forall>i\<in>set (map rb_instance bindings). in_intent i = lit ''running''"
    using new_bindings_ok [OF 2 u2 assms(2)] by auto
  then show ?thesis using a c open_opened [OF 1(1)] by blast
qed

lemma open_locked:
  assumes "open_realm cl w = Some (u0, Inr sv)" "locked u0 = Some (u1, Inr ())" "quiet (rl_store w)"
  shows "rl_store u1 = rl_store w"
  using keepsD [OF keeps_parts(1) assms(3,1)] keepsD [OF keeps_parts(2) _ assms(2)] assms(3) by simp

lemma refresh_ok:
  assumes "cmd_refresh cl w = Some (w', Inr n)" "quiet (rl_store w)"
  shows "\<exists>sv v selected. committed_ready (cl_now cl) sv selected (rl_store w) v \<and>
    (\<forall>i\<in>set selected. in_intent i = lit ''running'') \<and> rl_store w' = rl_store v \<and> applied sv (rl_store w') w' \<and> opened cl sv"
proof -
  obtain sv u0 u1 current u2 replacements u3 u4 u5 st where
    1: "open_realm cl w = Some (u0, Inr sv)" "locked u0 = Some (u1, Inr ())" and
    2: "in_store list_all_instances u1 = Some (u2, Inr current)"
      "pmap (refresh_instance cl sv) (running current) u2 = Some (u3, Inr replacements)"
      "prepare_providers cl sv True [] (map snd replacements) u3 = Some (u4, Inr ())" and
    3: "commit_running cl sv (running (replace_refreshed replacements current)) u4 = Some (u5, Inr st)" and
    4: "pbind (say [lit ''refreshed '' @ dec (length (running (replace_refreshed replacements current))) @
          lit '' running instance(s); system operational='' @
          (if st_operational st then lit ''true'' else lit ''false'')]) (\<lambda>_. pret (Inr 0)) u5 = Some (w', Inr n)"
    using assms(1) unfolding cmd_refresh_def Let_def by (auto simp: pbind_ok pret_def)
  have u1: "rl_store u1 = rl_store w" by (rule open_locked [OF 1 assms(2)])
  then have u2: "rl_store u2 = rl_store w" using keepsD [OF keeps_list _ 2(1)] assms(2) by simp
  then have u3: "rl_store u3 = rl_store w" using keepsD [OF keeps_pmap [OF keeps_refresh] _ 2(2)] assms(2) by simp
  then have u4: "rl_store u4 = rl_store w" using keepsD [OF keeps_run_parts(2) _ 2(3)] assms(2) by simp
  then have c: "committed_ready (cl_now cl) sv (running (replace_refreshed replacements current)) (rl_store w) u5"
    using commit_ok [OF 3] assms(2) by simp
  then have a: "applied sv (rl_store u5) u5" "quiet (rl_store u5)" by (simp_all add: committed_ready_def)
  have "applied sv (rl_store w') w' \<and> rl_store w' = rl_store u5"
    by (rule applied_said [OF a(1) 4])
  moreover have "\<forall>i\<in>set (running (replace_refreshed replacements current)). in_intent i = lit ''running''"
    by (simp add: running_def)
  ultimately show ?thesis using c open_opened [OF 1(1)] by blast
qed

lemma stop_ok:
  assumes "cmd_stop cl target w = Some (w', Inr n)" "quiet (rl_store w)"
  shows "\<exists>sv. applied sv (rl_store w') w' \<and> opened cl sv"
proof -
  obtain sv u0 u1 targets u2 changed u3 st u4 ls where
    1: "open_realm cl w = Some (u0, Inr sv)" "locked u0 = Some (u1, Inr ())" and
    2: "stop_targets cl sv target u1 = Some (u2, Inr targets)" and
    3: "in_store (\<lambda>st. save_many (cl_now cl) st changed) u2 = Some (u3, Inr ())" and
    4: "apply_inventory sv u3 = Some (u4, Inr st)" and
    5: "pbind (say ls) (\<lambda>_. pret (Inr 0)) u4 = Some (w', Inr n)"
    using assms(1) unfolding cmd_stop_def Let_def by (auto simp: pbind_ok pret_def)
  have u1: "rl_store u1 = rl_store w" by (rule open_locked [OF 1 assms(2)])
  then have u2: "rl_store u2 = rl_store w" using keepsD [OF keeps_stop_targets _ 2] assms(2) by simp
  obtain ops where o: "save_many (cl_now cl) (rl_store w) changed = (ops, Inr ())" "rl_store u3 = exec (rl_store w) ops"
    using 3 u2 unfolding store_ok by auto
  have q: "quiet (rl_store u3)" using save_many_updates [OF o(1) assms(2), folded o(2)] by blast
  from apply_inventory_ok [OF 4 q] have a: "applied sv (rl_store u4) u4" "quiet (rl_store u4)" using q by auto
  have "applied sv (rl_store w') w' \<and> rl_store w' = rl_store u4"
    by (rule applied_said [OF a(1) 5])
  then show ?thesis using open_opened [OF 1(1)] by blast
qed

lemma forget_ok:
  assumes "cmd_forget cl identifier confirmation w = Some (w', Inr n)" "quiet (rl_store w)"
  shows "\<exists>sv. applied sv (rl_store w') w' \<and> opened cl sv"
proof -
  obtain sv u0 u1 u2 i u3 st u4 where
    1: "open_realm cl w = Some (u0, Inr sv)" "locked u0 = Some (u1, Inr ())" and
    2: "in_store (\<lambda>st. load st identifier) u1 = Some (u2, Inr i)" and
    3: "apply_inventory sv u2 = Some (u3, Inr st)" and
    4: "in_store (\<lambda>st. remove_instance (cl_tail cl) st (in_id i)) u3 = Some (u4, Inr ())" and
    5: "say [lit ''forgot Cyclo instance: '' @ in_id i] u4 = Some (w', Inr ())"
    using assms(1) unfolding cmd_forget_def by (auto simp: pbind_ok pret_def)
  have u1: "rl_store u1 = rl_store w" by (rule open_locked [OF 1 assms(2)])
  have i: "in_id i = identifier" using load_result [OF 2 u1 assms(2)] by blast
  have u2: "rl_store u2 = rl_store w" using keepsD [OF keeps_load _ 2] u1 assms(2) by simp
  then have q: "quiet (rl_store u2)" using assms(2) by simp
  from apply_inventory_ok [OF 3 q] have a: "applied sv (rl_store w) u3" "rl_store u3 = rl_store w" using u2 by auto
  obtain ops where o: "remove_instance (cl_tail cl) (rl_store w) (in_id i) = (ops, Inr ())" "rl_store u4 = exec (rl_store w) ops"
    using 4 a(2) unfolding store_ok by auto
  have r: "\<forall>j. stored (rl_store u4) j = (if j = in_id i then None else stored (rl_store w) j)"
      "\<exists>x. stored (rl_store w) (in_id i) = Some x \<and> in_intent x = lit ''stopped''"
    using remove_updates [OF o(1) assms(2)] unfolding o(2) by simp_all
  have w': "rl_store w' = rl_store u4" "rl_world w' = rl_world u3"
    using 5 4 by (auto simp: say_def in_store_def split: prod.splits)
  have "lit ''stopped'' \<noteq> lit ''running''" by (simp add: lit_def)
  then have "stored (rl_store w') (in_id j) = Some j \<longleftrightarrow> stored (rl_store w) (in_id j) = Some j"
    if "in_intent j = lit ''running''" for j using r that unfolding w'(1) by auto
  then have "applied sv (rl_store w') w'" by (rule applied_cong [OF a(1), rotated]) (simp_all add: w'(2))
  then show ?thesis using open_opened [OF 1(1)] by blast
qed

lemma repair_ok:
  assumes "cmd_repair cl w = Some (w', Inr n)" "quiet (rl_store w)"
  shows "\<exists>sv. applied sv (rl_store w') w' \<and> opened cl sv"
proof -
  obtain sv u0 u1 st u2 ls where
    1: "open_realm cl w = Some (u0, Inr sv)" "locked u0 = Some (u1, Inr ())" and
    2: "apply_inventory sv u1 = Some (u2, Inr st)" and 3: "say ls u2 = Some (w', Inr ())"
    using assms(1) unfolding cmd_repair_def by (auto simp: pbind_ok pret_def)
  have u1: "quiet (rl_store u1)" using open_locked [OF 1 assms(2)] assms(2) by simp
  have a: "applied sv (rl_store u2) u2" "quiet (rl_store u2)" using apply_inventory_ok [OF 2 u1] u1 by auto
  show ?thesis using applied_later [OF a keeps_basic(5) file_basic(2) 3] open_opened [OF 1(1)] by blast
qed

lemma models_ok:
  assumes "cmd_models cl w = Some (w', Inr n)" "quiet (rl_store w)"
  shows "\<exists>sv. applied sv (rl_store w') w' \<and> opened cl sv"
proof -
  obtain sv u0 u1 st u2 found u3 ls where
    1: "open_realm cl w = Some (u0, Inr sv)" "locked u0 = Some (u1, Inr ())" and
    2: "apply_inventory sv u1 = Some (u2, Inr st)" and
    3: "catalogue cl sv st u2 = Some (u3, Inr found)" "say ls u3 = Some (w', Inr ())"
    using assms(1) unfolding cmd_models_def by (auto simp: pbind_ok pret_def)
  have u1: "quiet (rl_store u1)" using open_locked [OF 1 assms(2)] assms(2) by simp
  have a: "applied sv (rl_store u2) u2" "quiet (rl_store u2)" using apply_inventory_ok [OF 2 u1] u1 by auto
  have b: "applied sv (rl_store u3) u3" "quiet (rl_store u3)"
    using applied_later [OF a keeps_parts(6) file_parts(4) 3(1)] a(2) by auto
  show ?thesis using applied_later [OF b keeps_basic(5) file_basic(2) 3(2)] open_opened [OF 1(1)] by blast
qed

text \<open>C3: when a command other than \<open>shutdown\<close> succeeds, the system file dcomp was given last is the rendering of the system
  compiled from exactly the instances the store then says are to run: what runs is what is recorded.\<close>

theorem success_runs_store:
  assumes "quiet (rl_store r)" "execute cl c r = Some (r', Inr n)" "c \<noteq> Shutdown"
  shows "\<exists>rs path sv instances images fs fs' s digest ds content. sv = cl_services cl rs path \<and>
    (\<forall>i. in_intent i = lit ''running'' \<longrightarrow> (i \<in> set instances \<longleftrightarrow> stored (rl_store r') (in_id i) = Some i)) \<and>
    runtime_system (sv_env sv) (system_name sv) (sv_host sv) (sv_endpoint sv) images fs instances = Inr (fs', s) \<and>
    render_system (re_os (sv_env sv)) (sv_generated_root sv) s digest ds = Inr content \<and>
    st_system (wd_store (rl_world r')) = Some content"
proof -
  have "\<exists>sv. applied sv (rl_store r') r' \<and> opened cl sv"
  proof (cases c)
    case (Run args defn)
    then show ?thesis using run_ok [OF assms(2) [unfolded Run execute.simps] assms(1)] by blast
  next
    case Refresh
    then show ?thesis using refresh_ok [OF assms(2) [unfolded Refresh execute.simps] assms(1)] by blast
  next
    case (Start i)
    then show ?thesis using start_ok [OF assms(2) [unfolded Start execute.simps] assms(1)] by blast
  next
    case (Stop target)
    then show ?thesis using stop_ok [OF assms(2) [unfolded Stop execute.simps] assms(1)] by blast
  next
    case (Forget i confirmation)
    then show ?thesis using forget_ok [OF assms(2) [unfolded Forget execute.simps] assms(1)] by blast
  next
    case Repair
    then show ?thesis using repair_ok [OF assms(2) [unfolded Repair execute.simps] assms(1)] by blast
  next
    case Models
    then show ?thesis using models_ok [OF assms(2) [unfolded Models execute.simps] assms(1)] by blast
  qed (use assms(3) in simp)
  then obtain sv rs path where "applied sv (rl_store r') r'" "sv = cl_services cl rs path"
    unfolding opened_def by blast
  then show ?thesis unfolding applied_def by blast
qed

definition healthy_component :: "dcomp_status \<Rightarrow> ustr \<Rightarrow> bool" where
  "healthy_component st name \<longleftrightarrow>
     (\<exists>c. status_component st name = Some c \<and> cs_status c = lit ''running'' \<and> cs_health c = lit ''healthy'')"

lemma require_component_healthy: "require_component_ready st name = Inr u \<Longrightarrow> healthy_component st name"
  by (auto simp: require_component_ready_def healthy_component_def)

lemma ready_member:
  assumes "require_instances_ready host selected st = Inr ()" "i \<in> set selected"
  shows "st_operation st = [] \<and> (\<exists>h name. host = Inr h \<and> healthy_component st (outer_component h) \<and>
    team_component_name (in_id i) = Inr name \<and> healthy_component st name)"
  using assms require_component_healthy
  by (cases host) (fastforce simp: require_instances_ready_def split: if_splits)+


section \<open>Examples\<close>

text \<open>A realm without instances, whose dcomp reports a healthy gateway; the generated directory already holds the descriptor.\<close>

definition ex_live :: "nat services" where
  "ex_live = ex_services\<lparr>sv_status := (\<lambda>d. (d, Inr ex_status))\<rparr>"

definition ex_gate :: dc_component where
  "ex_gate = gateway_component \<lparr>di_reference = [], di_id = lit ''sha256:'' @ replicate 64 49, di_config = []\<rparr> True"

definition ex_gate_content :: bytes where
  "ex_gate_content = (case render_component ex_gate of Inr content \<Rightarrow> content | Inl _ \<Rightarrow> [])"

definition ex_gate_system :: dc_system where
  "ex_gate_system = \<lparr>sy_name = system_name ex_live, sy_components = [ex_gate], sy_links = []\<rparr>"

definition ex_published :: "dstore \<Rightarrow> bool" where
  "ex_published st \<longleftrightarrow>
     st_descriptors st = [(descriptor_name ex_gate ex_gate_content, DDir [(manifest_name, FReg ex_gate_content)])]"

lemma ex_gate_image:
  "case gateway_image ex_live d of (d', x) \<Rightarrow>
     d' = d \<and> (case x of Inl _ \<Rightarrow> False | Inr im \<Rightarrow> di_id im = lit ''sha256:'' @ replicate 64 49)"
  by code_simp

lemma ex_gate_rendered: "render_component ex_gate = Inr ex_gate_content"
proof -
  have "is_ok (render_component ex_gate)" by code_simp
  then show ?thesis by (auto simp: ex_gate_content_def is_ok_iff)
qed

lemma ex_gate_digest: "\<exists>p. system_digest ex_canonical_os ex_gate_system = Inr (sha256_hex p)"
proof -
  have "is_ok (utf8_encode (dump_compact True (sort_keys (system_json ex_gate_system))))"
    "system_validate ex_canonical_os ex_gate_system = Inr ()" by code_simp+
  then show ?thesis by (auto simp: system_digest_def is_ok_iff)
qed

lemma low_lit: "list_all (\<lambda>c. of_char c < (128::nat)) s \<Longrightarrow> \<forall>c\<in>set (lit s). c < 128"
  by (simp add: lit_def list_all_iff)

lemma ex_gate_system_rendered:
  assumes "\<forall>c\<in>set digest. c < 128" "\<forall>c\<in>set d. c < 128"
  shows "\<exists>content. render_system ex_canonical_os (sv_generated_root ex_live) ex_gate_system digest
    (map_option (descriptor_path (sv_generated_root ex_live)) \<circ> map_of [(co_name ex_gate, d)]) = Inr content"
proof -
  let ?root = "path_of (lit ''/s/system'')"
  have root: "sv_generated_root ex_live = ?root" by (simp add: ex_live_def ex_services_def)
  have rel: "relative_to (descriptor_path ?root d) ?root = Some (Path [] [lit ''descriptors'', d])"
    by (simp add: relative_to_def is_relative_to_def descriptor_path_def joinpath_def is_absolute_def)
  have comp: "component_lines ex_canonical_os ?root (map_option (descriptor_path ?root) \<circ> map_of [(co_name ex_gate, d)]) ex_gate =
      Inr [sp [lit ''component'', lit ''gateway'', lit ''descriptors'' @ [47] @ d],
           sp [lit ''volume'', lit ''gateway'', lit ''credentials'', GATEWAY_STORE, access_mode False],
           sp [lit ''publish'', lit ''gateway'', lit ''tcp'', lit ''127.0.0.1'', dump_int 0, dump_int 50051],
           sp [lit ''egress'', lit ''gateway''], []]"
    by (simp add: component_lines_def rel path_str_def ex_gate_def gateway_component_def tcp_port_def DCOMP_COMPONENT_PORT_def)
  let ?s = "join [10] ([lit ''# generated by Cyclo; composition '' @ digest, lit ''system '' @ system_name ex_live, []] @
      [sp [lit ''component'', lit ''gateway'', lit ''descriptors'' @ [47] @ d],
       sp [lit ''volume'', lit ''gateway'', lit ''credentials'', GATEWAY_STORE, access_mode False],
       sp [lit ''publish'', lit ''gateway'', lit ''tcp'', lit ''127.0.0.1'', dump_int 0, dump_int 50051],
       sp [lit ''egress'', lit ''gateway''], []])"
  have "\<forall>c\<in>set (system_name ex_live). c < 128" "\<forall>c\<in>set GATEWAY_STORE. c < 128" "\<forall>c\<in>set (access_mode False). c < 128"
    "\<forall>c\<in>set (dump_int 0). c < 128" "\<forall>c\<in>set (dump_int 50051). c < 128" by code_simp+
  then have "\<forall>c\<in>set ?s. c < 128" using assms by (auto simp: sp_def lit_def)
  then have "\<forall>c\<in>set (rstrip ?s @ [10]). c < 128" using set_rstrip_by [of isspace ?s] by (auto simp: rstrip_def)
  from utf8_encode_ascii [OF this] comp show ?thesis
    unfolding root by (simp add: render_system_def ex_gate_system_def is_ok_iff)
qed

lemma ex_gate_materialized:
  assumes "ex_published (wd_store w)"
  shows "\<exists>w' x. materialize_system ex_live ex_gate_system w = (w', Inr x) \<and> ex_published (wd_store w')"
proof -
  let ?d = "descriptor_name ex_gate ex_gate_content"
  have hex: "c < 128" if "c \<in> set (sha256_hex m)" for c m
    using sha256_hex_is_hex [OF that] by (auto simp: is_hex_def is_digit_def)
  have "\<forall>c\<in>set ?d. c < 128"
    using hex by (auto simp: descriptor_name_def ex_gate_def gateway_component_def lit_def dest: in_set_takeD)
  moreover obtain p where dg: "system_digest ex_canonical_os ex_gate_system = Inr (sha256_hex p)" using ex_gate_digest by blast
  ultimately obtain content where c: "render_system ex_canonical_os (sv_generated_root ex_live) ex_gate_system (sha256_hex p)
      (map_option (descriptor_path (sv_generated_root ex_live)) \<circ> map_of [(co_name ex_gate, ?d)]) = Inr content"
    using ex_gate_system_rendered hex by blast
  have v: "system_validate ex_canonical_os ex_gate_system = Inr ()" by code_simp
  have os: "re_os (sv_env ex_live) = ex_canonical_os" by (simp add: ex_live_def ex_services_def ex_runtime_def)
  have pub: "publish_components tmp (wd_store w) (sort_key co_name (sy_components ex_gate_system)) = ([], Inr [(co_name ex_gate, ?d)])"
    for tmp
    using assms by (simp add: ex_gate_system_def ex_gate_rendered write_descriptor_def ex_published_def Let_def apply_ops_def)
  show ?thesis
    using assms by (simp add: materialize_system_def materialize_def os v dg pub c [simplified] Let_def apply_ops_def ex_published_def)
qed

text \<open>The image of the gateway that a later call takes from the cache.\<close>

definition ex_cached :: "nat world \<Rightarrow> bool" where
  "ex_cached w \<longleftrightarrow> (case ic_gateway (wd_cache w) of None \<Rightarrow> True | Some im \<Rightarrow> di_id im = lit ''sha256:'' @ replicate 64 49)"

lemma ex_gate_built:
  assumes "ex_cached w"
  shows "\<exists>w' images. build_host ex_live rebuild w = (w', Inr images) \<and> di_id (hi_gateway images) = lit ''sha256:'' @ replicate 64 49 \<and>
    wd_store w' = wd_store w \<and> ex_cached w'"
proof -
  obtain im where im: "gateway_image ex_live (wd_outside w) = (wd_outside w, Inr im)" "di_id im = lit ''sha256:'' @ replicate 64 49"
  proof -
    obtain d x where g: "gateway_image ex_live (wd_outside w) = (d, x)" by fastforce
    show ?thesis using ex_gate_image [of "wd_outside w"] that unfolding g by (cases x) auto
  qed
  have sv: "sv_bind ex_live = (\<lambda>d. (d, Inr ()))" "sv_ensure ex_live = (\<lambda>d. (d, Inr ()))" "sv_host ex_live = Inr ex_bare_host"
    by (simp_all add: ex_live_def ex_services_def)
  have "\<exists>w' g. build_gateway ex_live rebuild w = (w', Inr g) \<and> di_id g = lit ''sha256:'' @ replicate 64 49 \<and>
      wd_store w' = wd_store w \<and> ex_cached w'"
    using assms im by (auto simp: build_gateway_def dbind_def outside_def sv ex_cached_def split: option.splits)
  then show ?thesis
    by (auto simp: build_host_def dbind_def outside_def sv ret_def ex_bare_host_def)
qed

lemma ex_gate_applied:
  assumes "ex_cached w" "ex_published (wd_store w)"
  shows "\<exists>w' defn. apply_system ex_live rebuild [] w = Some (w', Inr (defn, ex_status)) \<and> ex_cached w' \<and> ex_published (wd_store w')"
proof -
  obtain w1 images where 1: "build_host ex_live rebuild w = (w1, Inr images)" "di_id (hi_gateway images) = lit ''sha256:'' @ replicate 64 49"
      "wd_store w1 = wd_store w" "ex_cached w1" using ex_gate_built [OF assms(1)] by blast
  have v: "validate_instances (sv_env ex_live) (sv_host ex_live) (sv_endpoint ex_live) [] = Inr ()"
    by (simp add: validate_instances_def)
  have h: "sv_host ex_live = Inr ex_bare_host" by (simp add: ex_live_def ex_services_def)
  have "compile_system ex_live images [] w1 = (w1, Inr ex_gate_system)"
    using 1(2) by (simp add: compile_system_def runtime_system_def active_instances_def validate_instances_def h system_parts_def
        ex_bare_host_def ex_gate_system_def ex_gate_def gateway_component_def)
  moreover obtain w2 defn where 2: "materialize_system ex_live ex_gate_system w1 = (w2, Inr defn)" "ex_published (wd_store w2)"
    using ex_gate_materialized assms(2) 1(3) by metis
  moreover have "wd_cache w2 = wd_cache w1" using 2(1) by (auto simp: materialize_system_def split: prod.splits)
  moreover have "start_definition ex_live w2 = (w2, Inr ())"
    by (simp add: start_definition_def dbind_def outside_def ex_live_def ex_services_def)
  ultimately have s: "start_system ex_live rebuild [] w = (w2, Inr defn)" "ex_cached w2"
    using 1 v by (simp_all add: start_system_def dbind_def ret_def ex_cached_def)
  have "\<not> settling ex_status" by (simp add: settling_def ex_status_def lit_def)
  then have "wait_status ex_live 30000 d = Some (d, Inr ex_status)" for d
    unfolding wait_status_def by (subst wait_loop.simps) (simp add: ex_live_def)
  then show ?thesis using s 2(2) by (simp add: apply_system_def then_wait_def ex_cached_def)
qed

definition ex_live_cli :: "nat cli" where
  "ex_live_cli = ex_cli\<lparr>cl_services := (\<lambda>rs path. ex_live), cl_list_models := (\<lambda>port d. (d, Inr [(lit ''models'', JList [])]))\<rparr>"

definition ex_live_realm :: "nat realm" where
  "ex_live_realm = ex_realm\<lparr>rl_world := ex_world\<lparr>wd_store :=
     \<lparr>st_descriptors = [(descriptor_name ex_gate ex_gate_content, DDir [(manifest_name, FReg ex_gate_content)])], st_system = None\<rparr>\<rparr>\<rparr>"

lemma ex_opened:
  "\<exists>u v. open_realm ex_live_cli ex_live_realm = Some (u, Inr ex_live) \<and> locked u = Some (v, Inr ()) \<and>
     rl_store v = ex_empty \<and> ex_cached (rl_world v) \<and> ex_published (wd_store (rl_world v))"
proof -
  let ?fl = "\<lparr>rf_scope = None, rf_endpoint = None\<rparr>"
  have 1: "state_store (cl_os ex_live_cli) (cl_user ex_live_cli) (cl_xdg ex_live_cli) (cl_state_root ex_live_cli) (cl_local ex_live_cli) =
      Inr ex_realm_store" by code_simp
  have 2: "case host_config ?fl ex_realm_store of (rs, x) \<Rightarrow> is_ok x \<and> snd (bind_host_config_scope (?fl, rs)) = Inr ()" by code_simp
  then obtain rs path where h: "host_config ?fl ex_realm_store = (rs, Inr path)" "snd (bind_host_config_scope (?fl, rs)) = Inr ()"
    by (auto simp: is_ok_iff split: prod.splits)
  then obtain fl' rs' where b: "bind_host_config_scope (?fl, rs) = ((fl', rs'), Inr ())" by (metis prod.exhaust_sel)
  have sv: "cl_services ex_live_cli rs path = ex_live" by (simp add: ex_live_cli_def)
  show ?thesis
    by (simp add: open_realm_def pbind_def open_store_def 1 open_runtime_def in_files_def ex_live_realm_def ex_realm_def h locked_def b sv
        ex_cached_def ex_published_def)
qed

definition ex_idle :: "nat realm \<Rightarrow> bool" where
  "ex_idle r \<longleftrightarrow> rl_store r = ex_empty \<and> ex_cached (rl_world r) \<and> ex_published (wd_store (rl_world r))"

lemma ex_apply_idle:
  assumes "ex_idle r"
  shows "\<exists>r'. apply_instances ex_live rebuild [] r = Some (r', Inr ex_status) \<and> ex_idle r'"
proof -
  obtain w' defn where "apply_system ex_live rebuild [] (rl_world r) = Some (w', Inr (defn, ex_status))" "ex_cached w'"
      "ex_published (wd_store w')" using ex_gate_applied assms unfolding ex_idle_def by blast
  then show ?thesis using assms by (simp add: apply_instances_def pbind_def in_runtime_def pret_def ex_idle_def)
qed

lemma ex_list_idle: "ex_idle r \<Longrightarrow> in_store list_all_instances r = Some (r, Inr [])"
proof -
  have "list_all_instances ex_empty = ([], Inr [])" by code_simp
  then show "ex_idle r \<Longrightarrow> in_store list_all_instances r = Some (r, Inr [])" by (simp add: in_store_def ex_idle_def)
qed

lemma ex_save_idle: "ex_idle r \<Longrightarrow> in_store (\<lambda>st. save_many f st []) r = Some (r, Inr ())"
proof -
  have "save_many f ex_empty [] = ([], Inr ())"
    by (simp add: save_many_def and_then_def recover_def file_exists_def ex_empty_def)
  then show "ex_idle r \<Longrightarrow> in_store (\<lambda>st. save_many f st []) r = Some (r, Inr ())" by (simp add: in_store_def ex_idle_def)
qed

lemma ex_catalogue: "catalogue ex_live_cli ex_live ex_status r = Some (r, Inr [(lit ''models'', JList [])])"
proof -
  have "outer_port (sv_host ex_live) ex_status = Inr 40000"
    "check_catalogue [(lit ''models'', JList [])] = Inr [(lit ''models'', JList [])]" by code_simp+
  then show ?thesis
    by (simp add: catalogue_def pbind_def pret_def in_world_def outside_def ex_live_cli_def del: rbind_eq_Inr)
qed

lemma ex_refreshed: "\<exists>r. execute ex_live_cli Refresh ex_live_realm = Some (r, Inr 0)"
proof -
  obtain u v where o: "open_realm ex_live_cli ex_live_realm = Some (u, Inr ex_live)" "locked u = Some (v, Inr ())" "ex_idle v"
    using ex_opened unfolding ex_idle_def by blast
  obtain r1 where 1: "apply_instances ex_live True [] v = Some (r1, Inr ex_status)" "ex_idle r1" using ex_apply_idle o(3) by blast
  obtain r2 where 2: "apply_instances ex_live False [] r1 = Some (r2, Inr ex_status)" "ex_idle r2" using ex_apply_idle 1(2) by blast
  have agentws: "cl_agentws ex_live_cli = Inr ()" by (simp add: ex_live_cli_def ex_cli_def)
  have none: "running [] = []" "replace_refreshed [] [] = []" by (simp_all add: running_def replace_refreshed_def)
  have "prepare_providers ex_live_cli ex_live True [] [] v = Some (r1, Inr ())"
    by (simp add: prepare_providers_def pbind_def 1 ex_catalogue pret_def)
  moreover have "commit_running ex_live_cli ex_live [] r1 = Some (r2, Inr ex_status)"
    by (simp add: commit_running_def pbind_def ex_save_idle 1 apply_inventory_def ex_list_idle 2 instances_ready_def
        require_instances_ready_def pret_def)
  moreover have "validate_instances (sv_env ex_live) (sv_host ex_live) (sv_endpoint ex_live) [] = Inr ()"
    by (simp add: validate_instances_def)
  ultimately show ?thesis
    by (simp add: cmd_refresh_def pbind_def pret_def agentws o ex_list_idle none Let_def say_def)
qed

lemma ex_live_quiet: "quiet (rl_store ex_live_realm)"
  using ex_realm_quiet by (simp add: ex_live_realm_def)

lemma success_runs_store_witness:
  "\<exists>r s. execute ex_live_cli Refresh ex_live_realm = Some (r, Inr 0) \<and> st_system (wd_store (rl_world r)) = Some s"
proof -
  obtain r where r: "execute ex_live_cli Refresh ex_live_realm = Some (r, Inr 0)" using ex_refreshed by blast
  have "Refresh \<noteq> Shutdown" by simp
  from success_runs_store [OF ex_live_quiet r this] r show ?thesis by blast
qed


end
