(* ===== verification/Dashboard.thy ===== *)
theory Dashboard imports Command_Line Queue begin

text \<open>
  The host dashboard of \<open>src/cyclo/dashboard.py\<close>: the snapshot of all instances with their health.  The
  requests of its server are in \<open>Dashboard_Server\<close>.  The status and the host configuration of the runtime, the queues on disk, the clock
  and the text of an exception are parameters; a dictionary with fixed keys is a record.
\<close>

section \<open>Health\<close>

text \<open>\<open>str(exc)\<close> and \<open>type(exc).__name__\<close>.\<close>

record exc_text =
  xt_str :: "error \<Rightarrow> ustr"
  xt_type :: "error \<Rightarrow> ustr"

definition error_summary :: "exc_text \<Rightarrow> error \<Rightarrow> ustr" where
  "error_summary xt e =
     (let words = join [32] (split_ws (xt_str xt e)); detail = (if words \<noteq> [] then words else xt_type xt e) in
      if length detail \<le> 240 then detail else take 237 detail @ lit ''...'')"

definition component_issue :: "component_status \<Rightarrow> ustr" where
  "component_issue c =
     join (lit ''; '') (unique
       ((if cs_problem c \<noteq> [] then [cs_problem c] else []) @
        (if cs_status c \<noteq> lit ''running''
         then [lit ''status '' @ or_unknown (cs_status c) @
               (if cs_exit_code c \<noteq> 0 then lit '' (exit '' @ dump_int (cs_exit_code c) @ lit '')'' else [])]
         else []) @
        (if cs_health c \<noteq> lit ''healthy'' then [lit ''health '' @ or_unknown (cs_health c)] else [])))"

record health =
  he_state :: ustr
  he_reason :: ustr

text \<open>A sorted listing of at most five names, and how many more there are.\<close>

definition shown_names :: "ustr list \<Rightarrow> ustr" where
  "shown_names names =
     join (lit '', '') (take 5 names) @
     (if length names > 5 then lit '', +'' @ dec (length names - 5) @ lit '' more'' else [])"

definition with_agent_health :: "health \<Rightarrow> ustr list \<Rightarrow> ustr \<Rightarrow> ustr list \<Rightarrow> health" where
  "with_agent_health provider suspended supervisor_error planner_attention =
     (let agents = sort (remdups suspended); attention = sort (remdups planner_attention);
          details =
            (if supervisor_error \<noteq> [] then [lit ''AgentWS supervisor status unavailable: '' @ supervisor_error] else []) @
            (if agents \<noteq> []
             then [dec (length agents) @ (if length agents = 1 then lit '' agent'' else lit '' agents'') @
                   lit '' suspended: '' @ shown_names agents] else []) @
            (if attention \<noteq> []
             then [dec (length attention) @ lit '' unresolved planner '' @
                   (if length attention = 1 then lit ''failure'' else lit ''failures'') @ lit '': '' @ shown_names attention]
             else []);
          failing = (\<lambda>agent_state.
            \<lparr>he_state = (if he_state provider = lit ''ready'' then agent_state else he_state provider),
             he_reason = join (lit ''; '') (filter (\<lambda>v. v \<noteq> []) [he_reason provider, join (lit ''; '') details])\<rparr>)
      in if supervisor_error \<noteq> [] then failing (lit ''agents-unknown'')
         else if agents \<noteq> [] then failing (lit ''agents-suspended'')
         else if attention \<noteq> [] then failing (lit ''agents-attention'')
         else provider)"

definition provider_component_names :: "host \<Rightarrow> ustr list" where
  "provider_component_names h = lit ''gateway'' # map pv_name (ho_providers h)"

text \<open>The dictionary of the components by name keeps the last of two with one name.\<close>

definition named_component :: "host \<Rightarrow> dcomp_status \<Rightarrow> ustr \<Rightarrow> component_status option" where
  "named_component h st name =
     map_of (rev (map (\<lambda>c. (cs_name c, c)) (filter (\<lambda>c. cs_name c \<in> set (provider_component_names h)) (st_components st)))) name"

definition provider_issue :: "host \<Rightarrow> dcomp_status \<Rightarrow> ustr \<Rightarrow> ustr option" where
  "provider_issue h st name =
     (case named_component h st name of
        None \<Rightarrow> Some (lit ''component '' @ name @ lit '': absent from runtime status'')
      | Some c \<Rightarrow>
          if component_issue c \<noteq> [] then Some (lit ''component '' @ name @ lit '': '' @ component_issue c) else None)"

definition provider_issues :: "host \<Rightarrow> dcomp_status \<Rightarrow> ustr list" where
  "provider_issues h st = List.map_filter (provider_issue h st) (sort (remdups (provider_component_names h)))"

definition chain_health :: "host \<Rightarrow> dcomp_status \<Rightarrow> health" where
  "chain_health h st =
     (let outer = outer_component h; issues = provider_issues h st;
          optional = filter (\<lambda>i. \<not> startswith (lit ''component '' @ outer @ lit '':'') i) issues in
      case named_component h st outer of
        None \<Rightarrow> \<lparr>he_state = lit ''provider-down'', he_reason = lit ''outer provider component '' @ outer @ lit '' is absent''\<rparr>
      | Some c \<Rightarrow>
          if component_issue c \<noteq> [] then \<lparr>he_state = lit ''provider-down'', he_reason = outer @ lit '': '' @ component_issue c\<rparr>
          else \<lparr>he_state = lit ''ready'',
                he_reason = (if optional \<noteq> [] then lit ''unavailable optional provider components: '' @ join (lit '', '') optional
                             else [])\<rparr>)"

text \<open>What the runtime answers: its status and its host configuration, each of which may raise.\<close>

record dash_runtime =
  dr_status :: "dcomp_status res"
  dr_host :: "host res"

definition provider_health :: "exc_text \<Rightarrow> dash_runtime option \<Rightarrow> dcomp_status option \<Rightarrow> (health \<times> ustr list) res" where
  "provider_health xt runtime status =
     (case (runtime, status) of
        (Some rt, Some st) \<Rightarrow>
          (case dr_host rt of
             Inr h \<Rightarrow> Inr (chain_health h st, provider_issues h st)
           | Inl (CycloError e) \<Rightarrow>
               let gateway = (case status_component st (lit ''gateway'') of Some c \<Rightarrow> component_issue c | None \<Rightarrow> []);
                   issue = lit ''host configuration unavailable: '' @ error_summary xt (CycloError e) @
                     (if gateway \<noteq> [] then lit ''; gateway: '' @ gateway else []) in
               Inr (\<lparr>he_state = lit ''provider-unknown'', he_reason = issue\<rparr>, [issue])
           | Inl e \<Rightarrow> Inl e)
      | _ \<Rightarrow> Inr (\<lparr>he_state = lit ''provider-unknown'', he_reason = lit ''runtime status unavailable''\<rparr>, []))"

definition runtime_value :: "dcomp_status \<Rightarrow> json" where
  "runtime_value st = JObj
     [(lit ''name'', JStr (st_name st)), (lit ''desired'', JBool (st_desired st)),
      (lit ''operational'', JBool (st_operational st)), (lit ''digest'', JStr (st_digest st)),
      (lit ''operation'', JStr (st_operation st)), (lit ''phase'', JStr (st_phase st)),
      (lit ''networks'', JList (map (\<lambda>n. JObj [(lit ''key'', JStr (ns_key n)), (lit ''internal'', JBool (ns_internal n)),
         (lit ''problem'', JStr (ns_problem n))]) (st_networks st))),
      (lit ''components'', JList (map (\<lambda>c. JObj
         [(lit ''name'', JStr (cs_name c)), (lit ''status'', JStr (cs_status c)), (lit ''health'', JStr (cs_health c)),
          (lit ''exit_code'', JInt (cs_exit_code c)), (lit ''problem'', JStr (cs_problem c)),
          (lit ''published_ports'', JList (map (\<lambda>p. JObj
             [(lit ''protocol'', JStr (dp_protocol p)), (lit ''host_ip'', JStr (dp_host_ip p)),
              (lit ''host_port'', JInt (dp_host_port p)), (lit ''container_port'', JInt (dp_container_port p))]) (cs_ports c)))])
         (st_components st)))]"

section \<open>The row of an instance\<close>

record dash_env =
  de_text :: exc_text
  de_queue :: "ustr \<Rightarrow> errno + qdir"
  de_limits :: queue_limits
  de_now :: int

record dash_row =
  dw_instance :: instance_rec
  dw_project :: json
  dw_container :: ustr
  dw_readiness :: ustr
  dw_health :: health
  dw_port :: "int option"
  dw_queue :: queue_report
  dw_errors :: "ustr list"

definition project_metadata :: "exc_text \<Rightarrow> instance_rec \<Rightarrow> json \<times> ustr list" where
  "project_metadata xt i =
     (case decode_instance_project i of
        Inr p \<Rightarrow> (dashboard_value p, map (\<lambda>e. lit ''invalid project metadata: '' @ lit e) (ip_errors p))
      | Inl e \<Rightarrow>
          (JObj [(lit ''name'', JStr []), (lit ''path'', JStr []), (lit ''definition'', JNull), (lit ''description'', JStr []),
             (lit ''generation'', JStr []), (lit ''workspaces'', JList []), (lit ''read_only_mounts'', JList [])],
           [lit ''invalid project metadata: '' @ xt_str xt e]))"

text \<open>The name of the component is empty without a runtime or when it cannot be derived.\<close>

definition row_component ::
    "exc_text \<Rightarrow> dash_runtime option \<Rightarrow> dcomp_status option \<Rightarrow> instance_rec \<Rightarrow> ustr \<times> component_status option \<times> ustr list" where
  "row_component xt runtime status i =
     (let (name, errors) =
        (case runtime of
           None \<Rightarrow> ([], [])
         | Some _ \<Rightarrow>
             (case team_component_name (in_id i) of
                Inr n \<Rightarrow> (n, [])
              | Inl e \<Rightarrow> ([], [lit ''runtime component mapping unavailable: '' @ error_summary xt e])))
      in (name, (case status of Some st \<Rightarrow> if name \<noteq> [] then status_component st name else None | None \<Rightarrow> None), errors))"

definition supervisor_health :: "dash_env \<Rightarrow> health \<Rightarrow> instance_rec \<Rightarrow> health" where
  "supervisor_health de provider i =
     (case read_agent_supervisor_status (de_queue de (in_id i)) 4096 15 (de_now de) of
        Inr s \<Rightarrow> with_agent_health provider (ss_suspended s) (ss_error s) (ss_attention s)
      | Inl e \<Rightarrow> with_agent_health provider [] (xt_str (de_text de) e) [])"

definition dashboard_row ::
    "dash_env \<Rightarrow> dash_runtime option \<Rightarrow> dcomp_status option \<Rightarrow> health \<Rightarrow> instance_rec \<Rightarrow> dash_row" where
  "dashboard_row de runtime status provider i =
     (let xt = de_text de;
          (name, component, errors1) = row_component xt runtime status i;
          missing = (if status \<noteq> None then lit ''absent'' else lit ''unknown'');
          problem = (case component of Some c \<Rightarrow> component_issue c | None \<Rightarrow> []);
          errors2 =
            (case component of
               None \<Rightarrow>
                 if in_intent i = lit ''running'' \<and> status \<noteq> None
                 then [lit ''runtime component '' @ (if name \<noteq> [] then name else in_id i) @ lit '' is absent''] else []
             | Some c \<Rightarrow>
                 if problem \<noteq> [] then [lit ''runtime component '' @ cs_name c @ lit '': '' @ problem] else []);
          operational = (in_intent i = lit ''running'' \<and> component \<noteq> None \<and> problem = []);
          health =
            (if operational then supervisor_health de provider i
             else \<lparr>he_state = lit ''inactive'', he_reason = lit ''instance is not operational''\<rparr>);
          queue = scan_agentws_queue (de_queue de (in_id i)) (de_limits de);
          (port, errors3) =
            (if operational \<and> \<not> in_offline i then
               (case rbind (of_option (CycloError ''runtime status unavailable'') status) (team_port i) of
                  Inr p \<Rightarrow> (p, [])
                | Inl e \<Rightarrow> (None, [lit ''AgentWS port unavailable: '' @ error_summary xt e]))
             else (None, []));
          (project, errors4) = project_metadata xt i
      in \<lparr>dw_instance = i, dw_project = project,
          dw_container = (case component of Some c \<Rightarrow> or_unknown (cs_status c) | None \<Rightarrow> missing),
          dw_readiness = (case component of Some c \<Rightarrow> or_unknown (cs_health c) | None \<Rightarrow> missing),
          dw_health = health, dw_port = port, dw_queue = queue,
          dw_errors = unique (errors1 @ errors2 @ qr_errors queue @ errors3 @ errors4)\<rparr>)"

section \<open>The snapshot\<close>

definition lifecycle_operational :: "dash_row \<Rightarrow> bool" where
  "lifecycle_operational r \<longleftrightarrow>
     in_intent (dw_instance r) = lit ''running'' \<and> dw_container r = lit ''running'' \<and> dw_readiness r = lit ''healthy''"

definition lifecycle_settled :: "dash_row \<Rightarrow> bool" where
  "lifecycle_settled r \<longleftrightarrow>
     lifecycle_operational r \<or> in_intent (dw_instance r) = lit ''stopped'' \<and> dw_container r = lit ''absent''"

definition lifecycle_rank :: "dash_row \<Rightarrow> nat" where
  "lifecycle_rank r =
     (if lifecycle_operational r then 0
      else if in_intent (dw_instance r) = lit ''running'' then 1
      else if in_intent (dw_instance r) = lit ''absent'' then 2
      else if in_intent (dw_instance r) = lit ''stopped'' then 3 else 4)"

definition failed_jobs :: "dash_row \<Rightarrow> nat" where
  "failed_jobs r = the (map_of (qc_job_statuses (qr_counts (dw_queue r))) (lit ''failed''))"

definition wants_attention :: "dash_row \<Rightarrow> bool" where
  "wants_attention r \<longleftrightarrow> \<not> lifecycle_settled r \<or>
     startswith (lit ''provider-'') (he_state (dw_health r)) \<or> startswith (lit ''agents-'') (he_state (dw_health r)) \<or>
     he_state (dw_health r) = lit ''ready'' \<and> he_reason (dw_health r) \<noteq> [] \<or> failed_jobs r > 0 \<or> dw_errors r \<noteq> []"

record dash_summary =
  dm_instances :: nat
  dm_running :: nat
  dm_provider_issues :: nat
  dm_attention :: nat
  dm_tasks :: nat
  dm_jobs :: nat
  dm_agents :: nat
  dm_errors :: nat

record snapshot =
  sn_summary :: dash_summary
  sn_source_errors :: "ustr list"
  sn_runtime :: "dcomp_status option"
  sn_instances :: "dash_row list"

definition runtime_status :: "exc_text \<Rightarrow> dash_runtime option \<Rightarrow> dcomp_status option \<times> ustr list" where
  "runtime_status xt runtime =
     (case runtime of
        None \<Rightarrow> (None, [lit ''runtime status unavailable: runtime is not configured''])
      | Some rt \<Rightarrow>
          (case dr_status rt of
             Inr st \<Rightarrow> (Some st, [])
           | Inl e \<Rightarrow> (None, [lit ''runtime status unavailable: '' @ error_summary xt e])))"

definition runtime_problems :: "dcomp_status option \<Rightarrow> ustr list" where
  "runtime_problems status =
     (case status of
        None \<Rightarrow> []
      | Some st \<Rightarrow>
          (if st_operation st \<noteq> []
           then [lit ''runtime operation in progress: '' @ st_operation st @ lit '' ('' @ or_unknown (st_phase st) @ lit '')''] else []) @
          map (\<lambda>n. lit ''runtime network '' @ ns_key n @ lit '': '' @ ns_problem n) (filter (\<lambda>n. ns_problem n \<noteq> []) (st_networks st)))"

definition summarize :: "dash_row list \<Rightarrow> ustr list \<Rightarrow> nat \<Rightarrow> dash_summary" where
  "summarize rows source_errors provider_issue_count =
     \<lparr>dm_instances = length rows,
      dm_running = length (filter (\<lambda>r. dw_container r = lit ''running'') rows),
      dm_provider_issues = provider_issue_count,
      dm_attention = length (filter wants_attention rows),
      dm_tasks = sum_list (map (\<lambda>r. qc_tasks (qr_counts (dw_queue r))) rows),
      dm_jobs = sum_list (map (\<lambda>r. qc_jobs (qr_counts (dw_queue r))) rows),
      dm_agents = sum_list (map (\<lambda>r. qc_agents (qr_counts (dw_queue r))) rows),
      dm_errors = length source_errors + sum_list (map (\<lambda>r. length (dw_errors r)) rows)\<rparr>"

text \<open>\<open>instances\<close> and \<open>state_errors\<close> are what \<open>list_report\<close> returned.\<close>

definition build_snapshot ::
    "dash_env \<Rightarrow> dash_runtime option \<Rightarrow> instance_rec list \<Rightarrow> ustr list \<Rightarrow> snapshot res" where
  "build_snapshot de runtime instances state_errors =
     (let (status, errors) = runtime_status (de_text de) runtime in
      rbind (provider_health (de_text de) runtime status) (\<lambda>(provider, issues).
      let rows = sort_key (\<lambda>r. (lifecycle_rank r, in_id (dw_instance r)))
            (map (dashboard_row de runtime status provider) instances);
          source_errors = unique (state_errors @ errors @ issues @ runtime_problems status) in
      Inr \<lparr>sn_summary = summarize rows source_errors (length issues + (if runtime = None \<or> status = None then 1 else 0)),
           sn_source_errors = source_errors, sn_runtime = status, sn_instances = rows\<rparr>))"


section \<open>A dashboard without attention\<close>

lemma set_unique [simp]: "set (unique xs) = set xs"
  by (induction xs rule: unique.induct) auto

lemma join_Nil: "join sep xs = [] \<Longrightarrow> x \<in> set xs \<Longrightarrow> x = []"
  by (induction sep xs rule: join.induct) auto

lemma component_issue_Nil:
  "component_issue c = [] \<longleftrightarrow> cs_problem c = [] \<and> cs_status c = lit ''running'' \<and> cs_health c = lit ''healthy''"
proof
  assume i: "component_issue c = []"
  note none = join_Nil [OF i [unfolded component_issue_def], unfolded set_unique]
  show "cs_problem c = [] \<and> cs_status c = lit ''running'' \<and> cs_health c = lit ''healthy''"
  proof (rule ccontr)
    assume "\<not> ?thesis"
    then consider (problem) "cs_problem c \<noteq> []" | (status) "cs_status c \<noteq> lit ''running''" | (health) "cs_health c \<noteq> lit ''healthy''"
      by blast
    then show False
    proof cases
      case problem
      have "cs_problem c = []" by (rule none) (use problem in simp)
      then show False using problem by simp
    next
      case status
      let ?s = "lit ''status '' @ or_unknown (cs_status c) @
          (if cs_exit_code c \<noteq> 0 then lit '' (exit '' @ dump_int (cs_exit_code c) @ lit '')'' else [])"
      have "?s = []" by (rule none) (simp only: status, simp)
      then show False by (simp add: lit_def)
    next
      case health
      let ?s = "lit ''health '' @ or_unknown (cs_health c)"
      have "?s = []" by (rule none) (simp only: health, simp)
      then show False by (simp add: lit_def)
    qed
  qed
qed (simp add: component_issue_def)

lemma lit_states [simp]:
  "startswith (lit ''provider-'') (lit ''provider-down'')" "startswith (lit ''provider-'') (lit ''provider-unknown'')"
  "startswith (lit ''agents-'') (lit ''agents-unknown'')" "startswith (lit ''agents-'') (lit ''agents-suspended'')"
  "startswith (lit ''agents-'') (lit ''agents-attention'')"
  "\<not> startswith (lit ''provider-'') (lit ''ready'')" "\<not> startswith (lit ''agents-'') (lit ''ready'')"
  by code_simp+

lemma agent_health_state:
  "he_state (with_agent_health p suspended err attention) =
     (if err = [] \<and> suspended = [] \<and> attention = [] \<or> he_state p \<noteq> lit ''ready'' then he_state p
      else if err \<noteq> [] then lit ''agents-unknown'' else if suspended \<noteq> [] then lit ''agents-suspended''
      else lit ''agents-attention'')"
  "with_agent_health p [] [] [] = p"
proof -
  have "sort (remdups xs) = [] \<longleftrightarrow> xs = []" for xs :: "ustr list" by (metis remdups_eq_nil_iff set_empty set_sort)
  then show "he_state (with_agent_health p suspended err attention) =
     (if err = [] \<and> suspended = [] \<and> attention = [] \<or> he_state p \<noteq> lit ''ready'' then he_state p
      else if err \<noteq> [] then lit ''agents-unknown'' else if suspended \<noteq> [] then lit ''agents-suspended''
      else lit ''agents-attention'')" "with_agent_health p [] [] [] = p"
    by (simp_all add: with_agent_health_def Let_def)
qed

lemma agent_health_ready:
  assumes "he_state p \<in> {lit ''ready'', lit ''provider-down'', lit ''provider-unknown''}"
    and "\<not> startswith (lit ''provider-'') (he_state (with_agent_health p suspended err attention))"
    and "\<not> startswith (lit ''agents-'') (he_state (with_agent_health p suspended err attention))"
  shows "he_state p = lit ''ready'' \<and> suspended = [] \<and> err = [] \<and> attention = []"
proof -
  have "he_state p = lit ''ready''"
    using assms(1,2) unfolding agent_health_state by (elim insertE emptyE) (simp_all split: if_splits)
  then show ?thesis using assms(3) unfolding agent_health_state by (simp split: if_splits)
qed

lemma provider_health_ready:
  assumes "provider_health xt runtime status = Inr (p, issues)"
  shows "he_state p \<in> {lit ''ready'', lit ''provider-down'', lit ''provider-unknown''}"
    and "he_state p = lit ''ready'' \<Longrightarrow> \<exists>rt st h c. runtime = Some rt \<and> status = Some st \<and> dr_host rt = Inr h \<and>
      p = chain_health h st \<and> issues = provider_issues h st \<and> named_component h st (outer_component h) = Some c \<and> component_issue c = []"
proof -
  have l: "lit ''provider-unknown'' \<noteq> lit ''ready''" "lit ''provider-down'' \<noteq> lit ''ready''" by code_simp+
  show "he_state p \<in> {lit ''ready'', lit ''provider-down'', lit ''provider-unknown''}"
    using assms by (auto simp: provider_health_def chain_health_def Let_def split: option.splits sum.splits error.splits if_splits)
  assume "he_state p = lit ''ready''"
  then show "\<exists>rt st h c. runtime = Some rt \<and> status = Some st \<and> dr_host rt = Inr h \<and>
      p = chain_health h st \<and> issues = provider_issues h st \<and> named_component h st (outer_component h) = Some c \<and> component_issue c = []"
    using assms l
    by (auto simp: provider_health_def chain_health_def Let_def split: option.splits sum.splits error.splits if_splits)
qed

text \<open>An issue of one component is not taken for one of another, as names have no colon.\<close>

lemma issue_prefix:
  assumes "provider_issue h st name = Some i" "startswith (lit ''component '' @ outer @ lit '':'') i" "58 \<notin> set outer" "58 \<notin> set name"
  shows "name = outer"
proof -
  obtain t where t: "i = lit ''component '' @ name @ [58] @ t"
    using assms(1) by (auto simp: provider_issue_def lit_def split: option.splits if_splits)
  obtain u where u: "i = lit ''component '' @ outer @ [58] @ u"
    using assms(2) by (auto simp: startswith_iff lit_def)
  have "takeWhile (\<lambda>c. c \<noteq> 58) (x @ 58 # y) = x" if "58 \<notin> set x" for x y :: ustr
    using that by (induction x) auto
  moreover from t u have "name @ 58 # t = outer @ 58 # u" by simp
  ultimately show ?thesis using assms(3,4) by metis
qed

lemma name_no_colon: "is_name s \<Longrightarrow> 58 \<notin> set s"
  by (cases s) (auto simp: is_name_def re_name_def list_all_iff name_tail_def is_lower_def is_digit_def)

lemma outer_no_colon:
  assumes "host_wf h"
  shows "58 \<notin> set (outer_component h)" "name \<in> set (provider_component_names h) \<Longrightarrow> 58 \<notin> set name"
proof -
  have p: "58 \<notin> set (pv_name p)" if "p \<in> set (ho_providers h)" for p
    using assms that name_no_colon by (auto simp: host_wf_def provider_linked_def)
  have g: "58 \<notin> set (lit ''gateway'')" by (simp add: lit_def)
  show "58 \<notin> set (outer_component h)" using p g by (simp add: outer_component_def)
  show "name \<in> set (provider_component_names h) \<Longrightarrow> 58 \<notin> set name"
    using p g by (auto simp: provider_component_names_def)
qed

lemma chain_without_issues:
  assumes "host_wf h" "named_component h st (outer_component h) = Some c" "component_issue c = []"
    and "he_reason (chain_health h st) = []"
  shows "provider_issues h st = []"
proof (rule ccontr)
  assume "provider_issues h st \<noteq> []"
  then obtain i where i: "i \<in> set (provider_issues h st)" by (cases "provider_issues h st") auto
  then obtain name where n: "name \<in> set (provider_component_names h)" "provider_issue h st name = Some i"
    by (auto simp: provider_issues_def List.map_filter_def)
  have "name \<noteq> outer_component h" using n(2) assms(2,3) by (auto simp: provider_issue_def)
  then have "\<not> startswith (lit ''component '' @ outer_component h @ lit '':'') i"
    using issue_prefix [OF n(2) _ outer_no_colon [OF assms(1)]] n(1) by blast
  then have "filter (\<lambda>i. \<not> startswith (lit ''component '' @ outer_component h @ lit '':'') i) (provider_issues h st) \<noteq> []"
    using i by (auto simp: filter_empty_conv)
  then have "he_reason (chain_health h st) \<noteq> []"
    using assms(2,3) by (simp add: chain_health_def Let_def lit_def)
  then show False using assms(4) by simp
qed

lemma row_instance [simp]: "dw_instance (dashboard_row de runtime status provider i) = i"
  by (simp add: dashboard_row_def Let_def case_prod_beta)

text \<open>What a row says of an instance that is to run.\<close>

lemma running_row:
  assumes "\<not> wants_attention (dashboard_row de runtime status provider i)" "in_intent i = lit ''running''"
  shows "\<exists>st name c. status = Some st \<and> team_component_name (in_id i) = Inr name \<and> runtime \<noteq> None \<and>
    status_component st name = Some c \<and> component_issue c = [] \<and>
    dw_health (dashboard_row de runtime status provider i) = supervisor_health de provider i"
proof -
  let ?r = "dashboard_row de runtime status provider i"
  obtain name component errors where c: "row_component (de_text de) runtime status i = (name, component, errors)"
    by (metis prod.exhaust)
  have "lit ''running'' \<noteq> lit ''stopped''" by code_simp
  then have op: "dw_container ?r = lit ''running''" "dw_errors ?r = []"
    using assms by (simp_all add: wants_attention_def lifecycle_settled_def lifecycle_operational_def)
  have "lit ''absent'' \<noteq> lit ''running''" "lit ''unknown'' \<noteq> lit ''running''" by code_simp+
  then obtain x where x: "component = Some x"
    using op(1) by (cases component) (auto simp: dashboard_row_def Let_def c case_prod_beta split: if_splits)
  have u: "unique xs = [] \<longleftrightarrow> xs = []" for xs :: "ustr list" by (cases xs) simp_all
  have issue: "component_issue x = []"
    using op(2) x by (auto simp: dashboard_row_def Let_def c u case_prod_beta split: if_splits)
  have "dw_health ?r = supervisor_health de provider i"
    using x issue assms(2) by (simp add: dashboard_row_def Let_def c case_prod_beta)
  moreover have "\<exists>st. status = Some st \<and> team_component_name (in_id i) = Inr name \<and> runtime \<noteq> None \<and> status_component st name = Some x"
    using c x by (auto simp: row_component_def Let_def split: option.splits sum.splits if_splits)
  ultimately show ?thesis using issue by blast
qed

lemma supervisor_ready:
  assumes "he_state p \<in> {lit ''ready'', lit ''provider-down'', lit ''provider-unknown''}"
    and "\<not> startswith (lit ''provider-'') (he_state (supervisor_health de p i))"
    and "\<not> startswith (lit ''agents-'') (he_state (supervisor_health de p i))"
  shows "he_state p = lit ''ready'' \<and> supervisor_health de p i = p \<and>
    (\<exists>s. read_agent_supervisor_status (de_queue de (in_id i)) 4096 15 (de_now de) = Inr s \<and>
      ss_suspended s = [] \<and> ss_error s = [] \<and> ss_attention s = [])"
proof -
  obtain s where s: "read_agent_supervisor_status (de_queue de (in_id i)) 4096 15 (de_now de) = Inr s"
    by (cases "de_queue de (in_id i)") (auto simp: read_agent_supervisor_status_def Let_def case_prod_beta)
  have h: "supervisor_health de p i = with_agent_health p (ss_suspended s) (ss_error s) (ss_attention s)"
    by (simp add: supervisor_health_def s)
  from agent_health_ready [OF assms(1) assms(2,3) [unfolded h]] show ?thesis
    using s agent_health_state(2) [of p] unfolding h by simp
qed

lemma unique_Nil: "unique xs = [] \<longleftrightarrow> xs = []"
  by (cases xs) simp_all

lemma stopped_row:
  assumes "\<not> wants_attention (dashboard_row de runtime status provider i)" "in_intent i \<noteq> lit ''running''"
  shows "in_intent i = lit ''stopped'' \<and> (\<exists>st. status = Some st \<and>
    (runtime \<noteq> None \<longrightarrow> (\<forall>name. team_component_name (in_id i) = Inr name \<longrightarrow> status_component st name = None)))"
proof -
  let ?r = "dashboard_row de runtime status provider i"
  obtain name component errors where c: "row_component (de_text de) runtime status i = (name, component, errors)"
    by (metis prod.exhaust)
  have op: "in_intent i = lit ''stopped''" "dw_container ?r = lit ''absent''" "dw_errors ?r = []"
    using assms by (simp_all add: wants_attention_def lifecycle_settled_def lifecycle_operational_def)
  have l: "lit ''absent'' \<noteq> lit ''running''" "lit ''unknown'' \<noteq> lit ''absent''" "or_unknown (lit ''running'') = lit ''running''" by code_simp+
  have none: "component = None"
  proof (cases component)
    case (Some x)
    have "component_issue x = []"
      using op(3) Some by (auto simp: dashboard_row_def Let_def c unique_Nil case_prod_beta split: if_splits)
    then show ?thesis using op(2) Some l by (auto simp: dashboard_row_def Let_def c case_prod_beta component_issue_Nil)
  qed
  then have "status \<noteq> None" using op(2) l(2) by (auto simp: dashboard_row_def Let_def c case_prod_beta split: if_splits)
  moreover have "status_component st n = None"
    if "status = Some st" "runtime \<noteq> None" "team_component_name (in_id i) = Inr n" for st n
  proof -
    have "n \<noteq> []" using team_name_prefix [OF that(3)] by (auto simp: startswith_iff lit_def)
    then show ?thesis using c none that by (auto simp: row_component_def Let_def)
  qed
  ultimately show ?thesis using op(1) by blast
qed

text \<open>C20: when the dashboard asks for no attention, every instance is settled: one that is to run has its component running and
  healthy without a problem, a chain of providers without issues, a live supervisor, no suspended agent and no failed
  planner; one that is stopped has no component; and there is nothing else.\<close>

theorem quiet_dashboard_healthy:
  assumes "build_snapshot de runtime instances state_errors = Inr sn" "dm_attention (sn_summary sn) = 0" "i \<in> set instances"
    and "\<forall>rt h. runtime = Some rt \<longrightarrow> dr_host rt = Inr h \<longrightarrow> host_wf h"
  shows "(in_intent i = lit ''running'' \<and>
      (\<exists>rt st h name c s. runtime = Some rt \<and> dr_status rt = Inr st \<and> dr_host rt = Inr h \<and> provider_issues h st = [] \<and>
        team_component_name (in_id i) = Inr name \<and> status_component st name = Some c \<and> cs_problem c = [] \<and>
        component_condition (Some c) = (lit ''ready'', []) \<and>
        read_agent_supervisor_status (de_queue de (in_id i)) 4096 15 (de_now de) = Inr s \<and>
        ss_suspended s = [] \<and> ss_error s = [] \<and> ss_attention s = [])) \<or>
    (in_intent i = lit ''stopped'' \<and> (\<exists>rt st. runtime = Some rt \<and> dr_status rt = Inr st \<and>
        (\<forall>name. team_component_name (in_id i) = Inr name \<longrightarrow> status_component st name = None)))"
proof -
  obtain status errors provider issues where
    1: "runtime_status (de_text de) runtime = (status, errors)" and
    2: "provider_health (de_text de) runtime status = Inr (provider, issues)" and
    3: "\<not> wants_attention (dashboard_row de runtime status provider i)"
    using assms(1-3) by (auto simp: build_snapshot_def summarize_def Let_def filter_empty_conv split: prod.splits)
  have rt: "\<exists>rt. runtime = Some rt \<and> dr_status rt = Inr st" if "status = Some st" for st
    using 1 that by (auto simp: runtime_status_def split: option.splits sum.splits)
  show ?thesis
  proof (cases "in_intent i = lit ''running''")
    case True
    obtain st name c where r: "status = Some st" "team_component_name (in_id i) = Inr name" "status_component st name = Some c"
        "component_issue c = []" "dw_health (dashboard_row de runtime status provider i) = supervisor_health de provider i"
      using running_row [OF 3 True] by blast
    have h: "\<not> startswith (lit ''provider-'') (he_state (supervisor_health de provider i))"
      "\<not> startswith (lit ''agents-'') (he_state (supervisor_health de provider i))"
      "he_state (supervisor_health de provider i) = lit ''ready'' \<Longrightarrow> he_reason (supervisor_health de provider i) = []"
      using 3 unfolding wants_attention_def r(5) by simp_all
    obtain s where s: "he_state provider = lit ''ready''" "supervisor_health de provider i = provider"
        "read_agent_supervisor_status (de_queue de (in_id i)) 4096 15 (de_now de) = Inr s"
        "ss_suspended s = []" "ss_error s = []" "ss_attention s = []"
      using supervisor_ready [OF provider_health_ready(1) [OF 2] h(1,2)] by blast
    obtain rt' hh c' where p: "runtime = Some rt'" "dr_host rt' = Inr hh" "provider = chain_health hh st"
        "named_component hh st (outer_component hh) = Some c'" "component_issue c' = []"
      using provider_health_ready(2) [OF 2 s(1)] r(1) by auto
    have "host_wf hh" using assms(4) p(1,2) by blast
    then have "provider_issues hh st = []" using chain_without_issues [OF _ p(4,5)] h(3) s(1,2) p(3) by simp
    moreover have "component_condition (Some c) = (lit ''ready'', [])" "cs_problem c = []"
      using r(4) by (simp_all add: component_issue_Nil component_condition_def)
    ultimately show ?thesis using True p rt [OF r(1)] r(2,3) s(3-6) by auto
  next
    case False
    then show ?thesis using stopped_row [OF 3 False] rt by fastforce
  qed
qed

section \<open>The rows of a snapshot\<close>


section \<open>The dashboard and the command line\<close>

lemma named_component_outer:
  assumes "distinct (map cs_name (st_components st))"
  shows "named_component h st (outer_component h) = status_component st (outer_component h)"
proof -
  have "outer_component h \<in> set (provider_component_names h)"
    by (simp add: outer_component_def provider_component_names_def)
  moreover have "map_of (rev (map (\<lambda>c. (cs_name c, c)) (filter (\<lambda>c. cs_name c \<in> A) cs))) n = find (\<lambda>c. cs_name c = n) cs"
    if "distinct (map cs_name cs)" "n \<in> A" for cs n A
  proof -
    have "distinct (map fst (map (\<lambda>c. (cs_name c, c)) (filter (\<lambda>c. cs_name c \<in> A) cs)))"
      using that(1) by (simp add: comp_def distinct_map_filter)
    then have "map_of (rev (map (\<lambda>c. (cs_name c, c)) (filter (\<lambda>c. cs_name c \<in> A) cs))) n =
        map_of (map (\<lambda>c. (cs_name c, c)) (filter (\<lambda>c. cs_name c \<in> A) cs)) n"
      by (simp add: map_of_rev_distinct)
    also have "\<dots> = find (\<lambda>c. cs_name c = n) cs" using that(2) by (induction cs) auto
    finally show ?thesis .
  qed
  ultimately show ?thesis using assms by (simp add: named_component_def status_component_def)
qed

lemma chain_ready_iff:
  assumes "distinct (map cs_name (st_components st))"
  shows "he_state (chain_health h st) = lit ''ready'' \<longleftrightarrow>
    (\<exists>c. status_component st (outer_component h) = Some c \<and> component_issue c = [])"
proof -
  have "lit ''provider-down'' \<noteq> lit ''ready''" by code_simp
  then show ?thesis
    by (simp add: chain_health_def Let_def named_component_outer [OF assms] split: option.splits)
qed


section \<open>Examples\<close>

definition ex_text :: exc_text where
  "ex_text = \<lparr>xt_str = (\<lambda>e. lit ''failed''), xt_type = (\<lambda>e. lit ''CycloError'')\<rparr>"

definition ex_dash :: dash_env where
  "ex_dash = \<lparr>de_text = ex_text, de_queue = (\<lambda>i. Inr [(lit ''tasks'', QDir 0 []), (lit ''jobs'', QDir 0 []), (lit ''agents'', QDir 0 [])]),
     de_limits = \<lparr>ql_max_entries = 10, ql_max_read_bytes = 10, ql_recent_tasks = 1, ql_recent_activity = 1\<rparr>, de_now = 0\<rparr>"

definition ex_stopped :: instance_rec where
  "ex_stopped = ex_instance\<lparr>in_intent := lit ''stopped''\<rparr>"

definition ex_dash_runtime :: dash_runtime where
  "ex_dash_runtime = \<lparr>dr_status = Inr ex_status, dr_host = Inr ex_bare_host\<rparr>"

lemma ex_team_name: "\<exists>name. team_component_name (in_id ex_instance) = Inr name"
proof -
  have "is_name (lit ''team'')" "length (lit ''team'') \<le> 50" "is_ok (utf8_encode (in_id ex_instance))" by code_simp+
  then show ?thesis using component_name_ok [of "lit ''team''"] unfolding team_component_name_def is_ok_iff by blast
qed


lemma quiet_dashboard_healthy_witness:
  "\<exists>sn name. build_snapshot ex_dash (Some ex_dash_runtime) [ex_stopped] [] = Inr sn \<and> dm_attention (sn_summary sn) = 0 \<and>
    team_component_name (in_id ex_stopped) = Inr name \<and> status_component ex_status name = None"
proof -
  obtain name where n: "team_component_name (in_id ex_stopped) = Inr name" using ex_team_name by (auto simp: ex_stopped_def)
  have t: "startswith (lit ''team-'') name" by (rule team_name_prefix [OF n])
  then have none: "status_component ex_status name = None"
    by (auto simp: status_component_def ex_status_def startswith_iff lit_def)
  have "name \<noteq> []" using t by (auto simp: startswith_iff lit_def)
  then have c: "row_component ex_text (Some ex_dash_runtime) (Some ex_status) ex_stopped = (name, None, [])"
    by (simp add: row_component_def n none)
  let ?q = "scan_agentws_queue (de_queue ex_dash (in_id ex_stopped)) (de_limits ex_dash)"
  have q: "qr_errors ?q = []" "map_of (qc_job_statuses (qr_counts ?q)) (lit ''failed'') = Some 0"
    "snd (project_metadata ex_text ex_stopped) = []" by code_simp+
  have i: "in_intent ex_stopped = lit ''stopped''" "lit ''stopped'' \<noteq> lit ''running''"
    "\<not> startswith (lit ''provider-'') (lit ''inactive'')" "\<not> startswith (lit ''agents-'') (lit ''inactive'')"
    "lit ''inactive'' \<noteq> lit ''ready''" by code_simp+
  have "de_text ex_dash = ex_text" by (simp add: ex_dash_def)
  then have w: "\<not> wants_attention (dashboard_row ex_dash (Some ex_dash_runtime) (Some ex_status) p ex_stopped)" for p
    using q i by (simp add: wants_attention_def lifecycle_settled_def dashboard_row_def c Let_def case_prod_beta failed_jobs_def)
  obtain sn where b: "build_snapshot ex_dash (Some ex_dash_runtime) [ex_stopped] [] = Inr sn" "dm_attention (sn_summary sn) = 0"
    using w by (auto simp: build_snapshot_def runtime_status_def provider_health_def ex_dash_runtime_def summarize_def Let_def)
  have "host_wf ex_bare_host" by (simp add: host_wf_def ex_bare_host_def)
  then have "\<forall>rt h. Some ex_dash_runtime = Some rt \<longrightarrow> dr_host rt = Inr h \<longrightarrow> host_wf h" by (simp add: ex_dash_runtime_def)
  from quiet_dashboard_healthy [OF b _ this, of ex_stopped] show ?thesis using b n i by (auto simp: ex_dash_runtime_def)
qed

end
