(* ===== verification/Dashboard_Server.thy ===== *)
theory Dashboard_Server imports Dashboard begin

text \<open>
  The HTTP server of \<open>src/cyclo/dashboard.py\<close>: the routes of its fixed assets, the answer to a request, and the host it
  binds.  A request is its method and the target \<open>http.server\<close> hands over; a response is the status, the headers the
  source sends (the library adds \<open>Server\<close> and \<open>Date\<close>) and the body.  The snapshot is an action that may raise, name
  resolution and MIME types are parameters.
\<close>

section \<open>Assets\<close>

datatype asset_body = TextBody ustr | BytesBody bytes
datatype static_asset = Plain asset_body | Typed ustr asset_body

definition DEFAULT_INDEX :: ustr where
  "DEFAULT_INDEX =
     lit ''<!doctype html>'' @ [10] @
     lit ''<html lang=\"en\"><meta charset=\"utf-8\"><meta name=\"viewport\" content=\"width=device-width\">'' @ [10] @
     lit ''<title>Cyclo</title><body><h1>Cyclo</h1><p>The dashboard UI is not installed.</p></body></html>'' @ [10]"

definition asset_route :: "(ustr \<Rightarrow> bool) \<Rightarrow> ustr \<Rightarrow> unit res" where
  "asset_route bad_netloc route =
     rbind (urlsplit bad_netloc route) (\<lambda>u.
     ensure (\<not> (\<not> startswith [47] route \<or> ur_path u \<noteq> route \<or> ur_query u \<noteq> [] \<or> ur_fragment u \<noteq> [] \<or>
         startswith (lit ''/api/'') route \<or> lit ''..'' \<in> set (parts (path_of route))))
       (ValueErr ''invalid dashboard asset route''))"

definition body_bytes :: "asset_body \<Rightarrow> bytes res" where
  "body_bytes b = (case b of TextBody s \<Rightarrow> utf8_encode s | BytesBody x \<Rightarrow> Inr x)"

definition guessed_type :: "(ustr \<Rightarrow> ustr option) \<Rightarrow> ustr \<Rightarrow> ustr" where
  "guessed_type guess route =
     (let t = (case guess route of Some t \<Rightarrow> if t \<noteq> [] then t else lit ''application/octet-stream''
               | None \<Rightarrow> lit ''application/octet-stream'') in
      if startswith (lit ''text/'') t \<or> t \<in> {lit ''application/javascript'', lit ''application/json''}
      then t @ lit ''; charset=utf-8'' else t)"

definition normalize_asset ::
    "(ustr \<Rightarrow> bool) \<Rightarrow> (ustr \<Rightarrow> ustr option) \<Rightarrow> ustr \<times> static_asset \<Rightarrow> (ustr \<times> ustr \<times> bytes) res" where
  "normalize_asset bad_netloc guess item =
     (case item of (route, asset) \<Rightarrow>
      rbind (asset_route bad_netloc route) (\<lambda>_.
      case asset of
        Typed content_type b \<Rightarrow> rbind (body_bytes b) (\<lambda>x. Inr (route, content_type, x))
      | Plain b \<Rightarrow> rbind (body_bytes b) (\<lambda>x. Inr (route, guessed_type guess route, x))))"

definition normalize_assets ::
    "(ustr \<Rightarrow> bool) \<Rightarrow> (ustr \<Rightarrow> ustr option) \<Rightarrow> (ustr \<times> static_asset) list \<Rightarrow> (ustr \<times> ustr \<times> bytes) list res" where
  "normalize_assets bad_netloc guess assets =
     mapE (normalize_asset bad_netloc guess)
       (foldl (\<lambda>source (route, asset). AList.update route asset source)
          [(lit ''/'', Typed (lit ''text/html; charset=utf-8'') (TextBody DEFAULT_INDEX))] assets)"

section \<open>Answers\<close>

record http_response =
  hr_status :: nat
  hr_headers :: "(ustr \<times> ustr) list"
  hr_body :: bytes

definition csp_word :: "string \<Rightarrow> ustr" where
  "csp_word w = [39] @ lit w @ [39]"

definition CONTENT_SECURITY_POLICY :: ustr where
  "CONTENT_SECURITY_POLICY = join (lit ''; '')
     [lit ''default-src '' @ csp_word ''self'', lit ''img-src '' @ csp_word ''self'' @ lit '' data:'',
      lit ''style-src '' @ csp_word ''self'', lit ''script-src '' @ csp_word ''self'', lit ''connect-src '' @ csp_word ''self'',
      lit ''object-src '' @ csp_word ''none'', lit ''base-uri '' @ csp_word ''none'', lit ''frame-ancestors '' @ csp_word ''none'']"

definition dash_headers :: "ustr \<Rightarrow> nat \<Rightarrow> (ustr \<times> ustr) list" where
  "dash_headers content_type len =
     [(lit ''Content-Type'', content_type), (lit ''Content-Length'', dec len), (lit ''Cache-Control'', lit ''no-store''),
      (lit ''X-Content-Type-Options'', lit ''nosniff''), (lit ''X-Frame-Options'', lit ''DENY''),
      (lit ''Content-Security-Policy'', CONTENT_SECURITY_POLICY)]"

definition dash_send :: "nat \<Rightarrow> ustr \<Rightarrow> bytes \<Rightarrow> bool \<Rightarrow> http_response" where
  "dash_send status content_type body head =
     \<lparr>hr_status = status, hr_headers = dash_headers content_type (length body), hr_body = (if head then [] else body)\<rparr>"

definition dash_json :: "nat \<Rightarrow> json \<Rightarrow> bool \<Rightarrow> http_response res" where
  "dash_json status payload head =
     rbind (utf8_encode (dump_compact False payload @ [10])) (\<lambda>body.
     Inr (dash_send status (lit ''application/json; charset=utf-8'') body head))"

definition API_VERSION :: int where "API_VERSION = 4"

text \<open>\<open>_read\<close>: an exception of the snapshot is answered, one of the answer itself is not.\<close>

definition dash_read ::
    "(ustr \<Rightarrow> bool) \<Rightarrow> ('d, json) action \<Rightarrow> (ustr \<times> ustr \<times> bytes) list \<Rightarrow> ustr \<Rightarrow> bool \<Rightarrow> ('d, http_response) action" where
  "dash_read bad_netloc snapshot assets target head d =
     (case urlsplit bad_netloc target of
        Inl e \<Rightarrow> (d, Inl e)
      | Inr u \<Rightarrow>
          if ur_path u = lit ''/api/health'' then
            (d, dash_json 200 (JObj [(lit ''ok'', JBool True), (lit ''version'', JInt API_VERSION)]) head)
          else if ur_path u = lit ''/api/snapshot'' then
            (case snapshot d of
               (d', Inl e) \<Rightarrow> (d', dash_json 500 (JObj [(lit ''error'', JStr (lit ''dashboard snapshot unavailable''))]) head)
             | (d', Inr payload) \<Rightarrow> (d', dash_json 200 payload head))
          else
            (case map_of assets (ur_path u) of
               None \<Rightarrow> (d, dash_json 404 (JObj [(lit ''error'', JStr (lit ''not found''))]) head)
             | Some (content_type, body) \<Rightarrow> (d, Inr (dash_send 200 content_type body head))))"

definition read_only_answer :: http_response where
  "read_only_answer =
     (let body = lit ''{'' @ [34] @ lit ''error'' @ [34, 58, 34] @ lit ''read-only dashboard'' @ [34] @ lit ''}'' @ [10] in
      \<lparr>hr_status = 405,
       hr_headers = [(lit ''Allow'', lit ''GET, HEAD''), (lit ''Content-Type'', lit ''application/json; charset=utf-8''),
         (lit ''Content-Length'', dec (length body))],
       hr_body = body\<rparr>)"

text \<open>The handlers by method; the library itself refuses a method without one.\<close>

definition handle ::
    "(ustr \<Rightarrow> bool) \<Rightarrow> ('d, json) action \<Rightarrow> (ustr \<times> ustr \<times> bytes) list \<Rightarrow> ustr \<Rightarrow> ustr \<Rightarrow> 'd \<Rightarrow> 'd \<times> http_response res option" where
  "handle bad_netloc snapshot assets verb target d =
     (if verb = lit ''GET'' then map_prod id Some (dash_read bad_netloc snapshot assets target False d)
      else if verb = lit ''HEAD'' then map_prod id Some (dash_read bad_netloc snapshot assets target True d)
      else if verb \<in> {lit ''POST'', lit ''PUT'', lit ''PATCH'', lit ''DELETE''} then (d, Some (Inr read_only_answer))
      else (d, None))"

section \<open>The host\<close>

text \<open>\<open>resolve\<close> is \<open>getaddrinfo\<close> for IPv4: the addresses, or no answer.\<close>

definition dashboard_host_addresses :: "(ustr \<Rightarrow> ustr list option) \<Rightarrow> ustr \<Rightarrow> ustr list res" where
  "dashboard_host_addresses resolve host =
     rbind (ensure (host \<noteq> [] \<and> host = strip host) (CycloError ''dashboard host must be a non-empty address or hostname'')) (\<lambda>_.
     rbind (of_option (CycloError ''cannot resolve dashboard host'') (resolve host)) (\<lambda>found.
     rbind (ensure (found \<noteq> []) (CycloError ''cannot resolve dashboard host'')) (\<lambda>_.
     Inr (map (takeWhile (\<lambda>c. c \<noteq> 37)) found))))"

definition validate_dashboard_host :: "(ustr \<Rightarrow> ustr list option) \<Rightarrow> ustr \<Rightarrow> unit res" where
  "validate_dashboard_host resolve host = rbind (dashboard_host_addresses resolve host) (\<lambda>_. Inr ())"

text \<open>\<open>ip_address(value).is_loopback\<close> of an IPv4 address: 127.0.0.0/8.\<close>

definition is_loopback :: "ustr \<Rightarrow> bool res" where
  "is_loopback v = (if is_ipv4 v then Inr (ascii_nat (hd (split_at 46 v)) = 127) else Inl (ValueErr ''not an IPv4 address''))"

fun all_loopback :: "ustr list \<Rightarrow> bool res" where
  "all_loopback [] = Inr True"
| "all_loopback (v # vs) = rbind (is_loopback v) (\<lambda>b. if b then all_loopback vs else Inr False)"

definition dashboard_host_is_loopback :: "(ustr \<Rightarrow> ustr list option) \<Rightarrow> ustr \<Rightarrow> bool res" where
  "dashboard_host_is_loopback resolve host = rbind (dashboard_host_addresses resolve host) all_loopback"

text \<open>\<open>listen\<close> binds the socket and tells the address it got.\<close>

definition make_dashboard_server ::
    "(ustr \<Rightarrow> ustr list option) \<Rightarrow> (ustr \<Rightarrow> bool) \<Rightarrow> (ustr \<Rightarrow> ustr option) \<Rightarrow> (ustr \<Rightarrow> int \<Rightarrow> (ustr \<times> int) res) \<Rightarrow>
      ustr \<Rightarrow> int \<Rightarrow> (ustr \<times> static_asset) list \<Rightarrow> ((ustr \<times> int) \<times> (ustr \<times> ustr \<times> bytes) list) res" where
  "make_dashboard_server resolve bad_netloc guess listen host port assets =
     rbind (validate_dashboard_host resolve host) (\<lambda>_.
     rbind (ensure (0 \<le> port \<and> port \<le> 65535) (CycloError ''dashboard port must be between 0 and 65535'')) (\<lambda>_.
     rbind (normalize_assets bad_netloc guess assets) (\<lambda>normalized.
     case listen host port of
       Inl (OSErr e) \<Rightarrow> Inl (CycloError ''cannot start Cyclo dashboard'')
     | Inl e \<Rightarrow> Inl e
     | Inr bound \<Rightarrow> Inr (bound, normalized))))"

definition EXPOSED_WARNING :: ustr where
  "EXPOSED_WARNING = lit ''WARNING: dashboard is unauthenticated and exposed on a non-loopback address.''"

text \<open>What \<open>cmd_dashboard\<close> prints before it serves.\<close>

definition dashboard_banner :: "(ustr \<Rightarrow> ustr list option) \<Rightarrow> ustr \<times> int \<Rightarrow> ustr list res" where
  "dashboard_banner resolve bound =
     (case bound of (host, port) \<Rightarrow>
      rbind (dashboard_host_is_loopback resolve host) (\<lambda>loopback.
      Inr ([if loopback then lit ''Cyclo dashboard: http://'' @ host @ [58] @ dump_int port @ [47]
            else lit ''Cyclo dashboard: bound on '' @
              (if host = lit ''0.0.0.0'' then lit ''all IPv4 interfaces'' else lit ''interface '' @ host) @
              lit '', port '' @ dump_int port] @
           (if \<not> loopback then [EXPOSED_WARNING] else []) @ [lit ''Press Ctrl-C to stop.''])))"

section \<open>The server only reads\<close>

text \<open>The answer to HEAD in terms of the one to GET.\<close>

definition without_body :: "http_response \<Rightarrow> http_response" where
  "without_body r = r\<lparr>hr_body := []\<rparr>"

lemma dash_json_head: "dash_json status payload True = rbind (dash_json status payload False) (\<lambda>r. Inr (without_body r))"
  by (simp add: dash_json_def dash_send_def without_body_def rbind_def split: sum.splits)

lemma dash_read_head:
  "dash_read bad_netloc snapshot assets target True d =
     (case dash_read bad_netloc snapshot assets target False d of (d', r) \<Rightarrow> (d', rbind r (\<lambda>r. Inr (without_body r))))"
  unfolding dash_read_def dash_json_head
  by (simp add: dash_send_def without_body_def split: sum.splits prod.splits option.splits)

lemma dash_json_length:
  "dash_json status payload False = Inr r \<Longrightarrow> map_of (hr_headers r) (lit ''Content-Length'') = Some (dec (length (hr_body r)))"
  by (auto simp: dash_json_def dash_send_def dash_headers_def lit_def)

lemma dash_read_length:
  assumes "dash_read bad_netloc snapshot assets target False d = (d', Inr r)"
  shows "map_of (hr_headers r) (lit ''Content-Length'') = Some (dec (length (hr_body r)))"
proof -
  have "map_of (hr_headers (dash_send status t body False)) (lit ''Content-Length'') = Some (dec (length body))"
    "hr_body (dash_send status t body False) = body" for status t body
    by (simp_all add: dash_send_def dash_headers_def lit_def)
  then show ?thesis
    using assms dash_json_length by (auto simp: dash_read_def split: sum.splits if_splits prod.splits option.splits)
qed

lemma dash_read_changes:
  "dash_read bad_netloc snapshot assets target head d = (d', r) \<Longrightarrow> d' \<noteq> d \<Longrightarrow>
    \<exists>u. urlsplit bad_netloc target = Inr u \<and> ur_path u = lit ''/api/snapshot''"
  by (auto simp: dash_read_def split: sum.splits if_splits prod.splits option.splits)


section \<open>Assets\<close>

lemma update_all:
  assumes "distinct (map fst xs)"
  shows "distinct (map fst (foldl (\<lambda>source (route, asset). AList.update route asset source) xs ys)) \<and>
    fst ` set (foldl (\<lambda>source (route, asset). AList.update route asset source) xs ys) = fst ` set xs \<union> fst ` set ys"
  using assms
proof (induction ys arbitrary: xs)
  case (Cons y ys)
  obtain route asset where y: "y = (route, asset)" by (cases y)
  have "distinct (map fst (AList.update route asset xs))" using Cons.prems by (rule distinct_update)
  moreover have "fst ` set (AList.update route asset xs) = insert route (fst ` set xs)"
    by (simp flip: dom_map_of_conv_image_fst add: update_conv')
  ultimately show ?case using Cons.IH [of "AList.update route asset xs"] by (auto simp: y)
qed simp

lemma normalize_asset_ok:
  "normalize_asset bad_netloc guess item = Inr r \<Longrightarrow> fst r = fst item \<and> asset_route bad_netloc (fst item) = Inr ()"
  by (cases item) (auto simp: normalize_asset_def split: static_asset.splits)

text \<open>The routes the server serves are the asked ones and the front page, each absolute, without a parent directory and outside
  the interface of the API, so that no asset answers for an API route and the target of a request names an asset only
  literally.\<close>

theorem assets_served:
  assumes "normalize_assets bad_netloc guess assets = Inr served"
  shows "fst ` set served = insert (lit ''/'') (fst ` set assets) \<and> distinct (map fst served) \<and>
    (\<forall>route\<in>fst ` set served. startswith [47] route \<and> \<not> startswith (lit ''/api/'') route \<and>
      lit ''..'' \<notin> set (parts (path_of route)) \<and> (\<exists>u. urlsplit bad_netloc route = Inr u \<and> ur_path u = route))"
proof -
  let ?index = "[(lit ''/'', Typed (lit ''text/html; charset=utf-8'') (TextBody DEFAULT_INDEX))]"
  let ?source = "foldl (\<lambda>source (route, asset). AList.update route asset source) ?index assets"
  have m: "list_all2 (\<lambda>x y. normalize_asset bad_netloc guess x = Inr y) ?source served"
    using assms by (simp add: normalize_assets_def mapE_Inr)
  then have "list_all2 (\<lambda>x y. fst y = fst x \<and> asset_route bad_netloc (fst y) = Inr ()) ?source served"
    by (rule list.rel_mono_strong) (use normalize_asset_ok in metis)
  then have k: "map fst served = map fst ?source" "\<forall>y\<in>set served. asset_route bad_netloc (fst y) = Inr ()"
    by (induction rule: list_all2_induct) auto
  have "fst ` set served = insert (lit ''/'') (fst ` set assets)" "distinct (map fst served)"
    using update_all [of ?index assets] k(1) by (auto simp flip: set_map)
  moreover have "startswith [47] route \<and> \<not> startswith (lit ''/api/'') route \<and>
      lit ''..'' \<notin> set (parts (path_of route)) \<and> (\<exists>u. urlsplit bad_netloc route = Inr u \<and> ur_path u = route)"
    if "asset_route bad_netloc route = Inr ()" for route
    using that by (auto simp: asset_route_def)
  ultimately show ?thesis using k(2) by blast
qed

section \<open>Exposure\<close>

lemma all_loopback_Inr:
  "all_loopback vs = Inr b \<Longrightarrow> b \<longleftrightarrow> (\<forall>v\<in>set vs. is_ipv4 v \<and> ascii_nat (hd (split_at 46 v)) = 127)"
  by (induction vs) (auto simp: is_loopback_def split: if_splits)

text \<open>\<open>cyclo dashboard\<close> warns of an unauthenticated dashboard unless every address of the host it bound is in 127.0.0.0/8.\<close>

theorem exposed_dashboard_warns:
  assumes "dashboard_banner resolve (host, port) = Inr ls"
  shows "EXPOSED_WARNING \<notin> set ls \<longleftrightarrow> (\<exists>vs. resolve host = Some vs \<and>
    (\<forall>v\<in>set vs. is_ipv4 (takeWhile (\<lambda>c. c \<noteq> 37) v) \<and> ascii_nat (hd (split_at 46 (takeWhile (\<lambda>c. c \<noteq> 37) v))) = 127))"
proof -
  obtain vs b where v: "resolve host = Some vs" "all_loopback (map (takeWhile (\<lambda>c. c \<noteq> 37)) vs) = Inr b" and
    ls: "EXPOSED_WARNING \<in> set ls \<longleftrightarrow> \<not> b"
  proof -
    have "EXPOSED_WARNING \<noteq> lit ''Cyclo dashboard: http://'' @ x" "EXPOSED_WARNING \<noteq> lit ''Cyclo dashboard: bound on '' @ x"
      "EXPOSED_WARNING \<noteq> lit ''Press Ctrl-C to stop.''" for x by (simp_all add: EXPOSED_WARNING_def lit_def)
    then show thesis
      using assms that by (auto simp: dashboard_banner_def dashboard_host_is_loopback_def dashboard_host_addresses_def split: if_splits)
  qed
  show ?thesis unfolding ls using v(1) all_loopback_Inr [OF v(2)] by auto
qed

section \<open>Examples\<close>


lemma assets_served_witness:
  "\<exists>served. normalize_assets (\<lambda>n. False) (\<lambda>r. None) [(lit ''/app.js'', Plain (TextBody (lit ''x'')))] = Inr served \<and>
    fst ` set served = {lit ''/'', lit ''/app.js''}"
proof -
  have "is_ok (normalize_assets (\<lambda>n. False) (\<lambda>r. None) [(lit ''/app.js'', Plain (TextBody (lit ''x'')))])" by code_simp
  then obtain served where s: "normalize_assets (\<lambda>n. False) (\<lambda>r. None) [(lit ''/app.js'', Plain (TextBody (lit ''x'')))] = Inr served"
    by (auto simp: is_ok_iff)
  then show ?thesis using assets_served [OF s] by simp
qed

lemma exposed_dashboard_warns_witness:
  "\<exists>ls. dashboard_banner (\<lambda>h. Some [lit ''10.0.0.7'']) (lit ''10.0.0.7'', 8080) = Inr ls \<and> EXPOSED_WARNING \<in> set ls"
proof -
  have "is_ok (dashboard_banner (\<lambda>h. Some [lit ''10.0.0.7'']) (lit ''10.0.0.7'', 8080))" by code_simp
  then obtain ls where l: "dashboard_banner (\<lambda>h. Some [lit ''10.0.0.7'']) (lit ''10.0.0.7'', 8080) = Inr ls" by (auto simp: is_ok_iff)
  have "ascii_nat (hd (split_at 46 (takeWhile (\<lambda>c. c \<noteq> 37) (lit ''10.0.0.7'')))) \<noteq> 127" by code_simp
  then show ?thesis using exposed_dashboard_warns [OF l] l by auto
qed

end
