(* ===== verification/Queries.thy ===== *)
theory Queries imports Lifecycle_Success Task_Admin Gateway_Admin Dashboard begin

text \<open>
  The commands of \<open>src/cyclo/cli.py\<close> that look at a realm or hand work to a tool: \<open>ps\<close>, \<open>inspect\<close>, \<open>logs\<close>,
  \<open>path\<close>, \<open>usage\<close>, \<open>component\<close>, \<open>providers\<close>, \<open>gateway\<close>, \<open>doctor\<close>, \<open>validate\<close> and \<open>task\<close>, as partial actions on
  the realm of \<open>Lifecycle\<close>.  Printed lines and warnings go to \<open>rl_out\<close> in their order.
\<close>

section \<open>Caught errors\<close>

text \<open>\<open>try: ... except CycloError\<close>: what was done before the raise stays done.\<close>

definition catch_cyclo :: "('w, 'a) partial \<Rightarrow> ('w, error + 'a) partial" where
  "catch_cyclo m w =
     (case m w of
        None \<Rightarrow> None
      | Some (w', Inl (CycloError e)) \<Rightarrow> Some (w', Inr (Inl (CycloError e)))
      | Some (w', Inl e) \<Rightarrow> Some (w', Inl e)
      | Some (w', Inr x) \<Rightarrow> Some (w', Inr (Inr x)))"

record 'd query_env =
  qe_cli :: "'d cli"
  qe_text :: exc_text
  qe_repr :: "ustr \<Rightarrow> ustr"
  qe_version :: "('d, ustr \<times> int) action"
  qe_logs :: "bool \<Rightarrow> ustr \<Rightarrow> ustr \<Rightarrow> ('d, unit) action"
  qe_restart :: "ustr list \<Rightarrow> ('d, unit) action"
  qe_tools :: "'d services \<Rightarrow> 'd gateway_tools"
  qe_environ :: env
  qe_task_admin :: "realm_store \<Rightarrow> instance_rec \<Rightarrow> 'd task_admin"
  qe_tree :: qdir
  qe_components_root :: ppath
  qe_bad_netloc :: "ustr \<Rightarrow> bool"
  qe_package_root :: ppath

abbreviation open_query :: "'d query_env \<Rightarrow> ('d realm, 'd services) partial" where
  "open_query qe \<equiv> open_realm (qe_cli qe)"

definition read_status :: "'d services \<Rightarrow> ('d realm, dcomp_status) partial" where
  "read_status sv = in_world (outside (sv_status sv))"

text \<open>\<open>load_host(host_config(store))\<close>, without a runtime.\<close>

definition read_host :: "'d query_env \<Rightarrow> ('d realm, host) partial" where
  "read_host qe =
     pbind (in_files (\<lambda>(fl, rs). case host_config fl rs of (rs, x) \<Rightarrow> ((fl, rs), x))) (\<lambda>path.
     pret (load_host (cl_os (qe_cli qe)) (qe_components_root qe) path))"

text \<open>The lines of \<open>list_report\<close>: the path of the entry and its error, or the error alone.\<close>

definition state_errors :: "exc_text \<Rightarrow> (ustr \<times> error) list \<Rightarrow> ('d realm, ustr list) partial" where
  "state_errors xt es r =
     Some (r, Inr (map (\<lambda>(name, e).
       if name = [] then xt_str xt e
       else path_str (child (child (rs_root (rl_realm r)) (lit ''instances'')) name) @ lit '': '' @ xt_str xt e) es))"

section \<open>ps\<close>

definition ps_row :: "'d query_env \<Rightarrow> 'd services \<Rightarrow> dcomp_status option \<Rightarrow> bool \<Rightarrow> instance_rec \<Rightarrow> ustr list res" where
  "ps_row qe sv status check_provider i =
     rbind (case status of
              None \<Rightarrow> Inr (lit ''unknown'')
            | Some st \<Rightarrow>
                rbind (team_component_name (in_id i)) (\<lambda>name.
                let c = status_component st name in
                if in_intent i = lit ''running''
                then rbind (running_instance_condition (qe_repr qe) (sv_host sv) st c check_provider) (\<lambda>(condition, _). Inr condition)
                else Inr (fst (component_condition c)))) (\<lambda>condition.
     rbind (case status of
              None \<Rightarrow> Inr (lit ''-'')
            | Some st \<Rightarrow>
                if in_intent i = lit ''running'' \<and> condition = lit ''ready''
                then rbind (team_port i st) (\<lambda>p. Inr (case p of Some n \<Rightarrow> dump_int n | None \<Rightarrow> lit ''offline''))
                else Inr (lit ''-'')) (\<lambda>port.
     Inr [in_id i, in_team_name i, in_project_name i, in_intent i, condition, port]))"

definition PS_HEADERS :: "ustr list" where
  "PS_HEADERS = map lit [''INSTANCE'', ''TEAM'', ''PROJECT'', ''DESIRED'', ''STATUS'', ''PORT'']"

definition failure_line :: "exc_text \<Rightarrow> string \<Rightarrow> error + 'a \<Rightarrow> ustr list" where
  "failure_line xt what x = (case x of Inl e \<Rightarrow> [lit what @ xt_str xt e] | Inr _ \<Rightarrow> [])"

definition ok_part :: "error + 'a \<Rightarrow> 'a option" where
  "ok_part x = (case x of Inl _ \<Rightarrow> None | Inr y \<Rightarrow> Some y)"

definition cmd_ps :: "'d query_env \<Rightarrow> ('d realm, int) partial" where
  "cmd_ps qe =
     pbind (open_query qe) (\<lambda>sv.
     pbind (in_store list_report) (\<lambda>(instances, es).
     pbind (state_errors (qe_text qe) es) (\<lambda>damaged.
     pbind (catch_cyclo (read_status sv)) (\<lambda>status.
     pbind (catch_cyclo (pret (sv_host sv))) (\<lambda>host.
     pbind (pret (mapE (ps_row qe sv (ok_part status) (ok_part host \<noteq> None)) instances)) (\<lambda>rows.
     let errors = damaged @ failure_line (qe_text qe) ''DComp status unavailable: '' status @
           failure_line (qe_text qe) ''host configuration unavailable: '' host in
     pbind (say (print_table PS_HEADERS rows @ map (\<lambda>e. lit ''warning: '' @ e) errors)) (\<lambda>_.
     pret (Inr (if errors \<noteq> [] then 1 else 0)))))))))"

section \<open>inspect, logs, path\<close>

definition inspect_condition ::
    "'d query_env \<Rightarrow> 'd services \<Rightarrow> instance_rec \<Rightarrow> error + dcomp_status \<Rightarrow> error + host \<Rightarrow>
      (ustr \<times> ustr \<times> component_status option) res" where
  "inspect_condition qe sv i status host =
     (case status of
        Inl e \<Rightarrow> Inr (lit ''unknown'', lit ''DComp status unavailable: '' @ xt_str (qe_text qe) e, None)
      | Inr st \<Rightarrow>
          rbind (team_component_name (in_id i)) (\<lambda>name.
          let c = status_component st name; provider_problem = concat (failure_line (qe_text qe) ''host configuration unavailable: '' host) in
          rbind (if in_intent i = lit ''running''
                 then running_instance_condition (qe_repr qe) (sv_host sv) st c (ok_part host \<noteq> None)
                 else Inr (component_condition c)) (\<lambda>(condition, problem).
          Inr (condition,
               if provider_problem \<noteq> [] then join (lit ''; '') (filter (\<lambda>d. d \<noteq> []) [problem, provider_problem]) else problem,
               c))))"

definition inspect_report ::
    "realm_store \<Rightarrow> instance_rec \<Rightarrow> json \<Rightarrow> ustr \<Rightarrow> ustr \<Rightarrow> ustr \<Rightarrow> component_status option \<Rightarrow> jobj" where
  "inspect_report rs i project component condition problem c =
     [(lit ''id'', JStr (in_id i)), (lit ''team'', JStr (in_team_name i)), (lit ''team_repository'', JStr (in_team_path i)),
      (lit ''project'', project), (lit ''desired'', JStr (in_intent i)), (lit ''status'', JStr condition),
      (lit ''problem'', JStr problem), (lit ''component'', JStr component),
      (lit ''container_id'', JStr (case c of Some x \<Rightarrow> cs_container_id x | None \<Rightarrow> [])), (lit ''image'', JStr (in_image i)),
      (lit ''models'', JList (map JStr (in_models i))), (lit ''offline'', JBool (in_offline i)),
      (lit ''team_write'', JBool (in_team_write i)), (lit ''agentws_state'', JStr (path_str (queue_root (rs_root rs) (in_id i)))),
      (lit ''created_at'', JStr (in_created_at i)), (lit ''updated_at'', JStr (in_updated_at i))]"

definition print_report :: "jobj \<Rightarrow> ('d realm, unit) partial" where
  "print_report report = say [dump_indent True 0 (sort_keys (JObj report))]"

definition cmd_inspect :: "'d query_env \<Rightarrow> ustr \<Rightarrow> ('d realm, int) partial" where
  "cmd_inspect qe identifier =
     pbind (open_query qe) (\<lambda>sv.
     pbind (in_store (\<lambda>st. load st identifier)) (\<lambda>i.
     pbind (catch_cyclo (read_status sv)) (\<lambda>status.
     pbind (if ok_part status = None then pret (Inr (Inl AssertionErr)) else catch_cyclo (pret (sv_host sv))) (\<lambda>host.
     pbind (pret (inspect_condition qe sv i status host)) (\<lambda>(condition, problem, c).
     pbind (pret (rbind (decode_instance_project i) require_valid)) (\<lambda>project.
     pbind (pret (team_component_name (in_id i))) (\<lambda>component r.
     pbind (pret (case (status, c) of
         (Inr st, Some _) \<Rightarrow>
           if condition = lit ''ready''
           then rbind (team_port i st) (\<lambda>p. Inr [(lit ''agentws_port'', case p of Some n \<Rightarrow> JInt n | None \<Rightarrow> JNull)])
           else Inr []
       | _ \<Rightarrow> Inr [])) (\<lambda>port.
     pbind (print_report (inspect_report (rl_realm r) i (dashboard_value project) component condition problem c @ port)) (\<lambda>_.
     pret (Inr 0))) r)))))))"

definition cmd_logs :: "'d query_env \<Rightarrow> ustr \<Rightarrow> bool \<Rightarrow> ('d realm, int) partial" where
  "cmd_logs qe identifier follow =
     pbind (open_query qe) (\<lambda>sv.
     pbind (in_store (\<lambda>st. load st identifier)) (\<lambda>_.
     pbind (pret (team_component_name identifier)) (\<lambda>name.
     pbind (in_world (outside (qe_logs qe follow (system_name sv) name))) (\<lambda>_. pret (Inr 0)))))"

definition cmd_path :: "'d query_env \<Rightarrow> ustr \<Rightarrow> ('d realm, int) partial" where
  "cmd_path qe identifier =
     pbind (open_store (qe_cli qe)) (\<lambda>_.
     pbind (in_store (\<lambda>st. load st identifier)) (\<lambda>_ r.
     pbind (say [path_str (queue_root (rs_root (rl_realm r)) identifier)]) (\<lambda>_. pret (Inr 0)) r))"

definition cmd_usage :: "'d query_env \<Rightarrow> ('d realm, int) partial" where
  "cmd_usage qe =
     pbind (open_query qe) (\<lambda>sv.
     pbind locked (\<lambda>_.
     pbind (in_world (gateway_usage sv (qe_tools qe sv))) (\<lambda>report.
     pbind (print_report report) (\<lambda>_. pret (Inr 0)))))"

section \<open>component and providers\<close>

text \<open>The attribute \<open>name\<close> of the parsed arguments: absent, given as \<open>None\<close>, or a name.  Reading an absent attribute raises
  \<open>AttributeError\<close>, for which \<open>TypeErr\<close> stands.\<close>

datatype component_action = ListComponents | ComponentStatus | ComponentLogs bool | RestartComponent

definition name_attribute :: "ustr option option \<Rightarrow> ustr option res" where
  "name_attribute name = of_option (TypeErr ''AttributeError'') name"

definition COMPONENT_HEADERS :: "string \<Rightarrow> ustr list" where
  "COMPONENT_HEADERS first = map lit [first, ''STATUS'', ''HEALTH'', ''DETAIL'']"

text \<open>The names to show: \<open>args.name\<close> is read for \<open>status\<close>, and again for the check in any case.\<close>

definition selected_components :: "component_action \<Rightarrow> ustr option option \<Rightarrow> ustr list \<Rightarrow> ustr list res" where
  "selected_components action name configured =
     rbind (if action = ComponentStatus
            then rbind (name_attribute name) (\<lambda>n. Inr (if given n then [the n] else configured))
            else Inr configured) (\<lambda>names.
     rbind (name_attribute name) (\<lambda>n.
     rbind (ensure (\<not> (given n \<and> the n \<notin> set configured)) (CycloError ''DComp component not found'')) (\<lambda>_.
     Inr names)))"

definition component_name_of :: "ustr option option \<Rightarrow> ustr res" where
  "component_name_of name = rbind (name_attribute name) (\<lambda>n. of_option (TypeErr ''name'') n)"

definition cmd_component :: "'d query_env \<Rightarrow> component_action \<Rightarrow> ustr option option \<Rightarrow> ('d realm, int) partial" where
  "cmd_component qe action name =
     pbind (open_query qe) (\<lambda>sv.
     case action of
       ComponentLogs follow \<Rightarrow>
         pbind (pret (component_name_of name)) (\<lambda>n.
         pbind (in_world (outside (qe_logs qe follow (system_name sv) n))) (\<lambda>_. pret (Inr 0)))
     | RestartComponent \<Rightarrow>
         pbind locked (\<lambda>_.
         pbind (read_status sv) (\<lambda>st.
         pbind (pret (component_name_of name)) (\<lambda>n.
         pbind (pret (ensure (status_component st n \<noteq> None) (CycloError ''DComp component not found''))) (\<lambda>_.
         pbind (in_world (outside (qe_restart qe [n]))) (\<lambda>_.
         pbind (say [n @ lit '': restarted'']) (\<lambda>_. pret (Inr 0)))))))
     | _ \<Rightarrow>
         pbind (read_status sv) (\<lambda>st.
         pbind (in_store list_all_instances) (\<lambda>instances.
         pbind (pret (known_component_names instances st)) (\<lambda>configured.
         pbind (pret (selected_components action name configured)) (\<lambda>names.
         pbind (say (print_table (COMPONENT_HEADERS ''COMPONENT'') (component_rows st names))) (\<lambda>_. pret (Inr 0)))))))"

datatype providers_action = CheckProviders | ProvidersStatus | RestartProviders

definition check_providers :: "'d query_env \<Rightarrow> ('d realm, int) partial" where
  "check_providers qe =
     pbind (open_store (qe_cli qe)) (\<lambda>_.
     pbind (read_host qe) (\<lambda>h.
     let names = map pv_name (ho_providers h) in
     pbind (say ([lit ''host configuration: '' @ path_str (ho_path h), lit ''provider components: '' @ dec (length names)] @ names))
       (\<lambda>_. pret (Inr 0))))"

definition cmd_providers :: "'d query_env \<Rightarrow> providers_action \<Rightarrow> ('d realm, int) partial" where
  "cmd_providers qe action =
     (case action of
        CheckProviders \<Rightarrow> check_providers qe
      | ProvidersStatus \<Rightarrow>
          pbind (open_query qe) (\<lambda>sv.
          pbind (pret (sv_host sv)) (\<lambda>h.
          pbind (read_status sv) (\<lambda>st.
          pbind (say (print_table (COMPONENT_HEADERS ''PROVIDER'') (component_rows st (map pv_name (ho_providers h))))) (\<lambda>_.
          pret (Inr 0)))))
      | RestartProviders \<Rightarrow>
          pbind (open_query qe) (\<lambda>sv.
          pbind (pret (sv_host sv)) (\<lambda>h.
          let names = map pv_name (ho_providers h) in
          if names = [] then pbind (say [lit ''no configured provider components'']) (\<lambda>_. pret (Inr 0))
          else
            pbind locked (\<lambda>_.
            pbind (apply_inventory sv) (\<lambda>_.
            pbind (in_world (outside (qe_restart qe names))) (\<lambda>_.
            pbind (say [lit ''restarted '' @ dec (length names) @ lit '' provider component(s)'']) (\<lambda>_. pret (Inr 0))))))))"

section \<open>gateway\<close>

datatype gateway_action =
    GatewayProviders | GatewayLogin ustr "ustr option" "ustr option" bool | GatewayLogout ustr | GatewayRename ustr ustr
  | GatewayStatus | GatewayRestart | GatewayBuild | GatewayDestroyStore ustr

text \<open>An operation of \<open>GatewayAdmin\<close> under the lock, and what is printed when it succeeds.\<close>

definition with_lock :: "('d realm, 'a) partial \<Rightarrow> ('a \<Rightarrow> ustr list) \<Rightarrow> ('d realm, int) partial" where
  "with_lock m shown = pbind (pbind locked (\<lambda>_. m)) (\<lambda>x. pbind (say (shown x)) (\<lambda>_. pret (Inr 0)))"

definition gateway_condition_line :: "dcomp_status \<Rightarrow> ustr" where
  "gateway_condition_line st =
     (case component_condition (status_component st (lit ''gateway'')) of (condition, detail) \<Rightarrow>
      lit ''gateway: '' @ condition @ (if detail \<noteq> [] then lit '' ('' @ detail @ lit '')'' else []))"

definition cmd_gateway :: "'d query_env \<Rightarrow> gateway_action \<Rightarrow> ('d realm, int) partial" where
  "cmd_gateway qe action =
     pbind (open_query qe) (\<lambda>sv.
     let gt = qe_tools qe sv in
     case action of
       GatewayProviders \<Rightarrow> with_lock (in_world (gateway_providers sv gt)) (\<lambda>listing. [listing])
     | GatewayLogin provider account api_key_env api_key_stdin \<Rightarrow>
         with_lock (in_runtime (gateway_login sv gt (gateway_login_arguments provider account api_key_env api_key_stdin) (qe_environ qe)))
           (\<lambda>_. [])
     | GatewayLogout account \<Rightarrow> with_lock (in_runtime (gateway_logout sv gt account)) (\<lambda>_. [])
     | GatewayRename account new_account \<Rightarrow> with_lock (in_runtime (gateway_rename sv gt account new_account)) (\<lambda>_. [])
     | GatewayStatus \<Rightarrow>
         pbind (read_status sv) (\<lambda>st.
         pbind (say (print_table (COMPONENT_HEADERS ''COMPONENT'') (component_rows st [lit ''gateway'']))) (\<lambda>_.
         pbind (catch_cyclo (in_world (credential_volume sv gt))) (\<lambda>volume.
         case volume of
           Inl e \<Rightarrow> pbind (say [lit ''credential store: unavailable ('' @ xt_str (qe_text qe) e @ lit '')'']) (\<lambda>_. pret (Inr 1))
         | Inr v \<Rightarrow> pbind (say [lit ''credential store: '' @ v]) (\<lambda>_. pret (Inr 0)))))
     | GatewayRestart \<Rightarrow> with_lock (in_runtime (gateway_restart sv gt)) (\<lambda>_. [lit ''gateway: restarted''])
     | GatewayBuild \<Rightarrow>
         with_lock (pbind (in_store list_all_instances) (\<lambda>instances. in_runtime (rebuild_gateway sv instances)))
           (\<lambda>(definition, st). [gateway_condition_line st])
     | GatewayDestroyStore confirmation \<Rightarrow>
         with_lock (in_world (destroy_store sv gt confirmation)) (\<lambda>v. [lit ''deleted gateway credential store: '' @ v]))"

section \<open>doctor\<close>

definition doctor_components :: "instance_rec list \<Rightarrow> error + host \<Rightarrow> dcomp_status \<Rightarrow> ustr list res" where
  "doctor_components instances host st =
     rbind (mapE (\<lambda>i. team_component_name (in_id i)) (filter (\<lambda>i. in_intent i = lit ''running'') instances)) (\<lambda>teams.
     Inr (sort (remdups ([lit ''gateway''] @
       (case host of Inr h \<Rightarrow> map pv_name (ho_providers h) @ map hc_name (ho_components h) | Inl _ \<Rightarrow> []) @
       teams @ map cs_name (st_components st)))))"

definition doctor_ready :: "dcomp_status \<Rightarrow> ustr \<Rightarrow> bool" where
  "doctor_ready st name \<longleftrightarrow> fst (component_condition (status_component st name)) = lit ''ready''"

definition doctor_line :: "dcomp_status \<Rightarrow> ustr \<Rightarrow> ustr" where
  "doctor_line st name =
     (case component_condition (status_component st name) of (condition, detail) \<Rightarrow>
      lit ''component '' @ name @ lit '': '' @ (if detail \<noteq> [] then detail else condition))"

definition unexpected_teams :: "instance_rec list \<Rightarrow> dcomp_status \<Rightarrow> ustr list res" where
  "unexpected_teams instances st =
     rbind (mapE (\<lambda>i. team_component_name (in_id i)) (filter (\<lambda>i. in_intent i = lit ''stopped'') instances)) (\<lambda>teams.
     Inr (sort (remdups (filter (\<lambda>n. n \<in> cs_name ` set (st_components st)) teams))))"

text \<open>The checks of a runtime with a status: the failures after those of the state.\<close>

definition doctor_checks :: "'d query_env \<Rightarrow> 'd services \<Rightarrow> instance_rec list \<Rightarrow> dcomp_status \<Rightarrow> ('d realm, ustr list) partial" where
  "doctor_checks qe sv instances st =
     pbind (catch_cyclo (pret (sv_host sv))) (\<lambda>host.
     pbind (pret (doctor_components instances host st)) (\<lambda>expected.
     pbind (say (map (\<lambda>n. lit ''ok  component '' @ n) (filter (doctor_ready st) expected))) (\<lambda>_.
     pbind (pret (unexpected_teams instances st)) (\<lambda>unexpected.
     pbind (if st_operational st \<and> ok_part host \<noteq> None
            then pbind (catch_cyclo (pbind (catalogue (qe_cli qe) sv st) (\<lambda>found. pret (catalogue_ids found)))) (\<lambda>ids.
              case ids of
                Inl e \<Rightarrow> pret (Inr [lit ''model catalogue: '' @ xt_str (qe_text qe) e])
              | Inr ids \<Rightarrow>
                  pbind (say [lit ''ok  model catalogue: '' @ dec (length ids) @ lit '' model(s)'']) (\<lambda>_. pret (Inr [])))
            else pret (Inr [])) (\<lambda>models.
     pret (Inr ((if st_desired st then [] else [lit ''DComp system has not been applied'']) @
       failure_line (qe_text qe) ''host configuration unavailable: '' host @
       map (doctor_line st) (filter (\<lambda>n. \<not> doctor_ready st n) expected) @
       map (\<lambda>n. lit ''stopped instance component is still present: '' @ n) unexpected @ models)))))))"

definition cmd_doctor :: "'d query_env \<Rightarrow> ('d realm, int) partial" where
  "cmd_doctor qe =
     pbind (open_store (qe_cli qe)) (\<lambda>_.
     pbind (in_store list_report) (\<lambda>(instances, es).
     pbind (state_errors (qe_text qe) es) (\<lambda>damaged.
     pbind (catch_cyclo
       (pbind (open_runtime (qe_cli qe)) (\<lambda>sv.
        pbind (in_world (outside (qe_version qe))) (\<lambda>(version, api).
        pbind (say [lit ''ok  dcomp '' @ version @ lit '' (API '' @ dump_int api @ lit '')'']) (\<lambda>_.
        pbind (read_status sv) (\<lambda>st. pret (Inr (sv, st)))))))) (\<lambda>runtime.
     pbind (case runtime of
              Inl e \<Rightarrow> pret (Inr [xt_str (qe_text qe) e])
            | Inr (sv, st) \<Rightarrow> doctor_checks qe sv instances st) (\<lambda>found.
     let failures = damaged @ found in
     pbind (say (map (\<lambda>f. lit ''no  '' @ f) failures)) (\<lambda>_. pret (Inr (if failures \<noteq> [] then 1 else 0))))))))"

section \<open>validate\<close>

definition project_lines_shown :: "project \<Rightarrow> (project_team \<times> team) list \<Rightarrow> ustr list" where
  "project_lines_shown p teams =
     [lit ''project: '' @ pj_name p, lit ''description: '' @ pj_description p, lit ''definition: '' @ path_str (pj_path p),
      lit ''generation: '' @ pj_sha256 p] @
     map (\<lambda>(selected, t). lit ''team ('' @ mode_str (pt_mode selected) @ lit ''): '' @ path_name (te_root t) @ lit '' '' @
       path_str (te_root t) @ lit '' ['' @ dec (length (te_agents t)) @ lit '' agents]'') teams @
     map (\<lambda>m. lit ''mount ('' @ mode_str (pm_mode m) @ lit ''): '' @ pm_name m @ lit '' '' @ path_str (pm_path m) @ lit '' -> '' @
       path_str (container_path_of m)) (pj_mounts p)"

definition validate_project :: "'d query_env \<Rightarrow> ustr \<Rightarrow> ('d realm, int) partial" where
  "validate_project qe value =
     (let cl = qe_cli qe in
      pbind (pret (load_project (cl_os cl) value)) (\<lambda>p.
      pbind (pret (load_project_teams (cl_os cl) (cl_node_at cl) (cl_git cl) p None)) (\<lambda>teams.
      pbind (pret (cl_agentws cl)) (\<lambda>_.
      pbind (open_store cl) (\<lambda>_.
      pbind (read_host qe) (\<lambda>h.
      pbind (in_files (\<lambda>(fl, rs). case observed_docker_endpoint fl (cl_docker_endpoint cl) rs of (rs, x) \<Rightarrow> ((fl, rs), x))) (\<lambda>endpoint r.
      pbind (pret (validate_project_authority (cl_os cl) (cl_user cl) (qe_bad_netloc qe) (qe_package_root qe) (rs_root (rl_realm r)) h p
        teams endpoint None)) (\<lambda>_.
      pbind (say (project_lines_shown p teams)) (\<lambda>_. pret (Inr 0))) r)))))))"

definition validate_team_directory :: "'d query_env \<Rightarrow> ustr \<Rightarrow> ('d realm, int) partial" where
  "validate_team_directory qe value =
     (let cl = qe_cli qe in
      pbind (pret (load_team (cl_os cl) (cl_node_at cl) value)) (\<lambda>t.
      pbind (pret (require_team_repository (cl_os cl) (cl_git cl (te_root t)) t)) (\<lambda>_.
      pbind (pret (cl_agentws cl)) (\<lambda>_.
      pbind (say [lit ''team: '' @ path_name (te_root t), lit ''repository: '' @ path_str (te_root t),
        lit ''roster: '' @ path_name (te_roster t), lit ''agents: '' @ dec (length (te_agents t)),
        lit ''providers: '' @ join (lit '', '') (team_providers t)]) (\<lambda>_.
      pbind (pret (cl_generation cl t)) (\<lambda>generation.
      pbind (say [lit ''generation: '' @ generation]) (\<lambda>_. pret (Inr 0))))))))"

definition cmd_validate :: "'d query_env \<Rightarrow> (ppath \<Rightarrow> bool) \<Rightarrow> ustr \<Rightarrow> ('d realm, int) partial" where
  "cmd_validate qe is_file value =
     (if looks_like_project_file (cl_os (qe_cli qe)) is_file value then validate_project qe value else validate_team_directory qe value)"

section \<open>task\<close>

datatype task_action =
    ListTasks | ShowTask ustr | RunTask ustr ustr | AddJob ustr ustr ustr ustr | CommentTask ustr "ustr list"
  | SetTaskState ustr ustr "ustr option"

text \<open>The tool an action runs, its words, and the path of the specification it passes on.\<close>

definition task_request :: "task_action \<Rightarrow> (ustr \<times> ustr list \<times> ustr option) res" where
  "task_request action =
     (case action of
        ListTasks \<Rightarrow> Inr (lit ''task-list'', [], None)
      | ShowTask task \<Rightarrow> rbind (validate_task_id task) (\<lambda>_. Inr (lit ''task-show'', [task], None))
      | RunTask task spec \<Rightarrow> rbind (validate_task_id task) (\<lambda>_. Inr (lit ''task-create'', [task], Some spec))
      | AddJob task job role spec \<Rightarrow>
          rbind (validate_task_id task) (\<lambda>_. rbind (validate_job_id job) (\<lambda>_. rbind (validate_role role) (\<lambda>_.
          Inr (lit ''job-create'', [job, lit ''--role'', role, lit ''--task-id'', task], Some spec))))
      | CommentTask task message \<Rightarrow>
          rbind (validate_task_id task) (\<lambda>_. Inr (lit ''task-comment'', [task, join [32] message], None))
      | SetTaskState task state message \<Rightarrow>
          rbind (validate_task_id task) (\<lambda>_.
          Inr (lit ''task-state'', [task, state] @ (if given message then [lit ''-m'', the message] else []), None)))"

text \<open>The disk and Docker of the task tools are those of the runtime.\<close>

definition in_admin :: "('d admin_world, 'a) action \<Rightarrow> ('d world, 'a) action" where
  "in_admin m w =
     (case m \<lparr>aw_docker = wd_outside w, aw_fs = wd_fs w\<rparr> of
        (a, r) \<Rightarrow> (w\<lparr>wd_outside := aw_docker a, wd_fs := aw_fs a\<rparr>, r))"

definition run_tool :: "'d query_env \<Rightarrow> ustr \<Rightarrow> ustr \<Rightarrow> ustr list \<Rightarrow> bytes option \<Rightarrow> ('d realm, int \<times> instance_rec) partial" where
  "run_tool qe identifier tool arguments specification =
     pbind (open_store (qe_cli qe)) (\<lambda>_.
     pbind locked (\<lambda>_.
     pbind (in_store (\<lambda>st. load st identifier)) (\<lambda>i r.
     pbind (in_world (in_admin (run_task_tool (qe_task_admin qe (rl_realm r) i) tool arguments specification)))
       (\<lambda>result. pret (Inr (result, i))) r)))"

definition cmd_task :: "'d query_env \<Rightarrow> ustr \<Rightarrow> task_action \<Rightarrow> ('d realm, int) partial" where
  "cmd_task qe identifier action =
     pbind (pret (task_request action)) (\<lambda>(tool, arguments, spec).
     pbind (pret (case spec of
              None \<Rightarrow> Inr None
            | Some path \<Rightarrow>
                rbind (read_task_specification (cl_os (qe_cli qe)) (qe_tree qe) (expanduser (cl_os (qe_cli qe)) (path_of path)))
                  (\<lambda>content. Inr (Some content)))) (\<lambda>content.
     pbind (run_tool qe identifier tool arguments content) (\<lambda>(result, i).
     case action of
       RunTask _ _ \<Rightarrow>
         if result = 0 then pbind (pret (task_project_summary i)) (\<lambda>ls. pbind (say ls) (\<lambda>_. pret (Inr result))) else pret (Inr result)
     | _ \<Rightarrow> pret (Inr result))))"

section \<open>Looking changes nothing\<close>

text \<open>An action that leaves the stored instances, the files of the realm and the generated system as they are.\<close>

definition observes :: "('d realm, 'a) partial \<Rightarrow> bool" where
  "observes m \<longleftrightarrow> (\<forall>w w' x. quiet (rl_store w) \<longrightarrow> m w = Some (w', x) \<longrightarrow>
     rl_store w' = rl_store w \<and> rl_files w' = rl_files w \<and>
     wd_store (rl_world w') = wd_store (rl_world w) \<and> wd_fs (rl_world w') = wd_fs (rl_world w))"

named_theorems observes_intros

lemma observes_pbind [observes_intros]: "observes m \<Longrightarrow> (\<And>x. observes (k x)) \<Longrightarrow> observes (pbind m k)"
  unfolding observes_def by (intro allI impI) (elim pbind_cases, metis, metis)

lemma catch_cyclo_ran: "catch_cyclo m w = Some (w', y) \<Longrightarrow> \<exists>x. m w = Some (w', x)"
  by (auto simp: catch_cyclo_def split: option.splits sum.splits error.splits)

lemma observes_catch [observes_intros]: "observes m \<Longrightarrow> observes (catch_cyclo m)"
  unfolding observes_def by (intro allI impI) (drule catch_cyclo_ran, elim exE, blast)

lemma observes_basic [observes_intros]:
  "observes (pret r)" "observes (in_world (outside b))" "observes (say ls)" "observes (read_status sv)"
  "observes (state_errors xt es)"
  by (auto simp: observes_def pret_def in_world_def outside_def say_def read_status_def state_errors_def split: prod.splits)

lemma observes_store [observes_intros]: "observes (open_store cl)"
  by (auto simp: observes_def open_store_def split: sum.splits)

lemma observes_load [observes_intros]:
  "observes (in_store (\<lambda>st. load st i))" "observes (in_store list_all_instances)" "observes (in_store list_report)"
proof -
  have "exec st ops = st" if "quiet st" "list_report st = (ops, x)" for st ops x
    using that by (auto simp: list_report_def quiet_def and_then_def recover_def Let_def split: prod.splits)
  then show "observes (in_store list_report)" by (auto simp: observes_def in_store_def split: prod.splits)
  show "observes (in_store (\<lambda>st. load st i))" by (auto simp: observes_def in_store_def load_quiet)
  have "exec st ops = st" if "quiet st" "list_all_instances st = (ops, x)" for st ops x
    using list_quiet [OF that] by simp
  then show "observes (in_store list_all_instances)" by (auto simp: observes_def in_store_def split: prod.splits)
qed

lemma observes_runtime [observes_intros]: "observes (open_runtime cl)"
proof -
  have "observes (\<lambda>r. Some (r\<lparr>rl_world := (rl_world r)\<lparr>wd_cache := f r\<rparr>, rl_builder := g r\<rparr>, h r))" for f g h
    by (auto simp: observes_def)
  moreover have "observes (in_files (\<lambda>(fl, rs). case f fl rs of (rs, x) \<Rightarrow> ((fl, rs), x)))" for f
    by (auto simp: observes_def in_files_def split: prod.splits)
  ultimately show ?thesis unfolding open_runtime_def by (intro observes_intros)
qed

lemma observes_realm [observes_intros]: "observes (open_realm cl)"
  unfolding open_realm_def by (intro observes_intros)

lemma observes_host [observes_intros]: "observes (read_host qe)"
proof -
  have "observes (in_files (\<lambda>(fl, rs). case f fl rs of (rs, x) \<Rightarrow> ((fl, rs), x)))" for f
    by (auto simp: observes_def in_files_def split: prod.splits)
  then show ?thesis unfolding read_host_def by (intro observes_intros)
qed

text \<open>Printing what the state of the moment says.\<close>

lemma observes_env: "(\<And>w. observes (k w)) \<Longrightarrow> observes (\<lambda>r. k r r)"
  by (simp add: observes_def)

lemma observes_shown [observes_intros]:
  "observes (\<lambda>r. pbind (say (f r)) (\<lambda>_. pret z) r)"
  "observes (\<lambda>r. pbind (pret (y r)) (\<lambda>x. pbind (say (g r x)) (\<lambda>_. pret z)) r)"
  by (rule observes_env [where k = "\<lambda>r. pbind (say (f r)) (\<lambda>_. pret z)"], intro observes_intros)
    (rule observes_env [where k = "\<lambda>r. pbind (pret (y r)) (\<lambda>x. pbind (say (g r x)) (\<lambda>_. pret z))"], intro observes_intros)

lemma observes_catalogue [observes_intros]: "observes (catalogue cl sv st)"
  unfolding catalogue_def by (intro observes_intros)

lemma observes_if [observes_intros]: "observes a \<Longrightarrow> observes b \<Longrightarrow> observes (if c then a else b)"
  by simp

datatype query =
    Ps | Inspect ustr | Logs ustr bool | InstancePath ustr | Doctor | Validate ustr | ListedComponents "ustr option option"
  | ShownComponents "ustr option option" | LoggedComponent bool "ustr option option" | CheckedProviders | ShownProviders | ShownGateway

fun ask :: "'d query_env \<Rightarrow> (ppath \<Rightarrow> bool) \<Rightarrow> query \<Rightarrow> ('d realm, int) partial" where
  "ask qe is_file Ps = cmd_ps qe"
| "ask qe is_file (Inspect i) = cmd_inspect qe i"
| "ask qe is_file (Logs i follow) = cmd_logs qe i follow"
| "ask qe is_file (InstancePath i) = cmd_path qe i"
| "ask qe is_file Doctor = cmd_doctor qe"
| "ask qe is_file (Validate v) = cmd_validate qe is_file v"
| "ask qe is_file (ListedComponents name) = cmd_component qe ListComponents name"
| "ask qe is_file (ShownComponents name) = cmd_component qe ComponentStatus name"
| "ask qe is_file (LoggedComponent follow name) = cmd_component qe (ComponentLogs follow) name"
| "ask qe is_file CheckedProviders = cmd_providers qe CheckProviders"
| "ask qe is_file ShownProviders = cmd_providers qe ProvidersStatus"
| "ask qe is_file ShownGateway = cmd_gateway qe GatewayStatus"

lemma observes_instance_commands:
  "observes (cmd_ps qe)" "observes (cmd_inspect qe i)" "observes (cmd_logs qe i follow)" "observes (cmd_path qe i)"
proof -
  show "observes (cmd_ps qe)" unfolding cmd_ps_def Let_def case_prod_beta by (intro observes_intros)
  show "observes (cmd_inspect qe i)" unfolding cmd_inspect_def print_report_def case_prod_beta
    by (intro observes_intros)
  show "observes (cmd_logs qe i follow)" unfolding cmd_logs_def by (intro observes_intros)
  show "observes (cmd_path qe i)" unfolding cmd_path_def by (intro observes_intros)
qed

lemma observes_checks [observes_intros]: "observes (doctor_checks qe sv instances st)"
proof -
  have "observes (case ids of Inl e \<Rightarrow> pret (f e) | Inr ids \<Rightarrow> pbind (say (g ids)) (\<lambda>_. pret h))" for ids :: "error + ustr list" and f g h
    by (cases ids) (auto intro: observes_intros)
  then show ?thesis unfolding doctor_checks_def by (intro observes_intros)
qed

lemma observes_doctor: "observes (cmd_doctor qe)"
proof -
  have "observes (case x of Inl e \<Rightarrow> pret (f e) | Inr (sv, st) \<Rightarrow> doctor_checks qe sv instances st)" for x f instances
    by (auto intro: observes_intros split: sum.splits prod.splits)
  then show ?thesis unfolding cmd_doctor_def Let_def case_prod_beta by (intro observes_intros)
qed

lemma observes_system_commands:
  "observes (cmd_component qe ListComponents name)" "observes (cmd_component qe ComponentStatus name)"
  "observes (cmd_component qe (ComponentLogs follow) name)" "observes (cmd_providers qe CheckProviders)"
  "observes (cmd_providers qe ProvidersStatus)" "observes (cmd_gateway qe GatewayStatus)"
proof -
  have c: "observes (case x of Inl e \<Rightarrow> f e | Inr v \<Rightarrow> g v)" if "\<And>e. observes (f e)" "\<And>v. observes (g v)"
    for x :: "error + ustr" and f and g :: "ustr \<Rightarrow> ('a realm, int) partial"
    using that by (auto split: sum.splits)
  have volume: "observes (in_world (credential_volume sv gt))" for sv :: "'a services" and gt
    unfolding credential_volume_def by (rule observes_basic)
  show "observes (cmd_component qe ListComponents name)" "observes (cmd_component qe ComponentStatus name)"
    "observes (cmd_component qe (ComponentLogs follow) name)" "observes (cmd_providers qe CheckProviders)"
    "observes (cmd_providers qe ProvidersStatus)" "observes (cmd_gateway qe GatewayStatus)"
    unfolding cmd_component_def cmd_providers_def check_providers_def cmd_gateway_def Let_def component_action.case providers_action.case gateway_action.case
    by (intro observes_intros c volume)+
qed

lemma observes_validate: "observes (cmd_validate qe is_file value)"
proof -
  have "observes (in_files (\<lambda>(fl, rs). case f fl rs of (rs, x) \<Rightarrow> ((fl, rs), x)))" for f
    by (auto simp: observes_def in_files_def split: prod.splits)
  then show ?thesis unfolding cmd_validate_def validate_project_def validate_team_directory_def Let_def
    by (auto intro!: observes_intros)
qed

lemma observes_ask: "observes (ask qe is_file q)"
  by (cases q) (simp_all add: observes_instance_commands observes_doctor observes_system_commands observes_validate)

section \<open>Questions are answered\<close>

lemma returns_catch [returns_intros]: "returns m \<Longrightarrow> returns (catch_cyclo m)"
  by (auto simp: returns_def catch_cyclo_def split: option.splits sum.splits error.splits)

lemma returns_parts' [returns_intros]: "returns (read_status sv)" "returns (state_errors xt es)" "returns (open_realm cl)"
  unfolding read_status_def open_realm_def by (auto intro!: returns_intros simp: returns_def [of "state_errors xt es"] state_errors_def)

lemma returns_host [returns_intros]: "returns (read_host qe)"
  unfolding read_host_def by (intro returns_intros)

lemma returns_env: "(\<And>w. returns (k w)) \<Longrightarrow> returns (\<lambda>r. k r r)"
  by (simp add: returns_def)

lemma returns_shown [returns_intros]:
  "returns (\<lambda>r. pbind (say (f r)) (\<lambda>_. pret z) r)"
  "returns (\<lambda>r. pbind (pret (y r)) (\<lambda>x. pbind (say (g r x)) (\<lambda>_. pret z)) r)"
  by (rule returns_env [where k = "\<lambda>r. pbind (say (f r)) (\<lambda>_. pret z)"], intro returns_intros)
    (rule returns_env [where k = "\<lambda>r. pbind (pret (y r)) (\<lambda>x. pbind (say (g r x)) (\<lambda>_. pret z))"], intro returns_intros)

lemma returns_if [returns_intros]: "returns a \<Longrightarrow> returns b \<Longrightarrow> returns (if c then a else b)"
  by simp

lemma returns_sum [returns_intros]:
  "(\<And>e. returns (f e)) \<Longrightarrow> (\<And>v. returns (g v)) \<Longrightarrow> returns (case x of Inl e \<Rightarrow> f e | Inr v \<Rightarrow> g v)"
  by (cases x) auto

lemma returns_checks [returns_intros]: "returns (doctor_checks qe sv instances st)"
  unfolding doctor_checks_def by (intro returns_intros)

lemma returns_ask: "returns (ask qe is_file q)"
proof (cases q)
  case (Validate v)
  then show ?thesis unfolding Validate ask.simps cmd_validate_def validate_project_def validate_team_directory_def Let_def
    by (intro returns_intros)
next
  case Ps
  then show ?thesis unfolding Ps ask.simps cmd_ps_def Let_def case_prod_beta by (intro returns_intros)
next
  case (Inspect i)
  then show ?thesis unfolding Inspect ask.simps cmd_inspect_def print_report_def case_prod_beta by (intro returns_intros)
next
  case Doctor
  then show ?thesis unfolding Doctor ask.simps cmd_doctor_def Let_def case_prod_beta by (intro returns_intros)
qed (simp_all only: ask.simps cmd_logs_def cmd_path_def cmd_component_def cmd_providers_def check_providers_def cmd_gateway_def Let_def
    component_action.case providers_action.case gateway_action.case, (intro returns_intros)+)


section \<open>What doctor approves\<close>

lemma catch_value:
  "catch_cyclo m w = Some (w', Inr (Inr x)) \<Longrightarrow> m w = Some (w', Inr x)"
  by (auto simp: catch_cyclo_def split: option.splits sum.splits error.splits)

lemma failure_line_Nil: "failure_line xt what x = [] \<longleftrightarrow> (\<exists>y. x = Inr y)"
  by (cases x) (simp_all add: failure_line_def)

lemma doctor_checks_clean:
  assumes "doctor_checks qe sv instances st w = Some (w', Inr [])"
  shows "st_desired st \<and> (\<exists>h expected. sv_host sv = Inr h \<and> doctor_components instances (Inr h) st = Inr expected \<and>
      (\<forall>n\<in>set expected. doctor_ready st n)) \<and> unexpected_teams instances st = Inr []"
proof -
  obtain host u expected unexpected models where
    1: "catch_cyclo (pret (sv_host sv)) w = Some (u, Inr host)" and
    2: "doctor_components instances host st = Inr expected" "unexpected_teams instances st = Inr unexpected" and
    3: "(if st_desired st then [] else [lit ''DComp system has not been applied'']) @
       failure_line (qe_text qe) ''host configuration unavailable: '' host @
       map (doctor_line st) (filter (\<lambda>n. \<not> doctor_ready st n) expected) @
       map (\<lambda>n. lit ''stopped instance component is still present: '' @ n) unexpected @ models = []"
    using assms unfolding doctor_checks_def pbind_ok pret_def by auto
  obtain h where h: "host = Inr h" using 3 by (auto simp: failure_line_Nil)
  have "sv_host sv = Inr h" using catch_value [OF 1 [unfolded h]] by (simp add: pret_def)
  moreover have "unexpected = []" "\<forall>n\<in>set expected. doctor_ready st n" "st_desired st"
    using 3 by (auto simp: filter_empty_conv split: if_splits)
  ultimately show ?thesis using 2 h by blast
qed

lemma doctor_ready_healthy: "doctor_ready st n \<longleftrightarrow> healthy_component st n"
  unfolding doctor_ready_def condition_fst condition_ready healthy_component_def by auto

lemma expected_healthy:
  assumes "doctor_components instances (Inr h) st = Inr expected" "\<forall>n\<in>set expected. doctor_ready st n"
  shows "n \<in> insert (lit ''gateway'') (pv_name ` set (ho_providers h) \<union> hc_name ` set (ho_components h) \<union> cs_name ` set (st_components st))
      \<Longrightarrow> healthy_component st n"
    and "i \<in> set instances \<Longrightarrow> in_intent i = lit ''running'' \<Longrightarrow> \<exists>n. team_component_name (in_id i) = Inr n \<and> healthy_component st n"
proof -
  obtain teams where t: "mapE (\<lambda>i. team_component_name (in_id i)) (filter (\<lambda>i. in_intent i = lit ''running'') instances) = Inr teams"
    and e: "set expected = insert (lit ''gateway'') (pv_name ` set (ho_providers h) \<union> hc_name ` set (ho_components h) \<union> set teams \<union>
      cs_name ` set (st_components st))"
    using assms(1) unfolding doctor_components_def rbind_eq_Inr by (auto simp: Un_assoc simp del: remdups.simps append_Cons append_Nil)
  show "n \<in> insert (lit ''gateway'') (pv_name ` set (ho_providers h) \<union> hc_name ` set (ho_components h) \<union> cs_name ` set (st_components st))
      \<Longrightarrow> healthy_component st n"
    using assms(2) e doctor_ready_healthy by blast
  assume i: "i \<in> set instances" "in_intent i = lit ''running''"
  then obtain n where "team_component_name (in_id i) = Inr n" "n \<in> set teams"
    using t by (auto simp: mapE_Inr dest!: list_all2_in1 [where x = i])
  then show "\<exists>n. team_component_name (in_id i) = Inr n \<and> healthy_component st n" using assms(2) e doctor_ready_healthy by blast
qed

lemma no_unexpected:
  assumes "unexpected_teams instances st = Inr []" "i \<in> set instances" "in_intent i = lit ''stopped''"
    "team_component_name (in_id i) = Inr n"
  shows "status_component st n = None"
proof -
  obtain teams where t: "mapE (\<lambda>i. team_component_name (in_id i)) (filter (\<lambda>i. in_intent i = lit ''stopped'') instances) = Inr teams"
    and e: "sort (remdups (filter (\<lambda>n. n \<in> cs_name ` set (st_components st)) teams)) = []"
    using assms(1) unfolding unexpected_teams_def rbind_eq_Inr by auto
  have "n \<in> set teams" using t assms(2-4) by (auto simp: mapE_Inr dest!: list_all2_in1 [where x = i])
  moreover have "filter (\<lambda>n. n \<in> cs_name ` set (st_components st)) teams = []"
    using e by (metis remdups_eq_nil_iff set_empty set_sort)
  ultimately have "n \<notin> cs_name ` set (st_components st)" by (simp add: filter_empty_conv)
  then show ?thesis by (auto simp: status_component_def find_None_iff)
qed

text \<open>C13: when \<open>cyclo doctor\<close> ends with exit code 0, every state record loads, dcomp's system is applied, the host configuration
  loads, every component that is configured, present or due runs and is healthy, and no stopped instance has one.\<close>

theorem doctor_clean:
  assumes "quiet (rl_store r)" "cmd_doctor qe r = Some (r', Inr 0)"
  shows "\<exists>rs path sv d d' st h instances. sv = cl_services (qe_cli qe) rs path \<and> sv_status sv d = (d', Inr st) \<and> st_desired st \<and>
    sv_host sv = Inr h \<and> list_report (rl_store r) = ([], Inr (instances, [])) \<and>
    (\<forall>n\<in>insert (lit ''gateway'') (pv_name ` set (ho_providers h) \<union> hc_name ` set (ho_components h) \<union> cs_name ` set (st_components st)).
       healthy_component st n) \<and>
    (\<forall>i\<in>set instances.
       (in_intent i = lit ''running'' \<longrightarrow> (\<exists>n. team_component_name (in_id i) = Inr n \<and> healthy_component st n)) \<and>
       (in_intent i = lit ''stopped'' \<longrightarrow> (\<forall>n. team_component_name (in_id i) = Inr n \<longrightarrow> status_component st n = None)))"
proof -
  obtain u0 instances es u1 u2 damaged u3 runtime u4 found where
    1: "open_store (qe_cli qe) r = Some (u0, Inr ())" and
    2: "in_store list_report u0 = Some (u1, Inr (instances, es))" and
    3: "state_errors (qe_text qe) es u1 = Some (u2, Inr damaged)" and
    4: "catch_cyclo (pbind (open_runtime (qe_cli qe)) (\<lambda>sv.
        pbind (in_world (outside (qe_version qe))) (\<lambda>(version, api).
        pbind (say [lit ''ok  dcomp '' @ version @ lit '' (API '' @ dump_int api @ lit '')'']) (\<lambda>_.
        pbind (read_status sv) (\<lambda>st. pret (Inr (sv, st))))))) u2 = Some (u3, Inr runtime)" and
    5: "(case runtime of Inl e \<Rightarrow> pret (Inr [xt_str (qe_text qe) e]) | Inr (sv, st) \<Rightarrow> doctor_checks qe sv instances st) u3 = Some (u4, Inr found)" and
    6: "damaged @ found = []"
    using assms(2) unfolding cmd_doctor_def Let_def by (auto simp: pbind_ok pret_def split: if_splits)
  obtain sv st where rt: "runtime = Inr (sv, st)" "doctor_checks qe sv instances st u3 = Some (u4, Inr [])"
    using 5 6 by (auto simp: pret_def split: sum.splits prod.splits)
  have st: "\<exists>rs path d d'. sv = cl_services (qe_cli qe) rs path \<and> sv_status sv d = (d', Inr st)"
    using catch_value [OF 4 [unfolded rt]]
    by (auto simp: pbind_ok pret_def open_runtime_def read_status_def in_world_def outside_def split: prod.splits)
  have u0: "rl_store u0 = rl_store r" by (rule keepsD [OF keeps_open_store assms(1) 1])
  have "es = []" using 3 6 by (simp add: state_errors_def)
  moreover have "fst (list_report (rl_store r)) = []"
    using assms(1) by (auto simp: list_report_def quiet_def and_then_def recover_def Let_def split: prod.splits)
  ultimately have l: "list_report (rl_store r) = ([], Inr (instances, []))"
    using 2 u0 by (auto simp: in_store_def split: prod.splits)
  obtain h expected where c: "st_desired st" "sv_host sv = Inr h" "doctor_components instances (Inr h) st = Inr expected"
      "\<forall>n\<in>set expected. doctor_ready st n" "unexpected_teams instances st = Inr []"
    using doctor_checks_clean [OF rt(2)] by blast
  show ?thesis using st c(1,2) l expected_healthy [OF c(3,4)] no_unexpected [OF c(5)] by blast
qed

section \<open>What ps shows\<close>

lemma ps_row_shape: "ps_row qe sv status check i = Inr row \<Longrightarrow> length row = 6 \<and> hd row = in_id i \<and> row ! 3 = in_intent i"
  unfolding ps_row_def rbind_eq_Inr by (elim exE conjE) auto

lemma ps_row_ready:
  assumes "ps_row qe sv (Some st) check i = Inr row" "in_intent i = lit ''running''" "row ! 4 = lit ''ready''"
  shows "\<exists>name c. team_component_name (in_id i) = Inr name \<and> status_component st name = Some c \<and> st_operation st = [] \<and>
    cs_status c = lit ''running'' \<and> cs_health c = lit ''healthy'' \<and> is_ok (team_port i st)"
proof -
  obtain name condition d where n: "team_component_name (in_id i) = Inr name"
    and c: "running_instance_condition (qe_repr qe) (sv_host sv) st (status_component st name) check = Inr (condition, d)"
    and p: "condition = lit ''ready'' \<longrightarrow> is_ok (team_port i st)" "row ! 4 = condition"
    using assms(1,2) unfolding ps_row_def by (auto simp: Let_def is_ok_iff split: if_splits)
  have ready: "condition = lit ''ready''" using p(2) assms(3) by simp
  have r: "lit ''not-ready'' \<noteq> lit ''ready''" by code_simp
  have "st_operation st = [] \<and> component_condition (status_component st name) = (lit ''ready'', d)"
    using c r ready by (auto simp: running_instance_condition_def case_prod_beta split: if_splits)
  then show ?thesis using n p(1) ready unfolding condition_ready by auto
qed

lemma unknown_not_ready: "ps_row qe sv None check i = Inr row \<Longrightarrow> row ! 4 \<noteq> lit ''ready''"
proof -
  have "lit ''unknown'' \<noteq> lit ''ready''" by code_simp
  then show "ps_row qe sv None check i = Inr row \<Longrightarrow> row ! 4 \<noteq> lit ''ready''" by (auto simp: ps_row_def)
qed

lemma open_query_result:
  "open_query qe r = Some (u, Inr sv) \<Longrightarrow> rl_out u = rl_out r \<and> (\<exists>rs path. sv = cl_services (qe_cli qe) rs path)"
  by (auto simp: open_realm_def open_store_def open_runtime_def in_files_def pbind_ok split: sum.splits prod.splits)

lemma caught_status:
  assumes "catch_cyclo (read_status sv) w = Some (w', status)" "status = Inr status'"
  shows "rl_out w' = rl_out w \<and> (\<exists>d d'. \<forall>st. status' = Inr st \<longrightarrow> sv_status sv d = (d', Inr st))"
proof -
  obtain d x where d: "sv_status sv (wd_outside (rl_world w)) = (d, x)" by fastforce
  then have "rl_out w' = rl_out w" "\<forall>st. status' = Inr st \<longrightarrow> x = Inr st"
    using assms by (auto simp: catch_cyclo_def read_status_def in_world_def outside_def split: sum.splits error.splits)
  then show ?thesis using d by blast
qed

lemma ps_row_sound:
  assumes "ps_row qe sv (ok_part status) check i = Inr row" "sv = cl_services (qe_cli qe) rs path"
    "\<forall>st. status = Inr st \<longrightarrow> sv_status sv d = (d', Inr st)"
  shows "length row = 6 \<and> hd row = in_id i \<and>
    (in_intent i = lit ''running'' \<and> row ! 4 = lit ''ready'' \<longrightarrow>
      (\<exists>rs path d d' st name c. sv_status (cl_services (qe_cli qe) rs path) d = (d', Inr st) \<and> st_operation st = [] \<and>
        team_component_name (in_id i) = Inr name \<and> status_component st name = Some c \<and>
        cs_status c = lit ''running'' \<and> cs_health c = lit ''healthy'' \<and> is_ok (team_port i st)))"
proof (intro conjI impI)
  show "length row = 6" "hd row = in_id i" using ps_row_shape [OF assms(1)] by simp_all
  assume ready: "in_intent i = lit ''running'' \<and> row ! 4 = lit ''ready''"
  have "ok_part status \<noteq> None" using unknown_not_ready assms(1) ready by metis
  then obtain st where st: "status = Inr st" by (cases status) (auto simp: ok_part_def)
  then show "\<exists>rs path d d' st name c. sv_status (cl_services (qe_cli qe) rs path) d = (d', Inr st) \<and> st_operation st = [] \<and>
        team_component_name (in_id i) = Inr name \<and> status_component st name = Some c \<and>
        cs_status c = lit ''running'' \<and> cs_health c = lit ''healthy'' \<and> is_ok (team_port i st)"
    using ps_row_ready [of qe sv st check i row] assms ready by (simp add: ok_part_def) metis
qed

text \<open>C16: \<open>cyclo ps\<close> shows one row for every instance that loads, by identifier, and a warning for every other entry and for what
  it could not reach; its exit code is 0 exactly without warnings; and it says \<open>ready\<close> of an instance that is to run only
  when nothing is pending and the instance's component runs, is healthy and has its port.\<close>

theorem ps_shows_all:
  assumes "quiet (rl_store r)" "cmd_ps qe r = Some (r', Inr n)"
  shows "\<exists>instances es rows warnings. list_report (rl_store r) = ([], Inr (instances, es)) \<and>
    rl_out r' = rl_out r @ print_table PS_HEADERS rows @ map (\<lambda>w. lit ''warning: '' @ w) warnings \<and>
    length es \<le> length warnings \<and> (n = 0 \<longleftrightarrow> warnings = []) \<and> (n \<noteq> 0 \<longrightarrow> n = 1) \<and>
    list_all2 (\<lambda>i row. length row = 6 \<and> hd row = in_id i \<and>
      (in_intent i = lit ''running'' \<and> row ! 4 = lit ''ready'' \<longrightarrow>
        (\<exists>rs path d d' st name c. sv_status (cl_services (qe_cli qe) rs path) d = (d', Inr st) \<and> st_operation st = [] \<and>
          team_component_name (in_id i) = Inr name \<and> status_component st name = Some c \<and>
          cs_status c = lit ''running'' \<and> cs_health c = lit ''healthy'' \<and> is_ok (team_port i st)))) instances rows"
proof -
  obtain u0 sv u1 instances es u2 damaged u3 status u4 host rows errors where
    1: "open_query qe r = Some (u0, Inr sv)" and
    2: "in_store list_report u0 = Some (u1, Inr (instances, es))" and
    3: "state_errors (qe_text qe) es u1 = Some (u2, Inr damaged)" and
    4: "catch_cyclo (read_status sv) u2 = Some (u3, Inr status)" and
    5: "catch_cyclo (pret (sv_host sv)) u3 = Some (u4, Inr host)" and
    6: "mapE (ps_row qe sv (ok_part status) (ok_part host \<noteq> None)) instances = Inr rows" and
    7: "errors = damaged @ failure_line (qe_text qe) ''DComp status unavailable: '' status @
         failure_line (qe_text qe) ''host configuration unavailable: '' host" and
    8: "say (print_table PS_HEADERS rows @ map (\<lambda>e. lit ''warning: '' @ e) errors) u4 = Some (r', Inr ())"
       "n = (if errors \<noteq> [] then 1 else 0)"
    using assms(2) unfolding cmd_ps_def Let_def by (auto simp: pbind_ok pret_def)
  have sv: "rl_out u0 = rl_out r" "\<exists>rs path. sv = cl_services (qe_cli qe) rs path" using open_query_result [OF 1] by simp_all
  obtain d d' where st: "rl_out u3 = rl_out u2" "\<forall>st. status = Inr st \<longrightarrow> sv_status sv d = (d', Inr st)"
    using caught_status [OF 4 refl] by blast
  have "u4 = u3" using catch_cyclo_ran [OF 5] by (auto simp: pret_def)
  moreover have "rl_out u1 = rl_out u0" using 2 by (auto simp: in_store_def split: prod.splits)
  moreover have "u2 = u1" "length damaged = length es" using 3 by (auto simp: state_errors_def)
  ultimately have out: "rl_out r' = rl_out r @ print_table PS_HEADERS rows @ map (\<lambda>w. lit ''warning: '' @ w) errors"
    using 8(1) sv(1) st(1) by (auto simp: say_def)
  have "keeps_store (open_query qe)" unfolding open_realm_def by (intro keeps_intros)
  from keepsD [OF this assms(1) 1] have u0: "rl_store u0 = rl_store r" .
  have "fst (list_report (rl_store r)) = []"
    using assms(1) by (auto simp: list_report_def quiet_def and_then_def recover_def Let_def split: prod.splits)
  then have l: "list_report (rl_store r) = ([], Inr (instances, es))"
    using 2 u0 by (auto simp: in_store_def split: prod.splits)
  obtain rs path where "sv = cl_services (qe_cli qe) rs path" using sv(2) by blast
  note sound = ps_row_sound [OF _ this st(2)]
  have rows: "list_all2 (\<lambda>i row. length row = 6 \<and> hd row = in_id i \<and>
      (in_intent i = lit ''running'' \<and> row ! 4 = lit ''ready'' \<longrightarrow>
        (\<exists>rs path d d' st name c. sv_status (cl_services (qe_cli qe) rs path) d = (d', Inr st) \<and> st_operation st = [] \<and>
          team_component_name (in_id i) = Inr name \<and> status_component st name = Some c \<and>
          cs_status c = lit ''running'' \<and> cs_health c = lit ''healthy'' \<and> is_ok (team_port i st)))) instances rows"
    using 6 unfolding mapE_Inr by (rule list_all2_mono) (rule sound)
  have "length es \<le> length errors" using \<open>length damaged = length es\<close> 7 by simp
  then show ?thesis using l out rows 8(2) by (intro exI conjI) auto
qed

text \<open>One instance without its port hides all others: the port of a ready instance is the only thing \<open>ps\<close> does not turn into a warning.\<close>

lemma ps_one_missing_port:
  assumes "i \<in> set instances" "in_intent i = lit ''running''" "team_component_name (in_id i) = Inr name"
    "running_instance_condition (qe_repr qe) (sv_host sv) st (status_component st name) check = Inr (lit ''ready'', d)"
    "team_port i st = Inl e"
  shows "\<exists>e'. mapE (ps_row qe sv (Some st) check) instances = Inl e'"
proof -
  have "ps_row qe sv (Some st) check i = Inl e" using assms(2-5) by (simp add: ps_row_def Let_def)
  then show ?thesis using assms(1)
    by (cases "mapE (ps_row qe sv (Some st) check) instances") (auto simp: mapE_Inr dest!: list_all2_in1 [where x = i])
qed

section \<open>component list\<close>


section \<open>Witnesses\<close>

definition ex_query :: "nat query_env" where
  "ex_query = \<lparr>qe_cli = ex_live_cli, qe_text = ex_text, qe_repr = id, qe_version = (\<lambda>d. (d, Inr (lit ''1'', 1))),
     qe_logs = (\<lambda>follow system name d. (d, Inr ())), qe_restart = (\<lambda>names d. (d, Inr ())), qe_tools = (\<lambda>sv. ex_tools),
     qe_environ = Map.empty,
     qe_task_admin = (\<lambda>rs i. \<lparr>ta_docker = ex_clock_docker, ta_endpoint = None, ta_os = ex_canonical_os, ta_root = rs_root rs,
       ta_system = lit ''demo'', ta_instance = i, ta_uid = 1000, ta_gid = 1000, ta_hex = lit ''0a'', ta_ensure = Inr, ta_temp = (\<lambda>fs. None)\<rparr>),
     qe_tree = ex_queue, qe_components_root = path_of (lit ''/c''), qe_bad_netloc = (\<lambda>s. False),
     qe_package_root = path_of (lit ''/p'')\<rparr>"

lemma ex_query_cli: "qe_cli ex_query = ex_live_cli" "qe_text ex_query = ex_text"
  by (simp_all add: ex_query_def)

lemma ex_query_opened: "\<exists>u. open_query ex_query ex_live_realm = Some (u, Inr ex_live) \<and> rl_store u = ex_empty"
proof -
  obtain u v where o: "open_realm ex_live_cli ex_live_realm = Some (u, Inr ex_live)" using ex_opened by blast
  have "keeps_store (open_realm ex_live_cli)" unfolding open_realm_def by (intro keeps_intros)
  from keepsD [OF this ex_live_quiet o] have "rl_store u = rl_store ex_live_realm" .
  then show ?thesis using o by (simp add: ex_query_cli ex_live_realm_def ex_realm_def)
qed

lemma ex_live_status: "read_status ex_live u = Some (u, Inr ex_status)"
  by (simp add: read_status_def in_world_def outside_def ex_live_def)

lemma ex_list_report: "rl_store u = ex_empty \<Longrightarrow> in_store list_report u = Some (u, Inr ([], []))"
proof -
  have "list_report ex_empty = ([], Inr ([], []))" by code_simp
  then show "rl_store u = ex_empty \<Longrightarrow> in_store list_report u = Some (u, Inr ([], []))" by (simp add: in_store_def)
qed

lemma ex_live_host: "sv_host ex_live = Inr ex_bare_host"
  by (simp add: ex_live_def ex_services_def)


lemma ex_ps: "\<exists>r'. cmd_ps ex_query ex_live_realm = Some (r', Inr 0)"
proof -
  obtain u where u: "open_query ex_query ex_live_realm = Some (u, Inr ex_live)" "rl_store u = ex_empty"
    using ex_query_opened by blast
  show ?thesis
    by (simp add: cmd_ps_def pbind_def u ex_list_report state_errors_def ex_live_status catch_cyclo_def pret_def ex_live_host
        failure_line_def say_def del: rbind_eq_Inr)
qed

lemma ps_shows_all_witness:
  "\<exists>r' instances es warnings. cmd_ps ex_query ex_live_realm = Some (r', Inr 0) \<and>
     list_report (rl_store ex_live_realm) = ([], Inr (instances, es)) \<and> length es \<le> length warnings \<and> warnings = ([] :: ustr list)"
proof -
  obtain r' where r: "cmd_ps ex_query ex_live_realm = Some (r', Inr 0)" using ex_ps by blast
  show ?thesis using ps_shows_all [OF ex_live_quiet r] r by blast
qed


lemma ex_doctor: "\<exists>r'. cmd_doctor ex_query ex_live_realm = Some (r', Inr 0)"
proof -
  obtain u where u: "open_query ex_query ex_live_realm = Some (u, Inr ex_live)" "rl_store u = ex_empty"
    using ex_query_opened by blast
  then obtain v where v: "open_store ex_live_cli ex_live_realm = Some (v, Inr ())" "open_runtime ex_live_cli v = Some (u, Inr ex_live)"
    unfolding ex_query_cli open_realm_def pbind_ok by auto
  have "keeps_store (open_store ex_live_cli)" by (intro keeps_intros)
  from keepsD [OF this ex_live_quiet v(1)] have e: "rl_store v = ex_empty" by (simp add: ex_live_realm_def ex_realm_def)
  have c: "doctor_components [] (Inr ex_bare_host) ex_status = Inr [lit ''gateway'']" "doctor_ready ex_status (lit ''gateway'')"
      "unexpected_teams [] ex_status = Inr []" "catalogue_ids [(lit ''models'', JList [])] = Inr []" by code_simp+
  have version: "in_world (outside (qe_version ex_query)) w = Some (w, Inr (lit ''1'', 1))" for w :: "nat realm"
    by (simp add: in_world_def outside_def ex_query_def)
  have desired: "st_desired ex_status" "st_operational ex_status" by (simp_all add: ex_status_def)
  have checks: "\<exists>w'. doctor_checks ex_query ex_live [] ex_status w = Some (w', Inr [])" for w
    using c by (simp add: doctor_checks_def pbind_def catch_cyclo_def pret_def ex_live_host say_def ok_part_def ex_query_cli ex_catalogue
        failure_line_def desired del: rbind_eq_Inr)
  show ?thesis
  proof -
    have "\<forall>w. \<exists>w'. doctor_checks ex_query ex_live [] ex_status w = Some (w', Inr [])" using checks by blast
    from choice [OF this] obtain f where w: "doctor_checks ex_query ex_live [] ex_status w = Some (f w, Inr [])" for w by blast
    show ?thesis
      by (simp add: cmd_doctor_def pbind_def ex_query_cli v e ex_list_report state_errors_def catch_cyclo_def pret_def version
          say_def ex_live_status w)
  qed
qed

lemma doctor_clean_witness:
  "\<exists>r' (sv :: nat services) d d' st. cmd_doctor ex_query ex_live_realm = Some (r', Inr 0) \<and> sv_status sv d = (d', Inr st) \<and> st_desired st \<and>
     healthy_component st (lit ''gateway'')"
proof -
  obtain r' where r: "cmd_doctor ex_query ex_live_realm = Some (r', Inr 0)" using ex_doctor by blast
  show ?thesis using doctor_clean [OF ex_live_quiet r] r by blast
qed

end
