(* ===== verification/Spec2Isabelle.thy ===== *)
theory Spec2Isabelle imports Project_Roundtrip Model_Ids State_Store State_Lock Queue Team_Init Mounts Dcomp_Client Provider_Client Team_Component Runtime_Ops Project_Run Supervisor Planner_Notice Pi_Rpc Gateway_Admin Lifecycle_Success Dashboard_Server Queries begin

text \<open>
  Cyclo runs teams of coding agents in containers.  A team is a Git repository with a roster and role files; a project
  names directories to mount and the teams that work on them; an instance is one team at work on one project.  The
  host side is the Python package \<open>src/cyclo\<close>: the command line loads definitions, stores one record per instance,
  compiles host configuration, images and instances into one DComp system, publishes it and waits until dcomp runs it.
  Inside a container a supervisor runs the AgentWS queue.  This development models the Python code file by file and
  proves what the parts promise each other.

  \<^bold>\<open>Conventions.\<close>  A raise is a value of \<open>error\<close> (\<open>'a res\<close>); code that acts on a world is an \<open>action\<close>, and a \<open>partial\<close> action
  when a loop in it may not end (\<open>None\<close>).  A \<open>str\<close> is a list of code points, \<open>bytes\<close> a list of naturals below 256, an \<open>int\<close> is
  unbounded as in Python, SHA-256 computes on 32-bit words.  A dictionary with fixed keys or a dataclass is a record, an
  enumeration a datatype.  What is not in the repository is a parameter: the operating system's view of a path (\<open>os_env\<close>),
  Docker, dcomp, Git, HTTP, the JSON reader, the clock, random names.

  \<^bold>\<open>Foundations.\<close>
  \<^item> \<open>Prelude\<close>: results, sequencing, the loops \<open>mapE\<close>, \<open>foldE\<close>, \<open>checkE\<close>, the locale \<open>checker\<close> of a validator and what it decides.
  \<^item> \<open>PyStr\<close>, \<open>Bytes\<close>, \<open>Json\<close>, \<open>Paths\<close>, \<open>Fs_Tree\<close>: strings, UTF-8 and SHA-256, \<open>json.dumps\<close>, \<open>PurePosixPath\<close> with the locale
    \<open>tree_space\<close> of overlapping trees, directory trees as the sources scan them.

  \<^bold>\<open>Definitions of the user.\<close>
  \<^item> \<open>Project\<close>, \<open>Project_Roundtrip\<close> (\<open>project.py\<close>): the parser of \<open>project.cyclo\<close> and the rendering for a container, which loads back.
  \<^item> \<open>Model_Ids\<close> (\<open>model_ids.py\<close>), \<open>Team\<close> (\<open>team/definition.py\<close>): model names, rosters, Dockerfiles, generations.
  \<^item> \<open>Team_Init\<close> (\<open>init_team\<close>, \<open>team/templates\<close>): making a team is all or nothing, and one made from a template loads.
  \<^item> \<open>Host\<close> (\<open>host.py\<close>): host configuration, descriptors, bindings of providers.
  \<^item> \<open>Mounts\<close> (\<open>mounts.py\<close>, \<open>authority.py\<close>, \<open>docker_endpoint.py\<close>, \<open>installation.py\<close>): which trees may be mounted.

  \<^bold>\<open>State.\<close>
  \<^item> \<open>Instance\<close> (\<open>state.py\<close>, \<open>project_state.py\<close>): the record of an instance and its document.
  \<^item> \<open>State_Store\<close> (\<open>state.py\<close>): every operation is the list of its disk changes, so a crash is a prefix of it; \<open>save_many\<close> is
    atomic for every reader, and the locale \<open>keyed_store\<close> is the map the store promises to be.
  \<^item> \<open>State_Lock\<close> (\<open>state.py\<close>): the lock of a state root between threads and processes; it excludes, and always lets one move.
  \<^item> \<open>Realm\<close> (\<open>state.py\<close>, \<open>cli.py\<close>): the scope and the Docker endpoint a state root is bound to, with processes that race to bind.

  \<^bold>\<open>The runtime.\<close>
  \<^item> \<open>Dcomp_System\<close>, \<open>Dcomp_Render\<close> (\<open>dcomp_system.py\<close>): systems and their validity, the rendered files, atomic publication.
  \<^item> \<open>Dcomp_Client\<close> (\<open>dcomp.py\<close>), \<open>Provider_Client\<close> (\<open>provider_client.py\<close>), \<open>Images\<close> (\<open>images.py\<close>, \<open>team/image.py\<close>,
    \<open>team/compatibility.py\<close>): commands, calls and what is made of their answers.
  \<^item> \<open>Team_Component\<close> (\<open>team/component.py\<close>), \<open>Runtime_System\<close>, \<open>Runtime_Ops\<close> (\<open>runtime.py\<close>), \<open>Project_Run\<close> (\<open>project_run.py\<close>),
    \<open>Gateway_Admin\<close> (\<open>gateway_admin.py\<close>): the compiler from instances to a valid system, and applying, waiting, shutting down.

  \<^bold>\<open>The queue.\<close>
  \<^item> \<open>Queue\<close> (\<open>team/queue.py\<close>): the bounded scan, equal to an unbounded reference within its limits (locale \<open>scan_body\<close>).
  \<^item> \<open>Queue_Reader\<close>, \<open>Planner_Notice\<close> (\<open>agentws/tools\<close>), \<open>Task_Admin\<close> (\<open>team/admin.py\<close>): confined reads, plain output, notices, tools.
  \<^item> \<open>Supervisor\<close> (\<open>components/team/runtime.py\<close>): a state machine between signals and exits; the locale \<open>scheduled\<close> gives liveness
    under fairness.
  \<^item> \<open>Pi_Rpc\<close> (\<open>agentws/tools/pi_rpc.py\<close>): two threads as interleaved moves; no wake-up is lost, every outcome has a cause.

  \<^bold>\<open>The command line.\<close>
  \<^item> \<open>Command_Line\<close>: options, new projects, conditions, tables.  \<open>Lifecycle\<close>: \<open>run\<close>, \<open>refresh\<close>, \<open>start\<close>, \<open>stop\<close>, \<open>forget\<close>, \<open>shutdown\<close>,
    \<open>repair\<close>, \<open>models\<close>, composed of the parts above as \<open>cli.py\<close> composes them.
  \<^item> \<open>Lifecycle\<close> shows that they refine the life cycle \<open>transition\<close> of each instance and return; \<open>Lifecycle_Success\<close> what an exit
    code of 0 means; \<open>Queries\<close> has the commands that only look, which change nothing.
  \<^item> \<open>Dashboard\<close>, \<open>Dashboard_Server\<close> (\<open>dashboard.py\<close>): the snapshot, its agreement with \<open>ps\<close>, and the read-only server.

  \<^bold>\<open>Bounds and termination.\<close>  No fuel is used.  \<open>wait_loop\<close> is a \<open>partial_function\<close>: it returns when the clock advances by at
  least the time slept (\<open>clock_runs\<close>), which \<open>commands_return\<close> lifts to the commands.  Scans and parsers recurse on their
  input with a measure.  Limits (1 MiB files, 16 MiB calls, entries of a queue) are those of the code.

  \<^bold>\<open>Witnesses.\<close>  A theorem with hypotheses has a theorem \<open>..._witness\<close>, which applies it to concrete values, among them a whole
  \<open>refresh\<close>, \<open>ps\<close> and \<open>doctor\<close> of an empty realm and a complete \<open>team init\<close>.

  \<^bold>\<open>Not modelled.\<close>  \<open>build_parser\<close>, which configures argparse, and the reading of packaged resources; \<open>fsync\<close> and file modes; the values messages interpolate, where only the raise matters; sockets and threads of the HTTP server.
  The AgentWS programs in shell (\<open>agentws/bin\<close>), the processes \<open>agent\<close>, \<open>agentws\<close> and \<open>run_agentws\<close>, the JavaScript
  components (gateway, pooler, openai, protocol) and the static dashboard are other languages or drive terminals and
  processes; they are met only through what the modelled code reads and writes.
\<close>

end
